(* ===== verification/Prelude.thy ===== *)
theory Prelude
  imports
    Main
    "HOL-Library.Word"
    "HOL-Library.Monad_Syntax"
begin

text \<open>
  Shared vocabulary of the development: the machine integer types of the C sources, the
  byte-level memory operations (memcpy and memmove on a flat buffer), the circular window
  that all of mTCP's array queues use, and the lemma collections that the component
  theories extend.

  Conventions used by every component.
  \<^item> Unsigned C integers are words of their width; \<open>+\<close>, \<open>-\<close> and \<open>*\<close> wrap as in C.
    A C \<open>int\<close> is a mathematical integer where the code cannot overflow it, and
    \<open>sint\<close> of a word where it converts from unsigned.
  \<^item> A function that may leave defined behaviour (an access outside an array, a NULL
    dereference, a division by zero, a signed overflow, a failing \<open>assert\<close>, a call of \<open>exit\<close>) has an \<open>option\<close> result and
    returns \<^const>\<open>None\<close> there. A theorem that shows a result \<open>Some r\<close> therefore
    also shows that none of these happened, and then the build with assertions and the
    build without them agree. Where \<open>assert(0)\<close> is followed by a \<open>return\<close> or \<open>break\<close> of its own, the
    model follows the build without assertions, which the makefiles select.
  \<^item> The outcome of \<open>calloc\<close> and \<open>malloc\<close> is a boolean argument of the operation, or the next answer of
    the environment in the state of the manager.
\<close>

unbundle bit_operations_syntax

type_synonym u8 = "8 word"
type_synonym u16 = "16 word"
type_synonym u32 = "32 word"
type_synonym u64 = "64 word"
type_synonym byte = u8

named_theorems seq_simps \<open>sequence number arithmetic relative to a base\<close>
named_theorems mem_simps \<open>flat buffer reads and writes\<close>
named_theorems ring_simps \<open>circular windows\<close>

lemma unat_lt: "unat (x :: 'a::len word) < 2 ^ LENGTH('a)"
  by (rule unsigned_less)

lemma unat_plus_1: "(i :: 'a::len word) < c \<Longrightarrow> unat (i + 1) = unat i + 1"
proof -
  assume "i < c"
  then have "unat i + 1 \<le> unat c" by (simp add: word_less_nat_alt)
  also have "unat c < 2 ^ LENGTH('a)" by (rule unsigned_less)
  finally have "unat i + unat (1 :: 'a word) < 2 ^ LENGTH('a)" by simp
  then show ?thesis by (simp only: unat_add_lem [THEN iffD1] unat_1)
qed

text \<open>Conversions between \<open>uint32_t\<close> and \<open>size_t\<close>.\<close>

lemma unat_ucast_up [simp]: "unat (ucast (x :: u32) :: u64) = unat x"
proof -
  have "unat x < 2 ^ LENGTH(32)" by (rule unsigned_less)
  then show ?thesis by (simp add: unsigned_ucast_eq take_bit_eq_mod)
qed

lemma unat_ucast_down: "unat (x :: u64) < 4294967296 \<Longrightarrow> unat (ucast x :: u32) = unat x"
  by (simp add: take_bit_eq_mod unsigned_ucast_eq)

lemma unat_min: "unat (min a b) = min (unat a) (unat (b :: 'a::len word))"
  by (simp add: min_def word_le_nat_alt)

lemma unat_add_small:
  "unat a + unat b < 2 ^ LENGTH('a) \<Longrightarrow> unat (a + b :: 'a::len word) = unat a + unat b"
  by (simp only: unat_add_lem [THEN iffD1])

lemma ucast_add_32: "(ucast (x + y :: u64) :: u32) = ucast x + ucast y"
  by (rule word_unat_eq_iff [THEN iffD2])
    (simp add: unsigned_ucast_eq take_bit_eq_mod unat_word_ariths mod_mod_cancel mod_add_eq)

lemma ucast_word_of_int_32: "(ucast (word_of_int x :: u64) :: u32) = word_of_int x"
  by transfer (simp add: take_bit_take_bit)

section \<open>Partial correctness of option-valued steps\<close>

text \<open>\<open>post P x\<close>: if the step \<open>x\<close> returns, its result satisfies \<open>P\<close>. The rules walk through the
  \<open>do\<close> blocks of the handlers.\<close>

named_theorems post_intros \<open>rules that show \<open>post P\<close> of composed steps\<close>

definition post :: "('a \<Rightarrow> bool) \<Rightarrow> 'a option \<Rightarrow> bool" where
  "post P x \<longleftrightarrow> (\<forall>y. x = Some y \<longrightarrow> P y)"

lemma post_None [post_intros, simp]: "post P None"
  by (simp add: post_def)

lemma post_Some [post_intros]: "P y \<Longrightarrow> post P (Some y)"
  by (simp add: post_def)

lemma post_Some_iff [simp]: "post P (Some y) \<longleftrightarrow> P y"
  by (simp add: post_def)

lemma postD: "post P x \<Longrightarrow> x = Some y \<Longrightarrow> P y"
  by (simp add: post_def)

lemma postI: "(\<And>y. x = Some y \<Longrightarrow> P y) \<Longrightarrow> post P x"
  by (simp add: post_def)

lemma post_bind [post_intros]: "post (\<lambda>y. post P (f y)) x \<Longrightarrow> post P (Option.bind x f)"
  by (cases x) (simp_all add: post_def)

lemma post_weaken: "post Q x \<Longrightarrow> (\<And>y. Q y \<Longrightarrow> P y) \<Longrightarrow> post P x"
  by (simp add: post_def)

lemma post_bindI: "post Q x \<Longrightarrow> (\<And>y. Q y \<Longrightarrow> post P (f y)) \<Longrightarrow> post P (Option.bind x f)"
  by (cases x) (simp_all add: post_def)

lemma post_conj: "post P x \<Longrightarrow> post Q x \<Longrightarrow> post (\<lambda>y. P y \<and> Q y) x"
  by (simp add: post_def)

section \<open>Signed arithmetic and shifts\<close>

text \<open>A signed result that does not fit 32 bits and a shift by the width or more are undefined.\<close>

definition int32_ok :: "int \<Rightarrow> int option" where
  "int32_ok x = (if - (2 ^ 31) \<le> x \<and> x < 2 ^ 31 then Some x else None)"

definition shl32 :: "u32 \<Rightarrow> nat \<Rightarrow> u32 option" where
  "shl32 x n = (if n < 32 then Some (push_bit n x) else None)"

section \<open>Flat buffers\<close>

text \<open>\<open>memcpy(buf + off, src, length src)\<close>, undefined when it leaves the buffer.\<close>

definition memcpy_at :: "'a list \<Rightarrow> nat \<Rightarrow> 'a list \<Rightarrow> 'a list option" where
  "memcpy_at buf off src =
     (if off + length src \<le> length buf
      then Some (take off buf @ src @ drop (off + length src) buf) else None)"

text \<open>Reading \<open>n\<close> bytes at \<open>off\<close>.\<close>

definition read_at :: "'a list \<Rightarrow> nat \<Rightarrow> nat \<Rightarrow> 'a list option" where
  "read_at buf off n = (if off + n \<le> length buf then Some (take n (drop off buf)) else None)"

text \<open>\<open>memmove(buf + dst, buf + src, n)\<close> inside one buffer: the source is read in full
  before the destination is written.\<close>

definition memmove_at :: "'a list \<Rightarrow> nat \<Rightarrow> nat \<Rightarrow> nat \<Rightarrow> 'a list option" where
  "memmove_at buf dst src n = do { xs \<leftarrow> read_at buf src n; memcpy_at buf dst xs }"

lemma memcpy_at_Some [mem_simps]:
  "off + length src \<le> length buf \<Longrightarrow>
     memcpy_at buf off src = Some (take off buf @ src @ drop (off + length src) buf)"
  by (simp add: memcpy_at_def)

lemma length_memcpy_at: "memcpy_at buf off src = Some buf' \<Longrightarrow> length buf' = length buf"
  by (auto simp: memcpy_at_def split: if_splits)

lemma nth_memcpy_at:
  assumes "memcpy_at buf off src = Some buf'" and "i < length buf"
  shows "buf' ! i = (if off \<le> i \<and> i < off + length src then src ! (i - off) else buf ! i)"
proof -
  from assms have le: "off + length src \<le> length buf"
    and buf': "buf' = take off buf @ src @ drop (off + length src) buf"
    by (auto simp: memcpy_at_def split: if_splits)
  consider "i < off" | "off \<le> i \<and> i < off + length src" | "off + length src \<le> i"
    by linarith
  then show ?thesis
  proof cases
    case 1
    with le buf' show ?thesis by (simp add: nth_append)
  next
    case 2
    with le buf' show ?thesis by (auto simp: nth_append)
  next
    case 3
    then have "\<not> i < off" "\<not> i - off < length src" by linarith+
    with 3 le buf' assms(2) show ?thesis by (simp add: nth_append)
  qed
qed

lemma memmove_at_Some [mem_simps]:
  assumes "src + n \<le> length buf" and "dst + n \<le> length buf"
  shows "memmove_at buf dst src n =
           Some (take dst buf @ take n (drop src buf) @ drop (dst + n) buf)"
  using assms by (simp add: memmove_at_def read_at_def memcpy_at_def)

lemma length_memmove_at: "memmove_at buf dst src n = Some buf' \<Longrightarrow> length buf' = length buf"
  by (auto simp: memmove_at_def read_at_def dest: length_memcpy_at split: if_splits)

lemma nth_memmove_at:
  assumes "memmove_at buf dst src n = Some buf'" and "i < length buf"
  shows "buf' ! i = (if dst \<le> i \<and> i < dst + n then buf ! (src + (i - dst)) else buf ! i)"
proof -
  from assms(1) have src: "src + n \<le> length buf"
    and cp: "memcpy_at buf dst (take n (drop src buf)) = Some buf'"
    by (auto simp: memmove_at_def read_at_def split: if_splits)
  from src have len: "length (take n (drop src buf)) = n" by simp
  from nth_memcpy_at [OF cp assms(2)] len src show ?thesis by auto
qed

section \<open>Circular windows\<close>

text \<open>The \<open>k\<close> elements of a circular array that start at index \<open>h\<close>.\<close>

definition ring_slice :: "'a list \<Rightarrow> nat \<Rightarrow> nat \<Rightarrow> 'a list" where
  "ring_slice xs h k = map (\<lambda>i. xs ! ((h + i) mod length xs)) [0..<k]"

lemma length_ring_slice [simp]: "length (ring_slice xs h k) = k"
  by (simp add: ring_slice_def)

lemma ring_slice_0 [simp]: "ring_slice xs h 0 = []"
  by (simp add: ring_slice_def)

lemma mod_window_inj:
  fixes h i j n :: nat
  assumes eq: "(h + i) mod n = (h + j) mod n" and "i < n" and "j < n"
  shows "i = j"
proof -
  have wlog: "i' = j'"
    if "i' \<le> j'" "j' < n" "(h + i') mod n = (h + j') mod n" for i' j'
  proof -
    from that have "n dvd (h + j') - (h + i')" by (metis mod_eq_dvd_iff_nat add_le_cancel_left)
    then have "n dvd j' - i'" by simp
    with that show ?thesis by (metis diff_is_0_eq diff_le_self dvd_imp_le le_less_trans
          less_le_not_le nat_le_linear neq0_conv order_antisym)
  qed
  show ?thesis
    using wlog [of i j] wlog [of j i] assms by (metis nat_le_linear)
qed

lemma ring_slice_snoc [ring_simps]:
  assumes "k < length xs"
  shows "ring_slice (xs[(h + k) mod length xs := x]) h (Suc k) = ring_slice xs h k @ [x]"
proof -
  have "(h + k) mod length xs < length xs"
    using assms by (intro mod_less_divisor) linarith
  moreover have "(h + i) mod length xs \<noteq> (h + k) mod length xs" if "i < k" for i
    using mod_window_inj [of h i "length xs" k] that assms by auto
  ultimately show ?thesis by (auto simp: ring_slice_def)
    (metis nth_list_update_neq)
qed

lemma ring_slice_Suc [ring_simps]:
  "ring_slice xs h (Suc k) = xs ! (h mod length xs) # ring_slice xs ((h + 1) mod length xs) k"
proof -
  have "[0..<Suc k] = 0 # map Suc [0..<k]" by (simp add: map_Suc_upt upt_conv_Cons)
  then show ?thesis by (simp add: ring_slice_def mod_simps comp_def)
qed

lemma set_ring_slice_subset: "xs \<noteq> [] \<Longrightarrow> set (ring_slice xs h k) \<subseteq> set xs"
  by (auto simp: ring_slice_def)

text \<open>The number of elements between two indices of a circular array of \<open>n\<close> slots.\<close>

definition ring_dist :: "nat \<Rightarrow> nat \<Rightarrow> nat \<Rightarrow> nat" where
  "ring_dist n h t = (t + n - h) mod n"

lemma ring_dist_less: "0 < n \<Longrightarrow> ring_dist n h t < n"
  by (simp add: ring_dist_def)

lemma ring_dist_add: "h < n \<Longrightarrow> t < n \<Longrightarrow> (h + ring_dist n h t) mod n = t"
  by (simp add: ring_dist_def mod_simps)

lemma ring_dist_0_iff [ring_simps]:
  "h < n \<Longrightarrow> t < n \<Longrightarrow> ring_dist n h t = 0 \<longleftrightarrow> h = t"
  using ring_dist_add [of h n t] by (auto simp: ring_dist_def)

lemma ring_dist_unique:
  assumes "h < n" "d < n"
  shows "ring_dist n h ((h + d) mod n) = d"
proof -
  have "(h + ring_dist n h ((h + d) mod n)) mod n = (h + d) mod n"
    using assms by (intro ring_dist_add) auto
  moreover have "ring_dist n h ((h + d) mod n) < n"
    using assms by (intro ring_dist_less) linarith
  ultimately show ?thesis using assms(2) by (rule mod_window_inj)
qed

lemma ring_dist_tail_Suc [ring_simps]:
  assumes "h < n" "t < n" "(t + 1) mod n \<noteq> h"
  shows "ring_dist n h ((t + 1) mod n) = Suc (ring_dist n h t)"
    and "Suc (ring_dist n h t) < n"
proof -
  let ?d = "ring_dist n h t"
  have t: "(h + ?d) mod n = t" using assms by (simp add: ring_dist_add)
  have d: "?d < n" using assms by (simp add: ring_dist_less)
  have eq: "(t + 1) mod n = (h + Suc ?d) mod n"
    by (subst t [symmetric]) (simp add: mod_simps)
  show less: "Suc ?d < n"
  proof (rule ccontr)
    assume "\<not> Suc ?d < n"
    with d have "Suc ?d = n" by simp
    then have "(t + 1) mod n = h" using eq assms(1) by simp
    with assms(3) show False by simp
  qed
  show "ring_dist n h ((t + 1) mod n) = Suc ?d"
    unfolding eq by (rule ring_dist_unique [OF assms(1) less])
qed

lemma ring_dist_head_Suc [ring_simps]:
  assumes "h < n" "t < n" "h \<noteq> t"
  shows "ring_dist n h t = Suc (ring_dist n ((h + 1) mod n) t)"
proof -
  let ?d = "ring_dist n h t"
  have d: "?d < n" and pos: "0 < ?d"
    using assms by (auto simp: ring_dist_less ring_dist_0_iff intro!: gr0I)
  from pos obtain e where e: "?d = Suc e" by (cases ?d) auto
  have "t = (h + ?d) mod n" using assms by (simp add: ring_dist_add)
  also have "\<dots> = ((h + 1) mod n + e) mod n" by (simp add: e mod_simps)
  finally have "ring_dist n ((h + 1) mod n) t = e"
    using ring_dist_unique [of "(h + 1) mod n" n e] assms d e by simp
  with e show ?thesis by simp
qed

end
