(* ===== verification/Seq_Arith.thy ===== *)
theory Seq_Arith
  imports Prelude
begin

text \<open>
  TCP sequence number arithmetic. The code compares 32-bit sequence numbers in two ways:
  with the \<open>TCP_SEQ_LT\<close> family of macros (include/tcp_in.h), which look at the sign of the
  wrapped difference, and with \<open>GetMinSeq\<close> and \<open>GetMaxSeq\<close> (tcp_ring_buffer.c), which
  compare the unsigned values and then the distance. The collection \<open>seq_simps\<close> reduces
  both to the order of the distances from a base, which is how the buffers use them.
\<close>

definition TCP_SEQ_LT :: "u32 \<Rightarrow> u32 \<Rightarrow> bool" where
  "TCP_SEQ_LT a b \<longleftrightarrow> sint (a - b) < 0"

definition TCP_SEQ_LEQ :: "u32 \<Rightarrow> u32 \<Rightarrow> bool" where
  "TCP_SEQ_LEQ a b \<longleftrightarrow> sint (a - b) \<le> 0"

definition TCP_SEQ_GT :: "u32 \<Rightarrow> u32 \<Rightarrow> bool" where
  "TCP_SEQ_GT a b \<longleftrightarrow> sint (a - b) > 0"

definition TCP_SEQ_GEQ :: "u32 \<Rightarrow> u32 \<Rightarrow> bool" where
  "TCP_SEQ_GEQ a b \<longleftrightarrow> sint (a - b) \<ge> 0"

definition TCP_SEQ_BETWEEN :: "u32 \<Rightarrow> u32 \<Rightarrow> u32 \<Rightarrow> bool" where
  "TCP_SEQ_BETWEEN a b c \<longleftrightarrow> TCP_SEQ_GEQ a b \<and> TCP_SEQ_LEQ a c"

definition MAXSEQ :: u32 where
  "MAXSEQ = 0xFFFFFFFF"

definition GetMinSeq :: "u32 \<Rightarrow> u32 \<Rightarrow> u32" where
  "GetMinSeq a b =
     (if a = b then a
      else if a < b then (if b - a \<le> MAXSEQ div 2 then a else b)
      else (if a - b \<le> MAXSEQ div 2 then b else a))"

definition GetMaxSeq :: "u32 \<Rightarrow> u32 \<Rightarrow> u32" where
  "GetMaxSeq a b =
     (if a = b then a
      else if a < b then (if b - a \<le> MAXSEQ div 2 then b else a)
      else (if a - b \<le> MAXSEQ div 2 then a else b))"

section \<open>Distances from a base\<close>

text \<open>The half of the sequence space in which the comparisons are meaningful.\<close>

abbreviation SEQ_HALF :: nat where
  "SEQ_HALF \<equiv> 2147483648"

definition seq_off :: "u32 \<Rightarrow> u32 \<Rightarrow> nat" where
  "seq_off h a = unat (a - h)"

lemma seq_off_self [simp]: "seq_off h h = 0"
  by (simp add: seq_off_def)

lemma seq_off_inj [seq_simps]: "seq_off h a = seq_off h b \<longleftrightarrow> a = b"
  unfolding seq_off_def by (metis diff_add_cancel word_unat_eq_iff)

lemma unat_u32_less: "unat (x :: u32) < 4294967296"
proof -
  have "unat x < 2 ^ LENGTH(32)" by (rule unsigned_less)
  then show ?thesis by simp
qed

lemma seq_off_less: "seq_off h a < 4294967296"
  by (simp add: seq_off_def unat_u32_less)

lemma seq_off_add:
  assumes "seq_off h a + unat n < 4294967296"
  shows "seq_off h (a + n) = seq_off h a + unat n"
proof -
  have "a + n - h = (a - h) + n" by (simp only: algebra_simps)
  moreover have "unat ((a - h) + n) = unat (a - h) + unat n"
    using assms by (intro unat_add_lem [THEN iffD1]) (simp add: seq_off_def)
  ultimately show ?thesis by (simp only: seq_off_def)
qed

lemma seq_off_rebase:
  assumes "unat n \<le> seq_off h a"
  shows "seq_off (h + n) a = seq_off h a - unat n"
proof -
  have "a - (h + n) = (a - h) - n" by (simp only: algebra_simps)
  moreover have "unat ((a - h) - n) = unat (a - h) - unat n"
    using assms by (intro unat_sub) (simp add: seq_off_def word_le_nat_alt)
  ultimately show ?thesis by (simp only: seq_off_def)
qed

lemma sint_u32: "sint (x :: u32) = (int (unat x) + 2147483648) mod 4294967296 - 2147483648"
  by (simp add: sint_uint signed_take_bit_eq_take_bit_shift take_bit_eq_mod uint_nat
      del: of_nat_unat)

lemma sint_small: "unat (x :: u32) < SEQ_HALF \<Longrightarrow> sint x = int (unat x)"
  by (simp add: sint_u32 del: of_nat_unat)

lemma sint_large: "SEQ_HALF \<le> unat (x :: u32) \<Longrightarrow> sint x = int (unat x) - 4294967296"
proof -
  assume "SEQ_HALF \<le> unat x"
  then have "(int (unat x) - 2147483648) mod 4294967296 = int (unat x) - 2147483648"
    using unat_u32_less [of x] by (intro mod_pos_pos_trivial) linarith+
  moreover have "int (unat x) + 2147483648 = int (unat x) - 2147483648 + 4294967296" by linarith
  ultimately show ?thesis
    unfolding sint_u32 by (simp only: mod_add_self2)
qed

lemma sint_diff_off:
  assumes "seq_off h a < SEQ_HALF" and "seq_off h b < SEQ_HALF"
  shows "sint (a - b) = int (seq_off h a) - int (seq_off h b)"
proof -
  define x y where "x = a - h" and "y = b - h"
  have eq: "a - b = x - y" by (simp add: x_def y_def)
  have le: "unat x < SEQ_HALF" "unat y < SEQ_HALF"
    using assms by (simp_all add: x_def y_def seq_off_def)
  have "sint (x - y) = signed_take_bit 31 (sint x - sint y)"
    by (simp add: sint_word_ariths)
  also have "\<dots> = int (unat x) - int (unat y)"
    unfolding sint_small [OF le(1)] sint_small [OF le(2)]
    using le by (intro signed_take_bit_int_eq_self) (auto simp del: of_nat_unat)
  finally show ?thesis unfolding eq by (simp add: x_def y_def seq_off_def)
qed

lemma TCP_SEQ_off [seq_simps]:
  assumes "seq_off h a < SEQ_HALF" and "seq_off h b < SEQ_HALF"
  shows "TCP_SEQ_LT a b \<longleftrightarrow> seq_off h a < seq_off h b"
    and "TCP_SEQ_LEQ a b \<longleftrightarrow> seq_off h a \<le> seq_off h b"
    and "TCP_SEQ_GT a b \<longleftrightarrow> seq_off h b < seq_off h a"
    and "TCP_SEQ_GEQ a b \<longleftrightarrow> seq_off h b \<le> seq_off h a"
  using sint_diff_off [OF assms]
  by (auto simp: TCP_SEQ_LT_def TCP_SEQ_LEQ_def TCP_SEQ_GT_def TCP_SEQ_GEQ_def)

section \<open>The two comparisons agree\<close>

lemma MAXSEQ_half: "MAXSEQ div 2 = 0x7FFFFFFF"
  by (simp add: MAXSEQ_def)

lemma sint_neg_iff: "sint (x :: u32) < 0 \<longleftrightarrow> 0x7FFFFFFF < x"
  using sint_small [of x] sint_large [of x] unat_u32_less [of x]
  by (cases "unat x < SEQ_HALF") (auto simp: word_less_nat_alt simp del: of_nat_unat)

lemma sint_pos_iff: "0 < sint (x :: u32) \<longleftrightarrow> x \<noteq> 0 \<and> x \<le> 0x7FFFFFFF"
  using sint_small [of x] sint_large [of x] unat_u32_less [of x]
  by (cases "unat x < SEQ_HALF") (auto simp: word_le_nat_alt unat_gt_0 simp del: of_nat_unat)

lemma neg_le_half_iff:
  fixes x :: u32
  assumes "x \<noteq> 0" "x \<noteq> 0x80000000"
  shows "- x \<le> 0x7FFFFFFF \<longleftrightarrow> 0x7FFFFFFF < x"
proof -
  have "unat (0 - x) = (if unat x \<le> unat (0 :: u32) then unat (0 :: u32) - unat x
      else unat (0 :: u32) + 2 ^ LENGTH(32) - unat x)" by (rule unat_sub_if')
  then have "unat (- x) = 4294967296 - unat x" using assms(1) by (auto simp: unat_eq_zero)
  moreover have "unat x \<noteq> SEQ_HALF"
  proof
    assume "unat x = SEQ_HALF"
    then have "unat x = unat (0x80000000 :: u32)" by simp
    with assms(2) show False by (simp only: word_unat_eq_iff [symmetric])
  qed
  ultimately show ?thesis
    using unat_u32_less [of x] by (auto simp: word_le_nat_alt word_less_nat_alt)
qed

text \<open>For every pair of sequence numbers that are not exactly half the space apart,
  \<open>GetMinSeq\<close> and \<open>GetMaxSeq\<close> decide the order of the \<open>TCP_SEQ\<close> macros.\<close>

lemma GetMinMaxSeq_TCP_SEQ:
  assumes "b - a \<noteq> 0x80000000"
  shows "GetMinSeq a b = (if TCP_SEQ_LEQ a b then a else b)"
    and "GetMaxSeq a b = (if TCP_SEQ_LEQ a b then b else a)"
proof -
  have ba: "b - a = - (a - b)" by simp
  have ne: "a - b \<noteq> 0x80000000"
  proof
    assume *: "a - b = 0x80000000"
    have "b - a = - (0x80000000 :: u32)" unfolding ba * ..
    with assms show False by simp
  qed
  have half: "(b - a \<le> 0x7FFFFFFF) = (\<not> a - b \<le> 0x7FFFFFFF)" if "a \<noteq> b"
    unfolding ba linorder_not_le using that ne by (intro neg_le_half_iff) auto
  have leq: "TCP_SEQ_LEQ a b \<longleftrightarrow> a = b \<or> \<not> a - b \<le> 0x7FFFFFFF"
    unfolding TCP_SEQ_LEQ_def using sint_pos_iff [of "a - b"]
    by (metis linorder_not_less right_minus_eq)
  show "GetMinSeq a b = (if TCP_SEQ_LEQ a b then a else b)"
    unfolding GetMinSeq_def MAXSEQ_half leq using half by (cases "a = b") simp_all
  show "GetMaxSeq a b = (if TCP_SEQ_LEQ a b then b else a)"
    unfolding GetMaxSeq_def MAXSEQ_half leq using half by (cases "a = b") simp_all
qed

lemma GetSeq_off [seq_simps]:
  assumes "seq_off h a < SEQ_HALF" and "seq_off h b < SEQ_HALF"
  shows "GetMinSeq a b = (if seq_off h a \<le> seq_off h b then a else b)"
    and "GetMaxSeq a b = (if seq_off h a \<le> seq_off h b then b else a)"
proof -
  have "b - a \<noteq> 0x80000000"
  proof
    assume "b - a = 0x80000000"
    with sint_diff_off [OF assms(2,1)] have "int (seq_off h b) - int (seq_off h a) = - 2147483648"
      by (simp add: sint_u32)
    with assms show False by simp
  qed
  from GetMinMaxSeq_TCP_SEQ [OF this] TCP_SEQ_off(2) [OF assms]
  show "GetMinSeq a b = (if seq_off h a \<le> seq_off h b then a else b)"
    and "GetMaxSeq a b = (if seq_off h a \<le> seq_off h b then b else a)" by simp_all
qed

text \<open>C25. On sequence numbers less than half the space after a common base \<open>h\<close>, the
  wrap-around comparisons \<open>TCP_SEQ_LT\<close>, \<open>TCP_SEQ_LEQ\<close>, \<open>TCP_SEQ_GT\<close> and \<open>TCP_SEQ_GEQ\<close> are the
  order of the distances from \<open>h\<close>, and the differently written \<open>GetMinSeq\<close> and
  \<open>GetMaxSeq\<close> of the receive buffer choose the minimum and maximum of the same order.\<close>

theorem seq_window_order:
  assumes "seq_off h a < SEQ_HALF" and "seq_off h b < SEQ_HALF"
  shows "TCP_SEQ_LT a b = (seq_off h a < seq_off h b) \<and>
    TCP_SEQ_LEQ a b = (seq_off h a \<le> seq_off h b) \<and>
    TCP_SEQ_GT a b = (seq_off h b < seq_off h a) \<and>
    TCP_SEQ_GEQ a b = (seq_off h b \<le> seq_off h a) \<and>
    seq_off h (GetMinSeq a b) = min (seq_off h a) (seq_off h b) \<and>
    seq_off h (GetMaxSeq a b) = max (seq_off h a) (seq_off h b)"
  using TCP_SEQ_off [OF assms] GetSeq_off [OF assms] by (simp add: min_def max_def)

theorem seq_window_order_witness:
  "TCP_SEQ_LT 0xFFFFFFF0 5 \<and> GetMinSeq 5 0xFFFFFFF0 = 0xFFFFFFF0 \<and>
   seq_off 0xFFFFFFE0 (GetMaxSeq 0xFFFFFFF0 5) = 37"
proof -
  have off: "seq_off 0xFFFFFFE0 0xFFFFFFF0 = 16" "seq_off 0xFFFFFFE0 5 = 37"
    by (simp_all add: seq_off_def)
  from seq_window_order [of "0xFFFFFFE0" "0xFFFFFFF0" 5] seq_window_order [of "0xFFFFFFE0" 5 "0xFFFFFFF0"]
  show ?thesis using seq_off_inj [of "0xFFFFFFE0" "GetMinSeq 5 0xFFFFFFF0" "0xFFFFFFF0"]
    by (simp add: off)
qed

end
