(* ===== verification/Mem_Pool.thy ===== *)
theory Mem_Pool
  imports Seq_Arith
begin

text \<open>
  The chunk allocator (memory_mgt.c, the implementation used without DPDK). A pool is one
  block of memory cut into equal chunks; the free chunks form a list of runs, each run
  described by a header that is stored inside the first free chunk of the run. A chunk is
  named by its byte offset in the block.

  The headers of all chunks are the function \<open>mp_mem\<close>; a chunk that is handed out belongs
  to the client, which may overwrite its header. The allocator is shown to implement a
  stack of free chunks: allocation pops, freeing pushes, and no client write to a chunk it
  holds can disturb the pool.
\<close>

record mem_chunk =
  mc_free_chunks :: int
  mc_next :: "nat option"

record mem_pool =
  mp_mem :: "nat \<Rightarrow> mem_chunk"
  mp_freeptr :: "nat option"
  mp_free_chunks :: int
  mp_total_chunks :: int
  mp_chunk_size :: nat

text \<open>\<open>sizeof(mem_chunk)\<close> on a 64-bit target: an int, padding and a pointer.\<close>

definition sizeof_mem_chunk :: nat where
  "sizeof_mem_chunk = 16"

text \<open>The booleans are the outcomes of \<open>calloc\<close> (whose failure exits) and of
  \<open>posix_memalign\<close> (whose failure asserts); \<open>mem\<close> is the content of the fresh block. The
  first header is written into the block, which has no room for it when there is no chunk.\<close>

definition MPCreate ::
  "bool \<Rightarrow> bool \<Rightarrow> (nat \<Rightarrow> mem_chunk) \<Rightarrow> nat \<Rightarrow> nat \<Rightarrow> mem_pool option option" where
  "MPCreate calloc_ok memalign_ok mem chunk_size total_size =
     (if chunk_size < sizeof_mem_chunk then Some None
      else if chunk_size mod 4 \<noteq> 0 then Some None
      else if \<not> calloc_ok then None
      else
        (let n = sint (word_of_nat ((total_size + (chunk_size - 1)) div chunk_size) :: u32) in
         if \<not> memalign_ok \<or> n \<le> 0 then None
         else Some (Some \<lparr>mp_mem = mem(0 := \<lparr>mc_free_chunks = n, mc_next = None\<rparr>),
                          mp_freeptr = Some 0,
                          mp_free_chunks = n, mp_total_chunks = n,
                          mp_chunk_size = chunk_size\<rparr>)))"

definition MPAllocateChunk :: "mem_pool \<Rightarrow> (nat option \<times> mem_pool) option" where
  "MPAllocateChunk mp =
     (if mp_free_chunks mp = 0 then Some (None, mp)
      else case mp_freeptr mp of
        None \<Rightarrow> None
      | Some p \<Rightarrow>
          (if mc_free_chunks (mp_mem mp p) > 0 then
             (let p_free = mc_free_chunks (mp_mem mp p) - 1;
                  mem1 = (mp_mem mp)(p := (mp_mem mp p)\<lparr>mc_free_chunks := p_free\<rparr>);
                  mp1 = mp\<lparr>mp_mem := mem1, mp_free_chunks := mp_free_chunks mp - 1\<rparr>
              in if p_free \<noteq> 0 then
                   (let q = p + mp_chunk_size mp in
                    Some (Some p, mp1\<lparr>mp_freeptr := Some q,
                      mp_mem := mem1(q := \<lparr>mc_free_chunks = p_free, mc_next = mc_next (mem1 p)\<rparr>)\<rparr>))
                 else Some (Some p, mp1\<lparr>mp_freeptr := mc_next (mem1 p)\<rparr>))
           else None))"

definition MPFreeChunk :: "mem_pool \<Rightarrow> nat \<Rightarrow> mem_pool option" where
  "MPFreeChunk mp p =
     (if p mod mp_chunk_size mp = 0 then
        Some (mp\<lparr>mp_mem := (mp_mem mp)(p := \<lparr>mc_free_chunks = 1, mc_next = mp_freeptr mp\<rparr>),
                 mp_freeptr := Some p,
                 mp_free_chunks := mp_free_chunks mp + 1\<rparr>)
      else None)"

definition MPGetFreeChunks :: "mem_pool \<Rightarrow> int" where
  "MPGetFreeChunks mp = mp_free_chunks mp"

text \<open>The thresholds are double constants in the source (0.95 and 0.90) whose product with
  the chunk count is truncated; for the counts below \<open>2\<^sup>3\<^sup>1\<close> it is the integer quotient.\<close>

definition MPIsDanger :: "mem_pool \<Rightarrow> int" where
  "MPIsDanger mp =
     (let danger_num = mp_total_chunks mp * 95 div 100;
          safe_num = mp_total_chunks mp * 90 div 100
      in if danger_num < mp_total_chunks mp - mp_free_chunks mp
         then mp_total_chunks mp - mp_free_chunks mp - safe_num else 0)"

definition MPIsOverSafeline :: "mem_pool \<Rightarrow> int" where
  "MPIsOverSafeline mp =
     (let safe_num = mp_total_chunks mp * 90 div 100
      in if safe_num < mp_total_chunks mp - mp_free_chunks mp then 1 else 0)"

section \<open>The free list the headers describe\<close>

text \<open>The chunks of a run of \<open>n\<close> chunks of size \<open>cs\<close> at \<open>p\<close>.\<close>

definition run_chunks :: "nat \<Rightarrow> nat \<Rightarrow> nat \<Rightarrow> nat list" where
  "run_chunks cs p n = map (\<lambda>i. p + i * cs) [0..<n]"

lemma run_chunks_Suc: "run_chunks cs p (Suc n) = p # run_chunks cs (p + cs) n"
proof -
  have "[0..<Suc n] = 0 # map Suc [0..<n]" by (simp add: map_Suc_upt upt_conv_Cons)
  then show ?thesis by (simp add: run_chunks_def comp_def algebra_simps)
qed

text \<open>\<open>free_runs mem cs fp fl\<close>: the linked headers from \<open>fp\<close> describe the chunk list \<open>fl\<close>.\<close>

inductive free_runs :: "(nat \<Rightarrow> mem_chunk) \<Rightarrow> nat \<Rightarrow> nat option \<Rightarrow> nat list \<Rightarrow> bool" for mem cs where
  runs_nil: "free_runs mem cs None []"
| runs_cons: "mc_free_chunks (mem p) = int (Suc n) \<Longrightarrow> free_runs mem cs (mc_next (mem p)) fl \<Longrightarrow>
    free_runs mem cs (Some p) (run_chunks cs p (Suc n) @ fl)"

inductive_cases free_runs_NoneE: "free_runs mem cs None fl"
inductive_cases free_runs_SomeE: "free_runs mem cs (Some p) fl"

definition valid_chunk :: "mem_pool \<Rightarrow> nat \<Rightarrow> bool" where
  "valid_chunk mp p \<longleftrightarrow> p mod mp_chunk_size mp = 0 \<and> p < nat (mp_total_chunks mp) * mp_chunk_size mp"

definition pool_repr :: "mem_pool \<Rightarrow> nat list \<Rightarrow> bool" where
  "pool_repr mp fl \<longleftrightarrow>
     0 < mp_chunk_size mp \<and> free_runs (mp_mem mp) (mp_chunk_size mp) (mp_freeptr mp) fl \<and>
     distinct fl \<and> list_all (valid_chunk mp) fl \<and> mp_free_chunks mp = int (length fl)"

lemma free_runs_head_mem:
  "free_runs mem cs (Some p) fl \<Longrightarrow> p \<in> set fl"
  by (auto elim!: free_runs_SomeE simp: run_chunks_Suc)

text \<open>The description depends on the headers of listed chunks only.\<close>

lemma free_runs_frame:
  assumes "free_runs mem cs fp fl" and "\<And>q. q \<in> set fl \<Longrightarrow> mem' q = mem q"
  shows "free_runs mem' cs fp fl"
  using assms
proof (induction rule: free_runs.induct)
  case (runs_cons p n fl)
  have "mem' p = mem p" using runs_cons.prems by (simp add: run_chunks_Suc)
  moreover have "free_runs mem' cs (mc_next (mem p)) fl"
    using runs_cons.prems by (intro runs_cons.IH) simp
  ultimately show ?case using runs_cons.hyps free_runs.runs_cons [of mem' p n cs fl] by simp
qed (simp add: free_runs.runs_nil)

lemma pool_repr_client_write:
  "pool_repr mp fl \<Longrightarrow> p \<notin> set fl \<Longrightarrow> pool_repr (mp\<lparr>mp_mem := (mp_mem mp)(p := h)\<rparr>) fl"
  unfolding pool_repr_def valid_chunk_def by (auto elim!: free_runs_frame)


section \<open>The allocator interface\<close>

locale chunk_allocator =
  fixes repr :: "'p \<Rightarrow> nat list \<Rightarrow> bool"
    and valid :: "'p \<Rightarrow> nat \<Rightarrow> bool"
    and alloc :: "'p \<Rightarrow> (nat option \<times> 'p) option"
    and dealloc :: "'p \<Rightarrow> nat \<Rightarrow> 'p option"
  assumes repr_wf: "repr p fl \<Longrightarrow> distinct fl \<and> list_all (valid p) fl"
    and alloc_nil: "repr p [] \<Longrightarrow> alloc p = Some (None, p)"
    and alloc_cons: "repr p (c # fl) \<Longrightarrow>
      \<exists>p'. alloc p = Some (Some c, p') \<and> repr p' fl \<and> valid p' = valid p"
    and dealloc_push: "repr p fl \<Longrightarrow> valid p c \<Longrightarrow> c \<notin> set fl \<Longrightarrow>
      \<exists>p'. dealloc p c = Some p' \<and> repr p' (c # fl) \<and> valid p' = valid p"
begin

text \<open>A pool whose chunks are either listed free or held by the client.\<close>

definition owns :: "'p \<Rightarrow> nat set \<Rightarrow> bool" where
  "owns p L \<longleftrightarrow> (\<exists>fl. repr p fl \<and> set fl \<inter> L = {} \<and> set fl \<union> L = {c. valid p c})"

lemma alloc_owns:
  assumes "owns p L"
  shows "(\<exists>c p'. alloc p = Some (Some c, p') \<and> c \<notin> L \<and> valid p c \<and> owns p' (insert c L)
           \<and> valid p' = valid p)
       \<or> (alloc p = Some (None, p) \<and> L = {c. valid p c})"
proof -
  from assms obtain fl where fl: "repr p fl" "set fl \<inter> L = {}" "set fl \<union> L = {c. valid p c}"
    by (auto simp: owns_def)
  show ?thesis
  proof (cases fl)
    case Nil
    with fl alloc_nil [of p] show ?thesis by auto
  next
    case (Cons c cs)
    with fl alloc_cons [of p c cs] obtain p' where p': "alloc p = Some (Some c, p')" "repr p' cs"
      "valid p' = valid p" by auto
    have "distinct (c # cs)" using fl Cons repr_wf [of p "c # cs"] by simp
    then have "owns p' (insert c L)" unfolding owns_def using fl Cons p'
      by (intro exI [of _ cs]) auto
    moreover have "c \<notin> L" "valid p c" using fl Cons by auto
    ultimately show ?thesis using p' by blast
  qed
qed

lemma dealloc_owns:
  assumes "owns p L" and "c \<in> L"
  shows "\<exists>p'. dealloc p c = Some p' \<and> owns p' (L - {c}) \<and> valid p' = valid p"
proof -
  from assms(1) obtain fl where fl: "repr p fl" "set fl \<inter> L = {}" "set fl \<union> L = {c. valid p c}"
    by (auto simp: owns_def)
  with assms(2) have "valid p c" "c \<notin> set fl" by auto
  with dealloc_push [OF fl(1)] obtain p' where p': "dealloc p c = Some p'" "repr p' (c # fl)"
    "valid p' = valid p" by blast
  have "owns p' (L - {c})" unfolding owns_def using fl p' assms(2)
    by (intro exI [of _ "c # fl"]) auto
  with p' show ?thesis by blast
qed

end

section \<open>The pool implements it\<close>

lemma valid_chunk_update [simp]:
  "valid_chunk (mp\<lparr>mp_mem := m\<rparr>) = valid_chunk mp"
  "valid_chunk (mp\<lparr>mp_freeptr := f\<rparr>) = valid_chunk mp"
  "valid_chunk (mp\<lparr>mp_free_chunks := n\<rparr>) = valid_chunk mp"
  by (simp_all add: fun_eq_iff valid_chunk_def)

lemma MPAllocateChunk_pop:
  assumes "pool_repr mp (c # fl)"
  shows "\<exists>mp'. MPAllocateChunk mp = Some (Some c, mp') \<and> pool_repr mp' fl \<and>
           valid_chunk mp' = valid_chunk mp"
proof -
  let ?cs = "mp_chunk_size mp"
  from assms have pos: "0 < ?cs" and runs: "free_runs (mp_mem mp) ?cs (mp_freeptr mp) (c # fl)"
    and dist: "distinct (c # fl)" and val: "list_all (valid_chunk mp) (c # fl)"
    and cnt: "mp_free_chunks mp = int (Suc (length fl))"
    by (auto simp: pool_repr_def)
  from runs obtain p where fp: "mp_freeptr mp = Some p"
    by (cases "mp_freeptr mp") (auto elim: free_runs_NoneE)
  from runs [unfolded fp] obtain n gl where h: "mc_free_chunks (mp_mem mp p) = int (Suc n)"
    and g: "free_runs (mp_mem mp) ?cs (mc_next (mp_mem mp p)) gl"
    and eq: "c # fl = run_chunks ?cs p (Suc n) @ gl"
    by (auto elim: free_runs_SomeE)
  from eq have c: "c = p" and fl: "fl = run_chunks ?cs (p + ?cs) n @ gl"
    by (simp_all add: run_chunks_Suc)
  define mem1 where "mem1 = (mp_mem mp)(p := (mp_mem mp p)\<lparr>mc_free_chunks := int n\<rparr>)"
  show ?thesis
  proof (cases n)
    case 0
    have "pool_repr (mp\<lparr>mp_mem := mem1, mp_free_chunks := mp_free_chunks mp - 1,
        mp_freeptr := mc_next (mem1 p)\<rparr>) fl"
      using pos dist val cnt fl 0 g c unfolding pool_repr_def mem1_def
      by (auto simp: run_chunks_def elim!: free_runs_frame)
    moreover have "MPAllocateChunk mp = Some (Some c, mp\<lparr>mp_mem := mem1,
        mp_free_chunks := mp_free_chunks mp - 1, mp_freeptr := mc_next (mem1 p)\<rparr>)"
      using cnt fp h 0 c by (simp add: MPAllocateChunk_def mem1_def Let_def)
    ultimately show ?thesis by auto
  next
    case (Suc m)
    let ?q = "p + ?cs"
    let ?mem2 = "mem1(?q := \<lparr>mc_free_chunks = int n, mc_next = mc_next (mem1 p)\<rparr>)"
    have "free_runs ?mem2 ?cs (mc_next (mp_mem mp p)) gl"
      using g dist fl c Suc
      by (auto simp: mem1_def run_chunks_Suc elim!: free_runs_frame)
    moreover have "mc_next (?mem2 ?q) = mc_next (mp_mem mp p)" by (simp add: mem1_def)
    ultimately have "free_runs ?mem2 ?cs (Some ?q) (run_chunks ?cs ?q (Suc m) @ gl)"
      using Suc by (intro free_runs.runs_cons) (simp_all only:, simp)
    then have "pool_repr (mp\<lparr>mp_mem := ?mem2, mp_free_chunks := mp_free_chunks mp - 1,
        mp_freeptr := Some ?q\<rparr>) fl"
      using pos dist val cnt fl Suc by (auto simp: pool_repr_def)
    moreover have "MPAllocateChunk mp = Some (Some c, mp\<lparr>mp_mem := ?mem2,
        mp_free_chunks := mp_free_chunks mp - 1, mp_freeptr := Some ?q\<rparr>)"
      using cnt fp h Suc c by (simp add: MPAllocateChunk_def mem1_def Let_def)
    ultimately show ?thesis by auto
  qed
qed

lemma MPFreeChunk_push:
  assumes "pool_repr mp fl" and "valid_chunk mp c" and "c \<notin> set fl"
  shows "\<exists>mp'. MPFreeChunk mp c = Some mp' \<and> pool_repr mp' (c # fl) \<and>
           valid_chunk mp' = valid_chunk mp"
proof -
  let ?cs = "mp_chunk_size mp"
  let ?mem = "(mp_mem mp)(c := \<lparr>mc_free_chunks = 1, mc_next = mp_freeptr mp\<rparr>)"
  let ?mp = "mp\<lparr>mp_mem := ?mem, mp_freeptr := Some c, mp_free_chunks := mp_free_chunks mp + 1\<rparr>"
  have "free_runs ?mem ?cs (mp_freeptr mp) fl"
    using assms by (auto simp: pool_repr_def elim!: free_runs_frame)
  then have "free_runs ?mem ?cs (Some c) (run_chunks ?cs c (Suc 0) @ fl)"
    by (intro free_runs.runs_cons) simp_all
  then have "pool_repr ?mp (c # fl)"
    using assms by (auto simp: pool_repr_def run_chunks_def)
  moreover have "MPFreeChunk mp c = Some ?mp"
    using assms(2) by (simp add: MPFreeChunk_def valid_chunk_def)
  ultimately show ?thesis by auto
qed

interpretation pool: chunk_allocator pool_repr valid_chunk MPAllocateChunk MPFreeChunk
proof (unfold_locales, goal_cases)
  case (2 p)
  then show ?case by (simp add: pool_repr_def MPAllocateChunk_def)
next
  case (3 p c fl)
  then show ?case by (rule MPAllocateChunk_pop)
next
  case (4 p fl c)
  then show ?case by (rule MPFreeChunk_push)
qed (auto simp: pool_repr_def)


section \<open>Use of a pool\<close>

lemma set_run_chunks: "0 < cs \<Longrightarrow> set (run_chunks cs 0 n) = {p. p mod cs = 0 \<and> p < n * cs}"
  by (auto simp: run_chunks_def image_iff elim!: dvdE)

lemma MPCreate_repr:
  assumes "MPCreate c a mem cs sz = Some (Some mp)"
  shows "\<exists>fl. pool_repr mp fl \<and> set fl = {p. valid_chunk mp p}"
proof -
  from assms obtain n where cs: "16 \<le> cs" and n: "0 < n"
    and mp: "mp = \<lparr>mp_mem = mem(0 := \<lparr>mc_free_chunks = n, mc_next = None\<rparr>), mp_freeptr = Some 0,
      mp_free_chunks = n, mp_total_chunks = n, mp_chunk_size = cs\<rparr>"
    by (auto simp: MPCreate_def sizeof_mem_chunk_def Let_def split: if_splits)
  from n obtain k where k: "n = int (Suc k)" by (metis zero_less_imp_eq_int gr0_conv_Suc)
  have "free_runs (mp_mem mp) cs (Some 0) (run_chunks cs 0 (Suc k) @ [])"
    using k by (intro free_runs.runs_cons) (simp_all add: mp free_runs.runs_nil)
  moreover have "distinct (run_chunks cs 0 (Suc k))"
    using cs by (auto simp: run_chunks_def distinct_map inj_on_def)
  moreover have "length (run_chunks cs 0 (Suc k)) = Suc k" by (simp add: run_chunks_def)
  moreover have "set (run_chunks cs 0 (Suc k)) = {p. valid_chunk mp p}"
  proof -
    have "nat n = Suc k" using k by simp
    then show ?thesis using cs set_run_chunks [of cs "Suc k"] by (simp add: mp valid_chunk_def)
  qed
  ultimately show ?thesis
    using cs k by (intro exI [of _ "run_chunks cs 0 (Suc k)"])
      (auto simp: pool_repr_def mp list_all_iff)
qed

text \<open>The states that a disciplined client can bring a pool into: it frees chunks it holds,
  and writes anything into the chunks it holds. \<open>L\<close> is the set of chunks it holds.\<close>

inductive pool_use :: "mem_pool \<Rightarrow> nat set \<Rightarrow> bool" where
  create: "MPCreate c a mem cs sz = Some (Some mp) \<Longrightarrow> pool_use mp {}"
| allocate: "pool_use mp L \<Longrightarrow> MPAllocateChunk mp = Some (Some p, mp') \<Longrightarrow> pool_use mp' (insert p L)"
| exhausted: "pool_use mp L \<Longrightarrow> MPAllocateChunk mp = Some (None, mp') \<Longrightarrow> pool_use mp' L"
| release: "pool_use mp L \<Longrightarrow> p \<in> L \<Longrightarrow> MPFreeChunk mp p = Some mp' \<Longrightarrow> pool_use mp' (L - {p})"
| store: "pool_use mp L \<Longrightarrow> p \<in> L \<Longrightarrow> pool_use (mp\<lparr>mp_mem := (mp_mem mp)(p := h)\<rparr>) L"

lemma pool_use_owns: "pool_use mp L \<Longrightarrow> pool.owns mp L"
proof (induction rule: pool_use.induct)
  case (create c a mem cs sz mp)
  then show ?case using MPCreate_repr by (force simp: pool.owns_def)
next
  case (allocate mp L p mp')
  then show ?case using pool.alloc_owns [of mp L] by auto
next
  case (exhausted mp L mp')
  then show ?case using pool.alloc_owns [of mp L] by auto
next
  case (release mp L p mp')
  then show ?case using pool.dealloc_owns [of mp L p] by auto
next
  case (store mp L p h)
  then obtain fl where fl: "pool_repr mp fl" "set fl \<inter> L = {}" "set fl \<union> L = {c. valid_chunk mp c}"
    by (auto simp: pool.owns_def)
  with store.hyps have "pool_repr (mp\<lparr>mp_mem := (mp_mem mp)(p := h)\<rparr>) fl"
    by (intro pool_repr_client_write) auto
  with fl show ?case by (auto simp: pool.owns_def)
qed

lemma pool_owns_count:
  assumes "pool.owns mp L" and "0 \<le> mp_total_chunks mp"
  shows "finite L" and "mp_free_chunks mp = mp_total_chunks mp - int (card L)"
proof -
  from assms(1) obtain fl where fl: "pool_repr mp fl" "set fl \<inter> L = {}"
    "set fl \<union> L = {c. valid_chunk mp c}" by (auto simp: pool.owns_def)
  let ?cs = "mp_chunk_size mp" and ?n = "nat (mp_total_chunks mp)"
  have cs: "0 < ?cs" and d: "distinct fl" and len: "mp_free_chunks mp = int (length fl)"
    using fl(1) by (auto simp: pool_repr_def)
  have V: "{c. valid_chunk mp c} = set (run_chunks ?cs 0 ?n)"
    using set_run_chunks [OF cs] by (auto simp: valid_chunk_def)
  show fin: "finite L" using fl(3) V by (metis finite_Un finite_set)
  have "card (set (run_chunks ?cs 0 ?n)) = ?n"
    using cs by (subst distinct_card) (auto simp: run_chunks_def distinct_map inj_on_def)
  moreover have "card (set fl \<union> L) = length fl + card L"
    using fl(2) fin d by (simp add: card_Un_disjoint distinct_card)
  ultimately have "?n = length fl + card L" using fl(3) V by simp
  then show "mp_free_chunks mp = mp_total_chunks mp - int (card L)" using len assms(2) by linarith
qed

lemma pool_use_total: "pool_use mp L \<Longrightarrow> 0 \<le> mp_total_chunks mp"
  by (induction rule: pool_use.induct)
    (auto simp: MPCreate_def MPAllocateChunk_def MPFreeChunk_def Let_def split: if_splits option.splits)

text \<open>C20. However a disciplined client uses a pool, \<open>MPAllocateChunk\<close> never fails an
  assertion or follows a bad pointer: it either returns a chunk of the block that the
  client does not hold yet, or returns NULL, which happens exactly when all chunks are
  held. The free counter of the pool is always the number of chunks not held.\<close>

theorem MPAllocateChunk_safe:
  assumes "pool_use mp L"
  shows "((\<exists>p mp'. MPAllocateChunk mp = Some (Some p, mp') \<and> p \<notin> L \<and> valid_chunk mp p)
          \<or> MPAllocateChunk mp = Some (None, mp) \<and> L = {p. valid_chunk mp p})
       \<and> MPGetFreeChunks mp = mp_total_chunks mp - int (card L)"
  using pool_use_owns [OF assms] pool.alloc_owns [of mp L] pool_owns_count [of mp L]
    pool_use_total [OF assms]
  by (auto simp: MPGetFreeChunks_def)

definition pool_example :: mem_pool where
  "pool_example = \<lparr>mp_mem = (\<lambda>_. \<lparr>mc_free_chunks = 0, mc_next = None\<rparr>)
       (0 := \<lparr>mc_free_chunks = 2, mc_next = None\<rparr>),
     mp_freeptr = Some 0, mp_free_chunks = 2, mp_total_chunks = 2, mp_chunk_size = 64\<rparr>"

lemma pool_example_use: "pool_use pool_example {}"
  by (rule pool_use.create [of True True "\<lambda>_. \<lparr>mc_free_chunks = 0, mc_next = None\<rparr>" 64 128])
    (simp add: MPCreate_def sizeof_mem_chunk_def Let_def pool_example_def)

theorem MPAllocateChunk_safe_witness:
  "pool_use pool_example {} \<and>
   (\<exists>mp'. MPAllocateChunk pool_example = Some (Some 0, mp')) \<and> MPGetFreeChunks pool_example = 2"
  using MPAllocateChunk_safe [OF pool_example_use] pool_example_use
  by (auto simp: pool_example_def MPAllocateChunk_def Let_def)

end
