(* ===== verification/Queue_Spec.thy ===== *)
theory Queue_Spec
  imports Prelude
begin

text \<open>
  The interface of a bounded FIFO queue, as the clients of mTCP's array queues rely on it,
  and what every client may conclude from it. An operation of the queue has an
  \<open>option\<close> result whose \<^const>\<open>None\<close> is undefined behaviour; the laws say that it
  never occurs on a well-formed queue.
\<close>

datatype 'a qop = Enq 'a | Deq

datatype 'a qres = EnqRes int | DeqRes "'a option"

text \<open>Running a sequence of operations on an implementation, and on the specification (a
  list with a capacity). Both produce the value every call returned.\<close>

fun run_queue ::
  "('q \<Rightarrow> 'a \<Rightarrow> (int \<times> 'q) option) \<Rightarrow> ('q \<Rightarrow> ('a option \<times> 'q) option) \<Rightarrow>
   'a qop list \<Rightarrow> 'q \<Rightarrow> ('a qres list \<times> 'q) option" where
  "run_queue enq deq [] q = Some ([], q)"
| "run_queue enq deq (Enq x # ops) q =
     do { (r, q1) \<leftarrow> enq q x; (rs, q2) \<leftarrow> run_queue enq deq ops q1; Some (EnqRes r # rs, q2) }"
| "run_queue enq deq (Deq # ops) q =
     do { (r, q1) \<leftarrow> deq q; (rs, q2) \<leftarrow> run_queue enq deq ops q1; Some (DeqRes r # rs, q2) }"

fun spec_queue :: "nat \<Rightarrow> 'a qop list \<Rightarrow> 'a list \<Rightarrow> 'a qres list \<times> 'a list" where
  "spec_queue c [] xs = ([], xs)"
| "spec_queue c (Enq x # ops) xs =
     (if length xs < c
      then (let (rs, ys) = spec_queue c ops (xs @ [x]) in (EnqRes 0 # rs, ys))
      else (let (rs, ys) = spec_queue c ops xs in (EnqRes (-1) # rs, ys)))"
| "spec_queue c (Deq # ops) [] =
     (let (rs, ys) = spec_queue c ops [] in (DeqRes None # rs, ys))"
| "spec_queue c (Deq # ops) (x # xs) =
     (let (rs, ys) = spec_queue c ops xs in (DeqRes (Some x) # rs, ys))"

text \<open>The elements a sequence of operations accepted and the ones it delivered.\<close>

fun accepted :: "'a qop list \<Rightarrow> 'a qres list \<Rightarrow> 'a list" where
  "accepted (Enq x # ops) (EnqRes r # rs) = (if r = 0 then [x] else []) @ accepted ops rs"
| "accepted (Deq # ops) (r # rs) = accepted ops rs"
| "accepted _ _ = []"

fun delivered :: "'a qres list \<Rightarrow> 'a list" where
  "delivered [] = []"
| "delivered (DeqRes (Some x) # rs) = x # delivered rs"
| "delivered (_ # rs) = delivered rs"

lemma spec_queue_fifo:
  "spec_queue c ops xs = (rs, ys) \<Longrightarrow> xs @ accepted ops rs = delivered rs @ ys"
proof (induction c ops xs arbitrary: rs ys rule: spec_queue.induct)
  case (2 c x ops xs)
  show ?case
  proof (cases "length xs < c")
    case True
    with 2 show ?thesis by (auto split: prod.splits)
  next
    case False
    with 2 show ?thesis by (auto split: prod.splits)
  qed
qed (auto split: prod.splits)

locale bounded_queue =
  fixes invar :: "'q \<Rightarrow> bool"
    and cap :: "'q \<Rightarrow> nat"
    and items :: "'q \<Rightarrow> 'a list"
    and enq :: "'q \<Rightarrow> 'a \<Rightarrow> (int \<times> 'q) option"
    and deq :: "'q \<Rightarrow> ('a option \<times> 'q) option"
  assumes items_le: "invar q \<Longrightarrow> length (items q) \<le> cap q"
    and enq_room: "invar q \<Longrightarrow> length (items q) < cap q \<Longrightarrow>
      \<exists>q'. enq q x = Some (0, q') \<and> invar q' \<and> cap q' = cap q \<and> items q' = items q @ [x]"
    and enq_full: "invar q \<Longrightarrow> length (items q) = cap q \<Longrightarrow> enq q x = Some (- 1, q)"
    and deq_empty: "invar q \<Longrightarrow> items q = [] \<Longrightarrow> deq q = Some (None, q)"
    and deq_item: "invar q \<Longrightarrow> items q = x # xs \<Longrightarrow>
      \<exists>q'. deq q = Some (Some x, q') \<and> invar q' \<and> cap q' = cap q \<and> items q' = xs"
begin

lemma enq_total: "invar q \<Longrightarrow> \<exists>r q'. enq q x = Some (r, q') \<and> invar q' \<and> cap q' = cap q"
  using items_le [of q] enq_room [of q x] enq_full [of q x] by (cases "length (items q) < cap q") auto

lemma deq_total: "invar q \<Longrightarrow> \<exists>r q'. deq q = Some (r, q') \<and> invar q' \<and> cap q' = cap q"
  using deq_empty [of q] deq_item [of q] by (cases "items q") auto

lemma deq_None_iff: "invar q \<Longrightarrow> deq q = Some (r, q') \<Longrightarrow> r = None \<longleftrightarrow> items q = []"
  using deq_empty [of q] deq_item [of q] by (cases "items q") auto

text \<open>Every sequence of operations returns, call by call, what the specification returns.\<close>

lemma run_refines:
  assumes "invar q"
  shows "\<exists>q'. run_queue enq deq ops q = Some (fst (spec_queue (cap q) ops (items q)), q')
           \<and> invar q' \<and> cap q' = cap q \<and> items q' = snd (spec_queue (cap q) ops (items q))"
  using assms
proof (induction ops arbitrary: q)
  case Nil
  then show ?case by simp
next
  case (Cons a ops)
  show ?case
  proof (cases a)
    case (Enq x)
    show ?thesis
    proof (cases "length (items q) < cap q")
      case True
      from enq_room [OF Cons.prems True] obtain q1 where q1: "enq q x = Some (0, q1)"
        "invar q1" "cap q1 = cap q" "items q1 = items q @ [x]" by blast
      from Cons.IH [OF q1(2)] q1 show ?thesis
        by (auto simp: Enq True split: prod.splits)
    next
      case False
      with items_le [OF Cons.prems] have full: "length (items q) = cap q" by simp
      from Cons.IH [OF Cons.prems] enq_full [OF Cons.prems full] show ?thesis
        by (auto simp: Enq False split: prod.splits)
    qed
  next
    case Deq
    show ?thesis
    proof (cases "items q")
      case Nil
      from Cons.IH [OF Cons.prems] deq_empty [OF Cons.prems Nil] show ?thesis
        by (auto simp: Deq Nil split: prod.splits)
    next
      case (Cons x xs)
      from deq_item [OF Cons.prems Cons] obtain q1 where q1: "deq q = Some (Some x, q1)"
        "invar q1" "cap q1 = cap q" "items q1 = xs" by blast
      from Cons.IH [OF q1(2)] q1 show ?thesis
        by (auto simp: Deq Cons split: prod.splits)
    qed
  qed
qed

text \<open>First in, first out: from an empty queue, what is delivered is a prefix of what was
  accepted, and the rest is still queued.\<close>

lemma run_fifo:
  assumes "invar q" and "items q = []"
  shows "\<exists>rs q'. run_queue enq deq ops q = Some (rs, q') \<and> invar q'
           \<and> accepted ops rs = delivered rs @ items q'"
proof -
  obtain rs ys where sp: "spec_queue (cap q) ops (items q) = (rs, ys)" by fastforce
  from run_refines [OF assms(1), of ops] spec_queue_fifo [OF sp] sp assms(2)
  show ?thesis by auto
qed

end

end
