(* ===== verification/Click_Queues.thy ===== *)
theory Click_Queues
  imports Queue_Spec
begin

text \<open>
  The array queues of mTCP: the single-producer single-consumer queues derived from Click
  (tcp_stream_queue.c for streams, tcp_sb_queue.c for free send buffers,
  tcp_rb_frag_queue.c for free fragment contexts), which keep one slot unused to tell a
  full queue from an empty one, and the internal stream queue of the mTCP thread
  (tcp_stream_queue.c), which keeps a count. All four are shown to implement
  \<open>bounded_queue\<close>.

  The three Click queues are three copies of the same code in the source. They share the
  record below; every operation is translated from its own file. An array slot holds a
  pointer, \<^const>\<open>None\<close> being NULL.
\<close>

record 'a click_queue =
  q_capacity :: u32
  q_head :: u32
  q_tail :: u32
  q_slots :: "'a option list"

definition NextIndex :: "'a click_queue \<Rightarrow> u32 \<Rightarrow> u32" where
  "NextIndex sq i = (if i \<noteq> q_capacity sq then i + 1 else 0)"

definition PrevIndex :: "'a click_queue \<Rightarrow> u32 \<Rightarrow> u32" where
  "PrevIndex sq i = (if i \<noteq> 0 then i - 1 else q_capacity sq)"

section \<open>Stream queue\<close>

definition StreamQueueIsEmpty :: "'a click_queue \<Rightarrow> bool" where
  "StreamQueueIsEmpty sq \<longleftrightarrow> q_head sq = q_tail sq"

text \<open>The booleans are the outcomes of the two \<open>calloc\<close> calls; the result is the pointer
  that is returned.\<close>

definition CreateStreamQueue :: "bool \<Rightarrow> bool \<Rightarrow> int \<Rightarrow> 'a click_queue option" where
  "CreateStreamQueue sq_ok q_ok capacity =
     (if \<not> sq_ok then None
      else if \<not> q_ok then None
      else Some \<lparr>q_capacity = word_of_int capacity, q_head = 0, q_tail = 0,
                 q_slots = replicate (nat (capacity + 1)) None\<rparr>)"

definition StreamEnqueue :: "'a click_queue \<Rightarrow> 'a \<Rightarrow> (int \<times> 'a click_queue) option" where
  "StreamEnqueue sq stream =
     (let h = q_head sq; t = q_tail sq; nt = NextIndex sq t in
      if nt \<noteq> h
      then (if unat t < length (q_slots sq)
            then Some (0, sq\<lparr>q_slots := (q_slots sq)[unat t := Some stream], q_tail := nt\<rparr>)
            else None)
      else Some (-1, sq))"

definition StreamDequeue :: "'a click_queue \<Rightarrow> ('a option \<times> 'a click_queue) option" where
  "StreamDequeue sq =
     (let h = q_head sq; t = q_tail sq in
      if h \<noteq> t
      then (if unat h < length (q_slots sq)
            then (case q_slots sq ! unat h of
                    None \<Rightarrow> None
                  | Some stream \<Rightarrow> Some (Some stream, sq\<lparr>q_head := NextIndex sq h\<rparr>))
            else None)
      else Some (None, sq))"

section \<open>Free send buffer queue\<close>

definition CreateSBQueue :: "bool \<Rightarrow> bool \<Rightarrow> int \<Rightarrow> 'a click_queue option" where
  "CreateSBQueue sq_ok q_ok capacity =
     (if \<not> sq_ok then None
      else if \<not> q_ok then None
      else Some \<lparr>q_capacity = word_of_int capacity, q_head = 0, q_tail = 0,
                 q_slots = replicate (nat (capacity + 1)) None\<rparr>)"

definition SBEnqueue :: "'a click_queue \<Rightarrow> 'a \<Rightarrow> (int \<times> 'a click_queue) option" where
  "SBEnqueue sq buf =
     (let h = q_head sq; t = q_tail sq; nt = NextIndex sq t in
      if nt \<noteq> h
      then (if unat t < length (q_slots sq)
            then Some (0, sq\<lparr>q_slots := (q_slots sq)[unat t := Some buf], q_tail := nt\<rparr>)
            else None)
      else Some (-1, sq))"

definition SBDequeue :: "'a click_queue \<Rightarrow> ('a option \<times> 'a click_queue) option" where
  "SBDequeue sq =
     (let h = q_head sq; t = q_tail sq in
      if h \<noteq> t
      then (if unat h < length (q_slots sq)
            then (case q_slots sq ! unat h of
                    None \<Rightarrow> None
                  | Some buf \<Rightarrow> Some (Some buf, sq\<lparr>q_head := NextIndex sq h\<rparr>))
            else None)
      else Some (None, sq))"

section \<open>Free fragment queue\<close>

definition CreateRBFragQueue :: "bool \<Rightarrow> bool \<Rightarrow> int \<Rightarrow> 'a click_queue option" where
  "CreateRBFragQueue rb_fragq_ok q_ok capacity =
     (if \<not> rb_fragq_ok then None
      else if \<not> q_ok then None
      else Some \<lparr>q_capacity = word_of_int capacity, q_head = 0, q_tail = 0,
                 q_slots = replicate (nat (capacity + 1)) None\<rparr>)"

definition RBFragEnqueue :: "'a click_queue \<Rightarrow> 'a \<Rightarrow> (int \<times> 'a click_queue) option" where
  "RBFragEnqueue rb_fragq frag =
     (let h = q_head rb_fragq; t = q_tail rb_fragq; nt = NextIndex rb_fragq t in
      if nt \<noteq> h
      then (if unat t < length (q_slots rb_fragq)
            then Some (0, rb_fragq\<lparr>q_slots := (q_slots rb_fragq)[unat t := Some frag], q_tail := nt\<rparr>)
            else None)
      else Some (-1, rb_fragq))"

definition RBFragDequeue :: "'a click_queue \<Rightarrow> ('a option \<times> 'a click_queue) option" where
  "RBFragDequeue rb_fragq =
     (let h = q_head rb_fragq; t = q_tail rb_fragq in
      if h \<noteq> t
      then (if unat h < length (q_slots rb_fragq)
            then (case q_slots rb_fragq ! unat h of
                    None \<Rightarrow> None
                  | Some frag \<Rightarrow> Some (Some frag, rb_fragq\<lparr>q_head := NextIndex rb_fragq h\<rparr>))
            else None)
      else Some (None, rb_fragq))"

section \<open>Internal stream queue\<close>

record 'a stream_queue_int =
  si_array :: "'a option list"
  si_size :: int
  si_first :: int
  si_last :: int
  si_count :: int

definition CreateInternalStreamQueue :: "bool \<Rightarrow> bool \<Rightarrow> int \<Rightarrow> 'a stream_queue_int option" where
  "CreateInternalStreamQueue sq_ok array_ok qsize =
     (if \<not> sq_ok then None
      else if \<not> array_ok then None
      else Some \<lparr>si_array = replicate (nat qsize) None, si_size = qsize,
                 si_first = 0, si_last = 0, si_count = 0\<rparr>)"

definition StreamInternalEnqueue ::
  "'a stream_queue_int \<Rightarrow> 'a \<Rightarrow> (int \<times> 'a stream_queue_int) option" where
  "StreamInternalEnqueue sq stream =
     (if si_count sq \<ge> si_size sq then Some (-1, sq)
      else if 0 \<le> si_last sq \<and> nat (si_last sq) < length (si_array sq)
      then (let sq1 = sq\<lparr>si_array := (si_array sq)[nat (si_last sq) := Some stream],
                         si_last := si_last sq + 1, si_count := si_count sq + 1\<rparr>;
                sq2 = (if si_last sq1 \<ge> si_size sq1 then sq1\<lparr>si_last := 0\<rparr> else sq1)
            in if si_count sq2 \<le> si_size sq2 then Some (0, sq2) else None)
      else None)"

definition StreamInternalDequeue ::
  "'a stream_queue_int \<Rightarrow> ('a option \<times> 'a stream_queue_int) option" where
  "StreamInternalDequeue sq =
     (if si_count sq \<le> 0 then Some (None, sq)
      else if 0 \<le> si_first sq \<and> nat (si_first sq) < length (si_array sq)
      then (case si_array sq ! nat (si_first sq) of
              None \<Rightarrow> None
            | Some stream \<Rightarrow>
                (let sq1 = sq\<lparr>si_first := si_first sq + 1\<rparr>;
                     sq2 = (if si_first sq1 \<ge> si_size sq1 then sq1\<lparr>si_first := 0\<rparr> else sq1);
                     sq3 = sq2\<lparr>si_count := si_count sq2 - 1\<rparr>
                 in if si_count sq3 \<ge> 0 then Some (Some stream, sq3) else None))
      else None)"

section \<open>The Click queues implement the interface\<close>

definition click_count :: "'a click_queue \<Rightarrow> nat" where
  "click_count q = ring_dist (Suc (unat (q_capacity q))) (unat (q_head q)) (unat (q_tail q))"

definition click_window :: "'a click_queue \<Rightarrow> 'a option list" where
  "click_window q = ring_slice (q_slots q) (unat (q_head q)) (click_count q)"

definition click_items :: "'a click_queue \<Rightarrow> 'a list" where
  "click_items q = map the (click_window q)"

definition click_cap :: "'a click_queue \<Rightarrow> nat" where
  "click_cap q = unat (q_capacity q)"

definition click_inv :: "'a click_queue \<Rightarrow> bool" where
  "click_inv q \<longleftrightarrow>
     length (q_slots q) = Suc (unat (q_capacity q)) \<and>
     q_head q \<le> q_capacity q \<and> q_tail q \<le> q_capacity q \<and>
     None \<notin> set (click_window q)"

lemma unat_NextIndex:
  assumes "i \<le> q_capacity q"
  shows "unat (NextIndex q i) = (unat i + 1) mod Suc (unat (q_capacity q))"
proof (cases "i = q_capacity q")
  case False
  with assms have less: "i < q_capacity q" by simp
  from unat_plus_1 [OF less] False less show ?thesis
    by (simp add: NextIndex_def word_less_nat_alt)
qed (simp add: NextIndex_def)

lemma NextIndex_le: "i \<le> q_capacity q \<Longrightarrow> NextIndex q i \<le> q_capacity q"
  by (simp add: word_le_nat_alt unat_NextIndex less_Suc_eq_le [symmetric])

lemma NextIndex_cong [simp]:
  "NextIndex (q\<lparr>q_slots := s\<rparr>) = NextIndex q" "NextIndex (q\<lparr>q_tail := t\<rparr>) = NextIndex q"
  "NextIndex (q\<lparr>q_head := h\<rparr>) = NextIndex q"
  by (simp_all add: NextIndex_def fun_eq_iff)

lemma PrevIndex_NextIndex:
  "i \<le> q_capacity q \<Longrightarrow> PrevIndex q (NextIndex q i) = i"
  using unat_plus_1 [of i "q_capacity q"]
  by (auto simp: PrevIndex_def NextIndex_def order_le_less)

lemma click_inv_bounds:
  assumes "click_inv q"
  shows "unat (q_head q) < Suc (unat (q_capacity q))" "unat (q_tail q) < Suc (unat (q_capacity q))"
    "length (q_slots q) = Suc (unat (q_capacity q))"
  using assms by (auto simp: click_inv_def word_le_nat_alt)

lemma length_click_items [simp]: "length (click_items q) = click_count q"
  by (simp add: click_items_def click_window_def)

lemma click_count_le: "click_count q \<le> click_cap q"
  using ring_dist_less [of "Suc (unat (q_capacity q))"]
  by (simp add: click_count_def click_cap_def less_Suc_eq_le [symmetric])

lemma click_full_iff:
  assumes "click_inv q"
  shows "NextIndex q (q_tail q) = q_head q \<longleftrightarrow> click_count q = click_cap q"
proof -
  let ?n = "Suc (unat (q_capacity q))" and ?h = "unat (q_head q)" and ?t = "unat (q_tail q)"
  note b = click_inv_bounds [OF assms]
  have tl: "q_tail q \<le> q_capacity q" using assms by (simp add: click_inv_def)
  have "NextIndex q (q_tail q) = q_head q \<longleftrightarrow> (?t + 1) mod ?n = ?h"
    using unat_NextIndex [OF tl] by (metis word_unat_eq_iff)
  also have "\<dots> \<longleftrightarrow> ring_dist ?n ?h ?t = unat (q_capacity q)"
  proof
    assume eq: "(?t + 1) mod ?n = ?h"
    have "(?h + unat (q_capacity q)) mod ?n = (?t + ?n) mod ?n"
      by (subst eq [symmetric]) (simp add: mod_simps)
    also have "\<dots> = (?h + ring_dist ?n ?h ?t) mod ?n"
      unfolding ring_dist_add [OF b(1,2)] using b(2) by (simp only: mod_add_self2 mod_less)
    finally have "(?h + ring_dist ?n ?h ?t) mod ?n = (?h + unat (q_capacity q)) mod ?n" ..
    then show "ring_dist ?n ?h ?t = unat (q_capacity q)"
      by (rule mod_window_inj) (simp_all add: ring_dist_less)
  next
    assume "ring_dist ?n ?h ?t = unat (q_capacity q)"
    with ring_dist_add [OF b(1,2)] have "?t = (?h + unat (q_capacity q)) mod ?n" by simp
    then have "(?t + 1) mod ?n = (?h + ?n) mod ?n" by (simp add: mod_simps)
    also have "\<dots> = ?h" using b(1) by (simp only: mod_add_self2 mod_less)
    finally show "(?t + 1) mod ?n = ?h" .
  qed
  finally show ?thesis by (simp add: click_count_def click_cap_def)
qed

lemma StreamEnqueue_room:
  assumes inv: "click_inv q" and room: "click_count q < click_cap q"
  shows "\<exists>q'. StreamEnqueue q x = Some (0, q') \<and> click_inv q' \<and> click_cap q' = click_cap q \<and>
           click_items q' = click_items q @ [x]"
proof -
  let ?n = "Suc (unat (q_capacity q))" and ?h = "unat (q_head q)" and ?t = "unat (q_tail q)"
  let ?q = "q\<lparr>q_slots := (q_slots q)[?t := Some x], q_tail := NextIndex q (q_tail q)\<rparr>"
  note b = click_inv_bounds [OF inv]
  have ne: "NextIndex q (q_tail q) \<noteq> q_head q" using click_full_iff [OF inv] room by simp
  have tl: "q_tail q \<le> q_capacity q" using inv by (simp add: click_inv_def)
  have "(?t + 1) mod ?n \<noteq> ?h" using ne unat_NextIndex [OF tl] by (metis word_unat_eq_iff)
  then have cnt: "click_count ?q = Suc (click_count q)" and less: "Suc (click_count q) < ?n"
    using ring_dist_tail_Suc [OF b(1,2)] by (auto simp: click_count_def unat_NextIndex [OF tl])
  have tail: "?t = (?h + click_count q) mod ?n"
    using ring_dist_add [OF b(1,2)] by (simp add: click_count_def)
  have "click_window ?q = ring_slice ((q_slots q)[(?h + click_count q) mod length (q_slots q) := Some x])
      ?h (Suc (click_count q))"
    unfolding click_window_def cnt using tail b(3) by simp
  also have "\<dots> = click_window q @ [Some x]"
    unfolding click_window_def using less b(3) by (intro ring_slice_snoc) simp
  finally have win: "click_window ?q = click_window q @ [Some x]" .
  have "click_inv ?q"
    using inv NextIndex_le [OF tl] win by (simp add: click_inv_def)
  moreover have "StreamEnqueue q x = Some (0, ?q)"
    using ne b by (simp add: StreamEnqueue_def Let_def)
  ultimately show ?thesis by (simp add: click_items_def win click_cap_def)
qed

lemma StreamDequeue_item:
  assumes inv: "click_inv q" and items: "click_items q = x # xs"
  shows "\<exists>q'. StreamDequeue q = Some (Some x, q') \<and> click_inv q' \<and> click_cap q' = click_cap q \<and>
           click_items q' = xs"
proof -
  let ?n = "Suc (unat (q_capacity q))" and ?h = "unat (q_head q)" and ?t = "unat (q_tail q)"
  let ?q = "q\<lparr>q_head := NextIndex q (q_head q)\<rparr>"
  note b = click_inv_bounds [OF inv]
  have hd: "q_head q \<le> q_capacity q" using inv by (simp add: click_inv_def)
  have "click_count q \<noteq> 0" using items length_click_items [of q] by auto
  then have "?h \<noteq> ?t" using ring_dist_0_iff [OF b(1,2)] by (simp add: click_count_def)
  then have ne: "q_head q \<noteq> q_tail q" by auto
  have cnt: "click_count q = Suc (click_count ?q)"
    using ring_dist_head_Suc [OF b(1,2) \<open>?h \<noteq> ?t\<close>] by (simp add: click_count_def unat_NextIndex [OF hd])
  have win: "click_window q = q_slots q ! ?h # click_window ?q"
    unfolding click_window_def cnt ring_slice_Suc using b by (simp add: unat_NextIndex [OF hd])
  with inv have "None \<noteq> q_slots q ! ?h" and "None \<notin> set (click_window ?q)"
    by (simp_all add: click_inv_def)
  then obtain y where "q_slots q ! ?h = Some y" by (cases "q_slots q ! ?h") auto
  then have slot: "q_slots q ! ?h = Some x" using items win by (simp add: click_items_def)
  have "click_inv ?q"
    using inv \<open>None \<notin> set (click_window ?q)\<close> NextIndex_le [OF hd] by (simp add: click_inv_def)
  moreover have "StreamDequeue q = Some (Some x, ?q)"
    using ne b slot by (simp add: StreamDequeue_def Let_def)
  moreover have "click_items ?q = xs" using items win by (simp add: click_items_def)
  ultimately show ?thesis by (simp add: click_cap_def)
qed

lemma click_empty_iff:
  "click_inv q \<Longrightarrow> q_head q = q_tail q \<longleftrightarrow> click_items q = []"
  using click_inv_bounds [of q] ring_dist_0_iff [of "unat (q_head q)" _ "unat (q_tail q)"]
    length_click_items [of q]
  by (auto simp: click_count_def word_unat_eq_iff [symmetric] simp flip: length_0_conv)

interpretation stream_q: bounded_queue click_inv click_cap click_items StreamEnqueue StreamDequeue
proof (unfold_locales, goal_cases)
  case (1 q)
  show ?case by (simp add: click_count_le)
next
  case (2 q x)
  then show ?case using StreamEnqueue_room [of q x] by simp
next
  case (3 q x)
  then show ?case using click_full_iff [of q] by (simp add: StreamEnqueue_def)
next
  case (4 q)
  then show ?case using click_empty_iff [of q] by (simp add: StreamDequeue_def)
next
  case (5 q x xs)
  then show ?case using StreamDequeue_item [of q x xs] by simp
qed

lemma SBEnqueue_eq: "SBEnqueue = StreamEnqueue"
  by (simp add: fun_eq_iff SBEnqueue_def StreamEnqueue_def)

lemma SBDequeue_eq: "SBDequeue = StreamDequeue"
  by (simp add: fun_eq_iff SBDequeue_def StreamDequeue_def)

lemma RBFragEnqueue_eq: "RBFragEnqueue = StreamEnqueue"
  by (simp add: fun_eq_iff RBFragEnqueue_def StreamEnqueue_def)

lemma RBFragDequeue_eq: "RBFragDequeue = StreamDequeue"
  by (simp add: fun_eq_iff RBFragDequeue_def StreamDequeue_def)

interpretation sb_q: bounded_queue click_inv click_cap click_items SBEnqueue SBDequeue
  unfolding SBEnqueue_eq SBDequeue_eq by (rule stream_q.bounded_queue_axioms)

interpretation frag_q: bounded_queue click_inv click_cap click_items RBFragEnqueue RBFragDequeue
  unfolding RBFragEnqueue_eq RBFragDequeue_eq by (rule stream_q.bounded_queue_axioms)

lemma CreateStreamQueue_inv:
  assumes "CreateStreamQueue True True capacity = Some q" and "0 \<le> capacity" and "capacity < 2147483647"
  shows "click_inv q" "click_items q = []" "click_cap q = nat capacity"
proof -
  have cap: "unat (word_of_int capacity :: u32) = nat capacity"
    using assms(2,3) by (simp add: unat_eq_nat_uint uint_word_of_int)
  with assms show "click_inv q" "click_items q = []" "click_cap q = nat capacity"
    by (auto simp: CreateStreamQueue_def click_inv_def click_window_def click_count_def
        click_items_def click_cap_def ring_dist_def nat_add_distrib)
qed

section \<open>The internal stream queue implements the interface\<close>

definition int_window :: "'a stream_queue_int \<Rightarrow> 'a option list" where
  "int_window q = ring_slice (si_array q) (nat (si_first q)) (nat (si_count q))"

definition int_items :: "'a stream_queue_int \<Rightarrow> 'a list" where
  "int_items q = map the (int_window q)"

definition int_cap :: "'a stream_queue_int \<Rightarrow> nat" where
  "int_cap q = nat (si_size q)"

definition int_inv :: "'a stream_queue_int \<Rightarrow> bool" where
  "int_inv q \<longleftrightarrow>
     0 < si_size q \<and> length (si_array q) = nat (si_size q) \<and>
     0 \<le> si_first q \<and> si_first q < si_size q \<and> 0 \<le> si_count q \<and> si_count q \<le> si_size q \<and>
     si_last q = (si_first q + si_count q) mod si_size q \<and>
     None \<notin> set (int_window q)"

lemma length_int_items [simp]: "length (int_items q) = nat (si_count q)"
  by (simp add: int_items_def int_window_def)

lemma wrap_index:
  fixes i n :: int
  assumes "0 \<le> i" "i < n"
  shows "(if i + 1 \<ge> n then 0 else i + 1) = (i + 1) mod n"
proof (cases "i + 1 \<ge> n")
  case True
  with assms have "i + 1 = n" by simp
  then show ?thesis by simp
qed (use assms in simp)

lemma StreamInternalEnqueue_room:
  assumes inv: "int_inv q" and room: "si_count q < si_size q"
  shows "\<exists>q'. StreamInternalEnqueue q x = Some (0, q') \<and> int_inv q' \<and> int_cap q' = int_cap q \<and>
           int_items q' = int_items q @ [x]"
proof -
  let ?n = "si_size q" and ?l = "si_last q"
  let ?q = "q\<lparr>si_array := (si_array q)[nat ?l := Some x], si_last := (?l + 1) mod ?n,
              si_count := si_count q + 1\<rparr>"
  have l: "0 \<le> ?l" "?l < ?n" using inv by (auto simp: int_inv_def)
  have nl: "nat ?l = (nat (si_first q) + nat (si_count q)) mod length (si_array q)"
    using inv by (simp add: int_inv_def nat_mod_distrib nat_add_distrib)
  have "int_window ?q = ring_slice ((si_array q)[(nat (si_first q) + nat (si_count q)) mod length (si_array q) := Some x])
      (nat (si_first q)) (Suc (nat (si_count q)))"
    using inv unfolding int_window_def nl
    by (simp add: int_inv_def Suc_nat_eq_nat_zadd1 add.commute)
  also have "\<dots> = int_window q @ [Some x]"
    unfolding int_window_def using inv room by (intro ring_slice_snoc) (simp add: int_inv_def)
  finally have win: "int_window ?q = int_window q @ [Some x]" .
  have "si_last ?q = (si_first ?q + si_count ?q) mod si_size ?q"
    using inv by (simp add: int_inv_def mod_simps algebra_simps)
  then have "int_inv ?q" using inv room win l by (simp add: int_inv_def)
  moreover have "StreamInternalEnqueue q x = Some (0, ?q)"
    using inv room l wrap_index [OF l]
    by (auto simp: StreamInternalEnqueue_def int_inv_def Let_def)
  ultimately show ?thesis by (simp add: int_items_def win int_cap_def)
qed

lemma StreamInternalDequeue_item:
  assumes inv: "int_inv q" and items: "int_items q = x # xs"
  shows "\<exists>q'. StreamInternalDequeue q = Some (Some x, q') \<and> int_inv q' \<and> int_cap q' = int_cap q \<and>
           int_items q' = xs"
proof -
  let ?n = "si_size q" and ?f = "si_first q"
  let ?q = "q\<lparr>si_first := (?f + 1) mod ?n, si_count := si_count q - 1\<rparr>"
  have f: "0 \<le> ?f" "?f < ?n" using inv by (auto simp: int_inv_def)
  have pos: "0 < si_count q" using items length_int_items [of q] by (cases "si_count q > 0") auto
  then have cnt: "nat (si_count q) = Suc (nat (si_count ?q))" by simp
  have first: "nat (si_first ?q) = (nat ?f + 1) mod length (si_array q)"
    using inv by (simp add: int_inv_def nat_mod_distrib nat_add_distrib)
  have win: "int_window q = si_array q ! nat ?f # int_window ?q"
    unfolding int_window_def cnt ring_slice_Suc first using inv by (simp add: int_inv_def)
  with inv have "None \<noteq> si_array q ! nat ?f" and N: "None \<notin> set (int_window ?q)"
    by (simp_all add: int_inv_def)
  then obtain y where "si_array q ! nat ?f = Some y" by (cases "si_array q ! nat ?f") auto
  then have slot: "si_array q ! nat ?f = Some x" using items win by (simp add: int_items_def)
  have "si_last ?q = (si_first ?q + si_count ?q) mod si_size ?q"
    using inv by (simp add: int_inv_def mod_simps)
  then have "int_inv ?q" using inv N f pos by (simp add: int_inv_def)
  moreover have "StreamInternalDequeue q = Some (Some x, ?q)"
    using inv pos slot f wrap_index [OF f]
    by (auto simp: StreamInternalDequeue_def int_inv_def Let_def)
  moreover have "int_items ?q = xs" using items win by (simp add: int_items_def)
  ultimately show ?thesis by (simp add: int_cap_def)
qed

interpretation int_q: bounded_queue int_inv int_cap int_items StreamInternalEnqueue StreamInternalDequeue
proof (unfold_locales, goal_cases)
  case (1 q)
  then show ?case by (auto simp: int_inv_def int_cap_def)
next
  case (2 q x)
  then show ?case using StreamInternalEnqueue_room [of q x] by (simp add: int_cap_def int_inv_def)
next
  case (3 q x)
  then show ?case by (auto simp: StreamInternalEnqueue_def int_cap_def int_inv_def)
next
  case (4 q)
  then show ?case using length_int_items [of q] by (auto simp: StreamInternalDequeue_def int_inv_def)
next
  case (5 q x xs)
  then show ?case using StreamInternalDequeue_item [of q x xs] by simp
qed

lemma CreateInternalStreamQueue_inv:
  assumes "CreateInternalStreamQueue True True n = Some q" and "0 < n"
  shows "int_inv q" "int_items q = []" "int_cap q = nat n"
  using assms by (auto simp: CreateInternalStreamQueue_def int_inv_def int_items_def
      int_window_def int_cap_def)

section \<open>Properties\<close>

text \<open>C17. Every sequence of \<open>StreamEnqueue\<close> and \<open>StreamDequeue\<close> calls on a queue made by
  \<open>CreateStreamQueue\<close> is free of out-of-bounds accesses, returns call by call what a list
  bounded by the requested capacity returns, and delivers in first-in first-out order: what
  was accepted is what was delivered followed by what is still queued.\<close>

theorem StreamQueue_trace:
  assumes "CreateStreamQueue True True capacity = Some q"
    and "0 \<le> capacity" and "capacity < 2147483647"
  shows "\<exists>rs q'. run_queue StreamEnqueue StreamDequeue ops q = Some (rs, q')
           \<and> rs = fst (spec_queue (nat capacity) ops [])
           \<and> accepted ops rs = delivered rs @ click_items q'"
  using CreateStreamQueue_inv [OF assms] stream_q.run_refines [of q ops] stream_q.run_fifo [of q ops]
  by auto

theorem StreamQueue_trace_witness:
  "\<exists>q :: nat click_queue. CreateStreamQueue True True 1 = Some q
     \<and> map_option fst (run_queue StreamEnqueue StreamDequeue [Enq 7, Enq 8, Deq, Deq] q)
       = Some [EnqRes 0, EnqRes (-1), DeqRes (Some 7), DeqRes None]"
proof -
  obtain q :: "nat click_queue" where q: "CreateStreamQueue True True 1 = Some q"
    by (simp add: CreateStreamQueue_def)
  with StreamQueue_trace [OF q, of "[Enq 7, Enq 8, Deq, Deq]"] show ?thesis by auto
qed

text \<open>C21. The same holds of the single-threaded circular queue
  (\<open>StreamInternalEnqueue\<close>, \<open>StreamInternalDequeue\<close>), which keeps a count next to its
  indices: every call is within bounds, agrees with the bounded list, and the order is first
  in, first out.\<close>

theorem StreamInternalQueue_trace:
  assumes "CreateInternalStreamQueue True True n = Some q" and "0 < n"
  shows "\<exists>rs q'. run_queue StreamInternalEnqueue StreamInternalDequeue ops q = Some (rs, q')
           \<and> rs = fst (spec_queue (nat n) ops [])
           \<and> accepted ops rs = delivered rs @ int_items q'"
  using CreateInternalStreamQueue_inv [OF assms] int_q.run_refines [of q ops] int_q.run_fifo [of q ops]
  by auto

theorem StreamInternalQueue_trace_witness:
  "\<exists>q :: nat stream_queue_int. CreateInternalStreamQueue True True 1 = Some q
     \<and> map_option fst (run_queue StreamInternalEnqueue StreamInternalDequeue
           [Enq 7, Enq 8, Deq, Deq] q)
       = Some [EnqRes 0, EnqRes (-1), DeqRes (Some 7), DeqRes None]"
proof -
  obtain q :: "nat stream_queue_int" where q: "CreateInternalStreamQueue True True 1 = Some q"
    by (simp add: CreateInternalStreamQueue_def)
  with StreamInternalQueue_trace [OF q, of "[Enq 7, Enq 8, Deq, Deq]"] show ?thesis by auto
qed

end
