(* ===== verification/Recv_Buffer_Frags.thy ===== *)
theory Recv_Buffer_Frags
  imports Recv_Buffer
begin

text \<open>
  The fragment list of the receive buffer, measured from a base sequence number. A fragment
  is the interval of offsets from \<open>frag_o\<close> to \<open>frag_e\<close>; the list is kept sorted with a gap
  between neighbours, and the traversal in \<open>RBPut\<close> adds an interval to the union of the
  list without breaking this.
\<close>

definition frag_o :: "u32 \<Rightarrow> fragment_ctx \<Rightarrow> nat" where
  "frag_o h f = seq_off h (f_seq f)"

definition frag_e :: "u32 \<Rightarrow> fragment_ctx \<Rightarrow> nat" where
  "frag_e h f = seq_off h (f_seq f) + unat (f_len f)"

text \<open>Buffers are at most \<open>RB_MAX\<close> bytes, far below half the sequence space.\<close>

abbreviation RB_MAX :: nat where
  "RB_MAX \<equiv> 1073741824"

definition frag_small :: "u32 \<Rightarrow> nat \<Rightarrow> fragment_ctx \<Rightarrow> bool" where
  "frag_small h B f \<longleftrightarrow> 0 < unat (f_len f) \<and> frag_e h f \<le> B \<and> B \<le> RB_MAX"

definition frag_cover :: "u32 \<Rightarrow> fragment_ctx list \<Rightarrow> nat set" where
  "frag_cover h fs = (\<Union>f \<in> set fs. {frag_o h f ..< frag_e h f})"

definition frags_sep :: "u32 \<Rightarrow> nat \<Rightarrow> fragment_ctx list \<Rightarrow> bool" where
  "frags_sep h B fs \<longleftrightarrow>
     sorted_wrt (\<lambda>f g. frag_e h f < frag_o h g) fs \<and> (\<forall>f \<in> set fs. frag_small h B f)"

lemma frag_o_less_e: "frag_small h B f \<Longrightarrow> frag_o h f < frag_e h f"
  by (simp add: frag_small_def frag_o_def frag_e_def)

lemma frag_small_bounds:
  "frag_small h B f \<Longrightarrow> frag_e h f \<le> RB_MAX \<and> frag_o h f < RB_MAX"
  by (auto simp: frag_small_def frag_o_def frag_e_def)

lemma frag_end_off:
  assumes "frag_small h B f"
  shows "seq_off h (f_seq f + f_len f) = frag_e h f"
    and "seq_off h (f_seq f + f_len f + 1) = frag_e h f + 1"
proof -
  have le: "seq_off h (f_seq f) + unat (f_len f) \<le> RB_MAX"
    using assms by (auto simp: frag_small_def frag_e_def)
  then show e: "seq_off h (f_seq f + f_len f) = frag_e h f"
    by (subst seq_off_add) (auto simp: frag_e_def)
  show "seq_off h (f_seq f + f_len f + 1) = frag_e h f + 1"
    using le by (subst seq_off_add) (auto simp: e frag_e_def)
qed

lemma GetMinSeq_first:
  assumes "seq_off h a < SEQ_HALF" and "seq_off h b < SEQ_HALF"
  shows "GetMinSeq a b = a \<longleftrightarrow> seq_off h a \<le> seq_off h b"
    and "GetMinSeq a b = b \<longleftrightarrow> seq_off h b \<le> seq_off h a"
    and "GetMaxSeq a b = b \<longleftrightarrow> seq_off h a \<le> seq_off h b"
  using GetSeq_off [OF assms] seq_off_inj [of h a b] by auto

lemma CanMerge_iff:
  assumes "frag_small h B a" and "frag_small h B b"
  shows "CanMerge a b \<longleftrightarrow> frag_o h b \<le> frag_e h a \<and> frag_o h a \<le> frag_e h b"
proof -
  note ba = frag_small_bounds [OF assms(1)] and bb = frag_small_bounds [OF assms(2)]
  have "GetMinSeq (f_seq a + f_len a + 1) (f_seq b) = f_seq a + f_len a + 1
      \<longleftrightarrow> frag_e h a + 1 \<le> frag_o h b"
    using ba bb by (subst GetMinSeq_first [of h])
      (simp_all add: frag_end_off [OF assms(1)] frag_o_def)
  moreover have "GetMinSeq (f_seq b + f_len b + 1) (f_seq a) = f_seq b + f_len b + 1
      \<longleftrightarrow> frag_e h b + 1 \<le> frag_o h a"
    using ba bb by (subst GetMinSeq_first [of h])
      (simp_all add: frag_end_off [OF assms(2)] frag_o_def)
  ultimately show ?thesis by (auto simp: CanMerge_def Let_def)
qed

lemma u31_small: "unat x < SEQ_HALF \<Longrightarrow> u31 x = x"
proof -
  assume "unat x < SEQ_HALF"
  moreover have "unat (u31 x) = take_bit 31 (unat x)" by (simp only: u31_def unsigned_take_bit_eq)
  ultimately show ?thesis by (intro word_unat_eq_iff [THEN iffD2]) (simp add: take_bit_eq_mod)
qed

lemma MergeFragments_span:
  assumes "frag_small h B a" and "frag_small h B b"
  shows "frag_o h (MergeFragments a b) = min (frag_o h a) (frag_o h b)"
    and "frag_e h (MergeFragments a b) = max (frag_e h a) (frag_e h b)"
    and "f_ptr (MergeFragments a b) = f_ptr b"
    and "f_is_calloc (MergeFragments a b) = f_is_calloc b"
proof -
  note ba = frag_small_bounds [OF assms(1)] and bb = frag_small_bounds [OF assms(2)]
  define mi ma where mi: "mi = GetMinSeq (f_seq a) (f_seq b)"
    and ma: "ma = GetMaxSeq (f_seq a + f_len a) (f_seq b + f_len b)"
  have omi: "seq_off h mi = min (frag_o h a) (frag_o h b)"
    using ba bb GetSeq_off [of h "f_seq a" "f_seq b"] by (simp add: mi frag_o_def min_def)
  have oma: "seq_off h ma = max (frag_e h a) (frag_e h b)"
    using ba bb GetSeq_off [of h "f_seq a + f_len a" "f_seq b + f_len b"]
    by (simp add: ma frag_end_off [OF assms(1)] frag_end_off [OF assms(2)] max_def)
  have le: "seq_off h mi \<le> seq_off h ma"
    using frag_o_less_e [OF assms(1)] frag_o_less_e [OF assms(2)] by (simp add: omi oma)
  have "unat (ma - mi) = seq_off h ma - seq_off h mi"
  proof -
    have "ma - mi = (ma - h) - (mi - h)" by simp
    moreover have "mi - h \<le> ma - h" using le by (simp add: seq_off_def word_le_nat_alt)
    ultimately show ?thesis by (simp only: seq_off_def unat_sub)
  qed
  moreover then have "u31 (ma - mi) = ma - mi" using oma ba bb by (intro u31_small) (auto simp: max_def)
  ultimately have l: "unat (f_len (MergeFragments a b)) = seq_off h ma - seq_off h mi"
    by (simp add: MergeFragments_def Let_def mi ma)
  show "frag_o h (MergeFragments a b) = min (frag_o h a) (frag_o h b)"
    using omi by (simp add: frag_o_def MergeFragments_def Let_def mi)
  show "frag_e h (MergeFragments a b) = max (frag_e h a) (frag_e h b)"
    using l le omi oma by (simp add: frag_e_def) (simp add: MergeFragments_def Let_def mi)
qed (simp_all add: MergeFragments_def Let_def)

lemma MergeFragments_small:
  assumes "frag_small h B a" and "frag_small h B b"
  shows "frag_small h B (MergeFragments a b)"
proof -
  have "frag_o h (MergeFragments a b) < frag_e h (MergeFragments a b)"
    using MergeFragments_span(1,2) [OF assms] frag_o_less_e [OF assms(1)] frag_o_less_e [OF assms(2)]
    by simp
  moreover have "frag_e h (MergeFragments a b) \<le> B"
    using MergeFragments_span(2) [OF assms] assms by (auto simp: frag_small_def)
  ultimately show ?thesis using assms by (auto simp: frag_small_def frag_o_def frag_e_def)
qed

lemma MergeFragments_cover:
  assumes "frag_small h B a" and "frag_small h B b" and "CanMerge a b"
  shows "{frag_o h (MergeFragments a b) ..< frag_e h (MergeFragments a b)}
    = {frag_o h a ..< frag_e h a} \<union> {frag_o h b ..< frag_e h b}"
  unfolding MergeFragments_span(1,2) [OF assms(1,2)]
  using assms(3) [unfolded CanMerge_iff [OF assms(1,2)]]
    frag_o_less_e [OF assms(1)] frag_o_less_e [OF assms(2)]
  by (auto simp: min_def max_def)

lemma frag_cover_simps [simp]:
  "frag_cover h [] = {}"
  "frag_cover h (f # fs) = {frag_o h f ..< frag_e h f} \<union> frag_cover h fs"
  "frag_cover h (fs @ gs) = frag_cover h fs \<union> frag_cover h gs"
  "frag_cover h (rev fs) = frag_cover h fs"
  by (auto simp: frag_cover_def)

section \<open>The traversal\<close>

text \<open>The states of the traversal, and what it leaves behind.\<close>

definition loop_inv ::
  "u32 \<Rightarrow> nat \<Rightarrow> u32 \<Rightarrow> fragment_ctx \<Rightarrow> bool \<Rightarrow> fragment_ctx list \<Rightarrow> fragment_ctx list \<Rightarrow> bool" where
  "loop_inv h B cur_end new merged pre rest \<longleftrightarrow>
     frags_sep h B (rev pre @ rest) \<and> frag_small h B new \<and>
     (\<forall>p \<in> set pre. frag_e h p < frag_o h new) \<and>
     (if merged then (\<forall>r \<in> set rest. frag_o h new < frag_o h r)
      else seq_off h cur_end = frag_e h new)"

definition loop_done ::
  "u32 \<Rightarrow> nat \<Rightarrow> fragment_ctx \<Rightarrow> fragment_ctx list \<Rightarrow> fragment_ctx list \<Rightarrow> bool" where
  "loop_done h B new pre rest \<longleftrightarrow> frags_sep h B (rev pre @ new # rest)"

lemma loop_inv_merge:
  assumes "loop_inv h B e new merged pre (it # rest)" and "CanMerge new it"
  shows "loop_inv h B e (MergeFragments new it) True pre rest"
proof -
  have s: "frag_small h B new" "frag_small h B it"
    using assms(1) by (auto simp: loop_inv_def frags_sep_def)
  show ?thesis using assms(1) MergeFragments_small [OF s] frag_o_less_e [OF s(1)] frag_o_less_e [OF s(2)]
    by (force simp: loop_inv_def frags_sep_def sorted_wrt_append MergeFragments_span(1) [OF s])
qed

lemma loop_inv_skip:
  assumes "loop_inv h B e new False pre (it # rest)" and "\<not> CanMerge new it"
    and "GetMaxSeq e (f_seq it) \<noteq> f_seq it"
  shows "loop_inv h B e new False (it # pre) rest"
proof -
  have s: "frag_small h B new" "frag_small h B it" and e: "seq_off h e = frag_e h new"
    using assms(1) by (auto simp: loop_inv_def frags_sep_def)
  have "\<not> frag_e h new \<le> frag_o h it"
    using assms(3) GetMinSeq_first(3) [of h e "f_seq it"] frag_small_bounds [OF s(1)]
      frag_small_bounds [OF s(2)] by (simp add: e frag_o_def)
  then have "frag_e h it < frag_o h new" using assms(2) CanMerge_iff [OF s] by auto
  then show ?thesis using assms(1) by (auto simp: loop_inv_def)
qed

lemma loop_inv_stop:
  assumes "loop_inv h B e new merged pre (it # rest)" and "\<not> CanMerge new it"
    and "merged \<or> GetMaxSeq e (f_seq it) = f_seq it"
  shows "loop_done h B new pre (it # rest)"
proof -
  have s: "frag_small h B new" "frag_small h B it"
    using assms(1) by (auto simp: loop_inv_def frags_sep_def)
  note o = frag_o_less_e [OF s(1)] frag_o_less_e [OF s(2)]
  have lt: "frag_e h new < frag_o h it"
  proof (cases merged)
    case True
    then have "frag_o h new < frag_o h it" using assms(1) by (auto simp: loop_inv_def)
    then show ?thesis using assms(2) CanMerge_iff [OF s] o by auto
  next
    case False
    then have "seq_off h e = frag_e h new" "GetMaxSeq e (f_seq it) = f_seq it"
      using assms by (auto simp: loop_inv_def)
    then have "frag_e h new \<le> frag_o h it"
      using GetMinSeq_first(3) [of h e "f_seq it"] frag_small_bounds [OF s(1)]
        frag_small_bounds [OF s(2)] by (simp add: frag_o_def)
    then show ?thesis using assms(2) CanMerge_iff [OF s] o by auto
  qed
  have "\<forall>r \<in> set rest. frag_e h it < frag_o h r"
    using assms(1) by (auto simp: loop_inv_def frags_sep_def sorted_wrt_append)
  then have "\<forall>r \<in> set rest. frag_e h new < frag_o h r" using lt o by fastforce
  then show ?thesis using assms(1) lt
    by (auto simp: loop_inv_def loop_done_def frags_sep_def sorted_wrt_append)
qed

lemma loop_inv_nil: "loop_inv h B e new merged pre [] \<Longrightarrow> loop_done h B new pre []"
  by (auto simp: loop_inv_def loop_done_def frags_sep_def sorted_wrt_append)

lemma RBPut_loop_done:
  assumes "RBPut_loop rbm e new merged pre rest = Some (rbm', new', merged', pre', rest')"
    and "loop_inv h B e new merged pre rest"
  shows "loop_done h B new' pre' rest'
    \<and> frag_cover h (rev pre' @ new' # rest') = frag_cover h (rev pre @ new # rest)
    \<and> (merged \<longrightarrow> merged')
    \<and> (\<not> merged' \<longrightarrow> new' = new \<and> rev pre' @ rest' = rev pre @ rest)"
  using assms
proof (induction rbm e new merged pre rest rule: RBPut_loop.induct)
  case (1 rbm e new merged pre)
  then show ?case using loop_inv_nil by auto
next
  case (2 rbm e new merged pre it rest)
  have s: "frag_small h B new" "frag_small h B it"
    using 2(4) by (auto simp: loop_inv_def frags_sep_def)
  show ?case
  proof (cases "CanMerge new it")
    case True
    with 2(3) obtain rbm1 where
      "RBPut_loop rbm1 e (MergeFragments new it) True pre rest = Some (rbm', new', merged', pre', rest')"
      "FreeFragmentContextSingle rbm new = Some rbm1"
      by (auto simp: bind_eq_Some_conv)
    from 2(1) [OF True this(2,1) loop_inv_merge [OF 2(4) True]] MergeFragments_cover [OF s True]
    show ?thesis by auto
  next
    case False
    show ?thesis
    proof (cases "merged \<or> GetMaxSeq e (f_seq it) = f_seq it")
      case True
      with False 2(3) loop_inv_stop [OF 2(4) False True] show ?thesis by auto
    next
      case F2: False
      then have "RBPut_loop rbm e new merged (it # pre) rest = Some (rbm', new', merged', pre', rest')"
        using 2(3) False by simp
      moreover have "loop_inv h B e new merged (it # pre) rest"
        using loop_inv_skip [of h B e new pre it rest] 2(4) False F2 by simp
      ultimately have "loop_done h B new' pre' rest'
        \<and> frag_cover h (rev pre' @ new' # rest') = frag_cover h (rev (it # pre) @ new # rest)
        \<and> (merged \<longrightarrow> merged')
        \<and> (\<not> merged' \<longrightarrow> new' = new \<and> rev pre' @ rest' = rev (it # pre) @ rest)"
        using 2(2) [OF False F2] by blast
      then show ?thesis by auto
    qed
  qed
qed

lemma RBPut_link_done:
  assumes "loop_done h B new pre rest" and "\<not> merged \<Longrightarrow> f_seq new = cur_seq"
  shows "RBPut_link cur_seq new merged pre rest = Some (rev pre @ new # rest)"
proof (cases merged)
  case True
  then show ?thesis by (simp add: RBPut_link_def)
next
  case False
  then have seq: "f_seq new = cur_seq" using assms by simp
  have s: "frag_small h B new" "\<forall>f \<in> set pre \<union> set rest. frag_small h B f"
    using assms(1) by (auto simp: loop_done_def frags_sep_def)
  have small: "seq_off h (f_seq f) < SEQ_HALF" if "frag_small h B f" for f
    using frag_small_bounds [OF that] by (simp add: frag_o_def)
  have before: "frag_e h p < frag_o h new" if "p \<in> set pre" for p
    using assms(1) that by (auto simp: loop_done_def frags_sep_def sorted_wrt_append)
  show ?thesis
  proof (cases pre)
    case Nil
    then show ?thesis
    proof (cases rest)
      case (Cons r rs)
      then have "frag_e h new < frag_o h r"
        using assms(1) Nil by (auto simp: loop_done_def frags_sep_def)
      then have "GetMinSeq cur_seq (f_seq r) = cur_seq"
        using frag_o_less_e [OF s(1)] small [OF s(1)] small [of r] s(2) Cons seq
        by (subst GetMinSeq_first [of h]) (auto simp: frag_o_def)
      with False Nil Cons show ?thesis by (simp add: RBPut_link_def)
    qed (simp add: RBPut_link_def False)
  next
    case (Cons p ps)
    obtain g gs where rp: "rev pre = g # gs" using Cons by (cases "rev pre") auto
    then have g: "rev pre @ rest = g # gs @ rest" "g \<in> set pre"
      using set_rev [of pre] by (simp_all del: set_rev)
    have sg: "frag_small h B g" and sp: "frag_small h B p" using s(2) g Cons by auto
    have "frag_o h g < frag_o h new" using before [OF g(2)] frag_o_less_e [OF sg] by simp
    then have "GetMinSeq cur_seq (f_seq g) \<noteq> cur_seq"
      using small [OF s(1)] small [OF sg] seq by (subst GetMinSeq_first [of h]) (auto simp: frag_o_def)
    moreover have "GetMinSeq cur_seq (f_seq p + f_len p) = f_seq p + f_len p"
      using before [of p] Cons small [OF s(1)] frag_small_bounds [OF sp] seq
      by (subst GetMinSeq_first [of h]) (auto simp: frag_end_off [OF sp] frag_o_def)
    ultimately show ?thesis using False g(1) Cons by (simp add: RBPut_link_def)
  qed
qed

end
