(* ===== verification/Recv_Buffer_Spec.thy ===== *)
theory Recv_Buffer_Spec
  imports Recv_Buffer_Frags
begin

text \<open>
  The receive buffer implements a partial map from stream positions to bytes. This theory
  holds the ownership invariant of the fragment contexts, the invariant of a buffer, and the
  functional behaviour of \<open>RBPut\<close> and \<open>RBRemove\<close>.
\<close>

declare of_nat_unat [simp del]

section \<open>Ownership of fragment contexts\<close>

text \<open>A fragment context of the pool is free in the pool, waits in one of the two free
  queues, or belongs to the fragment list of some buffer. \<open>own\<close> is the set of the contexts
  that belong to buffers. (A context that a full queue did not take is in none of the
  three.)\<close>

definition rbm_queued :: "rb_manager \<Rightarrow> frag_ptr list" where
  "rbm_queued rbm = click_items (rbm_free_fragq rbm) @ click_items (rbm_free_fragq_int rbm)"

definition rbm_inv :: "rb_manager \<Rightarrow> frag_ptr set \<Rightarrow> bool" where
  "rbm_inv rbm own \<longleftrightarrow>
     click_inv (rbm_free_fragq rbm) \<and> click_inv (rbm_free_fragq_int rbm) \<and>
     distinct (rbm_queued rbm) \<and> own \<inter> set (rbm_queued rbm) = {} \<and>
     (\<exists>L. pool_use (rbm_frag_mp rbm) L \<and> own \<union> set (rbm_queued rbm) \<subseteq> FPool ` L)"

text \<open>A context can be had without falling back to \<open>calloc\<close>.\<close>

definition frag_avail :: "rb_manager \<Rightarrow> bool" where
  "frag_avail rbm \<longleftrightarrow> rbm_queued rbm \<noteq> [] \<or> 0 < mp_free_chunks (rbm_frag_mp rbm)"

text \<open>What the fragment operations leave alone.\<close>

definition rbm_same :: "rb_manager \<Rightarrow> rb_manager \<Rightarrow> bool" where
  "rbm_same rbm rbm' \<longleftrightarrow> rbm_mp rbm' = rbm_mp rbm \<and> rbm_cur_num rbm' = rbm_cur_num rbm
     \<and> rbm_chunk_size rbm' = rbm_chunk_size rbm \<and> rbm_bytes rbm' = rbm_bytes rbm"

lemma rbm_same_refl [simp]: "rbm_same rbm rbm"
  by (simp add: rbm_same_def)

lemma rbm_same_trans: "rbm_same a b \<Longrightarrow> rbm_same b c \<Longrightarrow> rbm_same a c"
  by (simp add: rbm_same_def)

lemma FreeFragmentContextSingle_ok:
  assumes "rbm_inv rbm own" and "f_ptr f \<in> own" and "\<not> f_is_calloc f"
  shows "\<exists>rbm'. FreeFragmentContextSingle rbm f = Some rbm' \<and> rbm_inv rbm' (own - {f_ptr f})
    \<and> rbm_same rbm rbm'"
proof -
  from assms(1) obtain L where L: "pool_use (rbm_frag_mp rbm) L"
    "own \<union> set (rbm_queued rbm) \<subseteq> FPool ` L" by (auto simp: rbm_inv_def)
  with assms(2) obtain p where p: "f_ptr f = FPool p" "p \<in> L" by auto
  from pool.dealloc_owns [OF pool_use_owns [OF L(1)] p(2)] obtain mp where
    mp: "MPFreeChunk (rbm_frag_mp rbm) p = Some mp" by auto
  let ?rbm = "rbm\<lparr>rbm_frag_mp := mp\<rparr>"
  have q: "rbm_queued ?rbm = rbm_queued rbm" by (simp add: rbm_queued_def)
  have "pool_use mp (L - {p})" using L(1) p(2) mp by (rule pool_use.release)
  moreover have "own - {FPool p} \<union> set (rbm_queued rbm) \<subseteq> FPool ` (L - {p})"
  proof -
    have "own \<inter> set (rbm_queued rbm) = {}" using assms(1) by (simp add: rbm_inv_def)
    then have "FPool p \<notin> set (rbm_queued rbm)" using assms(2) p(1) by auto
    moreover have "FPool ` (L - {p}) = FPool ` L - {FPool p}" by auto
    ultimately show ?thesis using L(2) by auto
  qed
  ultimately have "rbm_inv ?rbm (own - {f_ptr f})"
    using assms(1) p(1) unfolding rbm_inv_def q by auto
  moreover have "FreeFragmentContextSingle rbm f = Some ?rbm"
    using assms(3) p mp by (simp add: FreeFragmentContextSingle_def)
  ultimately show ?thesis by (auto simp: rbm_same_def)
qed

lemma AllocateFragmentContext_pool:
  assumes "rbm_inv rbm own" and "rbm_queued rbm = []" and "0 < mp_free_chunks (rbm_frag_mp rbm)"
  shows "\<exists>p rbm'. AllocateFragmentContext ok rbm = Some (frag_zero p, rbm') \<and> p \<notin> own
    \<and> rbm_inv rbm' (insert p own) \<and> rbm_same rbm rbm'"
proof -
  have inv: "click_inv (rbm_free_fragq rbm)" "click_inv (rbm_free_fragq_int rbm)"
    using assms(1) by (auto simp: rbm_inv_def)
  have nil: "click_items (rbm_free_fragq rbm) = []" "click_items (rbm_free_fragq_int rbm) = []"
    using assms(2) by (auto simp: rbm_queued_def)
  note d = frag_q.deq_empty [OF inv(1) nil(1)] frag_q.deq_empty [OF inv(2) nil(2)]
  from assms(1) obtain L where L: "pool_use (rbm_frag_mp rbm) L"
    "own \<union> set (rbm_queued rbm) \<subseteq> FPool ` L" by (auto simp: rbm_inv_def)
  have "MPAllocateChunk (rbm_frag_mp rbm) \<noteq> Some (None, rbm_frag_mp rbm)"
    using assms(3) by (auto simp: MPAllocateChunk_def Let_def split: option.splits)
  with pool.alloc_owns [OF pool_use_owns [OF L(1)]] obtain c mp where
    c: "MPAllocateChunk (rbm_frag_mp rbm) = Some (Some c, mp)" "c \<notin> L" by auto
  let ?rbm = "rbm\<lparr>rbm_frag_mp := mp\<rparr>"
  have q: "rbm_queued ?rbm = rbm_queued rbm" by (simp add: rbm_queued_def)
  have "pool_use mp (insert c L)" using L(1) c(1) by (rule pool_use.allocate)
  then have "rbm_inv ?rbm (insert (FPool c) own)"
    using assms(1,2) L(2) c(2) unfolding rbm_inv_def q by auto
  moreover have "AllocateFragmentContext ok rbm = Some (frag_zero (FPool c), ?rbm)"
    using d c by (simp add: AllocateFragmentContext_def)
  moreover have "FPool c \<notin> own" using c(2) L(2) by auto
  ultimately show ?thesis by (auto simp: rbm_same_def)
qed

lemma AllocateFragmentContext_ok:
  assumes "rbm_inv rbm own" and "frag_avail rbm"
  shows "\<exists>p rbm'. AllocateFragmentContext ok rbm = Some (frag_zero p, rbm') \<and> p \<notin> own
    \<and> rbm_inv rbm' (insert p own) \<and> rbm_same rbm rbm'"
proof -
  have inv: "click_inv (rbm_free_fragq rbm)" "click_inv (rbm_free_fragq_int rbm)"
    using assms(1) by (auto simp: rbm_inv_def)
  show ?thesis
  proof (cases "click_items (rbm_free_fragq rbm)")
    case (Cons p ps)
    from frag_q.deq_item [OF inv(1) Cons] obtain q where q:
      "RBFragDequeue (rbm_free_fragq rbm) = Some (Some p, q)" "click_inv q" "click_items q = ps" by blast
    let ?rbm = "rbm\<lparr>rbm_free_fragq := q\<rparr>"
    have "rbm_queued rbm = p # rbm_queued ?rbm" using Cons q by (simp add: rbm_queued_def)
    then have "p \<notin> own" "rbm_inv ?rbm (insert p own)" using assms(1) q by (auto simp: rbm_inv_def)
    with q show ?thesis by (auto simp: AllocateFragmentContext_def rbm_same_def)
  next
    case Nil
    note d = frag_q.deq_empty [OF inv(1) Nil]
    show ?thesis
    proof (cases "click_items (rbm_free_fragq_int rbm)")
      case (Cons p ps)
      from frag_q.deq_item [OF inv(2) Cons] obtain q where q:
        "RBFragDequeue (rbm_free_fragq_int rbm) = Some (Some p, q)" "click_inv q"
        "click_items q = ps" by blast
      let ?rbm = "rbm\<lparr>rbm_free_fragq_int := q\<rparr>"
      have "rbm_queued rbm = p # rbm_queued ?rbm" using Nil Cons q by (simp add: rbm_queued_def)
      then have "p \<notin> own" "rbm_inv ?rbm (insert p own)" using assms(1) q by (auto simp: rbm_inv_def)
      with q d show ?thesis by (auto simp: AllocateFragmentContext_def rbm_same_def)
    next
      case Nil2: Nil
      with Nil assms(2) AllocateFragmentContext_pool [OF assms(1)] show ?thesis
        by (simp add: rbm_queued_def frag_avail_def)
    qed
  qed
qed

text \<open>The traversal frees exactly the contexts that leave the list.\<close>

definition frags_owned :: "fragment_ctx list \<Rightarrow> bool" where
  "frags_owned fs \<longleftrightarrow> distinct (map f_ptr fs) \<and> (\<forall>f \<in> set fs. \<not> f_is_calloc f)"

lemma RBPut_loop_total:
  assumes "rbm_inv rbm (f_ptr ` set (rev pre @ new # rest) \<union> own)"
    and "frags_owned (rev pre @ new # rest)"
    and "f_ptr ` set (rev pre @ new # rest) \<inter> own = {}"
  shows "\<exists>rbm' new' merged' pre' rest'.
    RBPut_loop rbm e new merged pre rest = Some (rbm', new', merged', pre', rest')
    \<and> rbm_inv rbm' (f_ptr ` set (rev pre' @ new' # rest') \<union> own)
    \<and> frags_owned (rev pre' @ new' # rest')
    \<and> f_ptr ` set (rev pre' @ new' # rest') \<inter> own = {} \<and> rbm_same rbm rbm'"
  using assms
proof (induction rest arbitrary: rbm new merged pre)
  case Nil
  then show ?case by simp
next
  case (Cons it rest)
  show ?case
  proof (cases "CanMerge new it")
    case True
    let ?it = "MergeFragments new it"
    have pi: "f_ptr ?it = f_ptr it" "f_is_calloc ?it = f_is_calloc it"
      by (simp_all add: MergeFragments_def Let_def)
    from Cons.prems(2) have nc: "\<not> f_is_calloc new" by (simp add: frags_owned_def)
    from FreeFragmentContextSingle_ok [OF Cons.prems(1) _ nc] obtain rbm1 where
      f: "FreeFragmentContextSingle rbm new = Some rbm1" "rbm_same rbm rbm1"
      and r: "rbm_inv rbm1 (f_ptr ` set (rev pre @ new # it # rest) \<union> own - {f_ptr new})" by auto
    have eq: "f_ptr ` set (rev pre @ new # it # rest) \<union> own - {f_ptr new}
        = f_ptr ` set (rev pre @ ?it # rest) \<union> own"
      using Cons.prems(2,3) by (auto simp: frags_owned_def pi)
    have "frags_owned (rev pre @ ?it # rest)" using Cons.prems(2) by (auto simp: frags_owned_def pi)
    moreover have "f_ptr ` set (rev pre @ ?it # rest) \<inter> own = {}"
      using Cons.prems(3) by (auto simp: pi)
    ultimately show ?thesis
      using Cons.IH [of rbm1 pre ?it True] r [unfolded eq] f True
      by (auto intro: rbm_same_trans)
  next
    case False
    show ?thesis
    proof (cases "merged \<or> GetMaxSeq e (f_seq it) = f_seq it")
      case True
      with False Cons.prems show ?thesis by auto
    next
      case F2: False
      have eq: "f_ptr ` set (rev pre @ new # it # rest) = f_ptr ` set (rev (it # pre) @ new # rest)"
        by auto
      have "frags_owned (rev (it # pre) @ new # rest)"
        using Cons.prems(2) by (auto simp: frags_owned_def)
      with Cons.IH [of rbm "it # pre" new merged] Cons.prems(1,3) [unfolded eq] False F2
      show ?thesis by simp
    qed
  qed
qed

section \<open>The buffer\<close>

text \<open>The layout of the chunk, without the fragments.\<close>

definition rb_layout :: "tcp_ring_buffer \<Rightarrow> bool" where
  "rb_layout b \<longleftrightarrow> length (rb_data b) = nat (rb_size b) \<and> 0 \<le> rb_size b \<and> rb_size b \<le> int RB_MAX
     \<and> rb_head b = unat (rb_head_offset b) \<and> unat (rb_head_offset b) \<le> unat (rb_tail_offset b)
     \<and> int (unat (rb_tail_offset b)) \<le> rb_size b
     \<and> rb_last_len b = int (unat (rb_tail_offset b) - unat (rb_head_offset b))"

definition rb_first_len :: "tcp_ring_buffer \<Rightarrow> int" where
  "rb_first_len b = (case rb_fctx b of [] \<Rightarrow> 0
     | f # _ \<Rightarrow> if f_seq f = rb_head_seq b then int (unat (f_len f)) else 0)"

definition rb_inv :: "tcp_ring_buffer \<Rightarrow> bool" where
  "rb_inv b \<longleftrightarrow> rb_layout b \<and> frags_sep (rb_head_seq b) (nat (rb_last_len b)) (rb_fctx b)
     \<and> frags_owned (rb_fctx b) \<and> rb_merged_len b = rb_first_len b
     \<and> rb_head_seq b + word_of_int (rb_merged_len b) = rb_init_seq b + ucast (rb_cum_len b)"

definition rb_cover :: "tcp_ring_buffer \<Rightarrow> nat set" where
  "rb_cover b = frag_cover (rb_head_seq b) (rb_fctx b)"

text \<open>The bytes received, by their distance from the next byte to read.\<close>

definition rb_map :: "tcp_ring_buffer \<Rightarrow> nat \<Rightarrow> byte option" where
  "rb_map b i = (if i \<in> rb_cover b then Some (rb_data b ! (rb_head b + i)) else None)"

text \<open>The bytes that can be read now.\<close>

definition rb_ready :: "tcp_ring_buffer \<Rightarrow> byte list" where
  "rb_ready b = take (nat (rb_merged_len b)) (drop (rb_head b) (rb_data b))"

lemma rb_cover_bound: "rb_inv b \<Longrightarrow> i \<in> rb_cover b \<Longrightarrow> i < nat (rb_last_len b)"
proof -
  assume "rb_inv b" and "i \<in> rb_cover b"
  then obtain f where "f \<in> set (rb_fctx b)" "i < frag_e (rb_head_seq b) f"
    by (auto simp: rb_cover_def frag_cover_def)
  moreover have "frag_small (rb_head_seq b) (nat (rb_last_len b)) f"
    using \<open>rb_inv b\<close> calculation(1) by (simp add: rb_inv_def frags_sep_def)
  ultimately show ?thesis by (simp add: frag_small_def)
qed

lemma word_of_int_nonneg: "0 \<le> x \<Longrightarrow> x < 4294967296 \<Longrightarrow> unat (word_of_int x :: u32) = nat x"
  by (simp add: unat_eq_nat_uint uint_word_of_int)

text \<open>The first half of the store, which may move the data to the front of the chunk.\<close>

definition rb_shift :: "tcp_ring_buffer \<Rightarrow> int \<Rightarrow> tcp_ring_buffer option" where
  "rb_shift buff end_off =
     (if word_of_int (rb_size buff) \<le> rb_head_offset buff + word_of_int end_off then
        (if rb_last_len buff < 0 then None
         else do {
           d \<leftarrow> memmove_at (rb_data buff) 0 (rb_head buff) (nat (rb_last_len buff));
           Some (buff\<lparr>rb_data := d, rb_tail_offset := rb_tail_offset buff - rb_head_offset buff,
                      rb_head_offset := 0, rb_head := 0\<rparr>)
         })
      else Some buff)"

lemma rb_shift_ok:
  assumes L: "rb_layout b" and fit: "0 \<le> e" "e \<le> rb_size b"
  shows "\<exists>d head tail. rb_shift b e = Some (b\<lparr>rb_data := d, rb_head := unat head,
        rb_head_offset := head, rb_tail_offset := tail\<rparr>)
    \<and> rb_layout (b\<lparr>rb_data := d, rb_head := unat head, rb_head_offset := head, rb_tail_offset := tail\<rparr>)
    \<and> int (unat head) + e \<le> rb_size b
    \<and> (\<forall>i. int i < rb_last_len b \<longrightarrow> d ! (unat head + i) = rb_data b ! (rb_head b + i))"
proof -
  let ?h = "unat (rb_head_offset b)" and ?t = "unat (rb_tail_offset b)"
  from L have I: "length (rb_data b) = nat (rb_size b)" "0 \<le> rb_size b" "rb_size b \<le> int RB_MAX"
    "rb_head b = ?h" "?h \<le> ?t" "int ?t \<le> rb_size b" "rb_last_len b = int (?t - ?h)"
    by (auto simp: rb_layout_def)
  have e: "unat (word_of_int e :: u32) = nat e" and sz: "unat (word_of_int (rb_size b) :: u32) = nat (rb_size b)"
    using fit I(2,3) by (auto intro!: word_of_int_nonneg)
  have he: "unat (rb_head_offset b + word_of_int e) = ?h + nat e"
    using e fit I by (subst unat_add_small) auto
  show ?thesis
  proof (cases "word_of_int (rb_size b) \<le> rb_head_offset b + word_of_int e")
    case True
    have tl: "unat (rb_tail_offset b - rb_head_offset b) = ?t - ?h"
      using I(5) by (simp add: unat_sub word_le_nat_alt)
    have rd: "rb_head b + nat (rb_last_len b) \<le> length (rb_data b)"
      and wr: "0 + nat (rb_last_len b) \<le> length (rb_data b)"
      using I by auto
    obtain d where d: "memmove_at (rb_data b) 0 (rb_head b) (nat (rb_last_len b)) = Some d"
      using memmove_at_Some [OF rd wr] by blast
    have nth: "d ! i = rb_data b ! (rb_head b + i)" if "int i < rb_last_len b" for i
      using nth_memmove_at [OF d, of i] that wr by auto
    let ?b = "b\<lparr>rb_data := d, rb_head := unat (0 :: u32), rb_head_offset := 0,
      rb_tail_offset := rb_tail_offset b - rb_head_offset b\<rparr>"
    have "rb_shift b e = Some ?b" using True d I(7) by (simp add: rb_shift_def)
    moreover have "rb_layout ?b"
      using I tl length_memmove_at [OF d] by (auto simp: rb_layout_def)
    ultimately show ?thesis using nth fit
      by (rule_tac x = d in exI, rule_tac x = 0 in exI,
          rule_tac x = "rb_tail_offset b - rb_head_offset b" in exI) auto
  next
    case False
    then have "\<not> rb_size b \<le> int ?h + e" using he sz fit by (auto simp: word_le_nat_alt)
    then show ?thesis using False L I
      by (rule_tac x = "rb_data b" in exI, rule_tac x = "rb_head_offset b" in exI,
          rule_tac x = "rb_tail_offset b" in exI) (auto simp: rb_shift_def rb_layout_def)
  qed
qed

text \<open>The second half, which copies the payload.\<close>

definition rb_write :: "tcp_ring_buffer \<Rightarrow> byte list \<Rightarrow> int \<Rightarrow> int \<Rightarrow> tcp_ring_buffer option" where
  "rb_write buff1 src putx end_off = do {
     d \<leftarrow> (if int (rb_head buff1) + putx < 0 then None
          else memcpy_at (rb_data buff1) (nat (int (rb_head buff1) + putx)) src);
     let tail = (if rb_tail_offset buff1 < rb_head_offset buff1 + word_of_int end_off
                 then rb_head_offset buff1 + word_of_int end_off else rb_tail_offset buff1);
     Some (buff1\<lparr>rb_data := d, rb_tail_offset := tail,
                 rb_last_len := sint (tail - rb_head_offset buff1)\<rparr>)
   }"

lemma RBPut_store_split:
  "RBPut_store b data len putx e = do {
     src \<leftarrow> read_at data 0 (unat len); b1 \<leftarrow> rb_shift b e; rb_write b1 src putx e }"
  by (simp add: RBPut_store_def rb_shift_def rb_write_def)

lemma rb_write_ok:
  assumes L: "rb_layout b" and fit: "int (unat (rb_head_offset b)) + int (p + length src) \<le> rb_size b"
  shows "\<exists>d tail. rb_write b src (int p) (int (p + length src)) = Some (b\<lparr>rb_data := d,
        rb_tail_offset := tail, rb_last_len := max (rb_last_len b) (int (p + length src))\<rparr>)
    \<and> rb_layout (b\<lparr>rb_data := d, rb_tail_offset := tail,
                   rb_last_len := max (rb_last_len b) (int (p + length src))\<rparr>)
    \<and> (\<forall>i < length d. d ! i = (if rb_head b + p \<le> i \<and> i < rb_head b + p + length src
          then src ! (i - (rb_head b + p)) else rb_data b ! i))"
proof -
  let ?h = "unat (rb_head_offset b)" and ?t = "unat (rb_tail_offset b)" and ?e = "p + length src"
  from L have I: "length (rb_data b) = nat (rb_size b)" "0 \<le> rb_size b" "rb_size b \<le> int RB_MAX"
    "rb_head b = ?h" "?h \<le> ?t" "int ?t \<le> rb_size b" "rb_last_len b = int (?t - ?h)"
    by (auto simp: rb_layout_def)
  define ew :: u32 where ew: "ew = word_of_int (int ?e)"
  have e: "unat ew = ?e" unfolding ew using fit I by (subst word_of_int_nonneg) auto
  have he: "unat (rb_head_offset b + ew) = ?h + ?e"
    using fit I by (subst unat_add_small) (auto simp: e)
  define tail where "tail = (if rb_tail_offset b < rb_head_offset b + ew
    then rb_head_offset b + ew else rb_tail_offset b)"
  have t: "unat tail = max ?t (?h + ?e)" by (auto simp: tail_def word_less_nat_alt he)
  have "unat (tail - rb_head_offset b) = unat tail - ?h"
    using t I(5) by (simp add: unat_sub word_le_nat_alt)
  then have last: "sint (tail - rb_head_offset b) = max (rb_last_len b) (int ?e)"
    using t I fit by (subst sint_small) auto
  have "?h + p + length src \<le> length (rb_data b)" using fit I by auto
  then obtain d where d: "memcpy_at (rb_data b) (?h + p) src = Some d"
    using memcpy_at_Some by blast
  have "rb_write b src (int p) (int ?e) = Some (b\<lparr>rb_data := d, rb_tail_offset := tail,
      rb_last_len := max (rb_last_len b) (int ?e)\<rparr>)"
    using d I(4) unfolding rb_write_def last [symmetric] ew [symmetric]
    by (simp add: tail_def nat_add_distrib Let_def)
  moreover have "rb_layout (b\<lparr>rb_data := d, rb_tail_offset := tail,
      rb_last_len := max (rb_last_len b) (int ?e)\<rparr>)"
    using I fit t length_memcpy_at [OF d] by (auto simp: rb_layout_def)
  ultimately show ?thesis using nth_memcpy_at [OF d] length_memcpy_at [OF d] I(4)
    by (rule_tac x = d in exI, rule_tac x = tail in exI) auto
qed

lemma RBPut_store_ok:
  assumes L: "rb_layout b" and fit: "int (p + unat len) \<le> rb_size b" and len: "unat len \<le> length data"
  shows "\<exists>d head tail. RBPut_store b data len (int p) (int (p + unat len))
      = Some (b\<lparr>rb_data := d, rb_head := unat head, rb_head_offset := head, rb_tail_offset := tail,
                rb_last_len := max (rb_last_len b) (int (p + unat len))\<rparr>)
    \<and> rb_layout (b\<lparr>rb_data := d, rb_head := unat head, rb_head_offset := head, rb_tail_offset := tail,
                rb_last_len := max (rb_last_len b) (int (p + unat len))\<rparr>)
    \<and> (\<forall>i. p \<le> i \<and> i < p + unat len \<longrightarrow> d ! (unat head + i) = data ! (i - p))
    \<and> (\<forall>i. int i < rb_last_len b \<and> \<not> (p \<le> i \<and> i < p + unat len) \<longrightarrow>
         d ! (unat head + i) = rb_data b ! (rb_head b + i))"
proof -
  let ?n = "unat len" and ?src = "take (unat len) data"
  have rd: "read_at data 0 ?n = Some ?src" and ls: "length ?src = ?n"
    using len by (simp_all add: read_at_def)
  from rb_shift_ok [OF L _ fit] obtain d head tail where s:
    "rb_shift b (int (p + ?n)) = Some (b\<lparr>rb_data := d, rb_head := unat head,
        rb_head_offset := head, rb_tail_offset := tail\<rparr>)"
    "rb_layout (b\<lparr>rb_data := d, rb_head := unat head, rb_head_offset := head, rb_tail_offset := tail\<rparr>)"
    "int (unat head) + int (p + ?n) \<le> rb_size b"
    "\<And>i. int i < rb_last_len b \<Longrightarrow> d ! (unat head + i) = rb_data b ! (rb_head b + i)" by auto
  let ?b1 = "b\<lparr>rb_data := d, rb_head := unat head, rb_head_offset := head, rb_tail_offset := tail\<rparr>"
  from rb_write_ok [OF s(2), of p ?src] s(3) ls obtain d' tail' where w:
    "rb_write ?b1 ?src (int p) (int (p + ?n)) = Some (?b1\<lparr>rb_data := d', rb_tail_offset := tail',
       rb_last_len := max (rb_last_len b) (int (p + ?n))\<rparr>)"
    "rb_layout (?b1\<lparr>rb_data := d', rb_tail_offset := tail',
       rb_last_len := max (rb_last_len b) (int (p + ?n))\<rparr>)"
    "\<And>i. i < length d' \<Longrightarrow> d' ! i = (if unat head + p \<le> i \<and> i < unat head + p + ?n
          then ?src ! (i - (unat head + p)) else d ! i)" by auto
  have bound: "unat head + i < length d'" if "i < p + ?n \<or> int i < rb_last_len b" for i
    using w(2) that by (auto simp: rb_layout_def)
  have "\<forall>i. p \<le> i \<and> i < p + ?n \<longrightarrow> d' ! (unat head + i) = data ! (i - p)"
    by (auto simp: w(3) [OF bound])
  moreover have "\<forall>i. int i < rb_last_len b \<and> \<not> (p \<le> i \<and> i < p + ?n) \<longrightarrow>
      d' ! (unat head + i) = rb_data b ! (rb_head b + i)"
    by (auto simp: w(3) [OF bound] s(4))
  ultimately show ?thesis using s(1) w(1,2) rd
    by (rule_tac x = d' in exI, rule_tac x = head in exI, rule_tac x = tail' in exI)
      (simp add: RBPut_store_split rb_layout_def)
qed

section \<open>RBPut\<close>

lemma frags_sep_mono: "frags_sep h B fs \<Longrightarrow> B \<le> B' \<Longrightarrow> B' \<le> RB_MAX \<Longrightarrow> frags_sep h B' fs"
  by (auto simp: frags_sep_def frag_small_def)

lemma frag_cover_0:
  assumes "frags_sep h B fs"
  shows "0 \<in> frag_cover h fs \<longleftrightarrow> (\<exists>f gs. fs = f # gs \<and> f_seq f = h)"
proof -
  have z: "frag_o h f = 0 \<longleftrightarrow> f_seq f = h" for f
    using seq_off_inj [of h "f_seq f" h] by (simp add: frag_o_def)
  show ?thesis
  proof (cases fs)
    case (Cons f gs)
    have "frag_o h f < frag_e h f" using assms Cons by (auto simp: frags_sep_def intro: frag_o_less_e)
    moreover have "0 \<notin> frag_cover h gs"
      using assms Cons by (fastforce simp: frags_sep_def frag_cover_def)
    ultimately show ?thesis using Cons z by auto
  qed simp
qed

lemma rb_merged_zero:
  assumes "rb_inv b" and "0 \<notin> rb_cover b"
  shows "rb_merged_len b = 0"
  using assms frag_cover_0 [of "rb_head_seq b" "nat (rb_last_len b)" "rb_fctx b"]
  by (auto simp: rb_inv_def rb_cover_def rb_first_len_def split: list.splits)

text \<open>The last step of \<open>RBPut\<close>: the counters follow the first fragment.\<close>

definition rb_count :: "tcp_ring_buffer \<Rightarrow> fragment_ctx \<Rightarrow> tcp_ring_buffer" where
  "rb_count b f = (if rb_head_seq b = f_seq f
     then b\<lparr>rb_cum_len := rb_cum_len b + word_of_int (int (unat (f_len f)) - rb_merged_len b),
            rb_merged_len := int (unat (f_len f))\<rparr> else b)"

lemma rb_count_inv:
  assumes "rb_layout b" and "frags_sep (rb_head_seq b) (nat (rb_last_len b)) (rb_fctx b)"
    and "frags_owned (rb_fctx b)" and "rb_fctx b = f # fs"
    and "rb_head_seq b + word_of_int (rb_merged_len b) = rb_init_seq b + ucast (rb_cum_len b)"
    and "f_seq f \<noteq> rb_head_seq b \<Longrightarrow> rb_merged_len b = 0"
  shows "rb_inv (rb_count b f)"
proof (cases "rb_head_seq b = f_seq f")
  case True
  let ?m = "int (unat (f_len f))"
  have "rb_init_seq b + ucast (rb_cum_len b + word_of_int (?m - rb_merged_len b))
      = rb_head_seq b + word_of_int (rb_merged_len b) + word_of_int (?m - rb_merged_len b)"
    by (simp only: assms(5) ucast_add_32 ucast_word_of_int_32 add.assoc)
  also have "\<dots> = rb_head_seq b + word_of_int ?m"
    by (simp only: add.assoc of_int_add [symmetric]) simp
  finally show ?thesis using assms(1-4) True
    unfolding rb_inv_def rb_count_def rb_layout_def rb_first_len_def by simp
next
  case False
  then show ?thesis using assms by (auto simp: rb_inv_def rb_count_def rb_first_len_def)
qed

lemma seq_off_put:
  assumes "seq_off h cur + unat len < SEQ_HALF"
  shows "GetMinSeq h cur = h" and "sint (cur - h) = int (seq_off h cur)"
    and "sint (cur - h + len) = int (seq_off h cur + unat len)"
    and "seq_off h (cur + len) = seq_off h cur + unat len"
proof -
  show "GetMinSeq h cur = h" using assms by (subst GetMinSeq_first [of h]) auto
  show "sint (cur - h) = int (seq_off h cur)" using assms by (subst sint_small) (auto simp: seq_off_def)
  have "unat (cur - h + len) = seq_off h cur + unat len"
    using assms by (subst unat_add_small) (auto simp: seq_off_def)
  then show "sint (cur - h + len) = int (seq_off h cur + unat len)"
    using assms by (subst sint_small) auto
  show "seq_off h (cur + len) = seq_off h cur + unat len" using assms by (intro seq_off_add) simp
qed

lemma RBPut_frags:
  assumes sep: "frags_sep h B fs" and own: "frags_owned fs" and dis: "f_ptr ` set fs \<inter> O' = {}"
    and inv: "rbm_inv rbm (f_ptr ` set fs \<union> O')" and av: "frag_avail rbm"
    and fit: "seq_off h cur + unat len \<le> B" and B: "B \<le> RB_MAX" and len: "0 < unat len"
  shows "\<exists>ctx rbm1 rbm2 new1 merged pre rest.
      AllocateFragmentContext ok rbm = Some (ctx, rbm1)
    \<and> RBPut_loop rbm1 (cur + len) (ctx\<lparr>f_seq := cur, f_len := u31 len\<rparr>) False [] fs
        = Some (rbm2, new1, merged, pre, rest)
    \<and> RBPut_link cur new1 merged pre rest = Some (rev pre @ new1 # rest)
    \<and> frags_sep h B (rev pre @ new1 # rest) \<and> frags_owned (rev pre @ new1 # rest)
    \<and> f_ptr ` set (rev pre @ new1 # rest) \<inter> O' = {}
    \<and> rbm_inv rbm2 (f_ptr ` set (rev pre @ new1 # rest) \<union> O') \<and> rbm_same rbm rbm2
    \<and> frag_cover h (rev pre @ new1 # rest)
        = {seq_off h cur ..< seq_off h cur + unat len} \<union> frag_cover h fs"
proof -
  from AllocateFragmentContext_ok [OF inv av, of ok] obtain q rbm1 where a:
    "AllocateFragmentContext ok rbm = Some (frag_zero q, rbm1)" "q \<notin> f_ptr ` set fs \<union> O'"
    "rbm_inv rbm1 (insert q (f_ptr ` set fs \<union> O'))" "rbm_same rbm rbm1" by blast
  define new where new: "new = (frag_zero q)\<lparr>f_seq := cur, f_len := u31 len\<rparr>"
  have u: "u31 len = len" using fit B by (intro u31_small) simp
  have n: "f_ptr new = q" "f_seq new = cur" "f_len new = len" "\<not> f_is_calloc new"
    by (simp_all add: new u frag_zero_def)
  have oe: "frag_o h new = seq_off h cur" "frag_e h new = seq_off h cur + unat len"
    by (simp_all add: frag_o_def frag_e_def n)
  have small: "frag_small h B new" using fit B len by (simp add: frag_small_def oe n)
  have li: "loop_inv h B (cur + len) new False [] fs"
    using sep small fit B seq_off_put(4) [of h cur len] by (simp add: loop_inv_def oe)
  have "rbm_inv rbm1 (f_ptr ` set (rev [] @ new # fs) \<union> O')" using a(3) n(1) by simp
  moreover have "frags_owned (rev [] @ new # fs)" using own a(2) n by (auto simp: frags_owned_def)
  moreover have "f_ptr ` set (rev [] @ new # fs) \<inter> O' = {}" using dis a(2) n(1) by auto
  ultimately obtain rbm2 new1 merged pre rest where l:
    "RBPut_loop rbm1 (cur + len) new False [] fs = Some (rbm2, new1, merged, pre, rest)"
    "rbm_inv rbm2 (f_ptr ` set (rev pre @ new1 # rest) \<union> O')" "frags_owned (rev pre @ new1 # rest)"
    "f_ptr ` set (rev pre @ new1 # rest) \<inter> O' = {}" "rbm_same rbm1 rbm2"
    using RBPut_loop_total by meson
  from RBPut_loop_done [OF l(1) li] have d: "loop_done h B new1 pre rest"
    "frag_cover h (rev pre @ new1 # rest) = frag_cover h (new # fs)" "\<not> merged \<Longrightarrow> new1 = new" by auto
  have "RBPut_link cur new1 merged pre rest = Some (rev pre @ new1 # rest)"
    using RBPut_link_done [OF d(1)] d(3) n(2) by auto
  moreover have "frags_sep h B (rev pre @ new1 # rest)" using d(1) by (simp add: loop_done_def)
  moreover have "frag_cover h (rev pre @ new1 # rest)
      = {seq_off h cur ..< seq_off h cur + unat len} \<union> frag_cover h fs"
    using d(2) by (simp add: oe)
  ultimately show ?thesis using a(1,4) l rbm_same_trans unfolding new by blast
qed

abbreviation rb_ptrs :: "tcp_ring_buffer \<Rightarrow> frag_ptr set" where
  "rb_ptrs b \<equiv> f_ptr ` set (rb_fctx b)"

lemma rb_count_fields [simp]:
  "rb_head_seq (rb_count b f) = rb_head_seq b" "rb_init_seq (rb_count b f) = rb_init_seq b"
  "rb_size (rb_count b f) = rb_size b" "rb_chunk (rb_count b f) = rb_chunk b"
  "rb_fctx (rb_count b f) = rb_fctx b" "rb_data (rb_count b f) = rb_data b"
  "rb_head (rb_count b f) = rb_head b"
  by (simp_all add: rb_count_def)

lemma RBPut_ok:
  assumes inv: "rb_inv b" and rinv: "rbm_inv rbm (rb_ptrs b \<union> O')" and dis: "rb_ptrs b \<inter> O' = {}"
    and av: "frag_avail rbm" and len: "0 < unat len" "unat len \<le> length data"
    and fit: "int (seq_off (rb_head_seq b) cur + unat len) \<le> rb_size b"
  shows "\<exists>b' rbm'. RBPut ok rbm b data len cur = Some (int (unat len), b', rbm')
    \<and> rb_inv b' \<and> rbm_inv rbm' (rb_ptrs b' \<union> O') \<and> rb_ptrs b' \<inter> O' = {} \<and> rbm_same rbm rbm'
    \<and> rb_head_seq b' = rb_head_seq b \<and> rb_init_seq b' = rb_init_seq b \<and> rb_size b' = rb_size b
    \<and> rb_chunk b' = rb_chunk b
    \<and> rb_map b' = (\<lambda>i. if seq_off (rb_head_seq b) cur \<le> i \<and> i < seq_off (rb_head_seq b) cur + unat len
                     then Some (data ! (i - seq_off (rb_head_seq b) cur)) else rb_map b i)"
proof -
  let ?h = "rb_head_seq b" and ?n = "unat len"
  define p where p: "p = seq_off ?h cur"
  define m where m: "m = max (rb_last_len b) (int (p + ?n))"
  have L: "rb_layout b" using inv by (simp add: rb_inv_def)
  have size: "rb_size b \<le> int RB_MAX" and last: "rb_last_len b \<le> rb_size b" "0 \<le> rb_last_len b"
    using L by (auto simp: rb_layout_def)
  have mx: "p + ?n \<le> RB_MAX" using fit size p by simp
  have mx2: "p + ?n < SEQ_HALF" using mx by simp
  note sq = seq_off_put [of ?h cur len, folded p, OF mx2]
  from RBPut_store_ok [OF L fit [folded p] len(2)] obtain d head tail where st:
    "RBPut_store b data len (int p) (int (p + ?n)) = Some (b\<lparr>rb_data := d, rb_head := unat head,
       rb_head_offset := head, rb_tail_offset := tail, rb_last_len := m\<rparr>)"
    "rb_layout (b\<lparr>rb_data := d, rb_head := unat head,
       rb_head_offset := head, rb_tail_offset := tail, rb_last_len := m\<rparr>)"
    "\<And>i. p \<le> i \<Longrightarrow> i < p + ?n \<Longrightarrow> d ! (unat head + i) = data ! (i - p)"
    "\<And>i. int i < rb_last_len b \<Longrightarrow> \<not> (p \<le> i \<and> i < p + ?n) \<Longrightarrow>
         d ! (unat head + i) = rb_data b ! (rb_head b + i)"
    unfolding m by blast
  have B: "nat m \<le> RB_MAX" "p + ?n \<le> nat m" "nat (rb_last_len b) \<le> nat m"
    using mx last size by (auto simp: m)
  have "frags_sep ?h (nat m) (rb_fctx b)"
    using inv B by (auto simp: rb_inv_def intro: frags_sep_mono)
  from RBPut_frags [OF this _ dis rinv av, of cur len ok, folded p] inv B len obtain
    ctx rbm1 rbm2 new1 merged pre rest where fr:
    "AllocateFragmentContext ok rbm = Some (ctx, rbm1)"
    "RBPut_loop rbm1 (cur + len) (ctx\<lparr>f_seq := cur, f_len := u31 len\<rparr>) False [] (rb_fctx b)
       = Some (rbm2, new1, merged, pre, rest)"
    "RBPut_link cur new1 merged pre rest = Some (rev pre @ new1 # rest)"
    "frags_sep ?h (nat m) (rev pre @ new1 # rest)" "frags_owned (rev pre @ new1 # rest)"
    "f_ptr ` set (rev pre @ new1 # rest) \<inter> O' = {}"
    "rbm_inv rbm2 (f_ptr ` set (rev pre @ new1 # rest) \<union> O')" "rbm_same rbm rbm2"
    "frag_cover ?h (rev pre @ new1 # rest) = {p ..< p + ?n} \<union> frag_cover ?h (rb_fctx b)"
    by (auto simp: rb_inv_def)
  obtain f fs where fs: "rev pre @ new1 # rest = f # fs" by (cases "rev pre") auto
  define b2 where b2: "b2 = (b\<lparr>rb_data := d, rb_head := unat head,
       rb_head_offset := head, rb_tail_offset := tail, rb_last_len := m\<rparr>)\<lparr>rb_fctx := f # fs\<rparr>"
  have m0: "f_seq f \<noteq> ?h \<Longrightarrow> rb_merged_len b = 0"
  proof -
    assume "f_seq f \<noteq> ?h"
    then have "0 \<notin> frag_cover ?h (f # fs)" using frag_cover_0 [OF fr(4)] fs by auto
    moreover have "rb_cover b \<subseteq> frag_cover ?h (f # fs)"
      using fr(9) unfolding fs rb_cover_def by blast
    ultimately have "0 \<notin> rb_cover b" by blast
    then show ?thesis by (rule rb_merged_zero [OF inv])
  qed
  have cum: "?h + word_of_int (rb_merged_len b) = rb_init_seq b + ucast (rb_cum_len b)"
    using inv unfolding rb_inv_def by blast
  have b2f: "rb_head_seq b2 = ?h" "rb_init_seq b2 = rb_init_seq b" "rb_merged_len b2 = rb_merged_len b"
    "rb_cum_len b2 = rb_cum_len b" "rb_last_len b2 = m" "rb_fctx b2 = f # fs" "rb_size b2 = rb_size b"
    "rb_data b2 = d" "rb_head b2 = unat head" "rb_chunk b2 = rb_chunk b"
    by (simp_all add: b2)
  have inv2: "rb_inv (rb_count b2 f)"
  proof (rule rb_count_inv)
    show "rb_layout b2" using st(2) by (simp add: b2 rb_layout_def)
  qed (use fr(4,5) fs m0 cum in \<open>simp_all add: b2f\<close>)
  have "RBPut ok rbm b data len cur = Some (sint len, rb_count b2 f, rbm2)"
    using len(1) sq fit st(1) fr(1-3) fs
    by (simp add: RBPut_def Let_def p [symmetric] rb_count_def b2 unat_gt_0 del: of_nat_add)
  moreover have "sint len = int ?n" using mx by (subst sint_small) auto
  moreover have "rb_map (rb_count b2 f) = (\<lambda>i. if p \<le> i \<and> i < p + ?n then Some (data ! (i - p))
      else rb_map b i)"
  proof
    fix i
    have c: "i \<in> rb_cover (rb_count b2 f) \<longleftrightarrow> p \<le> i \<and> i < p + ?n \<or> i \<in> rb_cover b"
      using fr(9) fs by (auto simp: rb_cover_def b2f)
    have "int i < rb_last_len b" if "i \<in> rb_cover b" using rb_cover_bound [OF inv that] by simp
    with st(3,4) [of i] c show "rb_map (rb_count b2 f) i =
        (if p \<le> i \<and> i < p + ?n then Some (data ! (i - p)) else rb_map b i)"
      by (auto simp: rb_map_def b2f)
  qed
  ultimately show ?thesis using inv2 fr(6-8) fs unfolding p [symmetric]
    by (intro exI [of _ "rb_count b2 f"] exI [of _ rbm2]) (simp add: b2f)
qed

text \<open>Segments that are not stored.\<close>

lemma GetMinSeq_before:
  assumes "SEQ_HALF < seq_off h cur"
  shows "GetMinSeq h cur \<noteq> h"
proof -
  define x where x: "x = cur - h"
  have ux: "SEQ_HALF < unat x" using assms by (simp add: x seq_off_def)
  have "x \<noteq> 0x80000000" using ux by auto
  moreover have "\<not> TCP_SEQ_LEQ h cur"
  proof -
    have hx: "h - cur = - x" by (simp add: x)
    have "sint x < 0" using ux unat_u32_less [of x] by (subst sint_large) auto
    then have "0x7FFFFFFF < x" using sint_neg_iff by blast
    moreover have nz: "x \<noteq> 0" using ux by auto
    ultimately have "- x \<le> 0x7FFFFFFF"
      using neg_le_half_iff [OF nz \<open>x \<noteq> 0x80000000\<close>] by simp
    moreover have "- x \<noteq> 0" using nz by simp
    ultimately show ?thesis unfolding TCP_SEQ_LEQ_def hx using sint_pos_iff [of "- x"] by simp
  qed
  ultimately have "GetMinSeq h cur = cur"
    using GetMinMaxSeq_TCP_SEQ(1) [of cur h] by (simp add: x)
  moreover have "cur \<noteq> h" using assms by auto
  ultimately show ?thesis by simp
qed

lemma RBPut_reject:
  shows "RBPut ok rbm b data 0 cur = Some (0, b, rbm)"
    and "SEQ_HALF < seq_off (rb_head_seq b) cur \<Longrightarrow> RBPut ok rbm b data len cur = Some (0, b, rbm)"
    and "rb_size b < int (seq_off (rb_head_seq b) cur + unat len) \<Longrightarrow>
      seq_off (rb_head_seq b) cur + unat len < SEQ_HALF \<Longrightarrow> 0 < unat len \<Longrightarrow>
      RBPut ok rbm b data len cur = Some (- 2, b, rbm)"
proof -
  show "RBPut ok rbm b data 0 cur = Some (0, b, rbm)" by (simp add: RBPut_def)
  show "RBPut ok rbm b data len cur = Some (0, b, rbm)" if "SEQ_HALF < seq_off (rb_head_seq b) cur"
    using GetMinSeq_before [OF that] by (simp add: RBPut_def)
  assume a: "rb_size b < int (seq_off (rb_head_seq b) cur + unat len)"
    "seq_off (rb_head_seq b) cur + unat len < SEQ_HALF" "0 < unat len"
  then have "len \<noteq> 0" by auto
  with a show "RBPut ok rbm b data len cur = Some (- 2, b, rbm)"
    using seq_off_put [OF a(2)] by (simp add: RBPut_def Let_def)
qed

section \<open>The readable prefix\<close>

text \<open>\<open>merged_len\<close> is the length of the longest received prefix.\<close>

lemma rb_merged_prefix:
  assumes "rb_inv b"
  shows "0 \<le> rb_merged_len b" and "rb_merged_len b \<le> rb_last_len b"
    and "\<And>i. int i < rb_merged_len b \<Longrightarrow> i \<in> rb_cover b"
    and "nat (rb_merged_len b) \<notin> rb_cover b"
    and "0 < rb_merged_len b \<Longrightarrow> \<exists>f fs. rb_fctx b = f # fs \<and> f_seq f = rb_head_seq b
      \<and> rb_merged_len b = int (unat (f_len f))"
proof -
  let ?h = "rb_head_seq b" and ?m = "rb_merged_len b"
  from assms have sep: "frags_sep ?h (nat (rb_last_len b)) (rb_fctx b)" and m: "?m = rb_first_len b"
    and L: "rb_layout b" by (auto simp: rb_inv_def)
  have last: "0 \<le> rb_last_len b" using L by (simp add: rb_layout_def)
  show "0 \<le> ?m" by (auto simp: m rb_first_len_def split: list.splits)
  show pos: "\<exists>f fs. rb_fctx b = f # fs \<and> f_seq f = ?h \<and> ?m = int (unat (f_len f))" if "0 < ?m"
    using that by (auto simp: m rb_first_len_def split: list.splits if_splits)
  have "?m \<le> rb_last_len b \<and> (\<forall>i. int i < ?m \<longrightarrow> i \<in> rb_cover b) \<and> nat ?m \<notin> rb_cover b"
  proof (cases "0 < ?m")
    case True
    then obtain f fs where f: "rb_fctx b = f # fs" "f_seq f = ?h" "?m = int (unat (f_len f))"
      using pos by blast
    then have oe: "frag_o ?h f = 0" "frag_e ?h f = nat ?m" by (simp_all add: frag_o_def frag_e_def)
    have "nat ?m \<le> nat (rb_last_len b)" using sep f oe by (auto simp: frags_sep_def frag_small_def)
    moreover have "nat ?m \<notin> frag_cover ?h fs"
      using sep f oe by (fastforce simp: frags_sep_def frag_cover_def)
    ultimately show ?thesis using f oe last by (auto simp: rb_cover_def)
  next
    case False
    have "0 \<notin> rb_cover b"
    proof
      assume "0 \<in> rb_cover b"
      then obtain f fs where "rb_fctx b = f # fs" "f_seq f = ?h"
        using frag_cover_0 [OF sep] by (auto simp: rb_cover_def)
      moreover then have "0 < unat (f_len f)" using sep by (auto simp: frags_sep_def frag_small_def)
      ultimately show False using False by (simp add: m rb_first_len_def)
    qed
    then show ?thesis using False last by auto
  qed
  then show "?m \<le> rb_last_len b" "\<And>i. int i < ?m \<Longrightarrow> i \<in> rb_cover b" "nat ?m \<notin> rb_cover b" by auto
qed

lemma rb_ready_nth:
  assumes "rb_inv b"
  shows "length (rb_ready b) = nat (rb_merged_len b)"
    and "i < nat (rb_merged_len b) \<Longrightarrow> rb_map b i = Some (rb_ready b ! i)"
proof -
  have "rb_layout b" using assms by (simp add: rb_inv_def)
  then have "rb_head b + nat (rb_merged_len b) \<le> length (rb_data b)"
    using rb_merged_prefix(1,2) [OF assms] by (auto simp: rb_layout_def)
  then show "length (rb_ready b) = nat (rb_merged_len b)"
    and "i < nat (rb_merged_len b) \<Longrightarrow> rb_map b i = Some (rb_ready b ! i)"
    using rb_merged_prefix(3) [OF assms, of i] by (auto simp: rb_ready_def rb_map_def)
qed

section \<open>RBRemove\<close>

text \<open>Moving the base forward by \<open>n\<close> moves every fragment behind it.\<close>

lemma frag_rebase:
  assumes "unat n \<le> frag_o h f"
  shows "frag_o (h + n) f = frag_o h f - unat n" and "frag_e (h + n) f = frag_e h f - unat n"
  using assms seq_off_rebase [of n h "f_seq f"] by (auto simp: frag_o_def frag_e_def)

lemma frags_sep_rebase:
  assumes "frags_sep h B fs" and "\<forall>f \<in> set fs. unat n \<le> frag_o h f"
  shows "frags_sep (h + n) (B - unat n) fs"
    and "frag_cover (h + n) fs = {i. i + unat n \<in> frag_cover h fs}"
proof -
  have re: "frag_o (h + n) f = frag_o h f - unat n" "frag_e (h + n) f = frag_e h f - unat n"
    "unat n \<le> frag_o h f" "unat n \<le> frag_e h f" if "f \<in> set fs" for f
    using frag_rebase [of n h f] assms(2) that by (auto simp: frag_e_def frag_o_def)
  have "sorted_wrt (\<lambda>f g. frag_e (h + n) f < frag_o (h + n) g) fs"
  proof (rule sorted_wrt_mono_rel [where P = "\<lambda>f g. frag_e h f < frag_o h g"])
    fix f g assume "f \<in> set fs" "g \<in> set fs" "frag_e h f < frag_o h g"
    then show "frag_e (h + n) f < frag_o (h + n) g" using re [of f] re [of g] by auto
  qed (use assms(1) in \<open>simp add: frags_sep_def\<close>)
  moreover have "frag_small (h + n) (B - unat n) f" if "f \<in> set fs" for f
    using assms(1) that re [OF that] by (auto simp: frags_sep_def frag_small_def)
  ultimately show "frags_sep (h + n) (B - unat n) fs" by (simp add: frags_sep_def)
  show "frag_cover (h + n) fs = {i. i + unat n \<in> frag_cover h fs}"
  proof (rule set_eqI)
    fix i
    have "i \<in> {frag_o (h + n) f ..< frag_e (h + n) f} \<longleftrightarrow> i + unat n \<in> {frag_o h f ..< frag_e h f}"
      if "f \<in> set fs" for f
      using re [OF that] by auto
    then show "i \<in> frag_cover (h + n) fs \<longleftrightarrow> i \<in> {i. i + unat n \<in> frag_cover h fs}"
      by (simp add: frag_cover_def)
  qed
qed

lemma rbm_inv_anti: "rbm_inv rbm own \<Longrightarrow> own' \<subseteq> own \<Longrightarrow> rbm_inv rbm own'"
  unfolding rbm_inv_def by blast

lemma frag_enqueue_items:
  assumes "click_inv q"
  shows "\<exists>r q'. RBFragEnqueue q p = Some (r, q') \<and> click_inv q' \<and>
    (click_items q' = click_items q @ [p] \<or> click_items q' = click_items q)"
  using assms frag_q.enq_room [OF assms, of p] frag_q.enq_full [OF assms, of p] frag_q.items_le [OF assms]
  by (cases "length (click_items q) < click_cap q") auto

lemma rbm_inv_enqueue:
  assumes "rbm_inv rbm (insert p own)" and "p \<notin> own"
  shows "\<exists>r q. RBFragEnqueue (rbm_free_fragq rbm) p = Some (r, q) \<and> rbm_inv (rbm\<lparr>rbm_free_fragq := q\<rparr>) own"
    and "\<exists>r q. RBFragEnqueue (rbm_free_fragq_int rbm) p = Some (r, q)
      \<and> rbm_inv (rbm\<lparr>rbm_free_fragq_int := q\<rparr>) own"
proof -
  have inv: "click_inv (rbm_free_fragq rbm)" "click_inv (rbm_free_fragq_int rbm)"
    and d: "distinct (rbm_queued rbm)" "insert p own \<inter> set (rbm_queued rbm) = {}"
    using assms(1) by (auto simp: rbm_inv_def)
  obtain L where L: "pool_use (rbm_frag_mp rbm) L"
    "insert p own \<union> set (rbm_queued rbm) \<subseteq> FPool ` L" using assms(1) unfolding rbm_inv_def by blast
  from frag_enqueue_items [OF inv(1), of p] obtain r q where q:
    "RBFragEnqueue (rbm_free_fragq rbm) p = Some (r, q)" "click_inv q"
    "click_items q = click_items (rbm_free_fragq rbm) @ [p] \<or> click_items q = click_items (rbm_free_fragq rbm)"
    by blast
  then have "rbm_inv (rbm\<lparr>rbm_free_fragq := q\<rparr>) own"
    using inv d L assms(2) by (auto simp: rbm_inv_def rbm_queued_def)
  with q show "\<exists>r q. RBFragEnqueue (rbm_free_fragq rbm) p = Some (r, q)
      \<and> rbm_inv (rbm\<lparr>rbm_free_fragq := q\<rparr>) own" by blast
  from frag_enqueue_items [OF inv(2), of p] obtain r' q' where q':
    "RBFragEnqueue (rbm_free_fragq_int rbm) p = Some (r', q')" "click_inv q'"
    "click_items q' = click_items (rbm_free_fragq_int rbm) @ [p]
       \<or> click_items q' = click_items (rbm_free_fragq_int rbm)" by blast
  then have "rbm_inv (rbm\<lparr>rbm_free_fragq_int := q'\<rparr>) own"
    using inv d L assms(2) by (auto simp: rbm_inv_def rbm_queued_def)
  with q' show "\<exists>r q. RBFragEnqueue (rbm_free_fragq_int rbm) p = Some (r, q)
      \<and> rbm_inv (rbm\<lparr>rbm_free_fragq_int := q\<rparr>) own" by blast
qed

lemma sint_sub_small:
  assumes "int k \<le> x" and "x \<le> int RB_MAX"
  shows "sint (word_of_int x - word_of_nat k :: u32) = x - int k"
proof -
  have "(word_of_int x - word_of_nat k :: u32) = word_of_int (x - int k)" by simp
  moreover have "unat (word_of_int (x - int k) :: u32) = nat (x - int k)"
    using assms by (intro word_of_int_nonneg) auto
  ultimately show ?thesis using assms by (simp add: sint_small del: of_int_diff)
qed

text \<open>The fragment list after the first \<open>n\<close> bytes left.\<close>

definition frags_remove :: "u32 \<Rightarrow> fragment_ctx \<Rightarrow> fragment_ctx list \<Rightarrow> fragment_ctx list" where
  "frags_remove n f fs =
     (if n = f_len f then fs
      else f\<lparr>f_seq := f_seq f + n, f_len := u31 (f_len f - n)\<rparr> # fs)"

lemma frags_remove_ok:
  assumes sep: "frags_sep h B (f # fs)" and f: "f_seq f = h" and n: "0 < n" "n \<le> f_len f"
  shows "frags_sep (h + n) (B - unat n) (frags_remove n f fs)"
    and "frag_cover (h + n) (frags_remove n f fs) = {i. i + unat n \<in> frag_cover h (f # fs)}"
    and "(case frags_remove n f fs of [] \<Rightarrow> 0
      | g # _ \<Rightarrow> if f_seq g = h + n then int (unat (f_len g)) else 0) = int (unat (f_len f) - unat n)"
proof -
  have oe: "frag_o h f = 0" "frag_e h f = unat (f_len f)" by (simp_all add: frag_o_def frag_e_def f)
  have sfs: "frags_sep h B fs" and gap: "\<forall>g \<in> set fs. unat (f_len f) < frag_o h g"
    and sf: "frag_small h B f" using sep oe by (auto simp: frags_sep_def)
  have nle: "unat n \<le> unat (f_len f)" using n by (simp add: word_le_nat_alt)
  have "\<forall>g \<in> set fs. unat n \<le> frag_o h g" using gap nle by force
  note R = frags_sep_rebase [OF sfs this]
  have re: "frag_o (h + n) g = frag_o h g - unat n" if "g \<in> set fs" for g
    using frag_rebase [of n h g] gap nle that by force
  show "frags_sep (h + n) (B - unat n) (frags_remove n f fs)"
    and "frag_cover (h + n) (frags_remove n f fs) = {i. i + unat n \<in> frag_cover h (f # fs)}"
    and "(case frags_remove n f fs of [] \<Rightarrow> 0
      | g # _ \<Rightarrow> if f_seq g = h + n then int (unat (f_len g)) else 0) = int (unat (f_len f) - unat n)"
  proof (atomize (full), cases "n = f_len f")
    case True
    have "f_seq g \<noteq> h + n" if "g \<in> set fs" for g
      using re [OF that] gap that True by (auto simp: frag_o_def)
    then have "(case fs of [] \<Rightarrow> 0 | g # _ \<Rightarrow> if f_seq g = h + n then int (unat (f_len g)) else 0) = 0"
      by (auto split: list.splits)
    with True R oe show "frags_sep (h + n) (B - unat n) (frags_remove n f fs) \<and>
      frag_cover (h + n) (frags_remove n f fs) = {i. i + unat n \<in> frag_cover h (f # fs)} \<and>
      (case frags_remove n f fs of [] \<Rightarrow> 0
        | g # _ \<Rightarrow> if f_seq g = h + n then int (unat (f_len g)) else 0) = int (unat (f_len f) - unat n)"
      by (auto simp: frags_remove_def)
  next
    case False
    then have lt: "unat n < unat (f_len f)" using nle by (metis le_neq_implies_less word_unat_eq_iff)
    have l: "unat (f_len f - n) = unat (f_len f) - unat n" using n by (simp add: unat_sub)
    have "u31 (f_len f - n) = f_len f - n"
      using frag_small_bounds [OF sf] by (intro u31_small) (simp add: l oe)
    then have fr: "frags_remove n f fs = f\<lparr>f_seq := h + n, f_len := f_len f - n\<rparr> # fs"
      using False f by (simp add: frags_remove_def)
    let ?f = "f\<lparr>f_seq := h + n, f_len := f_len f - n\<rparr>"
    have oe': "frag_o (h + n) ?f = 0" "frag_e (h + n) ?f = unat (f_len f) - unat n"
      by (simp_all add: frag_o_def frag_e_def l)
    have "frags_sep (h + n) (B - unat n) (?f # fs)"
      using R(1) re gap lt sf by (auto simp: frags_sep_def oe' frag_small_def oe l)
    then show "frags_sep (h + n) (B - unat n) (frags_remove n f fs) \<and>
      frag_cover (h + n) (frags_remove n f fs) = {i. i + unat n \<in> frag_cover h (f # fs)} \<and>
      (case frags_remove n f fs of [] \<Rightarrow> 0
        | g # _ \<Rightarrow> if f_seq g = h + n then int (unat (f_len g)) else 0) = int (unat (f_len f) - unat n)"
      using R(2) by (auto simp: fr oe oe' l)
  qed
qed

text \<open>The fields of the buffer after \<open>n\<close> bytes were read.\<close>

definition rb_advance :: "tcp_ring_buffer \<Rightarrow> u32 \<Rightarrow> tcp_ring_buffer" where
  "rb_advance b n = b\<lparr>rb_head_offset := rb_head_offset b + n, rb_head := unat (rb_head_offset b + n),
     rb_head_seq := rb_head_seq b + n,
     rb_merged_len := rb_merged_len b - int (unat n),
     rb_last_len := rb_last_len b - int (unat n)\<rparr>"

lemma rb_advance_inv:
  assumes inv: "rb_inv b" and b: "rb_fctx b = f # fs" "f_seq f = rb_head_seq b"
    "rb_merged_len b = int (unat (f_len f))" and n: "0 < n" "n \<le> f_len f"
  defines "b' \<equiv> rb_advance b n\<lparr>rb_fctx := frags_remove n f fs\<rparr>"
  shows "rb_inv b'" and "rb_map b' i = rb_map b (i + unat n)"
proof -
  let ?h = "rb_head_seq b"
  have sep: "frags_sep ?h (nat (rb_last_len b)) (f # fs)" and L: "rb_layout b"
    and own: "frags_owned (f # fs)"
    and cum: "?h + word_of_int (rb_merged_len b) = rb_init_seq b + ucast (rb_cum_len b)"
    using inv [unfolded rb_inv_def b(1)] by blast+
  note F = frags_remove_ok [OF sep b(2) n]
  have nm: "int (unat n) \<le> rb_merged_len b" using n b(3) by (simp add: word_le_nat_alt)
  have ml: "rb_merged_len b \<le> rb_last_len b" by (rule rb_merged_prefix(2) [OF inv])
  have ho: "unat (rb_head_offset b + n) = unat (rb_head_offset b) + unat n"
    using L nm ml by (intro unat_add_small) (auto simp: rb_layout_def)
  have lay: "rb_layout b'"
    using L nm ml by (auto simp: b'_def rb_advance_def rb_layout_def ho)
  have "frags_owned (frags_remove n f fs)" using own by (auto simp: frags_owned_def frags_remove_def)
  moreover have "(?h + n) + word_of_int (rb_merged_len b - int (unat n)) = rb_init_seq b + ucast (rb_cum_len b)"
    using cum by (simp add: of_nat_unat)
  moreover have "nat (rb_last_len b - int (unat n)) = nat (rb_last_len b) - unat n" by simp
  moreover have "rb_merged_len b - int (unat n) = int (unat (f_len f) - unat n)"
    using b(3) nm by simp
  moreover have fld: "rb_head_seq b' = ?h + n" "rb_fctx b' = frags_remove n f fs"
    "rb_merged_len b' = rb_merged_len b - int (unat n)" "rb_last_len b' = rb_last_len b - int (unat n)"
    "rb_init_seq b' = rb_init_seq b" "rb_cum_len b' = rb_cum_len b"
    by (simp_all add: b'_def rb_advance_def)
  moreover have "rb_first_len b' = int (unat (f_len f) - unat n)"
    unfolding rb_first_len_def fld(1,2) by (rule F(3))
  ultimately show "rb_inv b'" using lay F(1) unfolding rb_inv_def by simp
  show "rb_map b' i = rb_map b (i + unat n)"
  proof -
    have "i \<in> rb_cover b' \<longleftrightarrow> i + unat n \<in> rb_cover b"
      unfolding rb_cover_def fld(1,2) b(1) F(2) by simp
    moreover have "rb_head b' + i = rb_head b + (i + unat n)"
      using L by (simp add: b'_def rb_advance_def rb_layout_def ho)
    moreover have "rb_data b' = rb_data b" by (simp add: b'_def rb_advance_def)
    ultimately show ?thesis by (simp only: rb_map_def)
  qed
qed

lemma RBRemove_eq:
  assumes inv: "rb_inv b" and n: "n = min (unat len) (nat (rb_merged_len b))" "0 < n"
    and b: "rb_fctx b = f # fs" "rb_merged_len b = int (unat (f_len f))"
  shows "RBRemove rbm b len opt =
    (if n = unat (f_len f) then
       (case opt of
          AT_APP \<Rightarrow> do {
            (r, q) \<leftarrow> RBFragEnqueue (rbm_free_fragq rbm) (f_ptr f);
            Some (word_of_nat n, rb_advance b (word_of_nat n)\<lparr>rb_fctx := fs\<rparr>,
                  rbm\<lparr>rbm_free_fragq := q\<rparr>) }
        | AT_MTCP \<Rightarrow> do {
            (r, q) \<leftarrow> RBFragEnqueue (rbm_free_fragq_int rbm) (f_ptr f);
            Some (word_of_nat n, rb_advance b (word_of_nat n)\<lparr>rb_fctx := fs\<rparr>,
                  rbm\<lparr>rbm_free_fragq_int := q\<rparr>) })
     else Some (word_of_nat n,
       rb_advance b (word_of_nat n)\<lparr>rb_fctx := frags_remove (word_of_nat n) f fs\<rparr>, rbm))"
proof -
  let ?m = "rb_merged_len b"
  have bnd: "0 \<le> ?m" "?m \<le> rb_last_len b" "rb_last_len b \<le> int RB_MAX"
    using rb_merged_prefix(1,2) [OF inv] inv by (auto simp: rb_inv_def rb_layout_def)
  have um: "unat (word_of_int ?m :: u64) = nat ?m"
    using bnd by (simp add: unat_eq_nat_uint uint_word_of_int)
  have len: "(if (word_of_int ?m :: u64) < len then word_of_int ?m else len) = word_of_nat n"
    using um n(1) bnd(1) by (auto simp: word_less_nat_alt min_def of_nat_unat of_nat_nat)
  have nb: "n \<le> RB_MAX" "int n \<le> ?m" "n \<le> unat (f_len f)" using n(1) bnd b(2) by auto
  then have un: "unat (word_of_nat n :: u64) = n" "unat (word_of_nat n :: u32) = n"
    by (simp_all add: unsigned_of_nat take_bit_eq_mod)
  have nz: "(word_of_nat n :: u64) \<noteq> 0" using un(1) n(2) by auto
  have uc: "(ucast (word_of_nat n :: u64) :: u32) = word_of_nat n"
    using ucast_word_of_int_32 [of "int n"] by simp
  have eq1: "(word_of_nat n :: u64) = ucast (f_len f) \<longleftrightarrow> n = unat (f_len f)"
    unfolding word_unat_eq_iff [of "word_of_nat n :: u64"] un(1) by simp
  have lt: "(word_of_nat n :: u64) < ucast (f_len f) \<longleftrightarrow> n < unat (f_len f)"
    unfolding word_less_nat_alt un(1) by simp
  have eq2: "word_of_nat n = f_len f \<longleftrightarrow> n = unat (f_len f)"
    unfolding word_unat_eq_iff [of "word_of_nat n :: u32"] un(2) by simp
  have adv: "sint (word_of_int ?m - word_of_nat n :: u32) = ?m - int n"
    "sint (word_of_int (rb_last_len b) - word_of_nat n :: u32) = rb_last_len b - int n"
    using nb bnd by (auto intro!: sint_sub_small)
  show ?thesis
    unfolding RBRemove_def Let_def len uc adv rb_advance_def un(2) frags_remove_def eq2
    using nz nb(3) by (simp add: b(1) eq1 lt)
qed

lemma RBRemove_ok:
  fixes len :: u64
  assumes inv: "rb_inv b" and rinv: "rbm_inv rbm (rb_ptrs b \<union> O')" and dis: "rb_ptrs b \<inter> O' = {}"
    and neq: "n = min (unat len) (nat (rb_merged_len b))"
  shows "\<exists>b' rbm'. RBRemove rbm b len opt = Some (word_of_nat n, b', rbm')
    \<and> rb_inv b' \<and> rbm_inv rbm' (rb_ptrs b' \<union> O') \<and> rb_ptrs b' \<inter> O' = {} \<and> rbm_same rbm rbm'
    \<and> rb_head_seq b' = rb_head_seq b + word_of_nat n \<and> rb_init_seq b' = rb_init_seq b
    \<and> rb_size b' = rb_size b \<and> rb_chunk b' = rb_chunk b \<and> (\<forall>i. rb_map b' i = rb_map b (i + n))"
proof (cases "n = 0")
  case True
  have "0 \<le> rb_merged_len b" by (rule rb_merged_prefix(1) [OF inv])
  then have "len = 0 \<or> rb_merged_len b = 0" using True by (auto simp: neq min_def unat_eq_zero split: if_splits)
  then have "RBRemove rbm b len opt = Some (0, b, rbm)"
    by (auto simp: RBRemove_def Let_def word_less_nat_alt unat_eq_zero)
  with True assms show ?thesis by (auto simp: RBRemove_def)
next
  case False
  then have "0 < rb_merged_len b" by (auto simp: neq)
  then obtain f fs where f: "rb_fctx b = f # fs" "f_seq f = rb_head_seq b"
    "rb_merged_len b = int (unat (f_len f))" using rb_merged_prefix(5) [OF inv] by blast
  have n_le: "n \<le> unat (f_len f)" using f(3) by (simp add: neq)
  then have un: "unat (word_of_nat n :: u32) = n"
    using unat_u32_less [of "f_len f"] by (simp add: unsigned_of_nat take_bit_eq_mod)
  have w: "0 < (word_of_nat n :: u32)" "word_of_nat n \<le> f_len f"
    using False n_le un by (simp_all add: word_less_nat_alt word_le_nat_alt)
  let ?b = "rb_advance b (word_of_nat n)\<lparr>rb_fctx := frags_remove (word_of_nat n) f fs\<rparr>"
  note A = rb_advance_inv [OF inv f w, unfolded un]
  have own: "frags_owned (f # fs)" using inv [unfolded rb_inv_def f(1)] by blast
  have ptrs: "rb_ptrs ?b \<subseteq> rb_ptrs b" by (auto simp: frags_remove_def f(1))
  have fields: "rb_head_seq ?b = rb_head_seq b + word_of_nat n" "rb_init_seq ?b = rb_init_seq b"
    "rb_size ?b = rb_size b" "rb_chunk ?b = rb_chunk b" by (simp_all add: rb_advance_def)
  have "\<exists>rbm'. RBRemove rbm b len opt = Some (word_of_nat n, ?b, rbm')
      \<and> rbm_inv rbm' (rb_ptrs ?b \<union> O') \<and> rbm_same rbm rbm'"
  proof (cases "n = unat (f_len f)")
    case True
    then have fr: "frags_remove (word_of_nat n) f fs = fs" by (simp add: frags_remove_def of_nat_unat)
    have "rbm_inv rbm (insert (f_ptr f) (f_ptr ` set fs \<union> O'))" using rinv f(1) by simp
    moreover have "f_ptr f \<notin> f_ptr ` set fs \<union> O'" using own dis f(1) by (auto simp: frags_owned_def)
    ultimately show ?thesis
      using rbm_inv_enqueue [of rbm "f_ptr f" "f_ptr ` set fs \<union> O'"] True [symmetric]
        RBRemove_eq [OF inv neq _ f(1,3), of rbm opt] False
      by (cases opt) (auto simp: fr rbm_same_def)
  next
    case F2: False
    then show ?thesis
      using RBRemove_eq [OF inv neq _ f(1,3), of rbm opt] False
        rbm_inv_anti [OF rinv, of "rb_ptrs ?b \<union> O'"] ptrs by auto
  qed
  then show ?thesis using A ptrs dis fields by blast
qed

end
