(* ===== verification/Recv_Stream.thy ===== *)
theory Recv_Stream
  imports Recv_Buffer_Spec
begin

text \<open>
  What the receive buffer promises to the stack and to the application: an interface for
  reassembly, the proof that \<open>RBPut\<close> and \<open>RBRemove\<close> implement it, and its consequence that
  the application reads the stream of the peer, whatever order the segments arrive in.
\<close>

section \<open>The interface\<close>

text \<open>The states that arrivals of segments of the stream \<open>S\<close> and reads can lead to. \<open>n\<close> is
  the number of bytes read so far and \<open>out\<close> are these bytes. A segment starts at stream
  position \<open>p\<close>; it may be old, repeated, overlapping or out of order, but it is within half
  the sequence space of the reader, beyond which sequence numbers are ambiguous.\<close>

inductive rx_reach ::
  "('s \<Rightarrow> bool) \<Rightarrow> ('s \<Rightarrow> byte list \<Rightarrow> u32 \<Rightarrow> 's option) \<Rightarrow> ('s \<Rightarrow> u64 \<Rightarrow> (byte list \<times> 's) option) \<Rightarrow>
   (nat \<Rightarrow> byte) \<Rightarrow> u32 \<Rightarrow> 's \<Rightarrow> nat \<Rightarrow> 's \<Rightarrow> byte list \<Rightarrow> bool"
  for room put read S iss s0 where
  start: "rx_reach room put read S iss s0 0 s0 []"
| arrive: "rx_reach room put read S iss s0 n s out \<Longrightarrow> n < p + SEQ_HALF \<Longrightarrow> p + l < n + SEQ_HALF \<Longrightarrow>
    room s \<Longrightarrow> put s (map S [p..<p + l]) (iss + word_of_nat p) = Some s' \<Longrightarrow>
    rx_reach room put read S iss s0 n s' out"
| deliver: "rx_reach room put read S iss s0 n s out \<Longrightarrow> read s k = Some (bs, s') \<Longrightarrow>
    rx_reach room put read S iss s0 (n + length bs) s' (out @ bs)"

locale reassembly =
  fixes inv :: "'s \<Rightarrow> bool"
    and room :: "'s \<Rightarrow> bool"
    and base :: "'s \<Rightarrow> u32"
    and window :: "'s \<Rightarrow> nat"
    and store :: "'s \<Rightarrow> nat \<Rightarrow> byte option"
    and ready :: "'s \<Rightarrow> byte list"
    and put :: "'s \<Rightarrow> byte list \<Rightarrow> u32 \<Rightarrow> 's option"
    and read :: "'s \<Rightarrow> u64 \<Rightarrow> (byte list \<times> 's) option"
  assumes put_fits: "inv s \<Longrightarrow> room s \<Longrightarrow> d \<noteq> [] \<Longrightarrow> seq_off (base s) q + length d \<le> window s \<Longrightarrow>
      \<exists>s'. put s d q = Some s' \<and> inv s' \<and> base s' = base s \<and> window s' = window s \<and>
        store s' = (\<lambda>i. if seq_off (base s) q \<le> i \<and> i < seq_off (base s) q + length d
                        then Some (d ! (i - seq_off (base s) q)) else store s i)"
    and put_old: "inv s \<Longrightarrow> SEQ_HALF < seq_off (base s) q \<Longrightarrow> put s d q = Some s"
    and put_beyond: "inv s \<Longrightarrow> d \<noteq> [] \<Longrightarrow> window s < seq_off (base s) q + length d \<Longrightarrow>
      seq_off (base s) q + length d < SEQ_HALF \<Longrightarrow> put s d q = Some s"
    and put_nothing: "inv s \<Longrightarrow> put s [] q = Some s"
    and ready_prefix: "inv s \<Longrightarrow> i < length (ready s) \<Longrightarrow> store s i = Some (ready s ! i)"
    and ready_longest: "inv s \<Longrightarrow> store s (length (ready s)) = None"
    and read_law: "inv s \<Longrightarrow> n = min (unat k) (length (ready s)) \<Longrightarrow>
      \<exists>s'. read s k = Some (take n (ready s), s') \<and> inv s' \<and> window s' = window s \<and>
        base s' = base s + word_of_nat n \<and> (\<forall>i. store s' i = store s (i + n))"
begin

text \<open>Every byte in the buffer is the byte of the stream at its place.\<close>

definition faithful :: "(nat \<Rightarrow> byte) \<Rightarrow> u32 \<Rightarrow> nat \<Rightarrow> 's \<Rightarrow> bool" where
  "faithful S iss n s \<longleftrightarrow> inv s \<and> base s = iss + word_of_nat n \<and>
     (\<forall>i v. store s i = Some v \<longrightarrow> v = S (n + i))"

lemma stream_off:
  assumes "n < p + SEQ_HALF" and "p < n + SEQ_HALF"
  shows "seq_off (iss + word_of_nat n) (iss + word_of_nat p) =
    (if n \<le> p then p - n else 4294967296 - (n - p))"
proof (cases "n \<le> p")
  case True
  then have eq: "(iss + word_of_nat p) - (iss + word_of_nat n) = (word_of_nat (p - n) :: u32)"
    by (simp add: of_nat_diff)
  have "unat (word_of_nat (p - n) :: u32) = p - n"
    using True assms by (simp only: unsigned_of_nat take_bit_eq_mod) simp
  then show ?thesis using True by (simp only: seq_off_def eq if_True)
next
  case False
  then have lt: "p < n" by simp
  have "(word_of_nat 4294967296 :: u32) = 0" by simp
  then have "(word_of_nat (4294967296 - (n - p)) :: u32) = word_of_nat p - word_of_nat n"
    using lt assms by (simp add: of_nat_diff)
  moreover have "(iss + word_of_nat p) - (iss + word_of_nat n) = (word_of_nat p - word_of_nat n :: u32)"
    by simp
  ultimately have "(iss + word_of_nat p) - (iss + word_of_nat n) = (word_of_nat (4294967296 - (n - p)) :: u32)"
    by simp
  moreover have "unat (word_of_nat (4294967296 - (n - p)) :: u32) = 4294967296 - (n - p)"
    using lt assms by (simp only: unsigned_of_nat take_bit_eq_mod) simp
  ultimately show ?thesis using False by (simp add: seq_off_def)
qed

lemma put_faithful:
  assumes f: "faithful S iss n s" and r: "room s"
    and old: "n < p + SEQ_HALF" and new: "p + l < n + SEQ_HALF"
  shows "\<exists>s'. put s (map S [p..<p + l]) (iss + word_of_nat p) = Some s' \<and> faithful S iss n s'"
proof -
  let ?d = "map S [p..<p + l]" and ?q = "iss + word_of_nat p :: u32"
  have inv: "inv s" and b: "base s = iss + word_of_nat n" using f by (auto simp: faithful_def)
  have off: "seq_off (base s) ?q = (if n \<le> p then p - n else 4294967296 - (n - p))"
    unfolding b using old new by (intro stream_off) auto
  consider "l = 0" | "l > 0" "p < n" "n - p \<noteq> SEQ_HALF" | "l > 0" "n \<le> p" "p - n + l \<le> window s"
    | "l > 0" "n \<le> p" "window s < p - n + l" using old by linarith
  then show ?thesis
  proof cases
    case 1
    then show ?thesis using f put_nothing [OF inv] by auto
  next
    case 2
    then have "put s ?d ?q = Some s" using old new off by (intro put_old [OF inv]) auto
    then show ?thesis using f by auto
  next
    case 3
    then have off3: "seq_off (base s) ?q = p - n" using off by simp
    from 3 obtain s' where s': "put s ?d ?q = Some s'" "inv s'" "base s' = base s"
      "store s' = (\<lambda>i. if p - n \<le> i \<and> i < p - n + l then Some (?d ! (i - (p - n))) else store s i)"
      using put_fits [OF inv r, of ?d ?q, unfolded off3] by auto
    have "v = S (n + i)" if "store s' i = Some v" for i v
      using that f s'(4) 3 by (auto simp: faithful_def add.commute split: if_splits)
    then have "faithful S iss n s'" using s' b by (auto simp: faithful_def)
    with s' show ?thesis by blast
  next
    case 4
    then have "put s ?d ?q = Some s" using new off by (intro put_beyond [OF inv]) auto
    then show ?thesis using f by auto
  qed
qed

lemma ready_faithful:
  assumes "faithful S iss n s"
  shows "ready s = map S [n..<n + length (ready s)]"
proof (rule nth_equalityI)
  fix i assume "i < length (ready s)"
  with assms ready_prefix [of s i] show "ready s ! i = map S [n..<n + length (ready s)] ! i"
    by (auto simp: faithful_def)
qed simp

lemma read_faithful:
  assumes "faithful S iss n s"
  shows "\<exists>bs s'. read s k = Some (bs, s') \<and> bs = map S [n..<n + length bs]
    \<and> faithful S iss (n + length bs) s'"
proof -
  let ?m = "min (unat k) (length (ready s))"
  have inv: "inv s" using assms by (simp add: faithful_def)
  from read_law [OF inv refl, of k] obtain s' where s': "read s k = Some (take ?m (ready s), s')" "inv s'"
    "base s' = base s + word_of_nat ?m" "\<And>i. store s' i = store s (i + ?m)" by blast
  have "take ?m (ready s) = map S [n..<n + ?m]"
    using ready_faithful [OF assms] by (metis length_map length_upt min.cobounded2 take_map take_upt
        add_diff_cancel_left' nat_add_left_cancel_le)
  moreover have "v = S (n + ?m + i)" if "store s' i = Some v" for i v
  proof -
    have "v = S (n + (i + ?m))" using that s'(4) assms by (simp add: faithful_def)
    then show ?thesis by (simp only: ac_simps)
  qed
  then have "faithful S iss (n + ?m) s'"
    using assms s' by (auto simp: faithful_def ac_simps)
  ultimately show ?thesis using s'(1) by auto
qed

text \<open>What was delivered is the beginning of the stream, and nothing gets stuck.\<close>

lemma reach_stream:
  assumes "rx_reach room put read S iss s0 n s out"
    and "inv s0" and "base s0 = iss" and "\<And>i. store s0 i = None"
  shows "out = map S [0..<n] \<and> faithful S iss n s"
  using assms
proof (induction rule: rx_reach.induct)
  case start
  then show ?case by (auto simp: faithful_def)
next
  case (arrive n s out p l s')
  then show ?case using put_faithful [of S iss n s p l] by auto
next
  case (deliver n s out k bs s')
  then have f: "faithful S iss n s" "out = map S [0..<n]" by auto
  from read_faithful [OF f(1), of k] deliver.hyps(2)
  have "bs = map S [n..<n + length bs]" "faithful S iss (n + length bs) s'" by auto
  with f show ?case by (metis map_append upt_add_eq_append zero_le)
qed

end

section \<open>The receive buffer implements it\<close>

text \<open>The state is a buffer with the manager; other buffers own the contexts \<open>own\<close>. Reading is
  the copy of \<open>CopyToUser\<close> (api.c) followed by \<open>RBRemove\<close>.\<close>

definition rx_inv :: "tcp_ring_buffer \<times> rb_manager \<Rightarrow> bool" where
  "rx_inv s \<longleftrightarrow> rb_inv (fst s) \<and>
     (\<exists>own. rbm_inv (snd s) (rb_ptrs (fst s) \<union> own) \<and> rb_ptrs (fst s) \<inter> own = {})"

definition rx_put :: "tcp_ring_buffer \<times> rb_manager \<Rightarrow> byte list \<Rightarrow> u32 \<Rightarrow>
    (tcp_ring_buffer \<times> rb_manager) option" where
  "rx_put s d q = map_option snd (RBPut False (snd s) (fst s) d (word_of_nat (length d)) q)"

definition rx_read :: "tcp_ring_buffer \<times> rb_manager \<Rightarrow> u64 \<Rightarrow>
    (byte list \<times> tcp_ring_buffer \<times> rb_manager) option" where
  "rx_read s len = do {
     let copylen = min (word_of_int (rb_merged_len (fst s))) len;
     bs \<leftarrow> read_at (rb_data (fst s)) (rb_head (fst s)) (unat copylen);
     (r, s') \<leftarrow> RBRemove (snd s) (fst s) copylen AT_APP;
     Some (bs, s')
   }"

lemma rx_read_ok:
  assumes "rx_inv s" and n: "n = min (unat k) (length (rb_ready (fst s)))"
  shows "\<exists>s'. rx_read s k = Some (take n (rb_ready (fst s)), s') \<and> rx_inv s'
    \<and> rb_size (fst s') = rb_size (fst s) \<and> rb_head_seq (fst s') = rb_head_seq (fst s) + word_of_nat n
    \<and> (\<forall>i. rb_map (fst s') i = rb_map (fst s) (i + n))"
proof -
  let ?b = "fst s"
  from assms obtain own where inv: "rb_inv ?b" and rinv: "rbm_inv (snd s) (rb_ptrs ?b \<union> own)"
    and dis: "rb_ptrs ?b \<inter> own = {}" by (auto simp: rx_inv_def)
  note rd = rb_ready_nth(1) [OF inv]
  have bnd: "0 \<le> rb_merged_len ?b" "rb_merged_len ?b \<le> rb_last_len ?b" "rb_last_len ?b \<le> int RB_MAX"
    "rb_head ?b + nat (rb_merged_len ?b) \<le> length (rb_data ?b)"
    using rb_merged_prefix(1,2) [OF inv] inv by (auto simp: rb_inv_def rb_layout_def)
  have "unat (word_of_int (rb_merged_len ?b) :: u64) = nat (rb_merged_len ?b)"
    using bnd by (simp add: unat_eq_nat_uint uint_word_of_int)
  then have cl: "unat (min (word_of_int (rb_merged_len ?b)) k) = n"
    by (simp add: unat_min n rd)
  have "n = min (unat (min (word_of_int (rb_merged_len ?b)) k)) (nat (rb_merged_len ?b))"
    unfolding cl using n rd by simp
  from RBRemove_ok [OF inv rinv dis this, of AT_APP] obtain b' rbm' where r:
    "RBRemove (snd s) ?b (min (word_of_int (rb_merged_len ?b)) k) AT_APP = Some (word_of_nat n, b', rbm')"
    "rb_inv b'" "rbm_inv rbm' (rb_ptrs b' \<union> own)" "rb_ptrs b' \<inter> own = {}"
    "rb_head_seq b' = rb_head_seq ?b + word_of_nat n" "rb_size b' = rb_size ?b"
    "\<forall>i. rb_map b' i = rb_map ?b (i + n)" by blast
  have "read_at (rb_data ?b) (rb_head ?b) n = Some (take n (rb_ready ?b))"
    using bnd n rd by (auto simp: read_at_def rb_ready_def min_def)
  then have "rx_read s k = Some (take n (rb_ready ?b), b', rbm')"
    using r(1) by (simp add: rx_read_def Let_def cl)
  moreover have "rx_inv (b', rbm')" using r by (auto simp: rx_inv_def)
  ultimately show ?thesis using r by (intro exI [of _ "(b', rbm')"]) simp
qed

lemma rx_put_ok:
  assumes "rx_inv s" and "frag_avail (snd s)" and "d \<noteq> []"
    and "seq_off (rb_head_seq (fst s)) q + length d \<le> nat (rb_size (fst s))"
  shows "\<exists>s'. rx_put s d q = Some s' \<and> rx_inv s' \<and> rb_head_seq (fst s') = rb_head_seq (fst s)
    \<and> rb_size (fst s') = rb_size (fst s)
    \<and> rb_map (fst s') = (\<lambda>i. if seq_off (rb_head_seq (fst s)) q \<le> i
          \<and> i < seq_off (rb_head_seq (fst s)) q + length d
        then Some (d ! (i - seq_off (rb_head_seq (fst s)) q)) else rb_map (fst s) i)"
proof -
  let ?b = "fst s"
  from assms(1) obtain own where inv: "rb_inv ?b" and rinv: "rbm_inv (snd s) (rb_ptrs ?b \<union> own)"
    and dis: "rb_ptrs ?b \<inter> own = {}" by (auto simp: rx_inv_def)
  have sz: "0 \<le> rb_size ?b" "rb_size ?b \<le> int RB_MAX" using inv by (auto simp: rb_inv_def rb_layout_def)
  have l: "unat (word_of_nat (length d) :: u32) = length d"
    using assms(4) sz by (simp add: unsigned_of_nat take_bit_eq_mod)
  have "0 < unat (word_of_nat (length d) :: u32)"
    "unat (word_of_nat (length d) :: u32) \<le> length d"
    "int (seq_off (rb_head_seq ?b) q + unat (word_of_nat (length d) :: u32)) \<le> rb_size ?b"
    unfolding l using assms(3,4) sz by auto
  from RBPut_ok [OF inv rinv dis assms(2) this, of False, unfolded l] obtain b' rbm' where r:
    "RBPut False (snd s) ?b d (word_of_nat (length d)) q = Some (int (length d), b', rbm')"
    "rb_inv b'" "rbm_inv rbm' (rb_ptrs b' \<union> own)" "rb_ptrs b' \<inter> own = {}"
    "rb_head_seq b' = rb_head_seq ?b" "rb_size b' = rb_size ?b"
    "rb_map b' = (\<lambda>i. if seq_off (rb_head_seq ?b) q \<le> i \<and> i < seq_off (rb_head_seq ?b) q + length d
        then Some (d ! (i - seq_off (rb_head_seq ?b) q)) else rb_map ?b i)" by blast
  then have "rx_inv (b', rbm')" by (auto simp: rx_inv_def)
  with r show ?thesis by (intro exI [of _ "(b', rbm')"]) (simp add: rx_put_def)
qed

interpretation rx: reassembly rx_inv "\<lambda>s. frag_avail (snd s)" "\<lambda>s. rb_head_seq (fst s)"
  "\<lambda>s. nat (rb_size (fst s))" "\<lambda>s. rb_map (fst s)" "\<lambda>s. rb_ready (fst s)" rx_put rx_read
proof (unfold_locales, goal_cases)
  case (1 s d q)
  then show ?case using rx_put_ok [of s d q] by auto
next
  case (2 s q d)
  then show ?case by (simp add: rx_put_def RBPut_reject(2))
next
  case (3 s d q)
  have "0 \<le> rb_size (fst s)" using 3(1) by (simp add: rx_inv_def rb_inv_def rb_layout_def)
  moreover have "unat (word_of_nat (length d) :: u32) = length d"
    using 3(4) by (simp add: unsigned_of_nat take_bit_eq_mod)
  moreover have "0 < length d" using 3(2) by simp
  ultimately show ?case using 3 by (simp add: rx_put_def RBPut_reject(3))
next
  case (4 s q)
  then show ?case by (simp add: rx_put_def RBPut_reject(1))
next
  case (5 s i)
  then show ?case using rb_ready_nth by (auto simp: rx_inv_def)
next
  case (6 s)
  then show ?case using rb_ready_nth(1) rb_merged_prefix(4) by (auto simp: rx_inv_def rb_map_def)
next
  case (7 s n k)
  then show ?case using rx_read_ok [of s n k] by auto
qed

section \<open>Creation\<close>

lemma RBInit_ok:
  assumes "RBInit ok rbm iss = Some (Some b, rbm')" and "rbm_inv rbm own"
    and "rbm_chunk_size rbm \<le> RB_MAX" and "\<And>c. length (rbm_bytes rbm c) = rbm_chunk_size rbm"
  shows "rb_inv b" and "rb_fctx b = []" and "rb_head_seq b = iss"
    and "rb_size b = int (rbm_chunk_size rbm)" and "rbm_inv rbm' own"
proof -
  have sz: "sint (word_of_nat (rbm_chunk_size rbm) :: u32) = int (rbm_chunk_size rbm)"
    using assms(3) by (subst sint_small) (simp_all add: unsigned_of_nat take_bit_eq_mod)
  from assms(1) obtain p mp where b: "b = \<lparr>rb_data = rbm_bytes rbm p, rb_chunk = p, rb_head = 0,
      rb_head_offset = 0, rb_tail_offset = 0, rb_merged_len = 0, rb_cum_len = 0, rb_last_len = 0,
      rb_size = int (rbm_chunk_size rbm), rb_head_seq = iss, rb_init_seq = iss, rb_fctx = []\<rparr>"
    "rbm' = rbm\<lparr>rbm_mp := mp, rbm_cur_num := rbm_cur_num rbm + 1\<rparr>"
    by (auto simp: RBInit_def sz bind_eq_Some_conv split: if_splits option.splits)
  show "rb_inv b" using assms(3,4)
    by (simp add: b rb_inv_def rb_layout_def rb_first_len_def frags_sep_def frags_owned_def)
  show "rb_fctx b = []" "rb_head_seq b = iss" "rb_size b = int (rbm_chunk_size rbm)" by (simp_all add: b)
  show "rbm_inv rbm' own" using assms(2) by (simp add: b rbm_inv_def rbm_queued_def)
qed

section \<open>A concrete run\<close>

text \<open>A buffer of eight bytes whose stream starts two bytes before the sequence space wraps.
  The third byte arrives first, then the first two; then three bytes are read.\<close>

definition rbm_example :: rb_manager where
  "rbm_example = \<lparr>rbm_chunk_size = 8, rbm_cur_num = 0, rbm_cnum = 2, rbm_mp = pool_example,
     rbm_frag_mp = pool_example,
     rbm_free_fragq = \<lparr>q_capacity = 2, q_head = 0, q_tail = 0, q_slots = [None, None, None]\<rparr>,
     rbm_free_fragq_int = \<lparr>q_capacity = 2, q_head = 0, q_tail = 0, q_slots = [None, None, None]\<rparr>,
     rbm_bytes = (\<lambda>_. replicate 8 0), rbm_heap = 0\<rparr>"

definition rbm_depleted :: rb_manager where
  "rbm_depleted = rbm_example\<lparr>rbm_frag_mp :=
     snd (the (MPAllocateChunk (snd (the (MPAllocateChunk pool_example)))))\<rparr>"

definition rx_ex0 :: "tcp_ring_buffer \<times> rb_manager" where
  "rx_ex0 = (the (fst (the (RBInit True rbm_example 0xFFFFFFFE))),
             snd (the (RBInit True rbm_example 0xFFFFFFFE)))"

definition rx_ex1 :: "tcp_ring_buffer \<times> rb_manager" where
  "rx_ex1 = the (rx_put rx_ex0 [2] 0)"

definition rx_ex2 :: "tcp_ring_buffer \<times> rb_manager" where
  "rx_ex2 = the (rx_put rx_ex1 [0, 1] 0xFFFFFFFE)"

lemma rbm_example_inv: "rbm_inv rbm_example {}"
  using pool_example_use
  by (auto simp: rbm_inv_def rbm_example_def rbm_queued_def click_inv_def click_items_def
      click_window_def click_count_def ring_dist_def)

lemma rx_ex0_init: "RBInit True rbm_example 0xFFFFFFFE = Some (Some (fst rx_ex0), snd rx_ex0)"
  by (simp add: rx_ex0_def RBInit_def rbm_example_def pool_example_def MPAllocateChunk_def Let_def)

lemma rx_ex_steps:
  "rx_put rx_ex0 [2] 0 = Some rx_ex1" "frag_avail (snd rx_ex0)"
  "rx_put rx_ex1 [0, 1] 0xFFFFFFFE = Some rx_ex2" "frag_avail (snd rx_ex1)"
  "rb_merged_len (fst rx_ex1) = 0" "rb_merged_len (fst rx_ex2) = 3"
proof -
  have "rx_put rx_ex0 [2] 0 \<noteq> None" by code_simp
  then show "rx_put rx_ex0 [2] 0 = Some rx_ex1" by (auto simp: rx_ex1_def)
  have "rx_put rx_ex1 [0, 1] 0xFFFFFFFE \<noteq> None" by code_simp
  then show "rx_put rx_ex1 [0, 1] 0xFFFFFFFE = Some rx_ex2" by (auto simp: rx_ex2_def)
  show "frag_avail (snd rx_ex0)" "frag_avail (snd rx_ex1)"
    "rb_merged_len (fst rx_ex1) = 0" "rb_merged_len (fst rx_ex2) = 3" by code_simp+
qed

lemma rx_ex_reach:
  "rx_reach (\<lambda>s. frag_avail (snd s)) rx_put rx_read word_of_nat 0xFFFFFFFE rx_ex0 0 rx_ex2 []"
proof -
  have wrap: "(4294967296 :: u32) = 0" by simp
  have "rx_reach (\<lambda>s. frag_avail (snd s)) rx_put rx_read word_of_nat 0xFFFFFFFE rx_ex0 0 rx_ex1 []"
    by (rule rx_reach.arrive [OF rx_reach.start, of 2 1]) (simp_all add: rx_ex_steps wrap)
  then show ?thesis by (rule rx_reach.arrive [of _ _ _ _ _ _ _ _ _ 0 2])
      (simp_all add: rx_ex_steps upt_conv_Cons)
qed

lemma rx_ex_inv:
  "rb_inv (fst rx_ex0)" "rbm_inv (snd rx_ex0) {}" "rb_fctx (fst rx_ex0) = []"
  "rb_head_seq (fst rx_ex0) = 0xFFFFFFFE" "rb_size (fst rx_ex0) = 8"
  using RBInit_ok [OF rx_ex0_init rbm_example_inv] by (simp_all add: rbm_example_def)

section \<open>Properties\<close>

text \<open>C2. The application reads the peer's stream. Start from a buffer made by \<open>RBInit\<close> for the
  initial sequence number \<open>iss\<close>. However the segments of the stream \<open>S\<close> arrive at \<open>RBPut\<close> (out
  of order, repeated, overlapping, too old or beyond the window, with the sequence space
  wrapping around) and however reads are interleaved, the bytes read so far are exactly the
  first \<open>n\<close> bytes of \<open>S\<close>, the bytes ready to be read are the next ones, and \<open>head_seq\<close> is the
  sequence number of position \<open>n\<close>.\<close>

theorem RecvBuffer_stream:
  assumes "RBInit ok rbm iss = Some (Some b, rbm')" and "rbm_inv rbm own"
    and "rbm_chunk_size rbm \<le> RB_MAX" and "\<And>c. length (rbm_bytes rbm c) = rbm_chunk_size rbm"
    and "rx_reach (\<lambda>s. frag_avail (snd s)) rx_put rx_read S iss (b, rbm') n s out"
  shows "out = map S [0..<n] \<and> rb_head_seq (fst s) = iss + word_of_nat n
    \<and> rb_ready (fst s) = map S [n..<n + nat (rb_merged_len (fst s))]"
proof -
  note I = RBInit_ok [OF assms(1-4)]
  have "rx_inv (b, rbm')" using I by (auto simp: rx_inv_def intro!: exI [of _ own])
  moreover have "rb_map (fst (b, rbm')) i = None" for i by (simp add: rb_map_def rb_cover_def I(2))
  ultimately have R: "out = map S [0..<n]" "rx.faithful S iss n s"
    using rx.reach_stream [OF assms(5)] I(3) by auto
  then have "rb_inv (fst s)" by (simp add: rx.faithful_def rx_inv_def)
  with R rx.ready_faithful [OF R(2)] rb_ready_nth(1) [of "fst s"] show ?thesis
    by (simp add: rx.faithful_def)
qed

theorem RecvBuffer_stream_witness:
  "rx_reach (\<lambda>s. frag_avail (snd s)) rx_put rx_read word_of_nat 0xFFFFFFFE rx_ex0 0 rx_ex2 []
   \<and> rb_ready (fst rx_ex2) = [0, 1, 2]"
  using RecvBuffer_stream [OF rx_ex0_init rbm_example_inv, of word_of_nat 0 rx_ex2 "[]"] rx_ex_reach
  by (simp add: rbm_example_def rx_ex_steps upt_conv_Cons)

text \<open>C16. \<open>RBPut\<close> of a segment inside the window stores it: the buffer afterwards maps every
  offset of the segment to its byte and every other offset as before, \<open>merged_len\<close> is the
  length of the longest prefix without a gap, all fragment contexts stay accounted for, and
  neither the block moves nor the fragment list can go wrong.\<close>

theorem RBPut_stores:
  assumes "rb_inv b" and "rbm_inv rbm (rb_ptrs b \<union> own)" and "rb_ptrs b \<inter> own = {}"
    and "frag_avail rbm" and "0 < unat len" and "unat len \<le> length data"
    and "p = seq_off (rb_head_seq b) cur_seq" and "int (p + unat len) \<le> rb_size b"
  shows "\<exists>b' rbm'. RBPut ok rbm b data len cur_seq = Some (int (unat len), b', rbm')
    \<and> rb_inv b' \<and> rbm_inv rbm' (rb_ptrs b' \<union> own) \<and> rb_head_seq b' = rb_head_seq b
    \<and> rb_map b' = (\<lambda>i. if p \<le> i \<and> i < p + unat len then Some (data ! (i - p)) else rb_map b i)
    \<and> (\<forall>i < nat (rb_merged_len b'). rb_map b' i \<noteq> None) \<and> rb_map b' (nat (rb_merged_len b')) = None"
proof -
  from RBPut_ok [OF assms(1-6) assms(8) [unfolded assms(7)], of ok, folded assms(7)]
  obtain b' rbm' where r: "RBPut ok rbm b data len cur_seq = Some (int (unat len), b', rbm')"
    "rb_inv b'" "rbm_inv rbm' (rb_ptrs b' \<union> own)" "rb_head_seq b' = rb_head_seq b"
    "rb_map b' = (\<lambda>i. if p \<le> i \<and> i < p + unat len then Some (data ! (i - p)) else rb_map b i)" by blast
  moreover have "\<forall>i < nat (rb_merged_len b'). rb_map b' i \<noteq> None"
    using rb_ready_nth(2) [OF r(2)] by simp
  moreover have "rb_map b' (nat (rb_merged_len b')) = None"
    using rb_merged_prefix(4) [OF r(2)] by (simp add: rb_map_def)
  ultimately show ?thesis by blast
qed

theorem RBPut_stores_witness:
  "\<exists>b' rbm'. RBPut False (snd rx_ex0) (fst rx_ex0) [2] 1 0 = Some (1, b', rbm')
     \<and> rb_map b' 2 = Some 2 \<and> rb_map b' 0 = None"
proof -
  have "2 = seq_off (rb_head_seq (fst rx_ex0)) 0" by (simp add: rx_ex_inv seq_off_def)
  with RBPut_stores [of "fst rx_ex0" "snd rx_ex0" "{}" 1 "[2]" 2 0 False]
  have "\<exists>b' rbm'. RBPut False (snd rx_ex0) (fst rx_ex0) [2] 1 0 = Some (1, b', rbm')
     \<and> rb_map b' = (\<lambda>i. if 2 \<le> i \<and> i < 2 + 1 then Some ([2] ! (i - 2)) else rb_map (fst rx_ex0) i)"
    using rx_ex_inv rx_ex_steps(2) by auto
  moreover have "rb_map (fst rx_ex0) 0 = None" by (simp add: rb_map_def rb_cover_def rx_ex_inv)
  ultimately show ?thesis by auto
qed



text \<open>C23. \<open>RBRemove\<close> removes the smaller of the requested length and \<open>merged_len\<close>: afterwards
  every offset holds what was that much further before, and the base sequence number has
  moved by the same amount.\<close>

theorem RBRemove_shifts:
  assumes "rb_inv b" and "rbm_inv rbm (rb_ptrs b \<union> own)" and "rb_ptrs b \<inter> own = {}"
    and "n = min (unat len) (nat (rb_merged_len b))"
  shows "\<exists>b' rbm'. RBRemove rbm b len opt = Some (word_of_nat n, b', rbm')
    \<and> rb_inv b' \<and> rbm_inv rbm' (rb_ptrs b' \<union> own)
    \<and> rb_head_seq b' = rb_head_seq b + word_of_nat n \<and> (\<forall>i. rb_map b' i = rb_map b (i + n))"
  using RBRemove_ok [OF assms, of opt] by blast

theorem RBRemove_shifts_witness:
  "\<exists>b' rbm'. RBRemove (snd rx_ex0) (fst rx_ex0) 5 AT_APP = Some (0, b', rbm')
     \<and> rb_head_seq b' = 0xFFFFFFFE"
proof -
  have "rb_merged_len (fst rx_ex0) = 0" by code_simp
  with RBRemove_shifts [of "fst rx_ex0" "snd rx_ex0" "{}" 0 5 AT_APP] show ?thesis
    using rx_ex_inv by auto
qed

text \<open>C26. The \<open>calloc\<close> fallback of \<open>AllocateFragmentContext\<close> is broken: when the queues and the
  pool are empty, the block that \<open>calloc\<close> returned has lost its \<open>is_calloc\<close> mark, and freeing
  it hands a heap block to the pool, which is undefined.\<close>

theorem AllocateFragmentContext_fallback_broken:
  assumes "rbm_inv rbm own" and "\<not> frag_avail rbm"
  shows "\<exists>f rbm'. AllocateFragmentContext True rbm = Some (f, rbm')
    \<and> f_ptr f = FHeap (rbm_heap rbm) \<and> FreeFragmentContextSingle rbm' f = None"
proof -
  have inv: "click_inv (rbm_free_fragq rbm)" "click_inv (rbm_free_fragq_int rbm)"
    using assms(1) by (auto simp: rbm_inv_def)
  have nil: "click_items (rbm_free_fragq rbm) = []" "click_items (rbm_free_fragq_int rbm) = []"
    and fc: "mp_free_chunks (rbm_frag_mp rbm) \<le> 0"
    using assms(2) by (auto simp: frag_avail_def rbm_queued_def)
  from assms(1) obtain L where L: "pool_use (rbm_frag_mp rbm) L" by (auto simp: rbm_inv_def)
  have "0 \<le> mp_free_chunks (rbm_frag_mp rbm)"
    using pool_use_owns [OF L] by (auto simp: pool.owns_def pool_repr_def)
  then have "MPAllocateChunk (rbm_frag_mp rbm) = Some (None, rbm_frag_mp rbm)"
    using fc by (simp add: MPAllocateChunk_def)
  then show ?thesis
    using frag_q.deq_empty [OF inv(1) nil(1)] frag_q.deq_empty [OF inv(2) nil(2)]
    by (simp add: AllocateFragmentContext_def FreeFragmentContextSingle_def frag_zero_def)
qed

theorem AllocateFragmentContext_fallback_broken_witness:
  "\<exists>f rbm'. AllocateFragmentContext True rbm_depleted = Some (f, rbm')
    \<and> FreeFragmentContextSingle rbm' f = None"
proof -
  obtain p1 mp1 where a: "MPAllocateChunk pool_example = Some (Some p1, mp1)"
    by (simp add: pool_example_def MPAllocateChunk_def Let_def)
  moreover then obtain p2 mp2 where b: "MPAllocateChunk mp1 = Some (Some p2, mp2)"
    by (auto simp: pool_example_def MPAllocateChunk_def Let_def)
  ultimately have fmp: "rbm_depleted = rbm_example\<lparr>rbm_frag_mp := mp2\<rparr>"
    by (simp add: rbm_depleted_def)
  have "pool_use mp2 (insert p2 (insert p1 {}))"
    using pool_use.allocate [OF pool_use.allocate [OF pool_example_use a] b] .
  then have "rbm_inv rbm_depleted {}"
    by (auto simp: fmp rbm_inv_def rbm_example_def rbm_queued_def click_inv_def click_items_def
      click_window_def click_count_def ring_dist_def)
  moreover have "\<not> frag_avail rbm_depleted" by code_simp
  ultimately show ?thesis using AllocateFragmentContext_fallback_broken by blast
qed

end
