(* ===== verification/Tailq.thy ===== *)
theory Tailq
  imports Prelude
begin

text \<open>
  The doubly linked tail queues of sys/queue.h, as the code uses them: a queue is the list of
  its elements, and the links live inside the elements. Inserting an element whose link is in
  use and removing one that is not linked corrupt the queue, so both are undefined.
\<close>

definition tailq_insert_tail :: "'a list \<Rightarrow> 'a \<Rightarrow> 'a list option" where
  "tailq_insert_tail q x = (if x \<in> set q then None else Some (q @ [x]))"

definition tailq_insert_head :: "'a list \<Rightarrow> 'a \<Rightarrow> 'a list option" where
  "tailq_insert_head q x = (if x \<in> set q then None else Some (x # q))"

definition tailq_remove :: "'a list \<Rightarrow> 'a \<Rightarrow> 'a list option" where
  "tailq_remove q x = (if x \<in> set q then Some (remove1 x q) else None)"

definition tailq_first :: "'a list \<Rightarrow> 'a option" where
  "tailq_first q = (case q of [] \<Rightarrow> None | x # _ \<Rightarrow> Some x)"

definition tailq_last :: "'a list \<Rightarrow> 'a option" where
  "tailq_last q = (if q = [] then None else Some (last q))"

text \<open>\<open>TAILQ_NEXT\<close> of a linked element.\<close>

fun tailq_next :: "'a list \<Rightarrow> 'a \<Rightarrow> 'a option" where
  "tailq_next [] x = None"
| "tailq_next (y # q) x = (if y = x then tailq_first q else tailq_next q x)"

named_theorems tailq_simps \<open>tail queue operations where they are defined\<close>

lemma tailq_insert_tail_ok [tailq_simps]: "x \<notin> set q \<Longrightarrow> tailq_insert_tail q x = Some (q @ [x])"
  by (simp add: tailq_insert_tail_def)

lemma tailq_insert_head_ok [tailq_simps]: "x \<notin> set q \<Longrightarrow> tailq_insert_head q x = Some (x # q)"
  by (simp add: tailq_insert_head_def)

lemma tailq_remove_ok [tailq_simps]: "x \<in> set q \<Longrightarrow> tailq_remove q x = Some (remove1 x q)"
  by (simp add: tailq_remove_def)

lemma tailq_insert_tail_Some:
  "tailq_insert_tail q x = Some q' \<longleftrightarrow> x \<notin> set q \<and> q' = q @ [x]"
  by (auto simp: tailq_insert_tail_def)

lemma tailq_insert_head_Some:
  "tailq_insert_head q x = Some q' \<longleftrightarrow> x \<notin> set q \<and> q' = x # q"
  by (auto simp: tailq_insert_head_def)

lemma tailq_remove_Some:
  "tailq_remove q x = Some q' \<longleftrightarrow> x \<in> set q \<and> q' = remove1 x q"
  by (auto simp: tailq_remove_def)

lemma set_remove1_distinct: "distinct q \<Longrightarrow> set (remove1 x q) = set q - {x}"
  by simp

lemma int_length_remove1: "x \<in> set q \<Longrightarrow> int (length (remove1 x q)) = int (length q) - 1"
proof -
  assume "x \<in> set q"
  then have "Suc (length (remove1 x q)) = length q" by (induction q) auto
  then show ?thesis by simp
qed

lemma tailq_next_in: "tailq_next q x = Some y \<Longrightarrow> y \<in> set q"
  by (induction q) (auto simp: tailq_first_def split: if_splits list.splits)

end
