(* ===== verification/Send_Buffer.thy ===== *)
theory Send_Buffer
  imports Seq_Arith Click_Queues Mem_Pool
begin

text \<open>
  The send buffer of a connection (tcp_send_buffer.c): the bytes the application has written
  and the peer has not acknowledged. The buffer is a flat chunk of memory; data is appended
  at the tail and removed at the head, and moved to the front of the chunk when the tail
  would run over. The buffer is shown to implement a bounded byte stream whose first byte
  has the sequence number \<open>head_seq\<close>.
\<close>

text \<open>\<open>sb_data\<close> is the content of the chunk \<open>sb_chunk\<close> of the pool, and \<open>sb_head\<close> is the
  pointer \<open>head\<close> as an offset in that chunk.\<close>

record tcp_send_buffer =
  sb_data :: "byte list"
  sb_chunk :: nat
  sb_head :: nat
  sb_head_off :: u32
  sb_tail_off :: u32
  sb_len :: u32
  sb_cum_len :: u64
  sb_size :: u32
  sb_head_seq :: u32
  sb_init_seq :: u32

text \<open>\<open>sbm_bytes\<close> is what the chunks of the pool hold when they are handed out.\<close>

record sb_manager =
  sbm_chunk_size :: nat
  sbm_cur_num :: u32
  sbm_cnum :: u32
  sbm_mp :: mem_pool
  sbm_freeq :: "tcp_send_buffer click_queue"
  sbm_bytes :: "nat \<Rightarrow> byte list"

definition SBGetCurnum :: "sb_manager \<Rightarrow> u32" where
  "SBGetCurnum sbm = sbm_cur_num sbm"

text \<open>The booleans are the outcomes of the allocations of the manager, of the pool (two) and
  of the queue (two), in the order of the calls.\<close>

definition SBManagerCreate ::
  "bool \<Rightarrow> bool \<Rightarrow> bool \<Rightarrow> bool \<Rightarrow> bool \<Rightarrow> (nat \<Rightarrow> mem_chunk) \<Rightarrow> (nat \<Rightarrow> byte list) \<Rightarrow> nat \<Rightarrow> u32 \<Rightarrow>
   sb_manager option option" where
  "SBManagerCreate ok_sbm ok_mp ok_mem ok_q ok_slots mem bytes chunk_size cnum =
     (if \<not> ok_sbm then Some None
      else do {
        mp_r \<leftarrow> MPCreate ok_mp ok_mem mem chunk_size (chunk_size * unat cnum);
        case mp_r of
          None \<Rightarrow> Some None
        | Some mp \<Rightarrow>
            (case CreateSBQueue ok_q ok_slots (sint cnum) of
               None \<Rightarrow> Some None
             | Some q \<Rightarrow> Some (Some \<lparr>sbm_chunk_size = chunk_size, sbm_cur_num = 0, sbm_cnum = cnum,
                 sbm_mp = mp, sbm_freeq = q, sbm_bytes = bytes\<rparr>))
      })"

definition sb_reset :: "sb_manager \<Rightarrow> u32 \<Rightarrow> tcp_send_buffer \<Rightarrow> tcp_send_buffer" where
  "sb_reset sbm init_seq buf =
     buf\<lparr>sb_head := 0, sb_head_off := 0, sb_tail_off := 0, sb_len := 0, sb_cum_len := 0,
         sb_size := word_of_nat (sbm_chunk_size sbm), sb_init_seq := init_seq,
         sb_head_seq := init_seq\<rparr>"

definition SBInit ::
  "bool \<Rightarrow> sb_manager \<Rightarrow> u32 \<Rightarrow> (tcp_send_buffer option \<times> sb_manager) option" where
  "SBInit malloc_ok sbm init_seq = do {
     (r, q) \<leftarrow> SBDequeue (sbm_freeq sbm);
     (case r of
        Some buf \<Rightarrow> Some (Some (sb_reset sbm init_seq buf), sbm\<lparr>sbm_freeq := q\<rparr>)
      | None \<Rightarrow>
          (if \<not> malloc_ok then Some (None, sbm)
           else do {
             (c, mp) \<leftarrow> MPAllocateChunk (sbm_mp sbm);
             (case c of
                None \<Rightarrow> Some (None, sbm)
              | Some c \<Rightarrow>
                  Some (Some (sb_reset sbm init_seq
                          \<lparr>sb_data = sbm_bytes sbm c, sb_chunk = c, sb_head = 0, sb_head_off = 0,
                           sb_tail_off = 0, sb_len = 0, sb_cum_len = 0, sb_size = 0,
                           sb_head_seq = 0, sb_init_seq = 0\<rparr>),
                        sbm\<lparr>sbm_mp := mp, sbm_cur_num := sbm_cur_num sbm + 1\<rparr>))
           }))
   }"

text \<open>The result of \<open>SBEnqueue\<close> is ignored: a buffer that does not fit the free queue is
  lost.\<close>

definition SBFree :: "sb_manager \<Rightarrow> tcp_send_buffer option \<Rightarrow> sb_manager option" where
  "SBFree sbm buf =
     (case buf of
        None \<Rightarrow> Some sbm
      | Some b \<Rightarrow> do { (r, q) \<leftarrow> SBEnqueue (sbm_freeq sbm) b; Some (sbm\<lparr>sbm_freeq := q\<rparr>) })"

definition SBPut :: "tcp_send_buffer \<Rightarrow> byte list \<Rightarrow> u64 \<Rightarrow> (u64 \<times> tcp_send_buffer) option" where
  "SBPut buf data len =
     (if len = 0 then Some (0, buf)
      else
        let to_put = min len (ucast (sb_size buf - sb_len buf)) in
        if to_put = 0 then Some (- 2, buf)
        else do {
          src \<leftarrow> read_at data 0 (unat to_put);
          buf1 \<leftarrow>
            (if ucast (sb_tail_off buf) + to_put < ucast (sb_size buf) then do {
               d \<leftarrow> memcpy_at (sb_data buf) (unat (sb_tail_off buf)) src;
               Some (buf\<lparr>sb_data := d, sb_tail_off := sb_tail_off buf + ucast to_put\<rparr>)
             } else do {
               d1 \<leftarrow> memmove_at (sb_data buf) 0 (sb_head buf) (unat (sb_len buf));
               d2 \<leftarrow> memcpy_at d1 (unat (sb_len buf)) src;
               Some (buf\<lparr>sb_data := d2, sb_head := 0, sb_head_off := 0,
                         sb_tail_off := sb_len buf + ucast to_put\<rparr>)
             });
          Some (to_put, buf1\<lparr>sb_len := sb_len buf1 + ucast to_put,
                             sb_cum_len := sb_cum_len buf1 + to_put\<rparr>)
        })"

definition SBRemove :: "tcp_send_buffer \<Rightarrow> u64 \<Rightarrow> u64 \<times> tcp_send_buffer" where
  "SBRemove buf len =
     (if len = 0 then (0, buf)
      else
        let to_remove = min len (ucast (sb_len buf)) in
        if to_remove = 0 then (- 2, buf)
        else
          let head_off = sb_head_off buf + ucast to_remove;
              buf1 = buf\<lparr>sb_head_off := head_off, sb_head := unat head_off,
                         sb_head_seq := sb_head_seq buf + ucast to_remove,
                         sb_len := sb_len buf - ucast to_remove\<rparr>;
              buf2 = (if sb_len buf1 = 0 \<and> sb_head_off buf1 > 0
                      then buf1\<lparr>sb_head := 0, sb_head_off := 0, sb_tail_off := 0\<rparr> else buf1)
          in (to_remove, buf2))"

section \<open>Invariant and abstraction\<close>

definition sb_inv :: "tcp_send_buffer \<Rightarrow> bool" where
  "sb_inv b \<longleftrightarrow> length (sb_data b) = unat (sb_size b) \<and> sb_head b = unat (sb_head_off b)
     \<and> unat (sb_head_off b) + unat (sb_len b) = unat (sb_tail_off b)
     \<and> unat (sb_tail_off b) \<le> unat (sb_size b)
     \<and> sb_head_seq b + sb_len b = sb_init_seq b + ucast (sb_cum_len b)"

definition sb_bytes :: "tcp_send_buffer \<Rightarrow> byte list" where
  "sb_bytes b = take (unat (sb_len b)) (drop (sb_head b) (sb_data b))"

definition sb_cap :: "tcp_send_buffer \<Rightarrow> nat" where
  "sb_cap b = unat (sb_size b)"

lemma length_sb_bytes: "sb_inv b \<Longrightarrow> length (sb_bytes b) = unat (sb_len b)"
  by (auto simp: sb_inv_def sb_bytes_def)

lemma sb_len_le: "sb_inv b \<Longrightarrow> unat (sb_len b) \<le> sb_cap b"
  by (auto simp: sb_inv_def sb_cap_def)

lemma sb_room:
  fixes len to_put :: u64
  assumes "sb_inv b" "to_put = min len (ucast (sb_size b - sb_len b))"
  shows "unat to_put = min (unat len) (sb_cap b - unat (sb_len b))"
    and "unat to_put < 4294967296" and "unat (ucast to_put :: u32) = unat to_put"
    and "unat (sb_len b) + unat to_put \<le> sb_cap b"
proof -
  have "sb_len b \<le> sb_size b" using sb_len_le [OF assms(1)] by (simp add: word_le_nat_alt sb_cap_def)
  then show n: "unat to_put = min (unat len) (sb_cap b - unat (sb_len b))"
    using assms(2) by (simp add: unat_min unat_sub sb_cap_def)
  then show l: "unat (sb_len b) + unat to_put \<le> sb_cap b" using sb_len_le [OF assms(1)] by simp
  then show lt: "unat to_put < 4294967296"
    using unat_u32_less [of "sb_size b"] by (simp add: sb_cap_def)
  then show "unat (ucast to_put :: u32) = unat to_put" by (rule unat_ucast_down)
qed

lemma SBPut_ok:
  assumes inv: "sb_inv b" and len: "unat len \<le> length data"
  defines "n \<equiv> min (unat len) (sb_cap b - length (sb_bytes b))"
  shows "\<exists>b'. SBPut b data len = Some (if len = 0 then 0 else if n = 0 then - 2 else word_of_nat n, b')
     \<and> sb_inv b' \<and> sb_cap b' = sb_cap b \<and> sb_bytes b' = sb_bytes b @ take n data
     \<and> sb_head_seq b' = sb_head_seq b"
proof -
  define to_put where tp: "to_put = min len (ucast (sb_size b - sb_len b) :: u64)"
  note R = sb_room [OF inv tp]
  have n: "n = unat to_put" using R(1) inv by (simp add: n_def length_sb_bytes)
  show ?thesis
  proof (cases "len = 0 \<or> to_put = 0")
    case True
    then show ?thesis using inv n tp by (auto simp: SBPut_def Let_def n_def)
  next
    case False
    then have nz: "len \<noteq> 0" "to_put \<noteq> 0" "n \<noteq> 0" using n by (auto simp: unat_eq_zero)
    have src: "read_at data 0 (unat to_put) = Some (take n data)" "length (take n data) = n"
      using len R(1) n by (simp_all add: read_at_def)
    have to: "to_put = word_of_nat n" using n by simp
    have I: "length (sb_data b) = unat (sb_size b)" "sb_head b = unat (sb_head_off b)"
      "unat (sb_head_off b) + unat (sb_len b) = unat (sb_tail_off b)"
      "unat (sb_tail_off b) \<le> unat (sb_size b)"
      "sb_head_seq b + sb_len b = sb_init_seq b + ucast (sb_cum_len b)"
      using inv by (auto simp: sb_inv_def)
    have fit: "unat (sb_len b) + n \<le> unat (sb_size b)" using R(4) n by (simp add: sb_cap_def)
    have L: "unat (sb_len b + ucast to_put) = unat (sb_len b) + n"
      using fit n R(3) unat_u32_less [of "sb_size b"] by (subst unat_add_small) simp_all
    have T: "unat (ucast (sb_tail_off b) + to_put) = unat (sb_tail_off b) + n"
      using n R(2) unat_u32_less [of "sb_tail_off b"] by (subst unat_add_small) simp_all
    have seq: "sb_head_seq b + (sb_len b + ucast to_put)
        = sb_init_seq b + ucast (sb_cum_len b + to_put)"
      using I(5) by (simp add: ucast_add_32 add.assoc [symmetric])
    have ret: "(if len = 0 then 0 else if n = 0 then - 2 else word_of_nat n) = to_put"
      using nz to by simp
    show ?thesis
    proof (cases "unat (sb_tail_off b) + n < unat (sb_size b)")
      case True
      let ?d = "take (unat (sb_tail_off b)) (sb_data b) @ take n data
          @ drop (unat (sb_tail_off b) + n) (sb_data b)"
      have cond: "ucast (sb_tail_off b) + to_put < ucast (sb_size b)"
        using True T by (simp add: word_less_nat_alt)
      have T2: "unat (sb_tail_off b + ucast to_put) = unat (sb_tail_off b) + n"
        using True n R(3) unat_u32_less [of "sb_size b"] by (subst unat_add_small) simp_all
      have "SBPut b data len = Some (to_put, b\<lparr>sb_data := ?d, sb_tail_off := sb_tail_off b + ucast to_put,
          sb_len := sb_len b + ucast to_put, sb_cum_len := sb_cum_len b + to_put\<rparr>)" (is "_ = Some (_, ?b)")
        using nz cond src True I(1) by (simp add: SBPut_def Let_def tp [symmetric] memcpy_at_Some)
      moreover have "sb_inv ?b" using I fit True T2 L seq src(2) by (simp add: sb_inv_def)
      moreover have "sb_bytes ?b = sb_bytes b @ take n data"
        using I(1,2) L src(2) True by (simp add: sb_bytes_def I(3) [symmetric] drop_take)
      ultimately show ?thesis unfolding ret by (auto simp: sb_cap_def)
    next
      case False
      let ?d1 = "take (unat (sb_len b)) (drop (sb_head b) (sb_data b))
          @ drop (unat (sb_len b)) (sb_data b)"
      let ?d = "take (unat (sb_len b)) ?d1 @ take n data @ drop (unat (sb_len b) + n) ?d1"
      have cond: "\<not> ucast (sb_tail_off b) + to_put < ucast (sb_size b)"
        using False T by (simp add: word_less_nat_alt)
      have mv: "memmove_at (sb_data b) 0 (sb_head b) (unat (sb_len b)) = Some ?d1"
        using I by (subst memmove_at_Some) simp_all
      have l1: "length ?d1 = unat (sb_size b)" using I fit by simp
      have cp: "memcpy_at ?d1 (unat (sb_len b)) (take n data) = Some ?d"
        using l1 fit src(2) by (simp only: memcpy_at_Some)
      have "SBPut b data len = Some (to_put, b\<lparr>sb_data := ?d, sb_head := 0, sb_head_off := 0,
          sb_tail_off := sb_len b + ucast to_put,
          sb_len := sb_len b + ucast to_put, sb_cum_len := sb_cum_len b + to_put\<rparr>)" (is "_ = Some (_, ?b)")
        using nz cond src by (simp add: SBPut_def Let_def tp [symmetric] mv cp)
      moreover have "sb_inv ?b" using I fit L seq src(2) by (simp add: sb_inv_def)
      moreover have "sb_bytes ?b = sb_bytes b @ take n data"
        using I L src(2) by (simp add: sb_bytes_def)
      ultimately show ?thesis unfolding ret by (auto simp: sb_cap_def)
    qed
  qed
qed

lemma SBRemove_ok:
  fixes len :: u64
  assumes inv: "sb_inv b"
  defines "n \<equiv> min (unat len) (length (sb_bytes b))"
  shows "\<exists>b'. SBRemove b len = (if len = 0 then 0 else if n = 0 then - 2 else word_of_nat n, b')
     \<and> sb_inv b' \<and> sb_cap b' = sb_cap b \<and> sb_bytes b' = drop n (sb_bytes b)
     \<and> sb_head_seq b' = sb_head_seq b + word_of_nat n"
proof -
  define to_remove where tr: "to_remove = min len (ucast (sb_len b) :: u64)"
  have n: "n = unat to_remove" using inv by (simp add: tr n_def unat_min length_sb_bytes)
  then have le: "n \<le> unat (sb_len b)" by (simp add: tr unat_min)
  show ?thesis
  proof (cases "len = 0 \<or> to_remove = 0")
    case True
    then have "n = 0" using n tr by auto
    then show ?thesis using inv True tr by (auto simp: SBRemove_def Let_def)
  next
    case False
    then have nz: "len \<noteq> 0" "to_remove \<noteq> 0" "n \<noteq> 0" using n by (auto simp: unat_eq_zero)
    have to: "to_remove = word_of_nat n" using n by simp
    have lt: "unat to_remove < 4294967296" using le n unat_u32_less [of "sb_len b"] by simp
    have u: "unat (ucast to_remove :: u32) = n" using unat_ucast_down [OF lt] n by simp
    then have uw: "(ucast to_remove :: u32) = word_of_nat n" by (simp flip: u)
    have I: "length (sb_data b) = unat (sb_size b)" "sb_head b = unat (sb_head_off b)"
      "unat (sb_head_off b) + unat (sb_len b) = unat (sb_tail_off b)"
      "unat (sb_tail_off b) \<le> unat (sb_size b)"
      "sb_head_seq b + sb_len b = sb_init_seq b + ucast (sb_cum_len b)"
      using inv by (auto simp: sb_inv_def)
    have H: "unat (sb_head_off b + ucast to_remove) = unat (sb_head_off b) + n"
      using I(3) le u unat_u32_less [of "sb_tail_off b"] by (subst unat_add_small) simp_all
    have "(ucast to_remove :: u32) \<le> sb_len b" using le u by (simp add: word_le_nat_alt)
    then have L: "unat (sb_len b - ucast to_remove) = unat (sb_len b) - n" using u by (simp add: unat_sub)
    have pos: "sb_head_off b + ucast to_remove > 0" using H nz(3) by (simp add: word_less_nat_alt)
    have eq: "SBRemove b len = (to_remove, if sb_len b - ucast to_remove = 0
       then b\<lparr>sb_head := 0, sb_head_off := 0, sb_tail_off := 0,
              sb_head_seq := sb_head_seq b + ucast to_remove, sb_len := sb_len b - ucast to_remove\<rparr>
       else b\<lparr>sb_head := unat (sb_head_off b + ucast to_remove),
              sb_head_off := sb_head_off b + ucast to_remove,
              sb_head_seq := sb_head_seq b + ucast to_remove, sb_len := sb_len b - ucast to_remove\<rparr>)"
      (is "_ = (_, ?b)")
      using nz pos by (simp add: SBRemove_def Let_def tr [symmetric])
    have seq: "(sb_head_seq b + ucast to_remove) + (sb_len b - ucast to_remove)
        = sb_init_seq b + ucast (sb_cum_len b)"
      using I(5) by simp
    have Z: "sb_len b - ucast to_remove = 0 \<longleftrightarrow> unat (sb_len b) = n"
      unfolding unat_eq_zero [symmetric] L using le by auto
    have T: "unat (sb_tail_off b) = unat (sb_head_off b) + unat (sb_len b)" using I(3) by simp
    have "sb_inv ?b \<and> sb_bytes ?b = drop n (sb_bytes b)"
    proof (cases "unat (sb_len b) = n")
      case True
      then have Zt: "sb_len b - ucast to_remove = 0" using Z by simp
      show ?thesis using I(1,2) True seq unfolding sb_inv_def sb_bytes_def by (simp add: Zt)
    next
      case False
      then have Zt: "sb_len b - ucast to_remove \<noteq> 0" using Z by simp
      show ?thesis using I(1,2,4) False seq H L le T unfolding sb_inv_def sb_bytes_def if_not_P [OF Zt]
        by (simp add: drop_take add.commute)
    qed
    then show ?thesis using eq nz to uw by (auto simp: sb_cap_def)
  qed
qed

section \<open>The byte stream interface\<close>

datatype sbop = Put "byte list" | Remove u64

text \<open>Running a sequence of writes and removals; the bytes the writes accepted, and the
  number of bytes the removals took.\<close>

fun run_sb ::
  "('b \<Rightarrow> byte list \<Rightarrow> u64 \<Rightarrow> (u64 \<times> 'b) option) \<Rightarrow> ('b \<Rightarrow> u64 \<Rightarrow> u64 \<times> 'b) \<Rightarrow>
   sbop list \<Rightarrow> 'b \<Rightarrow> (byte list \<times> nat \<times> 'b) option" where
  "run_sb put remove [] b = Some ([], 0, b)"
| "run_sb put remove (Put xs # ops) b = do {
     (r, b1) \<leftarrow> put b xs (word_of_nat (length xs));
     (acc, k, b2) \<leftarrow> run_sb put remove ops b1;
     Some ((if r = - 2 then [] else take (unat r) xs) @ acc, k, b2) }"
| "run_sb put remove (Remove n # ops) b = (case remove b n of (r, b1) \<Rightarrow> do {
     (acc, k, b2) \<leftarrow> run_sb put remove ops b1;
     Some (acc, (if r = - 2 then 0 else unat r) + k, b2) })"

text \<open>The writes of a trace are below the size of the address space.\<close>

definition sbops_ok :: "sbop list \<Rightarrow> bool" where
  "sbops_ok ops = list_all (\<lambda>op. case op of Put xs \<Rightarrow> length xs < 2 ^ 32 | Remove _ \<Rightarrow> True) ops"

locale byte_stream =
  fixes invar :: "'b \<Rightarrow> bool"
    and cap :: "'b \<Rightarrow> nat"
    and bytes :: "'b \<Rightarrow> byte list"
    and base :: "'b \<Rightarrow> u32"
    and put :: "'b \<Rightarrow> byte list \<Rightarrow> u64 \<Rightarrow> (u64 \<times> 'b) option"
    and remove :: "'b \<Rightarrow> u64 \<Rightarrow> u64 \<times> 'b"
  assumes put_law: "invar b \<Longrightarrow> unat len \<le> length data \<Longrightarrow>
      n = min (unat len) (cap b - length (bytes b)) \<Longrightarrow>
      \<exists>b'. put b data len = Some (if len = 0 then 0 else if n = 0 then - 2 else word_of_nat n, b')
        \<and> invar b' \<and> cap b' = cap b \<and> bytes b' = bytes b @ take n data \<and> base b' = base b"
    and remove_law: "invar b \<Longrightarrow> n = min (unat len) (length (bytes b)) \<Longrightarrow>
      \<exists>b'. remove b len = (if len = 0 then 0 else if n = 0 then - 2 else word_of_nat n, b')
        \<and> invar b' \<and> cap b' = cap b \<and> bytes b' = drop n (bytes b)
        \<and> base b' = base b + word_of_nat n"
    and bytes_less: "invar b \<Longrightarrow> length (bytes b) < 2 ^ 32"
begin

lemma small_ret:
  "n < 2 ^ 32 \<Longrightarrow> (word_of_nat n :: u64) \<noteq> - 2 \<and> unat (word_of_nat n :: u64) = n"
proof -
  assume n: "n < 2 ^ 32"
  then have u: "unat (word_of_nat n :: u64) = n" by (simp add: unsigned_of_nat take_bit_eq_mod)
  moreover have "unat (- 2 :: u64) \<noteq> n" using n by simp
  ultimately show ?thesis by auto
qed

lemma put_step:
  assumes "invar b" and "length xs < 2 ^ 32"
  shows "\<exists>r b' ys zs. put b xs (word_of_nat (length xs)) = Some (r, b') \<and> xs = ys @ zs
    \<and> (if r = - 2 then [] else take (unat r) xs) = ys
    \<and> invar b' \<and> bytes b' = bytes b @ ys \<and> base b' = base b"
proof -
  let ?n = "min (length xs) (cap b - length (bytes b))"
  have u: "unat (word_of_nat (length xs) :: u64) = length xs" using small_ret [OF assms(2)] by simp
  from put_law [OF assms(1), of "word_of_nat (length xs)" xs ?n] u obtain b' where b':
    "put b xs (word_of_nat (length xs)) = Some (if (word_of_nat (length xs) :: u64) = 0 then 0
       else if ?n = 0 then - 2 else word_of_nat ?n, b')"
    "invar b'" "bytes b' = bytes b @ take ?n xs" "base b' = base b" by auto
  have z: "(word_of_nat (length xs) :: u64) = 0 \<longleftrightarrow> xs = []" using u by (metis length_0_conv unat_eq_zero)
  have r: "?n < 2 ^ 32" using assms(2) by simp
  let ?r = "if (word_of_nat (length xs) :: u64) = 0 then 0 else if ?n = 0 then - 2
    else word_of_nat ?n :: u64"
  have "(if ?r = - 2 then [] else take (unat ?r) xs) = take ?n xs"
    using z small_ret [OF r] by auto
  with b' show ?thesis
    by (intro exI [of _ ?r] exI [of _ b'] exI [of _ "take ?n xs"] exI [of _ "drop ?n xs"]) simp
qed

lemma remove_step:
  assumes "invar b"
  shows "\<exists>r b'. remove b len = (r, b') \<and> invar b'
    \<and> bytes b' = drop (if r = - 2 then 0 else unat r) (bytes b)
    \<and> (if r = - 2 then 0 else unat r) \<le> length (bytes b)
    \<and> base b' = base b + word_of_nat (if r = - 2 then 0 else unat r)"
proof -
  let ?n = "min (unat len) (length (bytes b))"
  have r: "?n < 2 ^ 32" using bytes_less [OF assms] by simp
  from remove_law [OF assms refl, of len] obtain b' where b':
    "remove b len = (if len = 0 then 0 else if ?n = 0 then - 2 else word_of_nat ?n, b')"
    "invar b'" "bytes b' = drop ?n (bytes b)" "base b' = base b + word_of_nat ?n" by auto
  have "(if fst (remove b len) = - 2 then 0 else unat (fst (remove b len))) = ?n"
    using b'(1) small_ret [OF r] by auto
  with b' show ?thesis by (intro exI [of _ "fst (remove b len)"] exI [of _ b']) simp
qed

text \<open>At every moment the buffer holds exactly the accepted bytes that were not removed, and
  its base is the sequence number of the first of them.\<close>

lemma run_stream:
  assumes "invar b" and "sbops_ok ops"
  shows "\<exists>acc k b'. run_sb put remove ops b = Some (acc, k, b') \<and> invar b'
    \<and> k \<le> length (bytes b @ acc) \<and> bytes b' = drop k (bytes b @ acc)
    \<and> base b' = base b + word_of_nat k"
  using assms
proof (induction ops arbitrary: b)
  case Nil
  then show ?case by simp
next
  case (Cons op ops)
  have ok: "sbops_ok ops" using Cons.prems by (simp add: sbops_ok_def)
  show ?case
  proof (cases op)
    case (Put xs)
    have "length xs < 2 ^ 32" using Cons.prems(2) by (simp add: sbops_ok_def Put)
    from put_step [OF Cons.prems(1) this] obtain r b1 ys where s:
      "put b xs (word_of_nat (length xs)) = Some (r, b1)"
      "(if r = - 2 then [] else take (unat r) xs) = ys"
      "invar b1" "bytes b1 = bytes b @ ys" "base b1 = base b" by blast
    from Cons.IH [OF s(3) ok] s show ?thesis by (auto simp: Put)
  next
    case (Remove n)
    from remove_step [OF Cons.prems(1), of n] obtain r b1 where s: "remove b n = (r, b1)" "invar b1"
      "bytes b1 = drop (if r = - 2 then 0 else unat r) (bytes b)"
      "(if r = - 2 then 0 else unat r) \<le> length (bytes b)"
      "base b1 = base b + word_of_nat (if r = - 2 then 0 else unat r)" by blast
    define k where k: "k = (if r = - 2 then 0 else unat r)"
    from Cons.IH [OF s(2) ok] s [folded k] show ?thesis
      by (auto simp: Remove k [symmetric] add.commute)
  qed
qed

end

interpretation sb: byte_stream sb_inv sb_cap sb_bytes sb_head_seq SBPut SBRemove
proof (unfold_locales, goal_cases)
  case (1 b len data n)
  from SBPut_ok [OF 1(1,2)] show ?case unfolding 1(3) .
next
  case (2 b n len)
  from SBRemove_ok [OF 2(1), of len] show ?case unfolding 2(2) .
next
  case (3 b)
  then show ?case using unat_u32_less [of "sb_len b"] by (simp add: length_sb_bytes)
qed

section \<open>The buffer manager\<close>

definition sbm_inv :: "sb_manager \<Rightarrow> bool" where
  "sbm_inv sbm \<longleftrightarrow> click_inv (sbm_freeq sbm)
     \<and> list_all (\<lambda>b. length (sb_data b) = sbm_chunk_size sbm) (click_items (sbm_freeq sbm))
     \<and> sbm_chunk_size sbm < 4294967296 \<and> (\<forall>c. length (sbm_bytes sbm c) = sbm_chunk_size sbm)
     \<and> (\<exists>L. pool_use (sbm_mp sbm) L)"

lemma sb_reset_inv:
  "length (sb_data b) = sbm_chunk_size sbm \<Longrightarrow> sbm_chunk_size sbm < 4294967296 \<Longrightarrow>
     sb_inv (sb_reset sbm iss b) \<and> sb_bytes (sb_reset sbm iss b) = []
     \<and> sb_cap (sb_reset sbm iss b) = sbm_chunk_size sbm \<and> sb_head_seq (sb_reset sbm iss b) = iss
     \<and> length (sb_data (sb_reset sbm iss b)) = sbm_chunk_size sbm"
  by (simp add: sb_reset_def sb_inv_def sb_bytes_def sb_cap_def unsigned_of_nat take_bit_eq_mod)

lemma sb_ops_data_length:
  "SBPut b data len = Some (r, b') \<Longrightarrow> length (sb_data b') = length (sb_data b)"
  "SBRemove b len = (r, b') \<Longrightarrow> length (sb_data b') = length (sb_data b)"
  by (auto simp: SBPut_def SBRemove_def Let_def bind_eq_Some_conv
      dest!: length_memcpy_at length_memmove_at split: if_splits)

lemma pool_use_alloc:
  assumes "pool_use mp L"
  obtains (chunk) p mp' where "MPAllocateChunk mp = Some (Some p, mp')" "p \<notin> L"
      "pool_use mp' (insert p L)"
  | (empty) "MPAllocateChunk mp = Some (None, mp)"
  using pool.alloc_owns [OF pool_use_owns [OF assms]] pool_use.allocate [OF assms] by blast

lemma SBInit_ok:
  assumes "sbm_inv sbm"
  shows "\<exists>r sbm'. SBInit ok sbm iss = Some (r, sbm') \<and> sbm_inv sbm'
    \<and> sbm_chunk_size sbm' = sbm_chunk_size sbm
    \<and> (\<forall>b. r = Some b \<longrightarrow> sb_inv b \<and> sb_bytes b = [] \<and> sb_cap b = sbm_chunk_size sbm
         \<and> sb_head_seq b = iss \<and> length (sb_data b) = sbm_chunk_size sbm)"
proof -
  from assms have q: "click_inv (sbm_freeq sbm)"
    and items: "list_all (\<lambda>b. length (sb_data b) = sbm_chunk_size sbm) (click_items (sbm_freeq sbm))"
    and cs: "sbm_chunk_size sbm < 4294967296"
    and fresh: "\<And>c. length (sbm_bytes sbm c) = sbm_chunk_size sbm"
    by (auto simp: sbm_inv_def)
  from assms obtain L where L: "pool_use (sbm_mp sbm) L" by (auto simp: sbm_inv_def)
  show ?thesis
  proof (cases "click_items (sbm_freeq sbm)")
    case Nil
    from sb_q.deq_empty [OF q Nil] have d: "SBDequeue (sbm_freeq sbm) = Some (None, sbm_freeq sbm)" .
    from L show ?thesis
    proof (cases rule: pool_use_alloc)
      case (chunk p mp')
      have "sbm_inv (sbm\<lparr>sbm_mp := mp', sbm_cur_num := sbm_cur_num sbm + 1\<rparr>)"
        using assms chunk(3) by (auto simp: sbm_inv_def)
      with assms chunk(1) d cs fresh sb_reset_inv show ?thesis
        by (cases ok) (simp_all add: SBInit_def sb_reset_inv)
    next
      case empty
      with assms d show ?thesis by (cases ok) (simp_all add: SBInit_def)
    qed
  next
    case (Cons b bs)
    from sb_q.deq_item [OF q Cons] obtain q' where d: "SBDequeue (sbm_freeq sbm) = Some (Some b, q')"
      "click_inv q'" "click_items q' = bs" by blast
    have "sbm_inv (sbm\<lparr>sbm_freeq := q'\<rparr>)" using assms d items Cons by (auto simp: sbm_inv_def)
    with d items Cons cs show ?thesis by (simp add: SBInit_def sb_reset_inv)
  qed
qed

lemma SBFree_ok:
  assumes "sbm_inv sbm" and "length (sb_data b) = sbm_chunk_size sbm"
  shows "\<exists>sbm'. SBFree sbm (Some b) = Some sbm' \<and> sbm_inv sbm' \<and> sbm_chunk_size sbm' = sbm_chunk_size sbm"
proof -
  have q: "click_inv (sbm_freeq sbm)" using assms by (simp add: sbm_inv_def)
  show ?thesis
  proof (cases "length (click_items (sbm_freeq sbm)) < click_cap (sbm_freeq sbm)")
    case True
    from sb_q.enq_room [OF q True] obtain q' where "SBEnqueue (sbm_freeq sbm) b = Some (0, q')"
      "click_inv q'" "click_items q' = click_items (sbm_freeq sbm) @ [b]" by blast
    with assms show ?thesis by (simp add: SBFree_def sbm_inv_def)
  next
    case False
    then have "length (click_items (sbm_freeq sbm)) = click_cap (sbm_freeq sbm)"
      using sb_q.items_le [OF q] by simp
    from sb_q.enq_full [OF q this] assms show ?thesis by (simp add: SBFree_def)
  qed
qed

section \<open>Properties\<close>

text \<open>C3. A send buffer obtained from \<open>SBInit\<close> is a byte stream. However \<open>SBPut\<close> and \<open>SBRemove\<close>
  are interleaved, no access leaves the chunk, and the buffer holds, in order, exactly the
  bytes that were accepted and not yet removed; \<open>head_seq\<close> is the sequence number of the
  first of them, also after the sequence space wrapped around; and the manager stays
  well formed.\<close>

theorem SendBuffer_stream:
  assumes "sbm_inv sbm" and "SBInit ok sbm iss = Some (Some b, sbm')" and "sbops_ok ops"
  shows "\<exists>acc k b'. run_sb SBPut SBRemove ops b = Some (acc, k, b')
    \<and> k \<le> length acc \<and> sb_bytes b' = drop k acc
    \<and> sb_head_seq b' = iss + word_of_nat k \<and> sbm_inv sbm'"
  using SBInit_ok [OF assms(1), of ok iss] sb.run_stream [of b ops] assms(2,3) by auto

definition sbm_example :: sb_manager where
  "sbm_example = \<lparr>sbm_chunk_size = 64, sbm_cur_num = 0, sbm_cnum = 2, sbm_mp = pool_example,
     sbm_freeq = \<lparr>q_capacity = 2, q_head = 0, q_tail = 0, q_slots = [None, None, None]\<rparr>,
     sbm_bytes = (\<lambda>_. replicate 64 0)\<rparr>"

lemma sbm_example_inv: "sbm_inv sbm_example"
  using pool_example_use
  by (auto simp: sbm_inv_def sbm_example_def click_inv_def click_items_def click_window_def
      click_count_def ring_dist_def)

theorem SendBuffer_stream_witness:
  "\<exists>b sbm' acc k b'. SBInit True sbm_example 0xFFFFFFFF = Some (Some b, sbm')
     \<and> run_sb SBPut SBRemove [Put [1, 2, 3], Remove 2] b = Some (acc, k, b')
     \<and> sb_bytes b' = drop k acc \<and> sb_head_seq b' = 0xFFFFFFFF + word_of_nat k"
proof -
  obtain b sbm' where b: "SBInit True sbm_example 0xFFFFFFFF = Some (Some b, sbm')"
    by (simp add: SBInit_def sbm_example_def SBDequeue_def pool_example_def MPAllocateChunk_def Let_def)
  have "sbops_ok [Put [1, 2, 3], Remove 2]" by (simp add: sbops_ok_def)
  from SendBuffer_stream [OF sbm_example_inv b this] b show ?thesis by blast
qed

text \<open>C22. \<open>SBPut\<close> accepts as much as fits: with \<open>n\<close> the smaller of the requested length and
  the free space, it returns \<open>n\<close> and appends the first \<open>n\<close> bytes, or returns -2 and changes
  nothing when the buffer is full. \<open>SBRemove\<close> of at least one byte from a non-empty buffer
  removes the smaller of the requested and the buffered amount.\<close>

theorem SBPut_SBRemove_amounts:
  assumes "sb_inv b" and "0 < len" and "unat len \<le> length data"
    and "n = min (unat len) (sb_cap b - length (sb_bytes b))"
    and "m = min (unat len) (length (sb_bytes b))"
  shows "(\<exists>b'. SBPut b data len = Some (if n = 0 then - 2 else word_of_nat n, b')
           \<and> sb_inv b' \<and> sb_bytes b' = sb_bytes b @ take n data)
    \<and> (\<exists>b'. SBRemove b len = (if m = 0 then - 2 else word_of_nat m, b')
           \<and> sb_inv b' \<and> sb_bytes b' = drop m (sb_bytes b))"
proof -
  have nz: "len \<noteq> 0" using assms(2) by auto
  from SBPut_ok [OF assms(1,3)] SBRemove_ok [OF assms(1), of len] nz show ?thesis
    unfolding assms(4,5) if_not_P [OF nz] by blast
qed

definition sb_example :: tcp_send_buffer where
  "sb_example = \<lparr>sb_data = replicate 64 0, sb_chunk = 0, sb_head = 0, sb_head_off = 0,
     sb_tail_off = 0, sb_len = 0, sb_cum_len = 0, sb_size = 64, sb_head_seq = 7, sb_init_seq = 7\<rparr>"

lemma sb_example_inv: "sb_inv sb_example" "sb_bytes sb_example = []" "sb_cap sb_example = 64"
  by (simp_all add: sb_inv_def sb_example_def sb_bytes_def sb_cap_def)

theorem SBPut_SBRemove_amounts_witness:
  "\<exists>b'. SBPut sb_example [5, 6] 2 = Some (2, b') \<and> sb_bytes b' = [5, 6]"
proof -
  have n: "2 = min (unat (2 :: u64)) (sb_cap sb_example - length (sb_bytes sb_example))"
    and m: "0 = min (unat (2 :: u64)) (length (sb_bytes sb_example))"
    unfolding sb_example_inv(2,3) by simp_all
  have "0 < (2 :: u64)" "unat (2 :: u64) \<le> length [5 :: byte, 6]" by simp_all
  from SBPut_SBRemove_amounts [OF sb_example_inv(1) this n m] show ?thesis
    unfolding sb_example_inv(2) by auto
qed

end
