(* ===== verification/Tcp_Types.thy ===== *)
theory Tcp_Types
  imports Send_Buffer Recv_Buffer
begin

text \<open>
  The data of the TCP engine (tcp_in.h, tcp_stream.h): states, close reasons, header flags,
  the per-connection send and receive variables, the stream and the TCP header.

  Conventions. A pointer to a stream is the offset of its chunk in the flow pool; the
  variables that \<open>rcvvar\<close> and \<open>sndvar\<close> point to are part of the stream, with the chunks they
  occupy in \<open>rv_chunk\<close> and \<open>sv_chunk\<close>. The links of the stream into the lists of the manager
  are the lists themselves. Header fields are in host byte order, addresses and ports in the
  byte order in which the code keeps them (network order) and only compared.
\<close>

datatype tcp_state =
    TCP_ST_CLOSED | TCP_ST_LISTEN | TCP_ST_SYN_SENT | TCP_ST_SYN_RCVD | TCP_ST_ESTABLISHED
  | TCP_ST_FIN_WAIT_1 | TCP_ST_FIN_WAIT_2 | TCP_ST_CLOSE_WAIT | TCP_ST_CLOSING | TCP_ST_LAST_ACK
  | TCP_ST_TIME_WAIT

text \<open>The numbering of the enumeration, by which the code compares states.\<close>

fun tcp_state_num :: "tcp_state \<Rightarrow> nat" where
  "tcp_state_num TCP_ST_CLOSED = 0"
| "tcp_state_num TCP_ST_LISTEN = 1"
| "tcp_state_num TCP_ST_SYN_SENT = 2"
| "tcp_state_num TCP_ST_SYN_RCVD = 3"
| "tcp_state_num TCP_ST_ESTABLISHED = 4"
| "tcp_state_num TCP_ST_FIN_WAIT_1 = 5"
| "tcp_state_num TCP_ST_FIN_WAIT_2 = 6"
| "tcp_state_num TCP_ST_CLOSE_WAIT = 7"
| "tcp_state_num TCP_ST_CLOSING = 8"
| "tcp_state_num TCP_ST_LAST_ACK = 9"
| "tcp_state_num TCP_ST_TIME_WAIT = 10"

lemma tcp_state_num_inj: "tcp_state_num s = tcp_state_num t \<Longrightarrow> s = t"
  by (cases s; cases t) simp_all

instantiation tcp_state :: linorder
begin

definition less_eq_tcp_state :: "tcp_state \<Rightarrow> tcp_state \<Rightarrow> bool" where
  "less_eq_tcp_state s t \<longleftrightarrow> tcp_state_num s \<le> tcp_state_num t"

definition less_tcp_state :: "tcp_state \<Rightarrow> tcp_state \<Rightarrow> bool" where
  "less_tcp_state s t \<longleftrightarrow> tcp_state_num s < tcp_state_num t"

instance
  by standard (auto simp: less_eq_tcp_state_def less_tcp_state_def dest: tcp_state_num_inj)

end

lemmas tcp_state_order [simp] = less_eq_tcp_state_def less_tcp_state_def

datatype tcp_close_reason =
    TCP_NOT_CLOSED | TCP_ACTIVE_CLOSE | TCP_PASSIVE_CLOSE | TCP_CONN_FAIL | TCP_CONN_LOST
  | TCP_RESET | TCP_NO_MEM | TCP_NOT_ACCEPTED | TCP_TIMEDOUT

section \<open>Constants\<close>

definition TCP_FLAG_FIN :: u8 where "TCP_FLAG_FIN = 0x01"
definition TCP_FLAG_SYN :: u8 where "TCP_FLAG_SYN = 0x02"
definition TCP_FLAG_RST :: u8 where "TCP_FLAG_RST = 0x04"
definition TCP_FLAG_PSH :: u8 where "TCP_FLAG_PSH = 0x08"
definition TCP_FLAG_ACK :: u8 where "TCP_FLAG_ACK = 0x10"
definition TCP_FLAG_WACK :: u8 where "TCP_FLAG_WACK = 0x80"

definition has_flag :: "u8 \<Rightarrow> u8 \<Rightarrow> bool" where
  "has_flag flags f \<longleftrightarrow> flags AND f \<noteq> 0"

definition TCP_OPT_END :: u8 where "TCP_OPT_END = 0"
definition TCP_OPT_NOP :: u8 where "TCP_OPT_NOP = 1"
definition TCP_OPT_MSS :: u8 where "TCP_OPT_MSS = 2"
definition TCP_OPT_WSCALE :: u8 where "TCP_OPT_WSCALE = 3"
definition TCP_OPT_SACK_PERMIT :: u8 where "TCP_OPT_SACK_PERMIT = 4"
definition TCP_OPT_TIMESTAMP :: u8 where "TCP_OPT_TIMESTAMP = 8"

definition TCP_OPT_MSS_LEN :: nat where "TCP_OPT_MSS_LEN = 4"
definition TCP_OPT_WSCALE_LEN :: nat where "TCP_OPT_WSCALE_LEN = 3"
definition TCP_OPT_TIMESTAMP_LEN :: nat where "TCP_OPT_TIMESTAMP_LEN = 10"

definition TCP_DEFAULT_MSS :: u16 where "TCP_DEFAULT_MSS = 1460"
definition TCP_DEFAULT_WSCALE :: u8 where "TCP_DEFAULT_WSCALE = 7"
definition TCP_INITIAL_WINDOW :: u32 where "TCP_INITIAL_WINDOW = 14600"
definition TCP_INITIAL_RTO :: u32 where "TCP_INITIAL_RTO = 500"
definition TCP_TIMEWAIT :: u32 where "TCP_TIMEWAIT = 0"
definition TCP_MAX_RTX :: u8 where "TCP_MAX_RTX = 16"
definition TCP_MAX_SYN_RETRY :: u8 where "TCP_MAX_SYN_RETRY = 7"
definition TCP_MAX_BACKOFF :: u8 where "TCP_MAX_BACKOFF = 7"
definition TCP_HEADER_LEN :: nat where "TCP_HEADER_LEN = 20"
definition TCP_MAX_WINDOW :: u32 where "TCP_MAX_WINDOW = 65535"

text \<open>A time stamp counts milliseconds (\<open>HZ\<close> is 1000), so \<open>TS_TO_MSEC\<close> multiplies and divides
  by the same constant in 32 bits.\<close>

definition TS_TO_MSEC :: "u32 \<Rightarrow> u32" where
  "TS_TO_MSEC t = (t * 1000) div 1000"

section \<open>Per-connection variables\<close>

record tcp_recv_vars =
  rcv_wnd :: u32
  irs :: u32
  snd_wl1 :: u32
  snd_wl2 :: u32
  dup_acks :: u8
  last_ack_seq :: u32
  ts_recent :: u32
  ts_lastack_rcvd :: u32
  ts_last_ts_upd :: u32
  ts_tw_expire :: u32
  srtt :: u32
  mdev :: u32
  mdev_max :: u32
  rttvar :: u32
  rtt_seq :: u32
  rcvbuf :: "tcp_ring_buffer option"

text \<open>\<open>ack_cnt\<close> is a bit field of six bits.\<close>

record tcp_send_vars =
  ip_id :: u16
  mss :: u16
  eff_mss :: u16
  wscale_mine :: u8
  wscale_peer :: u8
  nif_out :: int
  snd_una :: u32
  snd_wnd :: u32
  peer_wnd :: u32
  iss :: u32
  fss :: u32
  nrtx :: u8
  max_nrtx :: u8
  rto :: u32
  ts_rto :: u32
  cwnd :: u32
  ssthresh :: u32
  ts_lastack_sent :: u32
  is_wack :: bool
  ack_cnt :: "6 word"
  on_control_list :: bool
  on_send_list :: bool
  on_ack_list :: bool
  on_sendq :: bool
  on_ackq :: bool
  on_closeq :: bool
  on_resetq :: bool
  on_closeq_int :: bool
  on_resetq_int :: bool
  is_fin_sent :: bool
  is_fin_ackd :: bool
  sndbuf :: "tcp_send_buffer option"

record tcp_stream =
  s_socket :: "nat option"
  s_id :: "24 word"
  stream_type :: u8
  s_saddr :: u32
  s_daddr :: u32
  s_sport :: u16
  s_dport :: u16
  s_state :: tcp_state
  close_reason :: tcp_close_reason
  on_hash_table :: bool
  on_timewait_list :: bool
  ht_idx :: u8
  s_closed :: bool
  is_bound_addr :: bool
  need_wnd_adv :: bool
  on_rto_idx :: int
  on_timeout_list :: bool
  saw_timestamp :: bool
  sack_permit :: bool
  control_list_waiting :: bool
  have_reset :: bool
  is_external :: bool
  snd_nxt :: u32
  rcv_nxt :: u32
  rcvvar :: tcp_recv_vars
  sndvar :: tcp_send_vars
  rv_chunk :: nat
  sv_chunk :: nat
  last_active_ts :: u32

section \<open>Segments\<close>

text \<open>The fixed part of the TCP header. Sequence numbers and window are in host order; ports and
  checksum are the 16-bit values that a little-endian host reads, which the code keeps as they
  are. \<open>doff\<close> counts words of four bytes.\<close>

record tcphdr =
  th_source :: u16
  th_dest :: u16
  th_seq :: u32
  th_ack_seq :: u32
  th_doff :: nat
  th_fin :: bool
  th_syn :: bool
  th_rst :: bool
  th_psh :: bool
  th_ack :: bool
  th_window :: u16
  th_check :: u16

text \<open>The all-zero values that \<open>memset\<close> leaves.\<close>

definition zero_recv_vars :: tcp_recv_vars where
  "zero_recv_vars = \<lparr>rcv_wnd = 0, irs = 0, snd_wl1 = 0, snd_wl2 = 0, dup_acks = 0, last_ack_seq = 0,
     ts_recent = 0, ts_lastack_rcvd = 0, ts_last_ts_upd = 0, ts_tw_expire = 0, srtt = 0, mdev = 0,
     mdev_max = 0, rttvar = 0, rtt_seq = 0, rcvbuf = None\<rparr>"

definition zero_send_vars :: tcp_send_vars where
  "zero_send_vars = \<lparr>ip_id = 0, mss = 0, eff_mss = 0, wscale_mine = 0, wscale_peer = 0, nif_out = 0,
     snd_una = 0, snd_wnd = 0, peer_wnd = 0, iss = 0, fss = 0, nrtx = 0, max_nrtx = 0, rto = 0,
     ts_rto = 0, cwnd = 0, ssthresh = 0, ts_lastack_sent = 0, is_wack = False, ack_cnt = 0,
     on_control_list = False, on_send_list = False, on_ack_list = False, on_sendq = False,
     on_ackq = False, on_closeq = False, on_resetq = False, on_closeq_int = False,
     on_resetq_int = False, is_fin_sent = False, is_fin_ackd = False, sndbuf = None\<rparr>"

definition zero_stream :: tcp_stream where
  "zero_stream = \<lparr>s_socket = None, s_id = 0, stream_type = 0, s_saddr = 0, s_daddr = 0, s_sport = 0,
     s_dport = 0, s_state = TCP_ST_CLOSED, close_reason = TCP_NOT_CLOSED, on_hash_table = False,
     on_timewait_list = False, ht_idx = 0, s_closed = False, is_bound_addr = False,
     need_wnd_adv = False, on_rto_idx = 0, on_timeout_list = False, saw_timestamp = False,
     sack_permit = False, control_list_waiting = False, have_reset = False, is_external = False,
     snd_nxt = 0, rcv_nxt = 0, rcvvar = zero_recv_vars, sndvar = zero_send_vars, rv_chunk = 0,
     sv_chunk = 0, last_active_ts = 0\<rparr>"

end
