(* ===== verification/Flow_Table.thy ===== *)
theory Flow_Table
  imports Tailq Tcp_Types
begin

text \<open>
  The hash table of flows (fhash.c with the hash and equality functions of tcp_stream.c). A
  table has 131072 buckets, each a tail queue of streams; \<open>streams\<close> is the memory in which the
  stream pointers (chunks of the flow pool) are dereferenced. The table is shown to implement
  a finite map from flow keys (the four-tuple) to streams.
\<close>

section \<open>Hashing\<close>

definition NUM_BINS_FLOWS :: nat where "NUM_BINS_FLOWS = 131072"
definition TCP_AR_CNT :: u8 where "TCP_AR_CNT = 3"

text \<open>The twelve bytes from \<open>saddr\<close> on: the two addresses and the two ports, as a little-endian
  host stores them.\<close>

definition flow_key_bytes :: "tcp_stream \<Rightarrow> byte list" where
  "flow_key_bytes s =
     (let word32 = \<lambda>x :: u32. [ucast x, ucast (drop_bit 8 x), ucast (drop_bit 16 x), ucast (drop_bit 24 x)];
          word16 = \<lambda>x :: u16. [ucast x, ucast (drop_bit 8 x)]
      in word32 (s_saddr s) @ word32 (s_daddr s) @ word16 (s_sport s) @ word16 (s_dport s))"

text \<open>\<open>char\<close> is signed, so a byte is sign-extended before it is added.\<close>

definition hash_step :: "u32 \<Rightarrow> byte \<Rightarrow> u32" where
  "hash_step hash c =
     (let hash = hash + scast c;
          hash = hash + push_bit 10 hash
      in hash XOR drop_bit 6 hash)"

definition HashFlow :: "tcp_stream \<Rightarrow> u32" where
  "HashFlow flow =
     (let hash = foldl hash_step 0 (flow_key_bytes flow);
          hash = hash + push_bit 3 hash;
          hash = hash XOR drop_bit 11 hash;
          hash = hash + push_bit 15 hash
      in hash AND (of_nat NUM_BINS_FLOWS - 1))"

definition EqualFlow :: "tcp_stream \<Rightarrow> tcp_stream \<Rightarrow> bool" where
  "EqualFlow flow1 flow2 \<longleftrightarrow>
     s_saddr flow1 = s_saddr flow2 \<and> s_sport flow1 = s_sport flow2 \<and>
     s_daddr flow1 = s_daddr flow2 \<and> s_dport flow1 = s_dport flow2"

section \<open>Operations\<close>

type_synonym stream_mem = "nat \<Rightarrow> tcp_stream"
type_synonym flow_table = "nat \<Rightarrow> nat list"

definition CreateHashtable :: "bool \<Rightarrow> bool \<Rightarrow> flow_table option" where
  "CreateHashtable calloc_ht calloc_bins = (if calloc_ht \<and> calloc_bins then Some (\<lambda>_. []) else None)"

definition StreamHTInsert ::
    "flow_table \<Rightarrow> stream_mem \<Rightarrow> nat \<Rightarrow> (int \<times> flow_table \<times> stream_mem) option" where
  "StreamHTInsert ht streams item =
     (let idx = unat (HashFlow (streams item)) in
      if idx < NUM_BINS_FLOWS then do {
        bucket \<leftarrow> tailq_insert_tail (ht idx) item;
        Some (0, ht(idx := bucket), streams(item := (streams item)\<lparr>ht_idx := TCP_AR_CNT\<rparr>))
      } else None)"

definition StreamHTRemove :: "flow_table \<Rightarrow> stream_mem \<Rightarrow> nat \<Rightarrow> flow_table option" where
  "StreamHTRemove ht streams item =
     (let idx = unat (HashFlow (streams item)) in do {
        bucket \<leftarrow> tailq_remove (ht idx) item;
        Some (ht(idx := bucket)) })"

definition StreamHTSearch :: "flow_table \<Rightarrow> stream_mem \<Rightarrow> tcp_stream \<Rightarrow> nat option" where
  "StreamHTSearch ht streams item =
     (let idx = unat (HashFlow item) in find (\<lambda>walk. EqualFlow (streams walk) item) (ht idx))"

section \<open>The map a table stands for\<close>

type_synonym flow_key = "u32 \<times> u16 \<times> u32 \<times> u16"

definition flow_key :: "tcp_stream \<Rightarrow> flow_key" where
  "flow_key s = (s_saddr s, s_sport s, s_daddr s, s_dport s)"

lemma EqualFlow_key: "EqualFlow a b \<longleftrightarrow> flow_key a = flow_key b"
  by (auto simp: EqualFlow_def flow_key_def)

lemma HashFlow_key: "flow_key a = flow_key b \<Longrightarrow> HashFlow a = HashFlow b"
  by (simp add: HashFlow_def flow_key_bytes_def flow_key_def)

lemma HashFlow_bound: "unat (HashFlow s) < NUM_BINS_FLOWS"
proof -
  have "unat (x AND 131071 :: u32) < 131072" for x
  proof -
    have "x AND 131071 = take_bit 17 x" by (simp add: take_bit_eq_mask mask_numeral)
    then have "unat (x AND 131071) = unat x mod 131072" by (simp add: take_bit_eq_mod unat_mod)
    then show ?thesis by simp
  qed
  then show ?thesis by (simp add: HashFlow_def NUM_BINS_FLOWS_def Let_def)
qed

definition bucket_of :: "flow_key \<Rightarrow> nat" where
  "bucket_of k = unat (HashFlow (zero_stream\<lparr>s_saddr := fst k, s_sport := fst (snd k),
     s_daddr := fst (snd (snd k)), s_dport := snd (snd (snd k))\<rparr>))"

lemma bucket_of_key: "unat (HashFlow s) = bucket_of (flow_key s)"
  unfolding bucket_of_def by (rule arg_cong [OF HashFlow_key]) (simp add: flow_key_def)

text \<open>A table represents the map \<open>M\<close> when its buckets hold exactly the streams of \<open>M\<close>, each once
  and in the bucket of its key.\<close>

definition ht_repr :: "flow_table \<Rightarrow> stream_mem \<Rightarrow> (flow_key \<rightharpoonup> nat) \<Rightarrow> bool" where
  "ht_repr ht m M \<longleftrightarrow> (\<forall>b. distinct (ht b)) \<and>
     (\<forall>b x. x \<in> set (ht b) \<longrightarrow> b = bucket_of (flow_key (m x)) \<and> M (flow_key (m x)) = Some x) \<and>
     (\<forall>k x. M k = Some x \<longrightarrow> flow_key (m x) = k \<and> x \<in> set (ht (bucket_of k)))"

lemma ht_reprI:
  assumes "\<And>b. distinct (ht b)"
    and "\<And>b x. x \<in> set (ht b) \<Longrightarrow> b = bucket_of (flow_key (m x)) \<and> M (flow_key (m x)) = Some x"
    and "\<And>k x. M k = Some x \<Longrightarrow> flow_key (m x) = k \<and> x \<in> set (ht (bucket_of k))"
  shows "ht_repr ht m M"
  using assms unfolding ht_repr_def by blast

lemma ht_reprD:
  assumes "ht_repr ht m M"
  shows "distinct (ht b)"
    and "x \<in> set (ht b) \<Longrightarrow> b = bucket_of (flow_key (m x))"
    and "x \<in> set (ht b) \<Longrightarrow> M (flow_key (m x)) = Some x"
    and "M k = Some x \<Longrightarrow> flow_key (m x) = k"
    and "M k = Some x \<Longrightarrow> x \<in> set (ht (bucket_of k))"
  using assms unfolding ht_repr_def by blast+

lemma ht_repr_search:
  assumes "ht_repr ht m M"
  shows "StreamHTSearch ht m q = M (flow_key q)"
proof -
  note D = ht_reprD [OF assms]
  let ?b = "bucket_of (flow_key q)"
  have s: "StreamHTSearch ht m q = find (\<lambda>w. flow_key (m w) = flow_key q) (ht ?b)"
    by (simp add: StreamHTSearch_def Let_def EqualFlow_key bucket_of_key)
  show ?thesis
  proof (cases "find (\<lambda>w. flow_key (m w) = flow_key q) (ht ?b)")
    case None
    then have "M (flow_key q) \<noteq> Some x" for x
      using D(4,5) [of "flow_key q" x] by (auto simp: find_None_iff)
    with None s show ?thesis by (cases "M (flow_key q)") auto
  next
    case (Some y)
    then have "y \<in> set (ht ?b)" "flow_key (m y) = flow_key q" by (auto simp: find_Some_iff)
    with D(3) [of y ?b] Some s show ?thesis by simp
  qed
qed

lemma ht_repr_insert:
  assumes "ht_repr ht m M" and "M (flow_key (m x)) = None" and "x \<notin> ran M"
  shows "\<exists>ht'. StreamHTInsert ht m x = Some (0, ht', m(x := (m x)\<lparr>ht_idx := TCP_AR_CNT\<rparr>))
    \<and> ht_repr ht' (m(x := (m x)\<lparr>ht_idx := TCP_AR_CNT\<rparr>)) (M(flow_key (m x) \<mapsto> x))"
proof -
  note D = ht_reprD [OF assms(1)]
  let ?k = "flow_key (m x)" and ?m = "m(x := (m x)\<lparr>ht_idx := TCP_AR_CNT\<rparr>)"
  let ?ht = "ht(bucket_of ?k := ht (bucket_of ?k) @ [x])"
  have k: "flow_key (?m y) = flow_key (m y)" for y by (simp add: flow_key_def)
  have fresh: "x \<notin> set (ht b)" for b using D(3) [of x b] assms(3) ranI by metis
  have ins: "StreamHTInsert ht m x = Some (0, ?ht, ?m)"
    using fresh HashFlow_bound [of "m x"]
    by (simp add: StreamHTInsert_def Let_def bucket_of_key tailq_insert_tail_ok)
  have "ht_repr ?ht ?m (M(?k \<mapsto> x))"
  proof (rule ht_reprI, unfold k)
    fix b show "distinct (?ht b)" using D(1) fresh by simp
  next
    fix b y assume y: "y \<in> set (?ht b)"
    show "b = bucket_of (flow_key (m y)) \<and> (M(?k \<mapsto> x)) (flow_key (m y)) = Some y"
      using D(2,3) [of y b] y assms(2) by (cases "y = x") (auto split: if_splits)
  next
    fix k y assume y: "(M(?k \<mapsto> x)) k = Some y"
    show "flow_key (m y) = k \<and> y \<in> set (?ht (bucket_of k))"
      using D(4,5) [of k y] y by (cases "k = ?k") auto
  qed
  with ins show ?thesis by blast
qed

lemma ht_repr_remove:
  assumes "ht_repr ht m M" and "M (flow_key (m x)) = Some x"
  shows "\<exists>ht'. StreamHTRemove ht m x = Some ht' \<and> ht_repr ht' m (M(flow_key (m x) := None))"
proof -
  note D = ht_reprD [OF assms(1)]
  let ?k = "flow_key (m x)"
  let ?ht = "ht(bucket_of ?k := remove1 x (ht (bucket_of ?k)))"
  have x: "x \<in> set (ht (bucket_of ?k))" using D(5) [OF assms(2)] .
  then have rem: "StreamHTRemove ht m x = Some ?ht"
    by (simp add: StreamHTRemove_def Let_def bucket_of_key tailq_remove_ok)
  have "ht_repr ?ht m (M(?k := None))"
  proof (rule ht_reprI)
    fix b show "distinct (?ht b)" using D(1) by simp
  next
    fix b y assume y: "y \<in> set (?ht b)"
    then have y': "y \<in> set (ht b)" using D(1) by (auto split: if_splits)
    have "y \<noteq> x" using y D(1) [of b] D(2) [OF y'] by (auto split: if_splits)
    then have "flow_key (m y) \<noteq> ?k" using D(3) [OF y'] assms(2) by auto
    then show "b = bucket_of (flow_key (m y)) \<and> (M(?k := None)) (flow_key (m y)) = Some y"
      using D(2,3) [OF y'] by simp
  next
    fix k y assume y: "(M(?k := None)) k = Some y"
    then have "k \<noteq> ?k" "M k = Some y" by (auto split: if_splits)
    then show "flow_key (m y) = k \<and> y \<in> set (?ht (bucket_of k))"
      using D(1) D(4,5) [of k y] by auto
  qed
  with rem show ?thesis by blast
qed

lemma ht_repr_frame:
  assumes "ht_repr ht m M" and "\<And>x. x \<in> ran M \<Longrightarrow> flow_key (m' x) = flow_key (m x)"
  shows "ht_repr ht m' M"
  using assms unfolding ht_repr_def by (metis ranI)

section \<open>The interface of the flow table\<close>

text \<open>What the engine relies on: an index of streams by flow key that stays correct while the
  engine writes to the streams, as long as it leaves their keys alone.\<close>

locale flow_index =
  fixes repr :: "'t \<Rightarrow> (nat \<Rightarrow> 'v) \<Rightarrow> ('k \<rightharpoonup> nat) \<Rightarrow> bool"
    and key :: "'v \<Rightarrow> 'k"
    and ins :: "'t \<Rightarrow> (nat \<Rightarrow> 'v) \<Rightarrow> nat \<Rightarrow> (int \<times> 't \<times> (nat \<Rightarrow> 'v)) option"
    and rem :: "'t \<Rightarrow> (nat \<Rightarrow> 'v) \<Rightarrow> nat \<Rightarrow> 't option"
    and look :: "'t \<Rightarrow> (nat \<Rightarrow> 'v) \<Rightarrow> 'v \<Rightarrow> nat option"
  assumes look_map: "repr t m M \<Longrightarrow> look t m q = M (key q)"
    and ins_map: "repr t m M \<Longrightarrow> M (key (m x)) = None \<Longrightarrow> x \<notin> ran M \<Longrightarrow>
      \<exists>t' m'. ins t m x = Some (0, t', m') \<and> repr t' m' (M(key (m x) \<mapsto> x)) \<and> (\<forall>y. key (m' y) = key (m y))"
    and rem_map: "repr t m M \<Longrightarrow> M (key (m x)) = Some x \<Longrightarrow>
      \<exists>t'. rem t m x = Some t' \<and> repr t' m (M(key (m x) := None))"
    and frame_map: "repr t m M \<Longrightarrow> (\<And>x. x \<in> ran M \<Longrightarrow> key (m' x) = key (m x)) \<Longrightarrow> repr t m' M"
begin

text \<open>The tables that correct use produces, with the map of the streams in the table.\<close>

inductive used :: "'t \<Rightarrow> 't \<Rightarrow> (nat \<Rightarrow> 'v) \<Rightarrow> ('k \<rightharpoonup> nat) \<Rightarrow> bool" for t0 :: 't where
  fresh: "repr t0 m Map.empty \<Longrightarrow> used t0 t0 m Map.empty"
| add: "used t0 t m M \<Longrightarrow> M (key (m x)) = None \<Longrightarrow> x \<notin> ran M \<Longrightarrow> ins t m x = Some (r, t', m') \<Longrightarrow>
    used t0 t' m' (M(key (m x) \<mapsto> x))"
| delete: "used t0 t m M \<Longrightarrow> M (key (m x)) = Some x \<Longrightarrow> rem t m x = Some t' \<Longrightarrow>
    used t0 t' m (M(key (m x) := None))"
| store: "used t0 t m M \<Longrightarrow> (\<And>x. x \<in> ran M \<Longrightarrow> key (m' x) = key (m x)) \<Longrightarrow> used t0 t m' M"

lemma used_repr: "used t0 t m M \<Longrightarrow> repr t m M"
proof (induction rule: used.induct)
  case (add t m M x r t' m')
  then show ?case using ins_map [of t m M x] by (metis option.inject prod.inject)
next
  case (delete t m M x t')
  then show ?case using rem_map [of t m M x] by (metis option.inject)
next
  case (store t m M m')
  then show ?case using frame_map by blast
qed

lemma used_look: "used t0 t m M \<Longrightarrow> look t m q = M (key q)"
  using used_repr look_map by blast

lemma used_ins: "used t0 t m M \<Longrightarrow> M (key (m x)) = None \<Longrightarrow> x \<notin> ran M \<Longrightarrow>
    \<exists>t' m'. ins t m x = Some (0, t', m') \<and> used t0 t' m' (M(key (m x) \<mapsto> x))"
  using used_repr [of t0 t m M] ins_map [of t m M x] used.add [of t0 t m M x] by blast

lemma used_rem: "used t0 t m M \<Longrightarrow> M (key (m x)) = Some x \<Longrightarrow>
    \<exists>t'. rem t m x = Some t' \<and> used t0 t' m (M(key (m x) := None))"
  using used_repr [of t0 t m M] rem_map [of t m M x] used.delete [of t0 t m M x] by blast

end

interpretation flows: flow_index ht_repr flow_key StreamHTInsert StreamHTRemove StreamHTSearch
proof unfold_locales
  fix t m M x
  assume "ht_repr t m M" "M (flow_key (m x)) = None" "x \<notin> ran M"
  then obtain t' where "StreamHTInsert t m x = Some (0, t', m(x := (m x)\<lparr>ht_idx := TCP_AR_CNT\<rparr>))"
    "ht_repr t' (m(x := (m x)\<lparr>ht_idx := TCP_AR_CNT\<rparr>)) (M(flow_key (m x) \<mapsto> x))"
    using ht_repr_insert by blast
  then show "\<exists>t' m'. StreamHTInsert t m x = Some (0, t', m') \<and> ht_repr t' m' (M(flow_key (m x) \<mapsto> x))
      \<and> (\<forall>y. flow_key (m' y) = flow_key (m y))"
    by (auto simp: flow_key_def)
qed (use ht_repr_search ht_repr_remove in blast, use ht_repr_search ht_repr_remove in blast,
    rule ht_repr_frame)

text \<open>C15. The flow table is a map from four-tuples to streams. However insertions of streams with
  new keys, removals of streams in the table and writes to the streams that keep the keys of
  the streams in the table are interleaved, \<open>StreamHTSearch\<close> returns exactly the stream with
  the key it is asked for, and neither \<open>StreamHTInsert\<close> nor \<open>StreamHTRemove\<close> fails an assertion
  or corrupts a bucket.\<close>

theorem FlowTable_map:
  assumes "CreateHashtable True True = Some t0" and "flows.used t0 t m M"
  shows "StreamHTSearch t m q = M (flow_key q)
    \<and> (M (flow_key (m x)) = None \<and> x \<notin> ran M \<longrightarrow>
        (\<exists>t' m'. StreamHTInsert t m x = Some (0, t', m') \<and> flows.used t0 t' m' (M(flow_key (m x) \<mapsto> x))))
    \<and> (M (flow_key (m x)) = Some x \<longrightarrow>
        (\<exists>t'. StreamHTRemove t m x = Some t' \<and> flows.used t0 t' m (M(flow_key (m x) := None))))"
  using flows.used_look [OF assms(2)] flows.used_ins [OF assms(2), of x] flows.used_rem [OF assms(2), of x]
  by simp

theorem FlowTable_map_witness:
  "StreamHTSearch (\<lambda>_. []) (\<lambda>_. zero_stream) zero_stream = None
   \<and> (\<exists>t' m'. StreamHTInsert (\<lambda>_. []) (\<lambda>_. zero_stream) 64 = Some (0, t', m'))"
proof -
  have "flows.used (\<lambda>_. []) (\<lambda>_. []) (\<lambda>_. zero_stream) Map.empty"
    by (rule flows.used.fresh) (simp add: ht_repr_def)
  from FlowTable_map [OF _ this, of zero_stream 64] show ?thesis by (auto simp: CreateHashtable_def)
qed

end
