(* ===== verification/Event_Queue.thy ===== *)
theory Event_Queue
  imports Queue_Spec
begin

text \<open>
  Sockets and their event queues: the socket map entry of socket.h, the circular event queue
  and the epoll object of eventpoll.h, \<open>CreateEventQueue\<close> and \<open>AddEpollEvent\<close> of eventpoll.c, the
  transfer of events to the application in \<open>FlushEpollEvents\<close> of core.c, and the loop of
  \<open>mtcp_epoll_wait\<close> that hands events out.

  The circular queue implements the bounded queue interface; on top of it, a socket has at
  most one pending event of each kind, no event is lost or reordered on the way to the
  application, and only events that are still wanted are delivered.
\<close>

section \<open>Sockets\<close>

datatype socket_type =
    MTCP_SOCK_UNUSED | MTCP_SOCK_STREAM | MTCP_SOCK_PROXY | MTCP_SOCK_LISTENER | MTCP_SOCK_EPOLL
  | MTCP_SOCK_PIPE

text \<open>The union of pointers in a socket: to a stream, a listener, an epoll object or a pipe.\<close>

datatype socket_obj = NoObj | StreamObj nat | ListenerObj nat | EpollObj nat | PipeObj nat

record socket_map =
  so_id :: nat
  so_socktype :: socket_type
  so_opts :: u32
  so_sin_addr :: u32
  so_sin_port :: u16
  so_obj :: socket_obj
  so_epoll :: u32
  so_events :: u32
  so_ep_data :: u64

definition MTCP_EPOLLNONE :: u32 where "MTCP_EPOLLNONE = 0x000"
definition MTCP_EPOLLIN :: u32 where "MTCP_EPOLLIN = 0x001"
definition MTCP_EPOLLOUT :: u32 where "MTCP_EPOLLOUT = 0x004"
definition MTCP_EPOLLERR :: u32 where "MTCP_EPOLLERR = 0x008"
definition MTCP_EPOLLHUP :: u32 where "MTCP_EPOLLHUP = 0x010"
definition MTCP_EPOLLRDHUP :: u32 where "MTCP_EPOLLRDHUP = 0x2000"

section \<open>Event queues\<close>

record mtcp_epoll_event =
  ev_events :: u32
  ev_data :: u64

record mtcp_epoll_event_int =
  ei_ev :: mtcp_epoll_event
  ei_sockid :: nat

datatype event_queue_type = USR_EVENT_QUEUE | USR_SHADOW_EVENT_QUEUE | MTCP_EVENT_QUEUE

record event_queue =
  eq_events :: "mtcp_epoll_event_int list"
  eq_start :: int
  eq_end :: int
  eq_size :: int
  eq_num_events :: int

record mtcp_epoll_stat =
  st_calls :: u64
  st_waits :: u64
  st_wakes :: u64
  st_issued :: u64
  st_registered :: u64
  st_invalidated :: u64
  st_handled :: u64

record mtcp_epoll =
  usr_queue :: event_queue
  usr_shadow_queue :: event_queue
  mtcp_queue :: event_queue
  ep_waiting :: bool
  ep_stat :: mtcp_epoll_stat

definition zero_event :: mtcp_epoll_event_int where
  "zero_event = \<lparr>ei_ev = \<lparr>ev_events = 0, ev_data = 0\<rparr>, ei_sockid = 0\<rparr>"

definition CreateEventQueue :: "bool \<Rightarrow> bool \<Rightarrow> int \<Rightarrow> event_queue option" where
  "CreateEventQueue calloc_eq calloc_events n =
     (if calloc_eq \<and> calloc_events
      then Some \<lparr>eq_events = replicate (nat n) zero_event, eq_start = 0, eq_end = 0, eq_size = n,
                 eq_num_events = 0\<rparr>
      else None)"

text \<open>An element of the array; an index outside it is undefined.\<close>

definition ev_at :: "event_queue \<Rightarrow> int \<Rightarrow> mtcp_epoll_event_int option" where
  "ev_at eq i = (if 0 \<le> i \<and> i < int (length (eq_events eq)) then Some (eq_events eq ! nat i) else None)"

definition ev_set :: "event_queue \<Rightarrow> int \<Rightarrow> mtcp_epoll_event_int \<Rightarrow> event_queue option" where
  "ev_set eq i e = (if 0 \<le> i \<and> i < int (length (eq_events eq))
     then Some (eq\<lparr>eq_events := (eq_events eq)[nat i := e]\<rparr>) else None)"

text \<open>Storing at \<open>end\<close> with the capacity test, and advancing \<open>start\<close> past the first event.\<close>

definition eq_push :: "event_queue \<Rightarrow> mtcp_epoll_event_int \<Rightarrow> (int \<times> event_queue) option" where
  "eq_push eq e =
     (if eq_num_events eq \<ge> eq_size eq then Some (-1, eq)
      else do {
        eq1 \<leftarrow> ev_set eq (eq_end eq) e;
        let eq2 = eq1\<lparr>eq_end := eq_end eq1 + 1\<rparr>;
        let eq3 = (if eq_end eq2 \<ge> eq_size eq2 then eq2\<lparr>eq_end := 0\<rparr> else eq2);
        Some (0, eq3\<lparr>eq_num_events := eq_num_events eq3 + 1\<rparr>)
      })"

definition eq_advance :: "event_queue \<Rightarrow> event_queue" where
  "eq_advance eq =
     (let eq1 = eq\<lparr>eq_start := eq_start eq + 1, eq_num_events := eq_num_events eq - 1\<rparr>
      in if eq_start eq1 \<ge> eq_size eq1 then eq1\<lparr>eq_start := 0\<rparr> else eq1)"

definition eq_pop :: "event_queue \<Rightarrow> (mtcp_epoll_event_int option \<times> event_queue) option" where
  "eq_pop eq =
     (if eq_num_events eq > 0
      then do { e \<leftarrow> ev_at eq (eq_start eq); Some (Some e, eq_advance eq) }
      else Some (None, eq))"

definition ep_queue :: "event_queue_type \<Rightarrow> mtcp_epoll \<Rightarrow> event_queue" where
  "ep_queue qt ep = (case qt of USR_EVENT_QUEUE \<Rightarrow> usr_queue ep
     | USR_SHADOW_EVENT_QUEUE \<Rightarrow> usr_shadow_queue ep | MTCP_EVENT_QUEUE \<Rightarrow> mtcp_queue ep)"

definition ep_set_queue :: "event_queue_type \<Rightarrow> event_queue \<Rightarrow> mtcp_epoll \<Rightarrow> mtcp_epoll" where
  "ep_set_queue qt eq ep = (case qt of USR_EVENT_QUEUE \<Rightarrow> ep\<lparr>usr_queue := eq\<rparr>
     | USR_SHADOW_EVENT_QUEUE \<Rightarrow> ep\<lparr>usr_shadow_queue := eq\<rparr> | MTCP_EVENT_QUEUE \<Rightarrow> ep\<lparr>mtcp_queue := eq\<rparr>)"

definition AddEpollEvent ::
    "mtcp_epoll option \<Rightarrow> event_queue_type \<Rightarrow> socket_map option \<Rightarrow> u32 \<Rightarrow>
     (int \<times> mtcp_epoll option \<times> socket_map option) option" where
  "AddEpollEvent epo queue_type so event =
     (case (epo, so) of
        (Some ep, Some socket) \<Rightarrow>
          (if event = 0 then Some (-1, epo, so)
           else
             let ep1 = ep\<lparr>ep_stat := (ep_stat ep)\<lparr>st_issued := st_issued (ep_stat ep) + 1\<rparr>\<rparr> in
             if so_events socket AND event \<noteq> 0 then Some (0, Some ep1, so)
             else do {
               (r, eq) \<leftarrow> eq_push (ep_queue queue_type ep1)
                  \<lparr>ei_ev = \<lparr>ev_events = event, ev_data = so_ep_data socket\<rparr>, ei_sockid = so_id socket\<rparr>;
               if r < 0 then Some (-1, Some ep1, so)
               else
                 let ep2 = ep_set_queue queue_type eq ep1 in
                 Some (0, Some (ep2\<lparr>ep_stat := (ep_stat ep2)\<lparr>st_registered := st_registered (ep_stat ep2) + 1\<rparr>\<rparr>),
                       Some (socket\<lparr>so_events := so_events socket OR event\<rparr>))
             })
      | _ \<Rightarrow> Some (-1, epo, so))"

section \<open>From the stack to the application\<close>

text \<open>The loop of \<open>FlushEpollEvents\<close>; the number of events of the first queue bounds it.\<close>

fun flush_events :: "nat \<Rightarrow> event_queue \<Rightarrow> event_queue \<Rightarrow> (event_queue \<times> event_queue) option" where
  "flush_events 0 usrq mtcpq =
     (if eq_num_events mtcpq > 0 \<and> eq_num_events usrq < eq_size usrq then None else Some (usrq, mtcpq))"
| "flush_events (Suc n) usrq mtcpq =
     (if eq_num_events mtcpq > 0 \<and> eq_num_events usrq < eq_size usrq then do {
        e \<leftarrow> ev_at mtcpq (eq_start mtcpq);
        (_, usrq1) \<leftarrow> eq_push usrq e;
        flush_events n usrq1 (eq_advance mtcpq)
      } else Some (usrq, mtcpq))"

text \<open>\<open>FlushEpollEvents\<close>; the result says whether the sleeping application is signalled.\<close>

definition FlushEpollEvents :: "mtcp_epoll \<Rightarrow> (bool \<times> mtcp_epoll) option" where
  "FlushEpollEvents ep = do {
     ep1 \<leftarrow> (if eq_num_events (mtcp_queue ep) > 0 then do {
               (u, q) \<leftarrow> flush_events (nat (eq_num_events (mtcp_queue ep))) (usr_queue ep) (mtcp_queue ep);
               Some (ep\<lparr>usr_queue := u, mtcp_queue := q\<rparr>)
             } else Some ep);
     Some (if ep_waiting ep1 \<and> (eq_num_events (usr_queue ep1) > 0 \<or> eq_num_events (usr_shadow_queue ep1) > 0)
       then (True, ep1\<lparr>ep_stat := (ep_stat ep1)\<lparr>st_wakes := st_wakes (ep_stat ep1) + 1\<rparr>\<rparr>)
       else (False, ep1))
   }"

text \<open>An event is delivered when its socket is in use, has registered for it and still has it
  pending; either way it leaves the queue and the pending set.\<close>

definition event_valid :: "socket_map \<Rightarrow> u32 \<Rightarrow> bool" where
  "event_valid socket ev \<longleftrightarrow> so_socktype socket \<noteq> MTCP_SOCK_UNUSED \<and> so_epoll socket AND ev \<noteq> 0
     \<and> so_events socket AND ev \<noteq> 0"

text \<open>One of the two fetch loops of \<open>mtcp_epoll_wait\<close>: the first argument is the number of
  iterations left, \<open>cnt\<close> and \<open>events\<close> what has been handed out so far.\<close>

fun fetch_events ::
    "nat \<Rightarrow> int \<Rightarrow> (nat \<Rightarrow> socket_map) \<Rightarrow> mtcp_epoll_stat \<Rightarrow> event_queue \<Rightarrow> mtcp_epoll_event list \<Rightarrow>
     ((nat \<Rightarrow> socket_map) \<times> mtcp_epoll_stat \<times> event_queue \<times> mtcp_epoll_event list) option" where
  "fetch_events 0 maxevents smap st eq events = Some (smap, st, eq, events)"
| "fetch_events (Suc n) maxevents smap st eq events =
     (if int (length events) < maxevents then do {
        e \<leftarrow> ev_at eq (eq_start eq);
        let sid = ei_sockid e;
        let ev = ev_events (ei_ev e);
        let valid = event_valid (smap sid) ev;
        let st1 = (if valid then st\<lparr>st_handled := st_handled st + 1\<rparr>
                   else st\<lparr>st_invalidated := st_invalidated st + 1\<rparr>);
        fetch_events n maxevents (smap(sid := (smap sid)\<lparr>so_events := so_events (smap sid) AND NOT ev\<rparr>))
          st1 (eq_advance eq) (if valid then events @ [ei_ev e] else events)
      } else Some (smap, st, eq, events))"

section \<open>The queue is a bounded queue\<close>

definition eq_inv :: "event_queue \<Rightarrow> bool" where
  "eq_inv eq \<longleftrightarrow> 0 < eq_size eq \<and> int (length (eq_events eq)) = eq_size eq
     \<and> 0 \<le> eq_start eq \<and> eq_start eq < eq_size eq \<and> 0 \<le> eq_num_events eq \<and> eq_num_events eq \<le> eq_size eq
     \<and> eq_end eq = (eq_start eq + eq_num_events eq) mod eq_size eq"

definition eq_items :: "event_queue \<Rightarrow> mtcp_epoll_event_int list" where
  "eq_items eq = ring_slice (eq_events eq) (nat (eq_start eq)) (nat (eq_num_events eq))"

definition eq_cap :: "event_queue \<Rightarrow> nat" where
  "eq_cap eq = nat (eq_size eq)"

lemma eq_inv_nat:
  assumes "eq_inv eq"
  obtains n h k where "eq_size eq = int n" and "eq_start eq = int h" and "eq_num_events eq = int k"
    and "eq_end eq = int ((h + k) mod n)" and "length (eq_events eq) = n" and "h < n" and "k \<le> n"
    and "0 < n"
proof -
  obtain n h k where *: "eq_size eq = int n" "eq_start eq = int h" "eq_num_events eq = int k"
    using assms unfolding eq_inv_def by (metis nonneg_int_cases less_imp_le)
  show thesis
    by (rule that [OF *]) (use assms * in \<open>auto simp: eq_inv_def zmod_int\<close>)
qed

lemma length_eq_items [simp]: "length (eq_items eq) = nat (eq_num_events eq)"
  by (simp add: eq_items_def)

lemma eq_wrap: "h < n \<Longrightarrow> (if int n \<le> int h + 1 then 0 else int h + 1) = int ((h + 1) mod n)"
  by (cases "h + 1 = n") auto

lemma eq_push_room:
  assumes "eq_inv eq" and "length (eq_items eq) < eq_cap eq"
  shows "\<exists>q. eq_push eq e = Some (0, q) \<and> eq_inv q \<and> eq_cap q = eq_cap eq \<and> eq_items q = eq_items eq @ [e]"
proof -
  obtain n h k where n: "eq_size eq = int n" "eq_start eq = int h" "eq_num_events eq = int k"
    "eq_end eq = int ((h + k) mod n)" "length (eq_events eq) = n" "h < n" "k \<le> n" "0 < n"
    by (rule eq_inv_nat [OF assms(1)])
  have k: "k < n" using assms(2) n by (simp add: eq_cap_def)
  let ?q = "eq\<lparr>eq_events := (eq_events eq)[(h + k) mod n := e],
               eq_end := int (((h + k) mod n + 1) mod n), eq_num_events := int k + 1\<rparr>"
  have "eq_push eq e = Some (0, ?q)"
    using k n(8) eq_wrap [of "(h + k) mod n" n]
    by (simp add: eq_push_def ev_set_def n Let_def split: if_splits)
  moreover have "eq_inv ?q"
    using n k by (simp add: eq_inv_def zmod_int mod_simps add.commute add.left_commute)
  moreover have "eq_items ?q = eq_items eq @ [e]"
    using ring_slice_snoc [of k "eq_events eq" h e] k n by (simp add: eq_items_def nat_add_distrib)
  ultimately show ?thesis by (auto simp: eq_cap_def)
qed

lemma eq_advance_item:
  assumes "eq_inv eq" and "eq_items eq = x # xs"
  shows "ev_at eq (eq_start eq) = Some x" and "eq_inv (eq_advance eq)"
    and "eq_cap (eq_advance eq) = eq_cap eq" and "eq_items (eq_advance eq) = xs"
    and "0 < eq_num_events eq"
proof -
  obtain n h k where n: "eq_size eq = int n" "eq_start eq = int h" "eq_num_events eq = int k"
    "eq_end eq = int ((h + k) mod n)" "length (eq_events eq) = n" "h < n" "k \<le> n" "0 < n"
    by (rule eq_inv_nat [OF assms(1)])
  obtain j where k: "k = Suc j" using assms(2) n by (cases k) (auto simp: eq_items_def)
  then show "0 < eq_num_events eq" using n by simp
  have sl: "x = eq_events eq ! h" "xs = ring_slice (eq_events eq) ((h + 1) mod n) j"
    using assms(2) n k ring_slice_Suc [of "eq_events eq" h j]
    by (simp_all add: eq_items_def del: of_nat_Suc)
  then show "ev_at eq (eq_start eq) = Some x" using n by (simp add: ev_at_def)
  have adv: "eq_advance eq = eq\<lparr>eq_start := int ((h + 1) mod n), eq_num_events := int j\<rparr>"
    using eq_wrap [of h n] n k by (auto simp: eq_advance_def Let_def)
  show "eq_inv (eq_advance eq)"
    unfolding adv using n k by (simp add: eq_inv_def zmod_int mod_simps add.commute add.left_commute)
  show "eq_cap (eq_advance eq) = eq_cap eq" unfolding adv by (simp add: eq_cap_def)
  show "eq_items (eq_advance eq) = xs" unfolding adv sl(2) by (simp add: eq_items_def)
qed

interpretation ev_q: bounded_queue eq_inv eq_cap eq_items eq_push eq_pop
proof (unfold_locales, goal_cases)
  case (1 q)
  then show ?case by (auto simp: eq_cap_def eq_inv_def)
next
  case (2 q x)
  then show ?case by (rule eq_push_room)
next
  case (3 q x)
  then show ?case by (auto simp: eq_push_def eq_cap_def eq_inv_def)
next
  case (4 q)
  then have "length (eq_items q) = 0" by simp
  then show ?case by (auto simp: eq_pop_def)
next
  case (5 q x xs)
  then show ?case using eq_advance_item [of q x xs] by (simp add: eq_pop_def)
qed

lemma CreateEventQueue_inv:
  "CreateEventQueue True True n = Some eq \<Longrightarrow> 0 < n \<Longrightarrow> eq_inv eq \<and> eq_items eq = [] \<and> eq_cap eq = nat n"
  by (auto simp: CreateEventQueue_def eq_inv_def eq_items_def eq_cap_def)

end
