(* ===== verification/Rss.thy ===== *)
theory Rss
  imports Prelude
begin

text \<open>
  Receive side scaling (rss.c): the Toeplitz hash that the network card computes over the four
  tuple of a segment, and the queue it is delivered to. The stack recomputes it to choose source
  ports whose answers come back to the core that owns the connection.

  The address pool asks for the core of a connection in both directions; because the key repeats
  its bytes, both directions of a connection have the same core.
\<close>

definition rss_key :: "byte list" where
  "rss_key = replicate 40 0x05"

text \<open>The loop of \<open>BuildKeyCache\<close>: \<open>n\<close> entries from bit \<open>idx\<close> of the key on.\<close>

fun BuildKeyCache_loop :: "nat \<Rightarrow> nat \<Rightarrow> u32 \<Rightarrow> u32 list" where
  "BuildKeyCache_loop 0 idx result = []"
| "BuildKeyCache_loop (Suc n) idx result =
     (let shift = idx mod 8;
          b = (if push_bit shift (ucast (rss_key ! (idx div 8)) :: u32) AND 0x80 \<noteq> 0 then 1 else 0)
      in result # BuildKeyCache_loop n (idx + 1) (push_bit 1 result OR b))"

definition BuildKeyCache :: "nat \<Rightarrow> u32 list" where
  "BuildKeyCache cache_len =
     BuildKeyCache_loop cache_len 32
       (push_bit 24 (ucast (rss_key ! 0)) OR push_bit 16 (ucast (rss_key ! 1))
        OR push_bit 8 (ucast (rss_key ! 2)) OR ucast (rss_key ! 3))"

definition KEY_CACHE_LEN :: nat where "KEY_CACHE_LEN = 96"

text \<open>One of the loops of \<open>GetRSSHash\<close>: the key words of the bits of \<open>x\<close> that are set, from the most
  significant bit down.\<close>

fun rss_bits :: "u32 list \<Rightarrow> 'a::len word \<Rightarrow> u32 \<Rightarrow> u32" where
  "rss_bits [] x res = res"
| "rss_bits (k # ks) x res =
     rss_bits ks (push_bit 1 x) (if x AND push_bit (LENGTH('a) - 1) 1 \<noteq> 0 then res XOR k else res)"

definition GetRSSHash :: "u32 \<Rightarrow> u32 \<Rightarrow> u16 \<Rightarrow> u16 \<Rightarrow> u32" where
  "GetRSSHash sip dip sp dp =
     (let key_cache = BuildKeyCache KEY_CACHE_LEN;
          res1 = rss_bits (take 32 key_cache) sip 0;
          res2 = rss_bits (take 32 (drop 32 key_cache)) dip res1;
          res3 = rss_bits (take 16 (drop 64 key_cache)) sp res2
      in rss_bits (take 16 (drop 80 key_cache)) dp res3)"

definition RSS_BIT_MASK_IXGBE :: u32 where "RSS_BIT_MASK_IXGBE = 0x0000007F"
definition RSS_BIT_MASK_I40E :: u32 where "RSS_BIT_MASK_I40E = 0x000001FF"

text \<open>\<^const>\<open>None\<close> is the division by zero.\<close>

definition GetRSSCPUCore :: "u32 \<Rightarrow> u32 \<Rightarrow> u16 \<Rightarrow> u16 \<Rightarrow> int \<Rightarrow> bool \<Rightarrow> int option" where
  "GetRSSCPUCore sip dip sp dp num_queues endian_check =
     (let masked =
        (if endian_check then
           let masked = GetRSSHash sip dip sp dp AND RSS_BIT_MASK_I40E
           in masked + [3, 1, - 1, - 3] ! unat (masked AND 0x3)
         else GetRSSHash sip dip sp dp AND RSS_BIT_MASK_IXGBE)
      in if (word_of_int num_queues :: u32) = 0 then None
         else Some (sint (masked mod word_of_int num_queues)))"

section \<open>The hash is symmetric\<close>

lemma rss_bits_res: "rss_bits ks (x :: 'a::len word) res = res XOR rss_bits ks x 0"
proof (induction ks arbitrary: x res)
  case (Cons k ks)
  have *: "rss_bits ks (push_bit 1 x) r = r XOR rss_bits ks (push_bit 1 x) 0" for r
    by (rule Cons.IH)
  show ?case
    unfolding rss_bits.simps
    using * [of "res XOR k"] * [of k] * [of res]
    by (cases "x AND push_bit (LENGTH('a) - 1) 1 \<noteq> 0") (simp_all add: ac_simps)
qed simp

text \<open>The key repeats one byte, so the key words repeat after eight entries, and those of the two
  addresses and of the two ports agree.\<close>

definition key_period :: "u32 list" where
  "key_period = [0x05050505, 0x0A0A0A0A, 0x14141414, 0x28282828, 0x50505050, 0xA0A0A0A0, 0x41414141,
     0x82828282]"

lemma rss_key_nth: "k < 40 \<Longrightarrow> rss_key ! k = 5"
  by (simp add: rss_key_def)

lemma key_step:
  assumes "q < 40" and "j < 8"
  shows "BuildKeyCache_loop (Suc m) (8 * q + j) r
     = r # BuildKeyCache_loop m (8 * q + (j + 1)) (push_bit 1 r OR (if j = 5 \<or> j = 7 then 1 else 0))"
proof -
  have "push_bit j (5 :: u32) AND 0x80 \<noteq> 0 \<longleftrightarrow> j = 5 \<or> j = 7"
  proof -
    consider "j = 0" | "j = 1" | "j = 2" | "j = 3" | "j = 4" | "j = 5" | "j = 6" | "j = 7"
      using assms(2) by linarith
    then show ?thesis by cases simp_all
  qed
  then show ?thesis using assms by (simp add: rss_key_nth)
qed

lemma BuildKeyCache_period:
  "q < 40 \<Longrightarrow> BuildKeyCache_loop (8 + n) (8 * q) 0x05050505
     = key_period @ BuildKeyCache_loop n (8 * Suc q) 0x05050505"
proof -
  assume q: "q < 40"
  have v0: "push_bit 1 (0x05050505 :: u32) OR (if 0 = (5 :: nat) \<or> 0 = (7 :: nat) then 1 else 0) = 0x0A0A0A0A" by simp
  have k0: "BuildKeyCache_loop (Suc m) (8 * q) 0x05050505 = 0x05050505 # BuildKeyCache_loop m (8 * q + 1) 0x0A0A0A0A" for m
    using key_step [OF q, of 0 m "0x05050505"] unfolding v0 by (simp del: BuildKeyCache_loop.simps)
  have v1: "push_bit 1 (0x0A0A0A0A :: u32) OR (if 1 = (5 :: nat) \<or> 1 = (7 :: nat) then 1 else 0) = 0x14141414" by simp
  have k1: "BuildKeyCache_loop (Suc m) (8 * q + 1) 0x0A0A0A0A = 0x0A0A0A0A # BuildKeyCache_loop m (8 * q + 2) 0x14141414" for m
    using key_step [OF q, of 1 m "0x0A0A0A0A"] unfolding v1 by (simp del: BuildKeyCache_loop.simps)
  have v2: "push_bit 1 (0x14141414 :: u32) OR (if 2 = (5 :: nat) \<or> 2 = (7 :: nat) then 1 else 0) = 0x28282828" by simp
  have k2: "BuildKeyCache_loop (Suc m) (8 * q + 2) 0x14141414 = 0x14141414 # BuildKeyCache_loop m (8 * q + 3) 0x28282828" for m
    using key_step [OF q, of 2 m "0x14141414"] unfolding v2 by (simp del: BuildKeyCache_loop.simps)
  have v3: "push_bit 1 (0x28282828 :: u32) OR (if 3 = (5 :: nat) \<or> 3 = (7 :: nat) then 1 else 0) = 0x50505050" by simp
  have k3: "BuildKeyCache_loop (Suc m) (8 * q + 3) 0x28282828 = 0x28282828 # BuildKeyCache_loop m (8 * q + 4) 0x50505050" for m
    using key_step [OF q, of 3 m "0x28282828"] unfolding v3 by (simp del: BuildKeyCache_loop.simps)
  have v4: "push_bit 1 (0x50505050 :: u32) OR (if 4 = (5 :: nat) \<or> 4 = (7 :: nat) then 1 else 0) = 0xA0A0A0A0" by simp
  have k4: "BuildKeyCache_loop (Suc m) (8 * q + 4) 0x50505050 = 0x50505050 # BuildKeyCache_loop m (8 * q + 5) 0xA0A0A0A0" for m
    using key_step [OF q, of 4 m "0x50505050"] unfolding v4 by (simp del: BuildKeyCache_loop.simps)
  have v5: "push_bit 1 (0xA0A0A0A0 :: u32) OR (if 5 = (5 :: nat) \<or> 5 = (7 :: nat) then 1 else 0) = 0x41414141" by simp
  have k5: "BuildKeyCache_loop (Suc m) (8 * q + 5) 0xA0A0A0A0 = 0xA0A0A0A0 # BuildKeyCache_loop m (8 * q + 6) 0x41414141" for m
    using key_step [OF q, of 5 m "0xA0A0A0A0"] unfolding v5 by (simp del: BuildKeyCache_loop.simps)
  have v6: "push_bit 1 (0x41414141 :: u32) OR (if 6 = (5 :: nat) \<or> 6 = (7 :: nat) then 1 else 0) = 0x82828282" by simp
  have k6: "BuildKeyCache_loop (Suc m) (8 * q + 6) 0x41414141 = 0x41414141 # BuildKeyCache_loop m (8 * q + 7) 0x82828282" for m
    using key_step [OF q, of 6 m "0x41414141"] unfolding v6 by (simp del: BuildKeyCache_loop.simps)
  have v7: "push_bit 1 (0x82828282 :: u32) OR (if 7 = (5 :: nat) \<or> 7 = (7 :: nat) then 1 else 0) = 0x05050505" by simp
  have k7: "BuildKeyCache_loop (Suc m) (8 * q + 7) 0x82828282 = 0x82828282 # BuildKeyCache_loop m (8 * q + 8) 0x05050505" for m
    using key_step [OF q, of 7 m "0x82828282"] unfolding v7 by (simp del: BuildKeyCache_loop.simps)
  have n8: "8 + n = Suc (Suc (Suc (Suc (Suc (Suc (Suc (Suc n)))))))" "8 * Suc q = 8 * q + 8" by simp_all
  show ?thesis
    by (simp only: n8 k0 k1 k2 k3 k4 k5 k6 k7 key_period_def append.simps)
qed

lemma BuildKeyCache_periodic:
  "q + k \<le> 40 \<Longrightarrow> BuildKeyCache_loop (8 * k) (8 * q) 0x05050505 = concat (replicate k key_period)"
proof (induction k arbitrary: q)
  case (Suc k)
  then show ?case using BuildKeyCache_period [of q "8 * k"] Suc.IH [of "Suc q"] by simp
qed simp

lemma BuildKeyCache_eq: "BuildKeyCache KEY_CACHE_LEN = concat (replicate 12 key_period)"
proof -
  have "BuildKeyCache KEY_CACHE_LEN = BuildKeyCache_loop (8 * 12) (8 * 4) 0x05050505"
    by (simp add: BuildKeyCache_def KEY_CACHE_LEN_def rss_key_nth del: BuildKeyCache_loop.simps)
  also have "\<dots> = concat (replicate 12 key_period)" by (rule BuildKeyCache_periodic) simp
  finally show ?thesis .
qed

lemma take_drop_period:
  "take (8 * a) (concat (replicate (a + b) key_period)) = concat (replicate a key_period)"
  "drop (8 * a) (concat (replicate (a + b) key_period)) = concat (replicate b key_period)"
proof -
  have len: "length (concat (replicate a key_period)) = 8 * a"
    by (induction a) (simp_all add: key_period_def)
  then show "take (8 * a) (concat (replicate (a + b) key_period)) = concat (replicate a key_period)"
    "drop (8 * a) (concat (replicate (a + b) key_period)) = concat (replicate b key_period)"
    by (simp_all add: replicate_add)
qed

lemma key_cache_halves:
  "take 32 (drop 32 (BuildKeyCache KEY_CACHE_LEN)) = take 32 (BuildKeyCache KEY_CACHE_LEN)"
  "take 16 (drop 80 (BuildKeyCache KEY_CACHE_LEN)) = take 16 (drop 64 (BuildKeyCache KEY_CACHE_LEN))"
proof -
  let ?p = "\<lambda>n. concat (replicate n key_period)"
  have t: "take (8 * a) (?p n) = ?p a" and d: "drop (8 * a) (?p n) = ?p (n - a)" if "a \<le> n" for a n
    using take_drop_period [of a "n - a"] that by simp_all
  have "take 32 (drop 32 (?p 12)) = ?p 4" "take 32 (?p 12) = ?p 4"
    using d [of 4 12] t [of 4 8] t [of 4 12] by (simp_all del: replicate.simps concat.simps)
  moreover have "take 16 (drop 80 (?p 12)) = ?p 2" "take 16 (drop 64 (?p 12)) = ?p 2"
    using d [of 10 12] d [of 8 12] t [of 2 2] t [of 2 4] by (simp_all del: replicate.simps concat.simps)
  ultimately show "take 32 (drop 32 (BuildKeyCache KEY_CACHE_LEN)) = take 32 (BuildKeyCache KEY_CACHE_LEN)"
    "take 16 (drop 80 (BuildKeyCache KEY_CACHE_LEN)) = take 16 (drop 64 (BuildKeyCache KEY_CACHE_LEN))"
    unfolding BuildKeyCache_eq by simp_all
qed

lemma GetRSSHash_sym: "GetRSSHash dip sip dp sp = GetRSSHash sip dip sp dp"
proof -
  define A :: "u32 \<Rightarrow> u32 \<Rightarrow> u32" where "A = rss_bits (take 32 (BuildKeyCache KEY_CACHE_LEN))"
  define P :: "u16 \<Rightarrow> u32 \<Rightarrow> u32" where "P = rss_bits (take 16 (drop 64 (BuildKeyCache KEY_CACHE_LEN)))"
  have "GetRSSHash a b c d = P d (P c (A b (A a 0)))" for a b c d
    by (simp only: GetRSSHash_def Let_def key_cache_halves A_def P_def)
  moreover have A: "A b r = r XOR A b 0" and P: "P c r = r XOR P c 0" for b c r
    unfolding A_def P_def by (rule rss_bits_res)+
  have "P d (P c (A b (A a 0))) = A a 0 XOR A b 0 XOR P c 0 XOR P d 0" for a b c d
    by (subst P, subst P, subst A) (simp only: ac_simps)
  ultimately show ?thesis by (simp add: ac_simps)
qed

text \<open>C34. The core that a segment is delivered to does not depend on its direction: with source
  and destination swapped, \<open>GetRSSCPUCore\<close> has the same result, whatever the number of queues and
  the kind of card. So the ports that \<open>CreateAddressPoolPerCore\<close> collects with the arguments in one
  order are the ones whose answers \<open>FetchAddress\<close> expects with the arguments in the other.\<close>

theorem GetRSSCPUCore_symmetric:
  "GetRSSCPUCore dip sip dp sp num_queues endian_check = GetRSSCPUCore sip dip sp dp num_queues endian_check"
  by (simp add: GetRSSCPUCore_def GetRSSHash_sym)

end
