(* ===== verification/Tcp_Options.thy ===== *)
theory Tcp_Options
  imports Tcp_Types
begin

text \<open>
  TCP header and options: the byte layout of the header, \<open>ParseTCPOptions\<close> and
  \<open>ParseTCPTimestamp\<close> of tcp_util.c, \<open>CalculateOptionLength\<close>, \<open>GenerateTCPTimestamp\<close> and
  \<open>GenerateTCPOptions\<close> of tcp_out.c, in the build with timestamps and without SACK.

  The specification is a list of options with its encoding. Parsing the encoding of a list
  has the effect of its options one after the other, and what \<open>GenerateTCPOptions\<close> writes is
  such an encoding, so the two ends of a connection understand each other. An option of an
  unknown kind with length zero, which no encoding contains, makes the parsers loop forever.
\<close>

section \<open>Byte order\<close>

definition be16 :: "byte \<Rightarrow> byte \<Rightarrow> u16" where
  "be16 a b = push_bit 8 (ucast a) OR ucast b"

definition be32 :: "byte \<Rightarrow> byte \<Rightarrow> byte \<Rightarrow> byte \<Rightarrow> u32" where
  "be32 a b c d = push_bit 24 (ucast a) OR push_bit 16 (ucast b) OR push_bit 8 (ucast c) OR ucast d"

definition be16_bytes :: "u16 \<Rightarrow> byte list" where
  "be16_bytes x = [ucast (drop_bit 8 x), ucast x]"

definition be32_bytes :: "u32 \<Rightarrow> byte list" where
  "be32_bytes x = [ucast (drop_bit 24 x), ucast (drop_bit 16 x), ucast (drop_bit 8 x), ucast x]"

text \<open>What a little-endian host reads from two bytes in memory.\<close>

definition le16 :: "byte \<Rightarrow> byte \<Rightarrow> u16" where
  "le16 a b = be16 b a"

definition le16_bytes :: "u16 \<Rightarrow> byte list" where
  "le16_bytes x = [ucast x, ucast (drop_bit 8 x)]"

lemma be16_roundtrip [simp]: "be16 (ucast (drop_bit 8 x)) (ucast x) = x"
  unfolding be16_def by (rule bit_word_eqI) (auto simp: bit_simps)

lemma be32_roundtrip [simp]:
  "be32 (ucast (drop_bit 24 x)) (ucast (drop_bit 16 x)) (ucast (drop_bit 8 x)) (ucast x) = x"
proof (rule bit_word_eqI)
  fix n assume "n < LENGTH(32)"
  then consider "n < 8" | "8 \<le> n \<and> n < 16" | "16 \<le> n \<and> n < 24" | "24 \<le> n \<and> n < 32"
    by fastforce
  then show "bit (be32 (ucast (drop_bit 24 x)) (ucast (drop_bit 16 x)) (ucast (drop_bit 8 x))
      (ucast x)) n = bit x n"
    by cases (auto simp: be32_def bit_simps)
qed

lemma length_be32_bytes [simp]: "length (be32_bytes x) = 4"
  by (simp add: be32_bytes_def)

text \<open>\<open>ntohl(*(uint32_t *\<close>\<open>)(buf + i))\<close>\<close>

definition ntohl_at :: "byte list \<Rightarrow> nat \<Rightarrow> u32 option" where
  "ntohl_at buf i = (if i + 4 \<le> length buf
     then Some (be32 (buf ! i) (buf ! (i + 1)) (buf ! (i + 2)) (buf ! (i + 3))) else None)"

definition byte_at :: "byte list \<Rightarrow> nat \<Rightarrow> byte option" where
  "byte_at buf i = (if i < length buf then Some (buf ! i) else None)"

section \<open>Parsing\<close>

text \<open>The loops return \<^const>\<open>None\<close> when they never return and \<open>Some None\<close> when they read
  beyond the packet. \<open>buf\<close> holds the bytes from the first option to the end of the packet.\<close>

partial_function (option) ParseTCPOptions_loop ::
    "u32 \<Rightarrow> byte list \<Rightarrow> int \<Rightarrow> nat \<Rightarrow> tcp_stream \<Rightarrow> tcp_stream option option" where
  "ParseTCPOptions_loop cur_ts buf len i s =
     (if int i < len then
        (case byte_at buf i of None \<Rightarrow> Some None | Some opt \<Rightarrow>
         if opt = TCP_OPT_END then Some (Some s)
         else if opt = TCP_OPT_NOP then ParseTCPOptions_loop cur_ts buf len (i + 1) s
         else (case byte_at buf (i + 1) of None \<Rightarrow> Some None | Some optlen \<Rightarrow>
           if int (i + 2 + unat optlen) - 2 > len then Some (Some s)
           else if opt = TCP_OPT_MSS then
             (case byte_at buf (i + 2) of None \<Rightarrow> Some None | Some hi \<Rightarrow>
              case byte_at buf (i + 3) of None \<Rightarrow> Some None | Some lo \<Rightarrow>
              let m = push_bit 8 (ucast hi) + ucast lo in
              ParseTCPOptions_loop cur_ts buf len (i + 4)
                (s\<lparr>sndvar := (sndvar s)\<lparr>mss := m, eff_mss := m - (of_nat TCP_OPT_TIMESTAMP_LEN + 2)\<rparr>\<rparr>))
           else if opt = TCP_OPT_WSCALE then
             (case byte_at buf (i + 2) of None \<Rightarrow> Some None | Some w \<Rightarrow>
              ParseTCPOptions_loop cur_ts buf len (i + 3)
                (s\<lparr>sndvar := (sndvar s)\<lparr>wscale_peer := w\<rparr>\<rparr>))
           else if opt = TCP_OPT_SACK_PERMIT then
             ParseTCPOptions_loop cur_ts buf len (i + 2) (s\<lparr>sack_permit := True\<rparr>)
           else if opt = TCP_OPT_TIMESTAMP then
             (case ntohl_at buf (i + 2) of None \<Rightarrow> Some None | Some v \<Rightarrow>
              ParseTCPOptions_loop cur_ts buf len (i + 10)
                (s\<lparr>saw_timestamp := True,
                   rcvvar := (rcvvar s)\<lparr>ts_recent := v, ts_last_ts_upd := cur_ts\<rparr>\<rparr>))
           else ParseTCPOptions_loop cur_ts buf len (i + 2 + unat optlen - 2) s))
      else Some (Some s))"

definition ParseTCPOptions ::
    "tcp_stream \<Rightarrow> u32 \<Rightarrow> byte list \<Rightarrow> int \<Rightarrow> tcp_stream option" where
  "ParseTCPOptions s cur_ts tcpopt len =
     do { r \<leftarrow> ParseTCPOptions_loop cur_ts tcpopt len 0 s; r }"

text \<open>The result is the pair of \<open>ts_val\<close> and \<open>ts_ref\<close>, or \<^const>\<open>None\<close> for FALSE.\<close>

partial_function (option) ParseTCPTimestamp_loop ::
    "byte list \<Rightarrow> int \<Rightarrow> nat \<Rightarrow> (u32 \<times> u32) option option option" where
  "ParseTCPTimestamp_loop buf len i =
     (if int i < len then
        (case byte_at buf i of None \<Rightarrow> Some None | Some opt \<Rightarrow>
         if opt = TCP_OPT_END then Some (Some None)
         else if opt = TCP_OPT_NOP then ParseTCPTimestamp_loop buf len (i + 1)
         else (case byte_at buf (i + 1) of None \<Rightarrow> Some None | Some optlen \<Rightarrow>
           if int (i + 2 + unat optlen) - 2 > len then Some (Some None)
           else if opt = TCP_OPT_TIMESTAMP then
             (case ntohl_at buf (i + 2) of None \<Rightarrow> Some None | Some v \<Rightarrow>
              case ntohl_at buf (i + 6) of None \<Rightarrow> Some None | Some r \<Rightarrow>
              Some (Some (Some (v, r))))
           else ParseTCPTimestamp_loop buf len (i + 2 + unat optlen - 2)))
      else Some (Some None))"

definition ParseTCPTimestamp :: "byte list \<Rightarrow> int \<Rightarrow> (u32 \<times> u32) option option" where
  "ParseTCPTimestamp tcpopt len = do { r \<leftarrow> ParseTCPTimestamp_loop tcpopt len 0; r }"

section \<open>Generation\<close>

definition CalculateOptionLength :: "u8 \<Rightarrow> nat option" where
  "CalculateOptionLength flags =
     (let optlen = if has_flag flags TCP_FLAG_SYN
        then TCP_OPT_MSS_LEN + TCP_OPT_TIMESTAMP_LEN + 2 + (TCP_OPT_WSCALE_LEN + 1)
        else TCP_OPT_TIMESTAMP_LEN + 2
      in if optlen mod 4 = 0 then Some optlen else None)"

definition GenerateTCPTimestamp :: "tcp_stream \<Rightarrow> u32 \<Rightarrow> byte list" where
  "GenerateTCPTimestamp s cur_ts =
     [TCP_OPT_TIMESTAMP, of_nat TCP_OPT_TIMESTAMP_LEN] @ be32_bytes cur_ts
       @ be32_bytes (ts_recent (rcvvar s))"

text \<open>The bytes written from \<open>tcpopt\<close> on; \<^const>\<open>None\<close> when they are not \<open>optlen\<close> many, which the
  code asserts.\<close>

definition GenerateTCPOptions :: "tcp_stream \<Rightarrow> u32 \<Rightarrow> u8 \<Rightarrow> nat \<Rightarrow> byte list option" where
  "GenerateTCPOptions s cur_ts flags optlen =
     (let bs = if has_flag flags TCP_FLAG_SYN then
          [TCP_OPT_MSS, of_nat TCP_OPT_MSS_LEN,
           ucast (drop_bit 8 (mss (sndvar s))), ucast (mss (sndvar s) mod 256)]
          @ [TCP_OPT_NOP, TCP_OPT_NOP] @ GenerateTCPTimestamp s cur_ts
          @ [TCP_OPT_NOP, TCP_OPT_WSCALE, of_nat TCP_OPT_WSCALE_LEN, wscale_mine (sndvar s)]
        else [TCP_OPT_NOP, TCP_OPT_NOP] @ GenerateTCPTimestamp s cur_ts
      in if length bs = optlen then Some bs else None)"

section \<open>Specification\<close>

datatype tcp_opt =
  Nop | Mss u16 | Wscale u8 | SackPermit | Timestamp u32 u32 | OtherOpt u8 "byte list"

fun opt_bytes :: "tcp_opt \<Rightarrow> byte list" where
  "opt_bytes Nop = [1]"
| "opt_bytes (Mss m) = [2, 4] @ be16_bytes m"
| "opt_bytes (Wscale w) = [3, 3, w]"
| "opt_bytes SackPermit = [4, 2]"
| "opt_bytes (Timestamp v r) = [8, 10] @ be32_bytes v @ be32_bytes r"
| "opt_bytes (OtherOpt k d) = [k, of_nat (length d + 2)] @ d"

fun opt_ok :: "tcp_opt \<Rightarrow> bool" where
  "opt_ok (OtherOpt k d) \<longleftrightarrow> k \<notin> {0, 1, 2, 3, 4, 8} \<and> length d \<le> 253"
| "opt_ok _ \<longleftrightarrow> True"

fun apply_opt :: "u32 \<Rightarrow> tcp_opt \<Rightarrow> tcp_stream \<Rightarrow> tcp_stream" where
  "apply_opt cur_ts (Mss m) s = s\<lparr>sndvar := (sndvar s)\<lparr>mss := m, eff_mss := m - 12\<rparr>\<rparr>"
| "apply_opt cur_ts (Wscale w) s = s\<lparr>sndvar := (sndvar s)\<lparr>wscale_peer := w\<rparr>\<rparr>"
| "apply_opt cur_ts SackPermit s = s\<lparr>sack_permit := True\<rparr>"
| "apply_opt cur_ts (Timestamp v r) s =
     s\<lparr>saw_timestamp := True, rcvvar := (rcvvar s)\<lparr>ts_recent := v, ts_last_ts_upd := cur_ts\<rparr>\<rparr>"
| "apply_opt cur_ts _ s = s"

fun first_timestamp :: "tcp_opt list \<Rightarrow> (u32 \<times> u32) option" where
  "first_timestamp [] = None"
| "first_timestamp (Timestamp v r # os) = Some (v, r)"
| "first_timestamp (_ # os) = first_timestamp os"

abbreviation opts_bytes :: "tcp_opt list \<Rightarrow> byte list" where
  "opts_bytes os \<equiv> concat (map opt_bytes os)"

lemmas opt_consts = TCP_OPT_END_def TCP_OPT_NOP_def TCP_OPT_MSS_def TCP_OPT_WSCALE_def
  TCP_OPT_SACK_PERMIT_def TCP_OPT_TIMESTAMP_def TCP_OPT_TIMESTAMP_LEN_def TCP_OPT_MSS_LEN_def
  TCP_OPT_WSCALE_LEN_def

lemma nat_add_numeral: "(n :: nat) + numeral k = Suc (n + pred_numeral k)"
  by (simp add: numeral_eq_Suc)

lemma byte_at_append [simp]: "length pre \<le> n \<Longrightarrow> byte_at (pre @ xs) n = byte_at xs (n - length pre)"
  by (auto simp: byte_at_def nth_append)

lemma ntohl_at_append [simp]:
  "length pre \<le> n \<Longrightarrow> ntohl_at (pre @ xs) n = ntohl_at xs (n - length pre)"
  by (auto simp: ntohl_at_def nth_append Suc_diff_le)

lemma byte_at_Cons [simp]:
  "byte_at (x # xs) 0 = Some x"
  "byte_at (x # xs) (Suc n) = byte_at xs n"
  "byte_at (x # xs) (numeral k) = byte_at xs (pred_numeral k)"
  by (simp_all add: byte_at_def numeral_eq_Suc)

lemma ntohl_at_Cons [simp]:
  "ntohl_at (x # xs) (Suc n) = ntohl_at xs n"
  "ntohl_at (x # xs) (numeral k) = ntohl_at xs (pred_numeral k)"
  by (simp_all add: ntohl_at_def numeral_eq_Suc)

lemma ntohl_at_be32 [simp]: "ntohl_at (be32_bytes v @ xs) 0 = Some v"
  by (simp add: ntohl_at_def be32_bytes_def)

lemma ntohl_at_be32_skip [simp]: "ntohl_at (be32_bytes v @ xs) 4 = ntohl_at xs 0"
  by (simp add: be32_bytes_def)

lemma mss_be16:
  "push_bit 8 (ucast (ucast (drop_bit 8 m) :: byte)) + ucast (ucast m :: byte) = (m :: u16)"
proof -
  have "push_bit 8 (ucast (ucast (drop_bit 8 m) :: byte)) AND ucast (ucast m :: byte) = (0 :: u16)"
    by (rule bit_word_eqI) (auto simp: bit_simps)
  then have "push_bit 8 (ucast (ucast (drop_bit 8 m) :: byte)) + ucast (ucast m :: byte)
      = push_bit 8 (ucast (ucast (drop_bit 8 m) :: byte)) OR (ucast (ucast m :: byte) :: u16)"
    by (rule disjunctive_add_eq_or)
  then show ?thesis by (metis be16_def be16_roundtrip)
qed

lemma unat_other_len: "length d \<le> 253 \<Longrightarrow> unat (of_nat (length d + 2) :: byte) = length d + 2"
  by (simp only: unsigned_of_nat take_bit_eq_mod) simp

text \<open>One option of an encoding, wherever it stands.\<close>

lemma ParseTCPOptions_loop_step:
  assumes "opt_ok opt" and "int (length pre + length (opt_bytes opt)) \<le> len"
  shows "ParseTCPOptions_loop cur_ts (pre @ opt_bytes opt @ rest) len (length pre) s =
    ParseTCPOptions_loop cur_ts (pre @ opt_bytes opt @ rest) len
      (length pre + length (opt_bytes opt)) (apply_opt cur_ts opt s)"
proof (cases opt)
  case (OtherOpt k d)
  with assms have k: "k \<notin> {0, 1, 2, 3, 4, 8}" and d: "length d \<le> 253" by auto
  show ?thesis
    using assms k unat_other_len [OF d] unfolding OtherOpt
    by (subst ParseTCPOptions_loop.simps) (simp add: opt_consts nat_add_numeral)
next
  case (Mss m)
  with assms show ?thesis
    by (subst ParseTCPOptions_loop.simps) (simp add: opt_consts nat_add_numeral be16_bytes_def mss_be16)
next
  case (Timestamp v r)
  with assms show ?thesis
    by (subst ParseTCPOptions_loop.simps) (simp add: opt_consts nat_add_numeral)
qed (use assms in \<open>subst ParseTCPOptions_loop.simps, simp add: opt_consts nat_add_numeral\<close>)+

lemma ParseTCPTimestamp_loop_step:
  assumes "opt_ok opt" and "int (length pre + length (opt_bytes opt)) \<le> len"
  shows "ParseTCPTimestamp_loop (pre @ opt_bytes opt @ rest) len (length pre) =
    (case opt of Timestamp v r \<Rightarrow> Some (Some (Some (v, r)))
     | _ \<Rightarrow> ParseTCPTimestamp_loop (pre @ opt_bytes opt @ rest) len
              (length pre + length (opt_bytes opt)))"
proof (cases opt)
  case (OtherOpt k d)
  with assms have k: "k \<notin> {0, 1, 2, 3, 4, 8}" and d: "length d \<le> 253" by auto
  show ?thesis
    using assms k unat_other_len [OF d] unfolding OtherOpt
    by (subst ParseTCPTimestamp_loop.simps) (simp add: opt_consts nat_add_numeral)
next
  case (Timestamp v r)
  with assms show ?thesis
    by (subst ParseTCPTimestamp_loop.simps) (simp add: opt_consts nat_add_numeral)
qed (use assms in \<open>subst ParseTCPTimestamp_loop.simps, simp add: opt_consts nat_add_numeral be16_bytes_def\<close>)+

text \<open>The options end where the header says, or at an end-of-options byte.\<close>

definition opts_end :: "byte list \<Rightarrow> nat \<Rightarrow> int \<Rightarrow> bool" where
  "opts_end rest n len \<longleftrightarrow> int n = len \<or> int n < len \<and> rest \<noteq> [] \<and> hd rest = 0"

lemma opts_end_stop:
  assumes "opts_end rest (length pre) len"
  shows "ParseTCPOptions_loop cur_ts (pre @ rest) len (length pre) s = Some (Some s)"
    and "ParseTCPTimestamp_loop (pre @ rest) len (length pre) = Some (Some None)"
  using assms
  by (subst ParseTCPOptions_loop.simps ParseTCPTimestamp_loop.simps;
      cases rest; auto simp: opts_end_def opt_consts)+

lemma ParseTCPOptions_loop_opts:
  assumes "list_all opt_ok os" and "opts_end rest (length pre + length (opts_bytes os)) len"
  shows "ParseTCPOptions_loop cur_ts (pre @ opts_bytes os @ rest) len (length pre) s =
    Some (Some (fold (apply_opt cur_ts) os s))"
  using assms
proof (induction os arbitrary: pre s)
  case Nil
  then show ?case using opts_end_stop(1) [of rest pre len cur_ts s] by simp
next
  case (Cons opt os)
  then have le: "int (length pre + length (opt_bytes opt)) \<le> len"
    by (auto simp: opts_end_def)
  show ?case
    using ParseTCPOptions_loop_step [of opt pre len cur_ts "opts_bytes os @ rest" s]
      Cons.IH [of "pre @ opt_bytes opt" "apply_opt cur_ts opt s"] Cons.prems le
    by (simp add: add.assoc)
qed

lemma ParseTCPTimestamp_loop_opts:
  assumes "list_all opt_ok os" and "opts_end rest (length pre + length (opts_bytes os)) len"
  shows "ParseTCPTimestamp_loop (pre @ opts_bytes os @ rest) len (length pre) =
    Some (Some (first_timestamp os))"
  using assms
proof (induction os arbitrary: pre)
  case Nil
  then show ?case using opts_end_stop(2) [of rest pre len] by simp
next
  case (Cons opt os)
  then have le: "int (length pre + length (opt_bytes opt)) \<le> len"
    by (auto simp: opts_end_def)
  show ?case
    using ParseTCPTimestamp_loop_step [of opt pre len "opts_bytes os @ rest"]
      Cons.IH [of "pre @ opt_bytes opt"] Cons.prems le
    by (cases opt) (simp_all add: add.assoc)
qed

section \<open>The options of one end are the options the other end sees\<close>

lemma ParseTCPOptions_opts:
  "list_all opt_ok os \<Longrightarrow> opts_end rest (length (opts_bytes os)) len \<Longrightarrow>
     ParseTCPOptions s cur_ts (opts_bytes os @ rest) len = Some (fold (apply_opt cur_ts) os s)"
  using ParseTCPOptions_loop_opts [of os rest "[]" len cur_ts s]
  by (simp add: ParseTCPOptions_def)

lemma ParseTCPTimestamp_opts:
  "list_all opt_ok os \<Longrightarrow> opts_end rest (length (opts_bytes os)) len \<Longrightarrow>
     ParseTCPTimestamp (opts_bytes os @ rest) len = Some (first_timestamp os)"
  using ParseTCPTimestamp_loop_opts [of os rest "[]" len]
  by (simp add: ParseTCPTimestamp_def)

definition syn_options :: "tcp_stream \<Rightarrow> u32 \<Rightarrow> tcp_opt list" where
  "syn_options s cur_ts = [Mss (mss (sndvar s)), Nop, Nop, Timestamp cur_ts (ts_recent (rcvvar s)),
     Nop, Wscale (wscale_mine (sndvar s))]"

definition ts_options :: "tcp_stream \<Rightarrow> u32 \<Rightarrow> tcp_opt list" where
  "ts_options s cur_ts = [Nop, Nop, Timestamp cur_ts (ts_recent (rcvvar s))]"

lemma ucast_mod_256: "(ucast (m mod 256 :: u16) :: byte) = ucast m"
proof -
  have "m mod 256 = take_bit 8 m" by (simp add: take_bit_eq_mod)
  then show ?thesis by (simp add: bit_word_eqI bit_simps)
qed

lemma CalculateOptionLength_eq [simp]:
  "CalculateOptionLength flags = Some (if has_flag flags TCP_FLAG_SYN then 20 else 12)"
  by (simp add: CalculateOptionLength_def opt_consts)

lemma GenerateTCPOptions_eq:
  assumes "CalculateOptionLength flags = Some optlen"
  shows "GenerateTCPOptions s cur_ts flags optlen = Some (opts_bytes
    (if has_flag flags TCP_FLAG_SYN then syn_options s cur_ts else ts_options s cur_ts))"
  using assms
  by (auto simp: GenerateTCPOptions_def GenerateTCPTimestamp_def syn_options_def ts_options_def
      opt_consts ucast_mod_256 be16_bytes_def Let_def split: if_splits)

lemma options_ok [simp]: "list_all opt_ok (syn_options s cur_ts)" "list_all opt_ok (ts_options s cur_ts)"
  by (simp_all add: syn_options_def ts_options_def)

lemma options_length [simp]:
  "length (opts_bytes (syn_options s cur_ts)) = 20" "length (opts_bytes (ts_options s cur_ts)) = 12"
  by (simp_all add: syn_options_def ts_options_def be16_bytes_def)

text \<open>A zero-length option of an unknown kind sends the loop back to where it was.\<close>

lemma ParseTCPOptions_loop_stuck:
  assumes "byte_at buf n = Some k" and "byte_at buf (n + 1) = Some 0" and "int n < len"
    and "k \<notin> {0, 1, 2, 3, 4, 8}"
  shows "ParseTCPOptions_loop cur_ts buf len n s = None"
proof -
  have "n \<noteq> i \<or> buf \<noteq> buf' \<or> len \<noteq> len'" if "ParseTCPOptions_loop cur_ts' buf' len' i s' = Some r"
    for cur_ts' buf' len' i s' r
    by (rule ParseTCPOptions_loop.raw_induct [OF _ that]) (use assms in \<open>auto simp: opt_consts, blast\<close>)
  then show ?thesis by fastforce
qed

lemma ParseTCPTimestamp_loop_stuck:
  assumes "byte_at buf n = Some k" and "byte_at buf (n + 1) = Some 0" and "int n < len"
    and "k \<notin> {0, 1, 8}"
  shows "ParseTCPTimestamp_loop buf len n = None"
proof -
  have "n \<noteq> i \<or> buf \<noteq> buf' \<or> len \<noteq> len'" if "ParseTCPTimestamp_loop buf' len' i = Some r"
    for buf' len' i r
    by (rule ParseTCPTimestamp_loop.raw_induct [OF _ that]) (use assms in \<open>auto simp: opt_consts, blast\<close>)
  then show ?thesis by fastforce
qed

section \<open>Header layout\<close>

definition tcphdr_flags :: "tcphdr \<Rightarrow> byte" where
  "tcphdr_flags h = (if th_fin h then 1 else 0) OR (if th_syn h then 2 else 0)
     OR (if th_rst h then 4 else 0) OR (if th_psh h then 8 else 0) OR (if th_ack h then 16 else 0)"

definition tcphdr_bytes :: "tcphdr \<Rightarrow> byte list" where
  "tcphdr_bytes h = le16_bytes (th_source h) @ le16_bytes (th_dest h) @ be32_bytes (th_seq h)
     @ be32_bytes (th_ack_seq h) @ [push_bit 4 (of_nat (th_doff h)), tcphdr_flags h]
     @ be16_bytes (th_window h) @ le16_bytes (th_check h) @ [0, 0]"

definition read_tcphdr :: "byte list \<Rightarrow> tcphdr option" where
  "read_tcphdr b = (if TCP_HEADER_LEN \<le> length b then Some \<lparr>
     th_source = le16 (b ! 0) (b ! 1), th_dest = le16 (b ! 2) (b ! 3),
     th_seq = be32 (b ! 4) (b ! 5) (b ! 6) (b ! 7),
     th_ack_seq = be32 (b ! 8) (b ! 9) (b ! 10) (b ! 11),
     th_doff = unat (drop_bit 4 (b ! 12)),
     th_fin = has_flag (b ! 13) TCP_FLAG_FIN, th_syn = has_flag (b ! 13) TCP_FLAG_SYN,
     th_rst = has_flag (b ! 13) TCP_FLAG_RST, th_psh = has_flag (b ! 13) TCP_FLAG_PSH,
     th_ack = has_flag (b ! 13) TCP_FLAG_ACK, th_window = be16 (b ! 14) (b ! 15),
     th_check = le16 (b ! 16) (b ! 17)\<rparr> else None)"

lemmas flag_consts = TCP_FLAG_FIN_def TCP_FLAG_SYN_def TCP_FLAG_RST_def TCP_FLAG_PSH_def
  TCP_FLAG_ACK_def TCP_FLAG_WACK_def

lemma length_tcphdr_bytes [simp]: "length (tcphdr_bytes h) = 20"
  by (simp add: tcphdr_bytes_def le16_bytes_def be16_bytes_def)

lemma has_flag_tcphdr_flags:
  "has_flag (tcphdr_flags h) TCP_FLAG_FIN = th_fin h" "has_flag (tcphdr_flags h) TCP_FLAG_SYN = th_syn h"
  "has_flag (tcphdr_flags h) TCP_FLAG_RST = th_rst h" "has_flag (tcphdr_flags h) TCP_FLAG_PSH = th_psh h"
  "has_flag (tcphdr_flags h) TCP_FLAG_ACK = th_ack h"
  by (cases "th_fin h"; cases "th_syn h"; cases "th_rst h"; cases "th_psh h"; cases "th_ack h";
      simp add: has_flag_def tcphdr_flags_def flag_consts)+

lemma doff_roundtrip: "n < 16 \<Longrightarrow> unat (drop_bit 4 (push_bit 4 (of_nat n :: byte))) = n"
proof -
  assume n: "n < 16"
  have "\<forall>m \<in> set [0..<16]. unat (drop_bit 4 (push_bit 4 (of_nat m :: byte))) = m"
    by code_simp
  with n show ?thesis by simp
qed

lemma read_tcphdr_bytes:
  assumes "th_doff h < 16"
  shows "read_tcphdr (tcphdr_bytes h @ rest) = Some h"
  using doff_roundtrip [OF assms]
  by (simp add: read_tcphdr_def TCP_HEADER_LEN_def tcphdr_bytes_def le16_bytes_def be16_bytes_def
      be32_bytes_def le16_def has_flag_tcphdr_flags)

section \<open>Properties\<close>

text \<open>C29. Parsing is the meaning of the options. When the bytes after the header are the encoding
  of a list of options of any known or unknown kinds, filling the option area or ended by an
  end-of-options byte, \<open>ParseTCPOptions\<close> returns, reads nothing beyond the packet, and has the
  effect of the options one after the other; \<open>ParseTCPTimestamp\<close> returns the values of the
  first timestamp option, or FALSE when there is none.\<close>

theorem ParseTCPOptions_correct:
  assumes "list_all opt_ok os" and "opts_end rest (length (opts_bytes os)) len"
  shows "ParseTCPOptions s cur_ts (opts_bytes os @ rest) len = Some (fold (apply_opt cur_ts) os s)
    \<and> ParseTCPTimestamp (opts_bytes os @ rest) len = Some (first_timestamp os)"
  using assms by (simp_all add: ParseTCPOptions_opts ParseTCPTimestamp_opts)

theorem ParseTCPOptions_correct_witness:
  "ParseTCPOptions zero_stream 9 ([2, 4, 5, 180, 1, 200, 3, 42, 8, 10, 0, 0, 0, 77, 0, 0, 0, 7] @ [0, 99]) 20
     = Some (fold (apply_opt 9) [Mss 1460, Nop, OtherOpt 200 [42], Timestamp 77 7] zero_stream)
   \<and> ParseTCPTimestamp ([2, 4, 5, 180, 1, 200, 3, 42, 8, 10, 0, 0, 0, 77, 0, 0, 0, 7] @ [0, 99]) 20
     = Some (Some (77, 7))"
proof -
  have enc: "opts_bytes [Mss 1460, Nop, OtherOpt 200 [42], Timestamp 77 7]
      = [2, 4, 5, 180, 1, 200, 3, 42, 8, 10, 0, 0, 0, 77, 0, 0, 0, 7]"
    by code_simp
  show ?thesis
    using ParseTCPOptions_correct [of "[Mss 1460, Nop, OtherOpt 200 [42], Timestamp 77 7]" "[0, 99]" 20
        zero_stream 9, unfolded enc]
    by (simp add: opts_end_def)
qed

text \<open>C30. The options that \<open>GenerateTCPOptions\<close> writes are the options the other end reads. They
  have the length that \<open>CalculateOptionLength\<close> announced; \<open>ParseTCPTimestamp\<close> finds the clock
  and the echoed time stamp of the sender in them, whatever payload follows; and the options
  of a SYN, read by \<open>ParseTCPOptions\<close>, hand over the maximum segment size, the effective one
  with room for the time stamp, the window scale and the time stamp, and change nothing else.\<close>

theorem TCPOptions_roundtrip:
  assumes "CalculateOptionLength flags = Some optlen"
  shows "\<exists>bs. GenerateTCPOptions s cur_ts flags optlen = Some bs \<and> length bs = optlen
    \<and> ParseTCPTimestamp (bs @ payload) (int optlen) = Some (Some (cur_ts, ts_recent (rcvvar s)))
    \<and> (has_flag flags TCP_FLAG_SYN \<longrightarrow>
        ParseTCPOptions peer now (bs @ payload) (int optlen) = Some (peer\<lparr>
          sndvar := (sndvar peer)\<lparr>mss := mss (sndvar s), eff_mss := mss (sndvar s) - 12,
                                  wscale_peer := wscale_mine (sndvar s)\<rparr>,
          saw_timestamp := True,
          rcvvar := (rcvvar peer)\<lparr>ts_recent := cur_ts, ts_last_ts_upd := now\<rparr>\<rparr>))"
proof (cases "has_flag flags TCP_FLAG_SYN")
  case True
  with assms have len: "opts_end payload (length (opts_bytes (syn_options s cur_ts))) (int optlen)"
    "optlen = 20"
    by (simp_all add: opts_end_def)
  then show ?thesis
    using True GenerateTCPOptions_eq [OF assms, of s cur_ts] ParseTCPTimestamp_opts [OF options_ok(1) len(1)]
      ParseTCPOptions_opts [OF options_ok(1) len(1), of peer now]
    by (simp add: syn_options_def be16_bytes_def)
next
  case False
  with assms have len: "opts_end payload (length (opts_bytes (ts_options s cur_ts))) (int optlen)"
    "optlen = 12"
    by (simp_all add: opts_end_def)
  then show ?thesis
    using False GenerateTCPOptions_eq [OF assms, of s cur_ts] ParseTCPTimestamp_opts [OF options_ok(2) len(1)]
    by (simp add: ts_options_def)
qed

theorem TCPOptions_roundtrip_witness:
  "\<exists>bs. GenerateTCPOptions zero_stream 5 2 20 = Some bs \<and> length bs = 20
     \<and> ParseTCPTimestamp (bs @ [1]) 20 = Some (Some (5, 0))"
  using TCPOptions_roundtrip [of 2 20 zero_stream 5 "[1]" zero_stream 0]
  by (auto simp: has_flag_def TCP_FLAG_SYN_def zero_stream_def zero_recv_vars_def)

text \<open>C31. An option of an unknown kind whose length byte is zero hangs the stack: after any
  well-formed options, neither \<open>ParseTCPOptions\<close> nor \<open>ParseTCPTimestamp\<close> ever returns, since
  the cursor moves back by the two bytes it has just read.\<close>

theorem zero_length_option_hangs:
  assumes "list_all opt_ok os" and "first_timestamp os = None" and "k \<notin> {0, 1, 2, 3, 4, 8}"
    and "int (length (opts_bytes os)) < len"
  shows "ParseTCPOptions_loop cur_ts (opts_bytes os @ [k, 0] @ rest) len 0 s = None
    \<and> ParseTCPTimestamp_loop (opts_bytes os @ [k, 0] @ rest) len 0 = None"
proof -
  let ?tail = "[k, 0] @ rest"
  have "ParseTCPOptions_loop cur_ts (pre @ opts_bytes os @ ?tail) len (length pre) s = None
    \<and> ParseTCPTimestamp_loop (pre @ opts_bytes os @ ?tail) len (length pre) = None"
    if "list_all opt_ok os" "int (length pre + length (opts_bytes os)) < len"
      "first_timestamp os = None" for pre os s
    using that
  proof (induction os arbitrary: pre s)
    case Nil
    then show ?case
      using assms(3) ParseTCPOptions_loop_stuck [of "pre @ ?tail" "length pre" k len cur_ts s]
        ParseTCPTimestamp_loop_stuck [of "pre @ ?tail" "length pre" k len]
      by simp
  next
    case (Cons opt os)
    then have le: "int (length pre + length (opt_bytes opt)) \<le> len" by simp
    show ?case
      using ParseTCPOptions_loop_step [of opt pre len cur_ts "opts_bytes os @ ?tail" s]
        ParseTCPTimestamp_loop_step [of opt pre len "opts_bytes os @ ?tail"]
        Cons.IH [of "pre @ opt_bytes opt" "apply_opt cur_ts opt s"] Cons.prems le
      by (cases opt) (simp_all add: add.assoc)
  qed
  from this [of os "[]" s] assms show ?thesis by simp
qed

theorem zero_length_option_hangs_witness:
  "ParseTCPOptions_loop 0 [1, 1, 254, 0] 4 0 zero_stream = None
   \<and> ParseTCPTimestamp_loop [1, 1, 254, 0] 4 0 = None"
  using zero_length_option_hangs [of "[Nop, Nop]" 254 4 0 "[]" zero_stream] by simp

end
