(* ===== verification/Checksum.thy ===== *)
theory Checksum
  imports Tcp_Options
begin

text \<open>
  Internet checksums: \<open>TCPCalcChecksum\<close> of tcp_util.c and the portable \<open>ip_fast_csum\<close> of
  io_engine/include/ps.h, on a little-endian host. Both are shown to compute the complement
  of the one's complement sum of the 16-bit words, from which follow that a filled-in
  checksum verifies and that damage to one word is detected.
\<close>

section \<open>The checksum of a TCP segment\<close>

definition bswap16 :: "u16 \<Rightarrow> u16" where
  "bswap16 x = be16 (ucast x) (ucast (drop_bit 8 x))"

text \<open>The words of the segment and the padded last byte. For the last byte the code reads a
  16-bit word and masks it, so it also reads the byte behind the segment, without effect.\<close>

fun csum_words :: "byte list \<Rightarrow> u32 \<Rightarrow> u32" where
  "csum_words (a # b # bs) acc = csum_words bs (acc + ucast (le16 a b))"
| "csum_words [a] acc = acc + ucast a"
| "csum_words [] acc = acc"

definition IPPROTO_TCP :: u16 where "IPPROTO_TCP = 6"

definition TCPCalcChecksum :: "byte list \<Rightarrow> u16 \<Rightarrow> u32 \<Rightarrow> u32 \<Rightarrow> u16 option" where
  "TCPCalcChecksum buf len saddr daddr =
     (if unat len \<le> length buf then
        let acc = csum_words (take (unat len) buf) 0;
            acc = acc + ((saddr AND 0x0000FFFF) + drop_bit 16 saddr);
            acc = acc + ((daddr AND 0x0000FFFF) + drop_bit 16 daddr);
            acc = acc + ucast (bswap16 len);
            acc = acc + ucast (bswap16 IPPROTO_TCP);
            acc = drop_bit 16 acc + (acc AND 0xFFFF);
            acc = acc + drop_bit 16 acc
        in Some (ucast (NOT acc))
      else None)"

section \<open>The checksum of an IP header\<close>

definition le32 :: "byte \<Rightarrow> byte \<Rightarrow> byte \<Rightarrow> byte \<Rightarrow> u32" where
  "le32 a b c d = be32 d c b a"

definition le32_word :: "byte list \<Rightarrow> nat \<Rightarrow> u32" where
  "le32_word buf i = le32 (buf ! (4 * i)) (buf ! (4 * i + 1)) (buf ! (4 * i + 2)) (buf ! (4 * i + 3))"

definition csum_carry :: "u32 \<Rightarrow> u32 \<Rightarrow> u32" where
  "csum_carry csum w = (let csum = csum + w in csum + (if csum < w then 1 else 0))"

definition csum_fold :: "u32 \<Rightarrow> u16" where
  "csum_fold csum =
     (let acc = csum + push_bit 16 csum;
          carry = (if acc < csum then 1 else 0);
          acc = drop_bit 16 acc;
          acc = acc + carry
      in ucast (NOT acc))"

text \<open>The loop over the words from the fifth on tests for the end after its body, so a header of
  fewer than five words runs past it.\<close>

definition ip_fast_csum :: "byte list \<Rightarrow> nat \<Rightarrow> u16 option" where
  "ip_fast_csum iph ihl =
     (if 5 \<le> ihl \<and> 4 * ihl \<le> length iph then
        let csum = le32_word iph 0;
            csum = foldl csum_carry csum (map (le32_word iph) [1, 2, 3]);
            csum = foldl csum_carry csum (map (le32_word iph) [4..<ihl])
        in Some (csum_fold csum)
      else None)"

section \<open>One's complement sums\<close>

text \<open>The sum of the words as a number, and the representative of its class modulo 65535 that
  end-around carry gives: zero only for zero.\<close>

fun wsum :: "byte list \<Rightarrow> nat" where
  "wsum (a # b # bs) = unat (le16 a b) + wsum bs"
| "wsum [a] = unat a"
| "wsum [] = 0"

definition ones_rep :: "nat \<Rightarrow> nat" where
  "ones_rep n = (if n = 0 then 0 else (n - 1) mod 65535 + 1)"

definition pseudo_sum :: "u32 \<Rightarrow> u32 \<Rightarrow> u16 \<Rightarrow> nat" where
  "pseudo_sum saddr daddr len = unat (saddr AND 0xFFFF) + unat (drop_bit 16 saddr)
     + unat (daddr AND 0xFFFF) + unat (drop_bit 16 daddr)
     + unat (bswap16 len) + unat (bswap16 IPPROTO_TCP)"

lemma ones_rep_mod: "ones_rep n mod 65535 = n mod 65535"
  by (cases n) (simp_all add: ones_rep_def mod_Suc_eq)

lemma ones_rep_bounds: "ones_rep n \<le> 65535" "ones_rep n = 0 \<longleftrightarrow> n = 0"
  using mod_less_divisor [of 65535 "n - 1"] by (auto simp: ones_rep_def simp del: mod_less_divisor)

lemma ones_rep_unique:
  assumes "r \<le> 65535" and "r mod 65535 = n mod 65535" and "r = 0 \<longleftrightarrow> n = 0"
  shows "r = ones_rep n"
proof (cases "n = 0")
  case False
  then have pos: "0 < ones_rep n" "0 < r" using assms(3) ones_rep_bounds [of n] by auto
  have "ones_rep n mod 65535 = r mod 65535" using assms(2) ones_rep_mod by simp
  then show ?thesis
    using pos assms(1) ones_rep_bounds(1) [of n]
    by (cases "r = 65535"; cases "ones_rep n = 65535") auto
qed (use assms ones_rep_bounds in auto)

lemma fold_carry:
  assumes "s < 4294967296"
  shows "(let s1 = s div 65536 + s mod 65536; s2 = s1 + s1 div 65536 in s2 mod 65536) = ones_rep s"
proof -
  define s1 where "s1 = s div 65536 + s mod 65536"
  have s: "s = 65536 * (s div 65536) + s mod 65536" by simp
  have "s div 65536 < 65536" using assms by (simp add: less_mult_imp_div_less)
  then have b: "s1 \<le> 131070" unfolding s1_def using mod_less_divisor [of 65536 s] by linarith
  have "s = s1 + 65535 * (s div 65536)" unfolding s1_def using s by linarith
  then have m: "s1 mod 65535 = s mod 65535" by (metis mod_mult_self2)
  have z: "s1 = 0 \<longleftrightarrow> s = 0" unfolding s1_def using s by auto
  have "(s1 + s1 div 65536) mod 65536 = ones_rep s"
  proof (cases "s1 < 65536")
    case True
    then show ?thesis using m z by (intro ones_rep_unique) auto
  next
    case False
    with b have d: "s1 div 65536 = 1" by (intro div_nat_eqI) auto
    with False b have e: "(s1 + s1 div 65536) mod 65536 = s1 - 65535"
      by (simp add: mod_if [of "Suc s1"])
    have "(s1 - 65535) mod 65535 = s mod 65535" using False m by (simp add: le_mod_geq [symmetric])
    with False b z show ?thesis unfolding e by (intro ones_rep_unique) auto
  qed
  then show ?thesis by (simp add: s1_def Let_def)
qed

section \<open>The code computes the one's complement sum\<close>

lemma unat_ucast_16_32 [simp]: "unat (ucast (x :: u16) :: u32) = unat x"
  using unat_lt [of x] by (simp add: unsigned_ucast_eq take_bit_eq_mod)

lemma unat_ucast_8_32 [simp]: "unat (ucast (x :: byte) :: u32) = unat x"
  using unat_lt [of x] by (simp add: unsigned_ucast_eq take_bit_eq_mod)

lemma unat_16_bound: "unat (x :: u16) \<le> 65535"
  using unat_lt [of x] by simp

lemma unat_drop_16: "unat (drop_bit 16 (x :: u32)) = unat x div 65536"
  by (simp add: drop_bit_eq_div unat_div)

lemma unat_and_ffff: "unat (x AND 0xFFFF :: u32) = unat x mod 65536"
proof -
  have "x AND 0xFFFF = take_bit 16 x" by (simp add: take_bit_eq_mask mask_numeral)
  then show ?thesis by (simp add: take_bit_eq_mod unat_mod)
qed

lemma wsum_bound: "wsum bs \<le> 65535 * ((length bs + 1) div 2)"
proof (induction bs rule: wsum.induct)
  case (1 a b bs)
  then show ?case using unat_16_bound [of "le16 a b"] by simp
next
  case (2 a)
  then show ?case using unat_lt [of a] by simp
qed simp

lemma unat_csum_words:
  "unat acc + wsum bs < 4294967296 \<Longrightarrow> unat (csum_words bs acc) = unat acc + wsum bs"
proof (induction bs acc rule: csum_words.induct)
  case (1 a b bs acc)
  then have "unat (acc + ucast (le16 a b)) = unat acc + unat (le16 a b)"
    by (subst unat_add_small) simp_all
  with 1 show ?case by simp
next
  case (2 a acc)
  then show ?case by (simp add: unat_add_small)
qed simp

lemma wsum_take_bound: "wsum (take (unat (len :: u16)) buf) \<le> 2147450880"
proof -
  have "(length (take (unat len) buf) + 1) div 2 \<le> 32768"
    using unat_16_bound [of len] by (auto simp: min_def)
  then show ?thesis using wsum_bound [of "take (unat len) buf"] by linarith
qed

lemma unat_halves_bound: "unat (x :: u32) div 65536 \<le> 65535" "unat x mod 65536 \<le> 65535"
  using div_le_mono [of "unat x" 4294967295 65536] unat_lt [of x] mod_less_divisor [of 65536 "unat x"]
  by simp_all

lemma pseudo_sum_bound: "pseudo_sum saddr daddr len \<le> 393210" "0 < pseudo_sum saddr daddr len"
proof -
  show "pseudo_sum saddr daddr len \<le> 393210"
    unfolding pseudo_sum_def unat_drop_16 unat_and_ffff
    using unat_16_bound [of "bswap16 len"] unat_16_bound [of "bswap16 IPPROTO_TCP"]
      unat_halves_bound [of saddr] unat_halves_bound [of daddr] by linarith
  have "0 < unat (bswap16 IPPROTO_TCP)" by code_simp
  then show "0 < pseudo_sum saddr daddr len" by (simp add: pseudo_sum_def)
qed

lemma unat_not_16: "unat (ucast (NOT (x :: u32)) :: u16) = 65535 - unat x mod 65536"
proof -
  have "(ucast (NOT x) :: u16) = NOT (ucast x)" by (rule bit_word_eqI) (simp add: bit_simps)
  moreover have "unat (ucast x :: u16) = unat x mod 65536"
    by (simp add: unsigned_ucast_eq take_bit_eq_mod)
  moreover have "unat (NOT y) = 65535 - unat y" for y :: u16
  proof -
    have "NOT y = 65535 - y" by (simp add: not_eq_complement)
    moreover have "y \<le> 65535" using unat_16_bound [of y] by (simp add: word_le_nat_alt)
    ultimately show ?thesis by (simp add: unat_sub)
  qed
  ultimately show ?thesis by simp
qed

text \<open>The two folding steps at the end of the checksum functions.\<close>

lemma fold_carry_word:
  fixes s :: u32
  assumes "s1 = drop_bit 16 s + (s AND 0xFFFF)" and "s2 = s1 + drop_bit 16 s1"
  shows "unat (ucast (NOT s2) :: u16) = 65535 - ones_rep (unat s)"
proof -
  note d = unat_halves_bound(1) [of s] and m = unat_halves_bound(2) [of s]
  have 1: "unat s1 = unat s div 65536 + unat s mod 65536"
    using d m unfolding assms(1) by (subst unat_add_small) (simp_all add: unat_drop_16 unat_and_ffff)
  then have "unat s1 + unat s1 div 65536 < 4294967296" using d m by linarith
  then have "unat s2 = unat s1 + unat s1 div 65536"
    unfolding assms(2) by (subst unat_add_small) (simp_all add: unat_drop_16)
  then show ?thesis
    using fold_carry [of "unat s"] unat_lt [of s] 1 by (simp add: unat_not_16 Let_def)
qed

lemma TCPCalcChecksum_eq:
  assumes "unat len \<le> length buf"
  shows "\<exists>c. TCPCalcChecksum buf len saddr daddr = Some c
    \<and> unat c = 65535 - ones_rep (wsum (take (unat len) buf) + pseudo_sum saddr daddr len)"
proof -
  define s where "s = csum_words (take (unat len) buf) 0 + ((saddr AND 0x0000FFFF) + drop_bit 16 saddr)
    + ((daddr AND 0x0000FFFF) + drop_bit 16 daddr) + ucast (bswap16 len) + ucast (bswap16 IPPROTO_TCP)"
  have w: "unat (csum_words (take (unat len) buf) 0) = wsum (take (unat len) buf)"
    using wsum_take_bound [of len buf] by (simp add: unat_csum_words)
  note b = wsum_take_bound [of len buf] pseudo_sum_bound(1) [of saddr daddr len, unfolded pseudo_sum_def]
  have "unat s = wsum (take (unat len) buf) + pseudo_sum saddr daddr len"
    using b unfolding s_def pseudo_sum_def by (simp add: unat_add_small w)
  then show ?thesis
    using assms fold_carry_word [OF refl refl, of s]
    by (simp add: TCPCalcChecksum_def Let_def s_def [symmetric])
qed

section \<open>The IP header checksum agrees\<close>

lemma bit_byte_high [simp]: "8 \<le> k \<Longrightarrow> \<not> bit (x :: byte) k"
  by (auto dest: bit_imp_le_length)

lemma le32_halves: "le32 a b c d = push_bit 16 (ucast (le16 c d)) OR ucast (le16 a b)"
proof (rule bit_word_eqI)
  fix n assume "n < LENGTH(32)"
  then consider "n < 8" | "8 \<le> n \<and> n < 16" | "16 \<le> n \<and> n < 24" | "24 \<le> n \<and> n < 32"
    by fastforce
  then show "bit (le32 a b c d) n = bit (push_bit 16 (ucast (le16 c d)) OR ucast (le16 a b) :: u32) n"
    by cases (auto simp: le32_def be32_def le16_def be16_def bit_simps)
qed

lemma unat_le32: "unat (le32 a b c d) = unat (le16 a b) + 65536 * unat (le16 c d)"
proof -
  have "push_bit 16 (ucast (le16 c d)) AND ucast (le16 a b) = (0 :: u32)"
    by (rule bit_word_eqI) (auto simp: bit_simps dest: bit_imp_le_length)
  then have "push_bit 16 (ucast (le16 c d)) + ucast (le16 a b)
      = push_bit 16 (ucast (le16 c d)) OR (ucast (le16 a b) :: u32)"
    by (rule disjunctive_add_eq_or)
  also have "\<dots> = le32 a b c d"
    by (rule le32_halves [symmetric])
  finally have eq: "le32 a b c d = push_bit 16 (ucast (le16 c d)) + ucast (le16 a b)" ..
  have p: "unat (push_bit 16 (ucast (le16 c d)) :: u32) = 65536 * unat (le16 c d)"
    using unat_16_bound [of "le16 c d"]
    by (simp add: push_bit_eq_mult unat_mult_lem [THEN iffD1])
  show ?thesis
    using unat_16_bound [of "le16 c d"] unat_16_bound [of "le16 a b"] p
    unfolding eq by (subst unat_add_small) simp_all
qed

lemma csum_carry_mod:
  "unat (csum_carry c w) mod 65535 = (unat c + unat w) mod 65535"
  "unat (csum_carry c w) = 0 \<longleftrightarrow> unat c + unat w = 0"
proof -
  have cl: "unat c < 4294967296" "unat w < 4294967296" using unat_lt [of c] unat_lt [of w] by simp_all
  have "unat (csum_carry c w) mod 65535 = (unat c + unat w) mod 65535 \<and>
    (unat (csum_carry c w) = 0 \<longleftrightarrow> unat c + unat w = 0)"
  proof (cases "unat c + unat w < 4294967296")
    case True
    then have e: "unat (c + w) = unat c + unat w" by (subst unat_add_small) simp_all
    then have "\<not> c + w < w" by (simp add: word_less_nat_alt)
    then show ?thesis using e by (simp add: csum_carry_def Let_def)
  next
    case False
    with cl have e: "unat (c + w) = unat c + unat w - 4294967296"
      by (simp add: unat_word_ariths mod_if [of "unat c + unat w"])
    then have "c + w < w" using cl False by (simp add: word_less_nat_alt)
    then have "csum_carry c w = c + w + 1" by (simp add: csum_carry_def Let_def)
    moreover have "unat (c + w + 1) = unat (c + w) + 1"
      using \<open>c + w < w\<close> by (rule unat_plus_1)
    ultimately have u: "unat (csum_carry c w) = unat c + unat w - 4294967295"
      using e False by simp
    have "(unat c + unat w) mod 65535 = (unat c + unat w - 4294967295 + 65537 * 65535) mod 65535"
      using False by simp
    also have "\<dots> = (unat c + unat w - 4294967295) mod 65535" by (rule mod_mult_self1)
    finally have "unat (csum_carry c w) mod 65535 = (unat c + unat w) mod 65535" using u by simp
    moreover have "unat (csum_carry c w) \<noteq> 0" "unat c + unat w \<noteq> 0" using u False by linarith+
    ultimately show ?thesis by blast
  qed
  then show "unat (csum_carry c w) mod 65535 = (unat c + unat w) mod 65535"
    "unat (csum_carry c w) = 0 \<longleftrightarrow> unat c + unat w = 0" by (simp_all only:)
qed

lemma foldl_csum_carry:
  "unat (foldl csum_carry c ws) mod 65535 = (unat c + sum_list (map unat ws)) mod 65535
   \<and> (unat (foldl csum_carry c ws) = 0 \<longleftrightarrow> unat c + sum_list (map unat ws) = 0)"
proof (induction ws arbitrary: c)
  case (Cons w ws)
  have "(unat (csum_carry c w) + sum_list (map unat ws)) mod 65535
      = (unat c + unat w + sum_list (map unat ws)) mod 65535"
    by (rule mod_add_cong [OF csum_carry_mod(1) refl])
  then show ?case
    using Cons.IH [of "csum_carry c w"] csum_carry_mod(2) [of c w] by (simp add: add.assoc)
qed simp

lemma unat_csum_fold: "unat (csum_fold c) = 65535 - ones_rep (unat c)"
proof -
  define h l where "h = unat c div 65536" and "l = unat c mod 65536"
  have c: "unat c = 65536 * h + l" by (simp add: h_def l_def)
  have b: "h \<le> 65535" "l \<le> 65535" using unat_halves_bound [of c] by (simp_all add: h_def l_def)
  have "unat (push_bit 16 c) = (unat c * 65536) mod 4294967296"
    by (simp add: push_bit_eq_mult unat_word_ariths)
  also have "\<dots> = l * 65536" unfolding l_def using mod_mult_mult2 [of "unat c" 65536 65536] by simp
  finally have shl: "unat (push_bit 16 c) = 65536 * l" by simp
  define acc where "acc = c + push_bit 16 c"
  have "unat acc = (unat c + unat (push_bit 16 c)) mod 4294967296"
    unfolding acc_def by (simp only: unat_word_ariths) simp
  moreover have "unat c + unat (push_bit 16 c) = 65536 * (h + l) + l" by (simp only: shl c) simp
  ultimately have acc: "unat acc = (65536 * (h + l) + l) mod 4294967296" by (simp only:)
  have "unat (drop_bit 16 acc + (if acc < c then 1 else 0)) = ones_rep (unat c)"
  proof (cases "h + l < 65536")
    case True
    then have "unat acc = 65536 * (h + l) + l" using acc b by simp
    then have "unat (drop_bit 16 acc) = h + l" "\<not> acc < c"
      using b c by (simp_all add: unat_drop_16 word_less_nat_alt)
    moreover have "h + l = ones_rep (unat c)"
    proof (rule ones_rep_unique)
      have "(h + l + 65535 * h) mod 65535 = (h + l) mod 65535" by (rule mod_mult_self2)
      then show "(h + l) mod 65535 = unat c mod 65535" by (simp add: c algebra_simps)
    qed (use True c in auto)
    ultimately show ?thesis by simp
  next
    case False
    then have "65536 * (h + l) + l = 65536 * (h + l - 65536) + l + 4294967296"
      by (simp add: diff_mult_distrib2)
    then have "unat acc = (65536 * (h + l - 65536) + l) mod 4294967296"
      using acc by (simp only: mod_add_self2)
    then have e: "unat acc = 65536 * (h + l - 65536) + l"
      using b by (simp add: mod_less)
    then have d: "unat (drop_bit 16 acc) = h + l - 65536" "acc < c"
      using b c False by (simp_all add: unat_drop_16 word_less_nat_alt)
    then have "unat (drop_bit 16 acc + 1) = h + l - 65535"
      using b False by (subst unat_add_small) simp_all
    moreover have "h + l - 65535 = ones_rep (unat c)"
    proof (rule ones_rep_unique)
      have "(h + l - 65535) mod 65535 = (h + l) mod 65535" using False by (simp add: le_mod_geq [symmetric])
      also have "\<dots> = (h + l + 65535 * h) mod 65535" by (rule mod_mult_self2 [symmetric])
      finally show "(h + l - 65535) mod 65535 = unat c mod 65535" by (simp add: c algebra_simps)
    qed (use False b c in auto)
    ultimately show ?thesis using d by simp
  qed
  moreover have "ones_rep (unat c) mod 65536 = ones_rep (unat c)"
    using ones_rep_bounds(1) [of "unat c"] by simp
  ultimately show ?thesis by (simp add: csum_fold_def Let_def unat_not_16 acc_def)
qed

lemma wsum_append: "even (length xs) \<Longrightarrow> wsum (xs @ ys) = wsum xs + wsum ys"
  by (induction xs rule: wsum.induct) simp_all

lemma take_4_more:
  assumes "4 * Suc n \<le> length buf"
  shows "take (4 * Suc n) buf = take (4 * n) buf
    @ [buf ! (4 * n), buf ! (4 * n + 1), buf ! (4 * n + 2), buf ! (4 * n + 3)]"
  using assms by (simp add: take_Suc_conv_app_nth numeral_eq_Suc)

lemma sum_words_mod:
  "4 * n \<le> length buf \<Longrightarrow>
     sum_list (map unat (map (le32_word buf) [0..<n])) mod 65535 = wsum (take (4 * n) buf) mod 65535
     \<and> (sum_list (map unat (map (le32_word buf) [0..<n])) = 0 \<longleftrightarrow> wsum (take (4 * n) buf) = 0)"
proof (induction n)
  case (Suc n)
  define lo hi where "lo = unat (le16 (buf ! (4 * n)) (buf ! (4 * n + 1)))"
    and "hi = unat (le16 (buf ! (4 * n + 2)) (buf ! (4 * n + 3)))"
  have w: "wsum (take (4 * Suc n) buf) = wsum (take (4 * n) buf) + (lo + hi)"
    unfolding take_4_more [OF Suc.prems] using Suc.prems
    by (subst wsum_append) (simp_all add: lo_def hi_def)
  have u: "unat (le32_word buf n) = lo + hi + 65535 * hi"
    by (simp add: le32_word_def unat_le32 lo_def hi_def)
  define t where "t = sum_list (map unat (map (le32_word buf) [0..<n]))"
  have ih: "t mod 65535 = wsum (take (4 * n) buf) mod 65535" "t = 0 \<longleftrightarrow> wsum (take (4 * n) buf) = 0"
    using Suc unfolding t_def by simp_all
  have "(t + (lo + hi + 65535 * hi)) mod 65535 = (t + (lo + hi)) mod 65535"
    by (simp only: add.assoc [symmetric] mod_mult_self2)
  also have "\<dots> = (wsum (take (4 * n) buf) + (lo + hi)) mod 65535"
    by (rule mod_add_cong [OF ih(1) refl])
  finally have "(t + unat (le32_word buf n)) mod 65535 = wsum (take (4 * Suc n) buf) mod 65535"
    unfolding u w .
  moreover have "t + unat (le32_word buf n) = 0 \<longleftrightarrow> wsum (take (4 * Suc n) buf) = 0"
    using ih(2) unfolding u w by auto
  moreover have "sum_list (map unat (map (le32_word buf) [0..<Suc n])) = t + unat (le32_word buf n)"
    by (simp add: t_def)
  ultimately show ?case by (simp only:)
qed simp

lemma ip_fast_csum_eq:
  assumes "5 \<le> ihl" and "4 * ihl \<le> length iph"
  shows "\<exists>c. ip_fast_csum iph ihl = Some c \<and> unat c = 65535 - ones_rep (wsum (take (4 * ihl) iph))"
proof -
  define ws where "ws = map (le32_word iph) [1..<ihl]"
  obtain k where k: "ihl = 4 + k" using assms(1) le_Suc_ex [of 4 ihl] by auto
  have idx: "[1..<ihl] = [1, 2, 3] @ [4..<ihl]"
    using upt_add_eq_append [of 1 4 k] unfolding k by (simp add: upt_rec)
  have c: "ip_fast_csum iph ihl = Some (csum_fold (foldl csum_carry (le32_word iph 0) ws))"
    using assms unfolding ws_def idx by (simp add: ip_fast_csum_def Let_def)
  have all: "[0..<ihl] = 0 # [1..<ihl]" using assms(1) by (simp add: upt_conv_Cons)
  have "ones_rep (unat (foldl csum_carry (le32_word iph 0) ws)) = ones_rep (wsum (take (4 * ihl) iph))"
    using foldl_csum_carry [of "le32_word iph 0" ws] sum_words_mod [OF assms(2)]
    unfolding all ws_def by (intro ones_rep_unique) (auto simp: ones_rep_bounds ones_rep_mod)
  with c show ?thesis by (simp add: unat_csum_fold)
qed

section \<open>Filling in and verifying\<close>

lemma le16_bytes_roundtrip [simp]: "le16 (ucast x) (ucast (drop_bit 8 x)) = x"
  by (simp add: le16_def)

lemma mod_65535_cancel:
  assumes "(m + x) mod 65535 = (m + y) mod (65535 :: nat)"
  shows "x mod 65535 = y mod 65535"
proof -
  have "65534 * m + (m + z) = z + 65535 * m" for z by simp
  then have e: "(65534 * m + (m + z)) mod 65535 = z mod 65535" for z by (simp only: mod_mult_self2)
  show ?thesis using mod_add_cong [OF refl assms, of "65534 * m"] unfolding e .
qed

lemma word_mod_65535_neq:
  fixes v w :: u16
  assumes "v \<noteq> w" and "{v, w} \<noteq> {0, 0xFFFF}"
  shows "unat v mod 65535 \<noteq> unat w mod 65535"
proof -
  have full: "unat x = 65535 \<Longrightarrow> x = 0xFFFF" for x :: u16 by (simp add: word_unat_eq_iff)
  have "unat v \<noteq> unat w" using assms(1) by (simp add: word_unat_eq_iff)
  moreover have "\<not> (unat v = 0 \<and> unat w = 65535)" "\<not> (unat v = 65535 \<and> unat w = 0)"
    using assms(2) full by (auto simp: unat_eq_zero)
  ultimately show ?thesis
    using unat_16_bound [of v] unat_16_bound [of w]
    by (cases "unat v = 65535"; cases "unat w = 65535") simp_all
qed

lemma le16_zero: "le16 0 0 = 0"
  by (simp add: le16_def be16_def)

lemma ones_rep_full: "ones_rep n = 65535 \<longleftrightarrow> n \<noteq> 0 \<and> n mod 65535 = 0"
proof
  assume "ones_rep n = 65535"
  then show "n \<noteq> 0 \<and> n mod 65535 = 0" using ones_rep_mod [of n] ones_rep_bounds(2) [of n] by auto
next
  assume "n \<noteq> 0 \<and> n mod 65535 = 0"
  then show "ones_rep n = 65535" by (intro ones_rep_unique [symmetric]) simp_all
qed

lemma TCPCalcChecksum_zero:
  assumes "unat len = length buf"
  shows "TCPCalcChecksum buf len saddr daddr = Some 0
    \<longleftrightarrow> (wsum buf + pseudo_sum saddr daddr len) mod 65535 = 0"
proof -
  define n where "n = wsum buf + pseudo_sum saddr daddr len"
  have pos: "n \<noteq> 0" using pseudo_sum_bound(2) [of saddr daddr len] by (simp add: n_def)
  obtain c where c: "TCPCalcChecksum buf len saddr daddr = Some c" "unat c = 65535 - ones_rep n"
    using TCPCalcChecksum_eq [of len buf saddr daddr] assms by (auto simp: n_def)
  have "c = 0 \<longleftrightarrow> ones_rep n = 65535"
    using c(2) ones_rep_bounds(1) [of n] by (auto simp: unat_eq_zero [symmetric])
  then show ?thesis using c(1) pos unfolding n_def [symmetric] by (auto simp: ones_rep_full)
qed

lemma wsum_tcphdr_check:
  "wsum (tcphdr_bytes (h\<lparr>th_check := c\<rparr>) @ rest) = wsum (tcphdr_bytes (h\<lparr>th_check := 0\<rparr>) @ rest) + unat c"
proof -
  define pre where "pre = take 16 (tcphdr_bytes h)"
  have sp: "tcphdr_bytes (h\<lparr>th_check := x\<rparr>) @ rest = pre @ le16_bytes x @ [0, 0] @ rest" for x
    by (simp add: pre_def tcphdr_bytes_def le16_bytes_def be16_bytes_def be32_bytes_def
        tcphdr_flags_def)
  have ev: "even (length pre)" by (simp add: pre_def)
  show ?thesis
    unfolding sp wsum_append [OF ev] by (simp add: le16_bytes_def le16_zero)
qed

section \<open>Properties\<close>

definition ones_csum :: "nat \<Rightarrow> u16" where
  "ones_csum n = of_nat (65535 - ones_rep n)"

lemma ones_csum_eqI: "unat c = 65535 - ones_rep n \<Longrightarrow> c = ones_csum n"
  unfolding ones_csum_def by (metis of_nat_unat ucast_id unsigned_of_nat word_unat_eq_iff)

text \<open>C27. Both checksum routines compute the complement of the one's complement sum of the
  16-bit words: \<open>TCPCalcChecksum\<close>, which adds words into 32 bits and folds twice, over the
  segment (an odd last byte padded with zero) and the pseudo header, and \<open>ip_fast_csum\<close>, which
  adds 32-bit words with end-around carry, over the header. No 32-bit sum loses a carry.\<close>

theorem checksums_ones_complement:
  assumes "unat len \<le> length seg" and "5 \<le> ihl" and "4 * ihl \<le> length iph"
  shows "TCPCalcChecksum seg len saddr daddr
      = Some (ones_csum (wsum (take (unat len) seg) + pseudo_sum saddr daddr len))
    \<and> ip_fast_csum iph ihl = Some (ones_csum (wsum (take (4 * ihl) iph)))"
  using TCPCalcChecksum_eq [OF assms(1), of saddr daddr] ip_fast_csum_eq [OF assms(2,3)]
  by (auto dest: ones_csum_eqI)

theorem checksums_ones_complement_witness:
  "ip_fast_csum (replicate 20 7) 5 = Some (ones_csum (wsum (replicate 20 7)))
   \<and> TCPCalcChecksum [1, 2, 3] 3 5 6 = Some (ones_csum (wsum [1, 2, 3] + pseudo_sum 5 6 3))"
  using checksums_ones_complement [of 3 "[1, 2, 3]" 5 "replicate 20 7" 5 6] by simp

text \<open>C28. A checksum that the sender fills in verifies at the receiver, and damage is detected.
  When \<open>TCPCalcChecksum\<close> of a segment whose check field is zero is stored in the check field,
  \<open>TCPCalcChecksum\<close> of the stored segment is zero. Any segment that differs from it in one
  16-bit word does not verify, unless the difference is between the two zeros 0 and 0xFFFF of
  one's complement.\<close>

theorem TCPChecksum_fill_verify:
  assumes "th_check h = 0" and "unat len = 20 + length rest"
    and "TCPCalcChecksum (tcphdr_bytes h @ rest) len saddr daddr = Some c"
    and "seg = tcphdr_bytes (h\<lparr>th_check := c\<rparr>) @ rest"
  shows "TCPCalcChecksum seg len saddr daddr = Some 0 \<and>
    (\<forall>xs a b ys a' b'. seg = xs @ [a, b] @ ys \<and> even (length xs) \<and> le16 a b \<noteq> le16 a' b'
       \<and> {le16 a b, le16 a' b'} \<noteq> {0, 0xFFFF} \<longrightarrow>
       TCPCalcChecksum (xs @ [a', b'] @ ys) len saddr daddr \<noteq> Some 0)"
proof (intro conjI allI impI)
  define p where "p = pseudo_sum saddr daddr len"
  have h0: "h\<lparr>th_check := 0\<rparr> = h" using assms(1) by simp
  define n where "n = wsum (tcphdr_bytes h @ rest) + p"
  have c: "unat c = 65535 - ones_rep n"
    using TCPCalcChecksum_eq [of len "tcphdr_bytes h @ rest" saddr daddr] assms(2,3)
    by (auto simp: n_def p_def)
  have "(n + unat c) mod 65535 = (ones_rep n + unat c) mod 65535"
    by (rule mod_add_cong [OF ones_rep_mod [symmetric] refl])
  then have z: "(wsum seg + p) mod 65535 = 0"
    using ones_rep_bounds(1) [of n] wsum_tcphdr_check [where h = h and c = c and rest = rest]
    unfolding assms(4) h0 by (simp add: c n_def add_ac)
  then show "TCPCalcChecksum seg len saddr daddr = Some 0"
    by (subst TCPCalcChecksum_zero) (simp_all add: assms(2,4) p_def)
  fix xs a b ys a' b'
  assume *: "seg = xs @ [a, b] @ ys \<and> even (length xs) \<and> le16 a b \<noteq> le16 a' b'
    \<and> {le16 a b, le16 a' b'} \<noteq> {0, 0xFFFF}"
  define m where "m = wsum xs + wsum ys + p"
  have e: "wsum (xs @ [x, y] @ ys) + p = m + unat (le16 x y)" for x y
    using * by (simp add: wsum_append m_def)
  have "unat (le16 a b) mod 65535 \<noteq> unat (le16 a' b') mod 65535"
    by (rule word_mod_65535_neq) (use * in auto)
  then have "(m + unat (le16 a b)) mod 65535 \<noteq> (m + unat (le16 a' b')) mod 65535"
    by (rule contrapos_nn) (rule mod_65535_cancel)
  moreover have "(m + unat (le16 a b)) mod 65535 = 0" using z * e by metis
  ultimately have "(wsum (xs @ [a', b'] @ ys) + p) mod 65535 \<noteq> 0" unfolding e by argo
  moreover have "length seg = length (xs @ [a', b'] @ ys)" using * by simp
  then have "unat len = length (xs @ [a', b'] @ ys)" using assms(2,4) by simp
  ultimately show "TCPCalcChecksum (xs @ [a', b'] @ ys) len saddr daddr \<noteq> Some 0"
    by (subst TCPCalcChecksum_zero) (simp_all add: p_def)
qed

definition hdr_example :: tcphdr where
  "hdr_example = \<lparr>th_source = 80, th_dest = 4660, th_seq = 1, th_ack_seq = 2, th_doff = 5,
     th_fin = False, th_syn = True, th_rst = False, th_psh = False, th_ack = True,
     th_window = 1000, th_check = 0\<rparr>"

theorem TCPChecksum_fill_verify_witness:
  "\<exists>c. TCPCalcChecksum (tcphdr_bytes hdr_example @ [1, 2, 3]) 23 7 8 = Some c
     \<and> TCPCalcChecksum (tcphdr_bytes (hdr_example\<lparr>th_check := c\<rparr>) @ [1, 2, 3]) 23 7 8 = Some 0"
proof -
  obtain c where c: "TCPCalcChecksum (tcphdr_bytes hdr_example @ [1, 2, 3]) 23 7 8 = Some c"
    using TCPCalcChecksum_eq [of 23 "tcphdr_bytes hdr_example @ [1, 2, 3]" 7 8] by auto
  then show ?thesis
    using TCPChecksum_fill_verify [of hdr_example 23 "[1, 2, 3]" 7 8 c] by (auto simp: hdr_example_def)
qed

end
