(* ===== verification/Addr_Pool.thy ===== *)
theory Addr_Pool
  imports Tailq Rss Checksum
begin

text \<open>
  The pool of source addresses and ports for active connections (addr_pool.c). Entries are
  numbered by their position in the array \<open>pool\<close>; the free and the used list are lists of these
  numbers, and the mapper finds the entry of an address and a port.

  A fetched address was free, fits what the caller asked for and, with its answers, the core of
  the caller; addresses that are out are never handed out again before they are freed, and freeing
  one makes it available again.
\<close>

definition MIN_PORT :: nat where "MIN_PORT = 1025"
definition MAX_PORT :: nat where "MAX_PORT = 65535 + 1"

definition bswap32 :: "u32 \<Rightarrow> u32" where
  "bswap32 x = be32 (ucast x) (ucast (drop_bit 8 x)) (ucast (drop_bit 16 x)) (ucast (drop_bit 24 x))"

text \<open>A \<open>sockaddr_in\<close>: address and port in network order.\<close>

type_synonym sockaddr = "u32 \<times> u16"

record addr_pool =
  ap_pool :: "sockaddr list"
  ap_mapper :: "(nat \<Rightarrow> nat \<Rightarrow> nat option) option"
  ap_addr_base :: u32
  ap_num_addr :: int
  ap_num_entry :: int
  ap_num_free :: int
  ap_num_used :: int
  ap_free_list :: "nat list"
  ap_used_list :: "nat list"

text \<open>Entry \<open>cnt\<close> of the array, its place in the mapper and its link into the free list. \<open>num_entry\<close> is
  the length of the array; writing past it is undefined.\<close>

definition add_entry ::
    "nat \<Rightarrow> u32 \<Rightarrow> nat \<Rightarrow> int \<Rightarrow> addr_pool \<Rightarrow> addr_pool option" where
  "add_entry i addr j num_entry ap =
     (let cnt = length (ap_pool ap) in
      if int cnt < num_entry then
        Some (ap\<lparr>ap_pool := ap_pool ap @ [(addr, bswap16 (word_of_nat j))],
                 ap_mapper := map_option (\<lambda>mp. mp(i := (mp i)(j \<mapsto> cnt))) (ap_mapper ap),
                 ap_free_list := ap_free_list ap @ [cnt]\<rparr>)
      else None)"

text \<open>The loop over the ports in \<open>CreateAddressPool\<close>, with its \<open>break\<close>.\<close>

fun add_ports :: "nat \<Rightarrow> u32 \<Rightarrow> int \<Rightarrow> nat list \<Rightarrow> addr_pool \<Rightarrow> addr_pool option" where
  "add_ports i addr num_entry [] ap = Some ap"
| "add_ports i addr num_entry (j # js) ap = do {
     ap1 \<leftarrow> add_entry i addr j num_entry ap;
     if int (length (ap_pool ap1)) \<ge> num_entry then Some ap1 else add_ports i addr num_entry js ap1
   }"

fun add_addrs :: "nat list \<Rightarrow> int \<Rightarrow> nat list \<Rightarrow> addr_pool \<Rightarrow> addr_pool option" where
  "add_addrs [] num_entry ports ap = Some ap"
| "add_addrs (i # is) num_entry ports ap = do {
     ap1 \<leftarrow> add_ports i (bswap32 (ap_addr_base ap + word_of_nat i)) num_entry ports ap;
     add_addrs is num_entry ports ap1
   }"

definition empty_addr_pool :: "u32 \<Rightarrow> int \<Rightarrow> addr_pool" where
  "empty_addr_pool addr_base num_addr =
     \<lparr>ap_pool = [], ap_mapper = Some (\<lambda>_ _. None), ap_addr_base = bswap32 addr_base,
      ap_num_addr = num_addr, ap_num_entry = 0, ap_num_free = 0, ap_num_used = 0,
      ap_free_list = [], ap_used_list = []\<rparr>"

definition set_counts :: "addr_pool \<Rightarrow> addr_pool" where
  "set_counts ap = (let cnt = int (length (ap_pool ap))
     in ap\<lparr>ap_num_entry := cnt, ap_num_free := cnt, ap_num_used := 0\<rparr>)"

text \<open>The booleans are the outcomes of the three \<open>calloc\<close> calls and of \<open>pthread_mutex_init\<close>; the inner
  \<^const>\<open>None\<close> is the result NULL.\<close>

definition CreateAddressPool ::
    "bool \<Rightarrow> bool \<Rightarrow> bool \<Rightarrow> bool \<Rightarrow> u32 \<Rightarrow> int \<Rightarrow> addr_pool option option" where
  "CreateAddressPool ok_ap ok_pool ok_mapper ok_lock addr_base num_addr =
     (if \<not> ok_ap then Some None
      else do {
        num_entry \<leftarrow> int32_ok (num_addr * int (MAX_PORT - MIN_PORT));
        if \<not> ok_pool \<or> \<not> ok_mapper \<or> \<not> ok_lock then Some None
        else do {
          ap \<leftarrow> add_addrs [0..<nat num_addr] num_entry [MIN_PORT..<MAX_PORT]
                  (empty_addr_pool addr_base num_addr);
          Some (Some (set_counts ap))
        }
      })"

text \<open>The loop over the ports in \<open>CreateAddressPoolPerCore\<close>, which keeps the ports of the core.\<close>

fun add_ports_core ::
    "nat \<Rightarrow> u32 \<Rightarrow> int \<Rightarrow> int \<Rightarrow> int \<Rightarrow> bool \<Rightarrow> u32 \<Rightarrow> u16 \<Rightarrow> nat list \<Rightarrow> addr_pool \<Rightarrow> addr_pool option" where
  "add_ports_core i saddr_h core num_queues num_entry endian daddr_h dport_h [] ap = Some ap"
| "add_ports_core i saddr_h core num_queues num_entry endian daddr_h dport_h (j # js) ap =
     (if int (length (ap_pool ap)) \<ge> num_entry then Some ap
      else do {
        rss_core \<leftarrow> GetRSSCPUCore daddr_h saddr_h dport_h (word_of_nat j) num_queues endian;
        ap1 \<leftarrow> (if rss_core \<noteq> core then Some ap else add_entry i (bswap32 saddr_h) j num_entry ap);
        add_ports_core i saddr_h core num_queues num_entry endian daddr_h dport_h js ap1
      })"

fun add_addrs_core ::
    "nat list \<Rightarrow> int \<Rightarrow> int \<Rightarrow> int \<Rightarrow> bool \<Rightarrow> u32 \<Rightarrow> u16 \<Rightarrow> nat list \<Rightarrow> addr_pool \<Rightarrow> addr_pool option" where
  "add_addrs_core [] core num_queues num_entry endian daddr_h dport_h ports ap = Some ap"
| "add_addrs_core (i # is) core num_queues num_entry endian daddr_h dport_h ports ap = do {
     ap1 \<leftarrow> add_ports_core i (ap_addr_base ap + word_of_nat i) core num_queues num_entry endian
              daddr_h dport_h ports ap;
     add_addrs_core is core num_queues num_entry endian daddr_h dport_h ports ap1
   }"

definition CreateAddressPoolPerCore ::
    "bool \<Rightarrow> bool \<Rightarrow> bool \<Rightarrow> bool \<Rightarrow> bool \<Rightarrow> int \<Rightarrow> int \<Rightarrow> u32 \<Rightarrow> int \<Rightarrow> u32 \<Rightarrow> u16 \<Rightarrow> addr_pool option option" where
  "CreateAddressPoolPerCore ok_ap ok_pool ok_mapper ok_lock endian core num_queues saddr_base num_addr
      daddr dport =
     (if \<not> ok_ap then Some None
      else do {
        total \<leftarrow> int32_ok (num_addr * int (MAX_PORT - MIN_PORT));
        num_entry \<leftarrow> (if num_queues = 0 then None else Some (sgn total * sgn num_queues * (\<bar>total\<bar> div \<bar>num_queues\<bar>)));
        if \<not> ok_pool \<or> \<not> ok_mapper \<or> \<not> ok_lock then Some None
        else do {
          ap \<leftarrow> add_addrs_core [0..<nat num_addr] core num_queues num_entry endian (bswap32 daddr)
                  (bswap16 dport) [MIN_PORT..<MAX_PORT] (empty_addr_pool saddr_base num_addr);
          Some (Some (set_counts ap))
        }
      })"

text \<open>Moving an entry from the free to the used list and back.\<close>

definition take_entry :: "addr_pool \<Rightarrow> nat \<Rightarrow> addr_pool option" where
  "take_entry ap walk = do {
     fl \<leftarrow> tailq_remove (ap_free_list ap) walk;
     ul \<leftarrow> tailq_insert_tail (ap_used_list ap) walk;
     Some (ap\<lparr>ap_free_list := fl, ap_used_list := ul, ap_num_free := ap_num_free ap - 1,
              ap_num_used := ap_num_used ap + 1\<rparr>)
   }"

definition give_entry :: "addr_pool \<Rightarrow> nat \<Rightarrow> addr_pool option" where
  "give_entry ap walk = do {
     ul \<leftarrow> tailq_remove (ap_used_list ap) walk;
     fl \<leftarrow> tailq_insert_tail (ap_free_list ap) walk;
     Some (ap\<lparr>ap_used_list := ul, ap_free_list := fl, ap_num_free := ap_num_free ap + 1,
              ap_num_used := ap_num_used ap - 1\<rparr>)
   }"

definition INADDR_ANY :: u32 where "INADDR_ANY = 0"
definition INPORT_ANY :: u16 where "INPORT_ANY = 0"

text \<open>The search of \<open>FetchAddress\<close> along the free list.\<close>

fun fetch_walk ::
    "addr_pool \<Rightarrow> int \<Rightarrow> int \<Rightarrow> bool \<Rightarrow> sockaddr \<Rightarrow> sockaddr \<Rightarrow> nat list \<Rightarrow> nat option option" where
  "fetch_walk ap core num_queues endian daddr saddr [] = Some None"
| "fetch_walk ap core num_queues endian daddr saddr (walk # rest) =
     (let addr = ap_pool ap ! walk in
      if fst saddr \<noteq> INADDR_ANY \<and> fst addr \<noteq> fst saddr
      then fetch_walk ap core num_queues endian daddr saddr rest
      else if snd saddr \<noteq> INPORT_ANY \<and> snd addr \<noteq> snd saddr
      then fetch_walk ap core num_queues endian daddr saddr rest
      else do {
        rss_core \<leftarrow> GetRSSCPUCore (bswap32 (fst addr)) (bswap32 (fst daddr)) (bswap16 (snd addr))
                     (bswap16 (snd daddr)) num_queues endian;
        if core = rss_core then Some (Some walk)
        else fetch_walk ap core num_queues endian daddr saddr rest
      })"

definition FetchAddress ::
    "addr_pool option \<Rightarrow> int \<Rightarrow> int \<Rightarrow> bool \<Rightarrow> sockaddr \<Rightarrow> sockaddr \<Rightarrow> (int \<times> sockaddr \<times> addr_pool option) option" where
  "FetchAddress apo core num_queues endian daddr saddr =
     (case apo of
        None \<Rightarrow> Some (- 1, saddr, apo)
      | Some ap \<Rightarrow> do {
          w \<leftarrow> fetch_walk ap core num_queues endian daddr saddr (ap_free_list ap);
          (case w of
             None \<Rightarrow> Some (- 1, saddr, apo)
           | Some walk \<Rightarrow> do { ap1 \<leftarrow> take_entry ap walk; Some (0, ap_pool ap ! walk, Some ap1) })
        })"

definition FetchAddressPerCore :: "addr_pool option \<Rightarrow> sockaddr \<Rightarrow> (int \<times> sockaddr \<times> addr_pool option) option" where
  "FetchAddressPerCore apo saddr =
     (case apo of
        None \<Rightarrow> Some (- 1, saddr, apo)
      | Some ap \<Rightarrow>
          (case tailq_first (ap_free_list ap) of
             None \<Rightarrow> Some (- 1, saddr, apo)
           | Some walk \<Rightarrow> do { ap1 \<leftarrow> take_entry ap walk; Some (0, ap_pool ap ! walk, Some ap1) }))"

definition FreeAddress :: "addr_pool option \<Rightarrow> sockaddr \<Rightarrow> (int \<times> addr_pool option) option" where
  "FreeAddress apo addr =
     (case apo of
        None \<Rightarrow> Some (- 1, apo)
      | Some ap \<Rightarrow>
          (let walk =
             (case ap_mapper ap of
                Some mapper \<Rightarrow>
                  (let addr_h = bswap32 (fst addr);
                       port_h = bswap16 (snd addr);
                       index = sint (addr_h - ap_addr_base ap)
                   in if 0 \<le> index \<and> index < ap_num_addr ap
                      then mapper (unat (addr_h - ap_addr_base ap)) (unat port_h) else None)
              | None \<Rightarrow>
                  find (\<lambda>w. snd addr = snd (ap_pool ap ! w) \<and> fst addr = fst (ap_pool ap ! w))
                    (ap_used_list ap))
           in case walk of
                None \<Rightarrow> Some (- 1, apo)
              | Some w \<Rightarrow> do { ap1 \<leftarrow> give_entry ap w; Some (0, Some ap1) }))"

section \<open>What the pool lends\<close>

lemma bit_bswap32:
  "bit (bswap32 x) n \<longleftrightarrow> (n < 8 \<and> bit x (n + 24)) \<or> (8 \<le> n \<and> n < 16 \<and> bit x (n + 8))
     \<or> (16 \<le> n \<and> n < 24 \<and> bit x (n - 8)) \<or> (24 \<le> n \<and> n < 32 \<and> bit x (n - 24))"
proof -
  consider "n < 8" | "8 \<le> n \<and> n < 16" | "16 \<le> n \<and> n < 24" | "24 \<le> n \<and> n < 32" | "32 \<le> n" by fastforce
  then show ?thesis by cases (auto simp: bswap32_def be32_def bit_simps add.commute)
qed

lemma bswap32_bswap32 [simp]: "bswap32 (bswap32 x) = x"
proof (rule bit_word_eqI)
  fix n assume "n < LENGTH(32)"
  then consider "n < 8" | "8 \<le> n \<and> n < 16" | "16 \<le> n \<and> n < 24" | "24 \<le> n \<and> n < 32" by fastforce
  then show "bit (bswap32 (bswap32 x)) n = bit x n" by cases (auto simp: bit_bswap32)
qed

lemma bswap16_bswap16 [simp]: "bswap16 (bswap16 x) = x"
proof (rule bit_word_eqI)
  fix n assume "n < LENGTH(16)"
  then consider "n < 8" | "8 \<le> n \<and> n < 16" by fastforce
  then show "bit (bswap16 (bswap16 x)) n = bit x n" by cases (auto simp: bswap16_def be16_def bit_simps)
qed

text \<open>Entry \<open>w\<close> is the one that the mapper has for its address and port, and every entry is on
  exactly one of the lists.\<close>

definition entry_ok :: "addr_pool \<Rightarrow> (nat \<Rightarrow> nat \<Rightarrow> nat option) \<Rightarrow> nat \<Rightarrow> bool" where
  "entry_ok ap mapper w \<longleftrightarrow>
     (\<exists>i j. int i < ap_num_addr ap \<and> i < 2 ^ 31 \<and> j < 65536 \<and> mapper i j = Some w
        \<and> ap_pool ap ! w = (bswap32 (ap_addr_base ap + word_of_nat i), bswap16 (word_of_nat j)))"

definition ap_inv :: "addr_pool \<Rightarrow> bool" where
  "ap_inv ap \<longleftrightarrow>
     distinct (ap_free_list ap @ ap_used_list ap)
     \<and> set (ap_free_list ap @ ap_used_list ap) = {..<length (ap_pool ap)}
     \<and> ap_num_free ap = int (length (ap_free_list ap)) \<and> ap_num_used ap = int (length (ap_used_list ap))
     \<and> (\<exists>mapper. ap_mapper ap = Some mapper \<and> (\<forall>w < length (ap_pool ap). entry_ok ap mapper w))"

definition free_addrs :: "addr_pool \<Rightarrow> sockaddr set" where
  "free_addrs ap = (\<lambda>w. ap_pool ap ! w) ` set (ap_free_list ap)"

definition used_addrs :: "addr_pool \<Rightarrow> sockaddr set" where
  "used_addrs ap = (\<lambda>w. ap_pool ap ! w) ` set (ap_used_list ap)"

text \<open>What \<open>FetchAddress\<close> looks for.\<close>

definition addr_fits :: "int \<Rightarrow> int \<Rightarrow> bool \<Rightarrow> sockaddr \<Rightarrow> sockaddr \<Rightarrow> sockaddr \<Rightarrow> bool" where
  "addr_fits core num_queues endian daddr saddr a \<longleftrightarrow>
     (fst saddr = INADDR_ANY \<or> fst a = fst saddr) \<and> (snd saddr = INPORT_ANY \<or> snd a = snd saddr)
     \<and> GetRSSCPUCore (bswap32 (fst a)) (bswap32 (fst daddr)) (bswap16 (snd a)) (bswap16 (snd daddr))
         num_queues endian = Some core"

lemma FreeAddress_mapped:
  assumes "ap_mapper ap = Some mapper" and "entry_ok ap mapper w"
  shows "FreeAddress (Some ap) (ap_pool ap ! w) = do { ap1 \<leftarrow> give_entry ap w; Some (0, Some ap1) }"
proof -
  obtain i j where ij: "int i < ap_num_addr ap" "i < 2 ^ 31" "j < 65536" "mapper i j = Some w"
    "ap_pool ap ! w = (bswap32 (ap_addr_base ap + word_of_nat i), bswap16 (word_of_nat j))"
    using assms(2) by (auto simp: entry_ok_def)
  have "unat (word_of_nat i :: u32) = i" "unat (word_of_nat j :: u16) = j"
    using ij by (simp_all add: unat_of_nat)
  moreover have "sint (word_of_nat i :: u32) = int i"
    using ij(2) by (simp add: sint_uint uint_nat \<open>unat (word_of_nat i) = i\<close> signed_take_bit_int_eq_self
        del: of_nat_unat)
  ultimately show ?thesis using ij assms(1) by (simp add: FreeAddress_def)
qed

lemma entry_addr_inj:
  assumes "entry_ok ap mapper v" and "entry_ok ap mapper w" and "ap_pool ap ! v = ap_pool ap ! w"
  shows "v = w"
proof -
  obtain i j where ij: "i < 2 ^ 31" "j < 65536" "mapper i j = Some v"
    "ap_pool ap ! v = (bswap32 (ap_addr_base ap + word_of_nat i), bswap16 (word_of_nat j))"
    using assms(1) by (auto simp: entry_ok_def)
  obtain k l where kl: "k < 2 ^ 31" "l < 65536" "mapper k l = Some w"
    "ap_pool ap ! w = (bswap32 (ap_addr_base ap + word_of_nat k), bswap16 (word_of_nat l))"
    using assms(2) by (auto simp: entry_ok_def)
  have "bswap32 (ap_addr_base ap + word_of_nat i) = bswap32 (ap_addr_base ap + word_of_nat k)"
    "bswap16 (word_of_nat j) = bswap16 (word_of_nat l)"
    using assms(3) ij(4) kl(4) by simp_all
  then have "ap_addr_base ap + word_of_nat i = ap_addr_base ap + word_of_nat k"
    "(word_of_nat j :: u16) = word_of_nat l"
    by (metis bswap32_bswap32) (metis \<open>bswap16 _ = _\<close> bswap16_bswap16)
  then have "(word_of_nat i :: u32) = word_of_nat k" "(word_of_nat j :: u16) = word_of_nat l" by simp_all
  then have "i = k" "j = l"
    using ij kl by (simp_all add: word_unat_eq_iff unat_of_nat)
  then show ?thesis using ij(3) kl(3) by simp
qed

lemma entry_ok_update [simp]:
  "entry_ok (ap_free_list_update f ap) mapper w = entry_ok ap mapper w"
  "entry_ok (ap_used_list_update f ap) mapper w = entry_ok ap mapper w"
  "entry_ok (ap_num_free_update g ap) mapper w = entry_ok ap mapper w"
  "entry_ok (ap_num_used_update g ap) mapper w = entry_ok ap mapper w"
  "entry_ok (ap_num_entry_update g ap) mapper w = entry_ok ap mapper w"
  by (simp_all add: entry_ok_def)

lemma ap_inv_take:
  assumes "ap_inv ap" and "w \<in> set (ap_free_list ap)"
  obtains ap' where "take_entry ap w = Some ap'" and "ap_inv ap'" and "ap_pool ap' = ap_pool ap"
    and "set (ap_free_list ap') = set (ap_free_list ap) - {w}"
    and "set (ap_used_list ap') = insert w (set (ap_used_list ap))"
proof -
  let ?ap = "ap\<lparr>ap_free_list := remove1 w (ap_free_list ap), ap_used_list := ap_used_list ap @ [w],
     ap_num_free := ap_num_free ap - 1, ap_num_used := ap_num_used ap + 1\<rparr>"
  have d: "distinct (ap_free_list ap)" "w \<notin> set (ap_used_list ap)"
    using assms by (auto simp: ap_inv_def)
  then have "take_entry ap w = Some ?ap"
    using assms(2) by (simp add: take_entry_def tailq_simps)
  moreover have "ap_inv ?ap"
    using assms d by (auto simp: ap_inv_def int_length_remove1)
  ultimately show thesis using that d by simp
qed

lemma ap_inv_give:
  assumes "ap_inv ap" and "w \<in> set (ap_used_list ap)"
  obtains ap' where "give_entry ap w = Some ap'" and "ap_inv ap'" and "ap_pool ap' = ap_pool ap"
    and "set (ap_used_list ap') = set (ap_used_list ap) - {w}"
    and "set (ap_free_list ap') = insert w (set (ap_free_list ap))"
proof -
  let ?ap = "ap\<lparr>ap_used_list := remove1 w (ap_used_list ap), ap_free_list := ap_free_list ap @ [w],
     ap_num_free := ap_num_free ap + 1, ap_num_used := ap_num_used ap - 1\<rparr>"
  have d: "distinct (ap_used_list ap)" "w \<notin> set (ap_free_list ap)"
    using assms by (auto simp: ap_inv_def)
  then have "give_entry ap w = Some ?ap"
    using assms(2) by (simp add: give_entry_def tailq_simps)
  moreover have "ap_inv ?ap"
    using assms d by (auto simp: ap_inv_def int_length_remove1)
  ultimately show thesis using that d by simp
qed

lemma ap_inv_entry: "ap_inv ap \<Longrightarrow> w < length (ap_pool ap) \<Longrightarrow>
    \<exists>mapper. ap_mapper ap = Some mapper \<and> entry_ok ap mapper w"
  by (auto simp: ap_inv_def)

lemma ap_inv_inj: "ap_inv ap \<Longrightarrow> inj_on (\<lambda>w. ap_pool ap ! w) {..<length (ap_pool ap)}"
  unfolding ap_inv_def inj_on_def by (metis entry_addr_inj lessThan_iff)

lemma image_diff_insert:
  assumes "inj_on f A" and "B \<subseteq> A" and "w \<in> A"
  shows "f ` (B - {w}) = f ` B - {f w}"
  using assms by (auto simp: inj_on_def)

lemma FreeAddress_used:
  assumes inv: "ap_inv ap" and w: "w \<in> set (ap_used_list ap)"
  obtains ap' where "FreeAddress (Some ap) (ap_pool ap ! w) = Some (0, Some ap')" and "ap_inv ap'"
    and "used_addrs ap' = used_addrs ap - {ap_pool ap ! w}"
    and "free_addrs ap' = insert (ap_pool ap ! w) (free_addrs ap)"
proof -
  have sub: "set (ap_used_list ap) \<subseteq> {..<length (ap_pool ap)}" using inv by (auto simp: ap_inv_def)
  obtain ap' where ap': "give_entry ap w = Some ap'" "ap_inv ap'" "ap_pool ap' = ap_pool ap"
    "set (ap_used_list ap') = set (ap_used_list ap) - {w}"
    "set (ap_free_list ap') = insert w (set (ap_free_list ap))"
    by (rule ap_inv_give [OF assms])
  moreover obtain mapper where "ap_mapper ap = Some mapper" "entry_ok ap mapper w"
    using ap_inv_entry [OF inv, of w] sub w by auto
  ultimately show thesis
    using that [of ap'] FreeAddress_mapped [of ap mapper w] image_diff_insert [OF ap_inv_inj [OF inv] sub, of w] sub w
    by (auto simp: used_addrs_def free_addrs_def)
qed

lemma fetch_walk_result:
  assumes "(word_of_int num_queues :: u32) \<noteq> 0"
  obtains (found) w where "fetch_walk ap core num_queues endian daddr saddr fl = Some (Some w)"
      and "w \<in> set fl" and "addr_fits core num_queues endian daddr saddr (ap_pool ap ! w)"
  | (none) "fetch_walk ap core num_queues endian daddr saddr fl = Some None"
      and "\<forall>w \<in> set fl. \<not> addr_fits core num_queues endian daddr saddr (ap_pool ap ! w)"
proof -
  have rss: "\<exists>c. GetRSSCPUCore a b c' d num_queues endian = Some c" for a b c' d
    using assms by (simp add: GetRSSCPUCore_def)
  have "(\<exists>w \<in> set fl. fetch_walk ap core num_queues endian daddr saddr fl = Some (Some w)
           \<and> addr_fits core num_queues endian daddr saddr (ap_pool ap ! w))
      \<or> (fetch_walk ap core num_queues endian daddr saddr fl = Some None
           \<and> (\<forall>w \<in> set fl. \<not> addr_fits core num_queues endian daddr saddr (ap_pool ap ! w)))"
  proof (induction fl)
    case (Cons v fl)
    obtain c where c: "GetRSSCPUCore (bswap32 (fst (ap_pool ap ! v))) (bswap32 (fst daddr))
        (bswap16 (snd (ap_pool ap ! v))) (bswap16 (snd daddr)) num_queues endian = Some c"
      using rss by blast
    show ?case
    proof (cases "addr_fits core num_queues endian daddr saddr (ap_pool ap ! v)")
      case True
      then have "fetch_walk ap core num_queues endian daddr saddr (v # fl) = Some (Some v)"
        by (auto simp: addr_fits_def Let_def)
      then show ?thesis using True by auto
    next
      case False
      then have "fetch_walk ap core num_queues endian daddr saddr (v # fl)
          = fetch_walk ap core num_queues endian daddr saddr fl"
        using c by (auto simp: addr_fits_def Let_def)
      then show ?thesis using Cons.IH False by auto
    qed
  qed simp
  then show thesis using that by blast
qed

lemma FetchAddress_cases:
  assumes inv: "ap_inv ap" and nq: "(word_of_int num_queues :: u32) \<noteq> 0"
  obtains (found) w ap' where "FetchAddress (Some ap) core num_queues endian daddr saddr
        = Some (0, ap_pool ap ! w, Some ap')"
      and "w \<in> set (ap_free_list ap)" and "addr_fits core num_queues endian daddr saddr (ap_pool ap ! w)"
      and "ap_inv ap'" and "ap_pool ap' = ap_pool ap"
      and "set (ap_free_list ap') = set (ap_free_list ap) - {w}"
      and "set (ap_used_list ap') = insert w (set (ap_used_list ap))"
  | (none) "FetchAddress (Some ap) core num_queues endian daddr saddr = Some (- 1, saddr, Some ap)"
      and "\<forall>a \<in> free_addrs ap. \<not> addr_fits core num_queues endian daddr saddr a"
proof (rule fetch_walk_result [OF nq, of ap core endian daddr saddr "ap_free_list ap"], goal_cases)
  case (1 w)
  show thesis
    by (rule ap_inv_take [OF inv 1(4)]) (rule that(1), use 1 in \<open>auto simp: FetchAddress_def\<close>)
next
  case 2
  then show thesis by (intro that(2)) (auto simp: FetchAddress_def free_addrs_def)
qed

section \<open>A created pool\<close>

text \<open>While the pool is being filled, the free list counts the entries and nothing is used.\<close>

definition filling :: "addr_pool \<Rightarrow> (nat \<Rightarrow> nat \<Rightarrow> nat option) \<Rightarrow> bool" where
  "filling ap mapper \<longleftrightarrow> ap_mapper ap = Some mapper \<and> ap_used_list ap = []
     \<and> ap_free_list ap = [0..<length (ap_pool ap)] \<and> (\<forall>w < length (ap_pool ap). entry_ok ap mapper w)"

lemma filling_add_entry:
  assumes f: "filling ap mapper" and new: "mapper i j = None" and room: "int (length (ap_pool ap)) < n"
    and rng: "int i < ap_num_addr ap" "i < 2 ^ 31" "j < 65536"
  obtains ap' where "add_entry i (bswap32 (ap_addr_base ap + word_of_nat i)) j n ap = Some ap'"
    and "filling ap' (mapper(i := (mapper i)(j \<mapsto> length (ap_pool ap))))"
    and "ap_pool ap' = ap_pool ap @ [(bswap32 (ap_addr_base ap + word_of_nat i), bswap16 (word_of_nat j))]"
    and "ap_num_addr ap' = ap_num_addr ap" and "ap_addr_base ap' = ap_addr_base ap"
proof -
  let ?e = "(bswap32 (ap_addr_base ap + word_of_nat i), bswap16 (word_of_nat j))"
  let ?m = "mapper(i := (mapper i)(j \<mapsto> length (ap_pool ap)))"
  let ?ap = "ap\<lparr>ap_pool := ap_pool ap @ [?e], ap_mapper := Some ?m,
     ap_free_list := ap_free_list ap @ [length (ap_pool ap)]\<rparr>"
  have "entry_ok ?ap ?m w" if w: "w < length (ap_pool ap)" for w
  proof -
    obtain k l where "int k < ap_num_addr ap" "k < 2 ^ 31" "l < 65536" "mapper k l = Some w"
      "ap_pool ap ! w = (bswap32 (ap_addr_base ap + word_of_nat k), bswap16 (word_of_nat l))"
      using f w by (auto simp: filling_def entry_ok_def)
    then show ?thesis unfolding entry_ok_def
      by (intro exI [of _ k] exI [of _ l]) (use new w in \<open>auto simp: nth_append\<close>)
  qed
  moreover have "entry_ok ?ap ?m (length (ap_pool ap))"
    unfolding entry_ok_def by (intro exI [of _ i] exI [of _ j]) (use rng in simp)
  ultimately have "filling ?ap ?m" using f by (auto simp: filling_def less_Suc_eq)
  moreover have "add_entry i (bswap32 (ap_addr_base ap + word_of_nat i)) j n ap = Some ?ap"
    using f room by (simp add: add_entry_def filling_def Let_def)
  ultimately show thesis using that [of ?ap] by simp
qed

text \<open>The loops visit every address and port once; there is an entry for each of them.\<close>

lemma filling_add_ports:
  assumes "filling ap mapper" and "distinct js" and "\<forall>j \<in> set js. mapper i j = None \<and> j < 65536"
    and "int (length (ap_pool ap) + length js) \<le> n" and "int i < ap_num_addr ap" and "i < 2 ^ 31"
  shows "\<exists>ap' mapper'. add_ports i (bswap32 (ap_addr_base ap + word_of_nat i)) n js ap = Some ap'
     \<and> filling ap' mapper' \<and> (\<forall>k. k \<noteq> i \<longrightarrow> mapper' k = mapper k)
     \<and> ap_pool ap' = ap_pool ap
         @ map (\<lambda>j. (bswap32 (ap_addr_base ap + word_of_nat i), bswap16 (word_of_nat j))) js
     \<and> ap_num_addr ap' = ap_num_addr ap \<and> ap_addr_base ap' = ap_addr_base ap"
  using assms
proof (induction js arbitrary: ap mapper)
  case Nil
  then show ?case by auto
next
  case (Cons j js)
  obtain ap1 where ap1: "add_entry i (bswap32 (ap_addr_base ap + word_of_nat i)) j n ap = Some ap1"
    "filling ap1 (mapper(i := (mapper i)(j \<mapsto> length (ap_pool ap))))"
    "ap_pool ap1 = ap_pool ap @ [(bswap32 (ap_addr_base ap + word_of_nat i), bswap16 (word_of_nat j))]"
    "ap_num_addr ap1 = ap_num_addr ap" "ap_addr_base ap1 = ap_addr_base ap"
    by (rule filling_add_entry [OF Cons.prems(1), of i j n]) (use Cons.prems in auto)
  show ?case
  proof (cases "js = []")
    case True
    then show ?thesis using ap1 by (auto intro!: exI)
  next
    case False
    then have "\<not> int (length (ap_pool ap1)) \<ge> n" using Cons.prems(4) ap1(3) by (cases js) auto
    moreover obtain ap2 m2 where "add_ports i (bswap32 (ap_addr_base ap1 + word_of_nat i)) n js ap1 = Some ap2"
      "filling ap2 m2" "\<forall>k. k \<noteq> i \<longrightarrow> m2 k = (mapper(i := (mapper i)(j \<mapsto> length (ap_pool ap)))) k"
      "ap_pool ap2 = ap_pool ap1
         @ map (\<lambda>j. (bswap32 (ap_addr_base ap1 + word_of_nat i), bswap16 (word_of_nat j))) js"
      "ap_num_addr ap2 = ap_num_addr ap1" "ap_addr_base ap2 = ap_addr_base ap1"
    proof -
      have "\<forall>k \<in> set js. (mapper(i := (mapper i)(j \<mapsto> length (ap_pool ap)))) i k = None \<and> k < 65536"
        using Cons.prems(2,3) by auto
      then show thesis using Cons.IH [OF ap1(2)] Cons.prems ap1 that by auto
    qed
    ultimately show ?thesis using ap1 by (intro exI [of _ ap2] exI [of _ m2]) simp
  qed
qed

lemma filling_add_addrs:
  assumes "filling ap mapper" and "distinct is" and "\<forall>i \<in> set is. mapper i = (\<lambda>_. None) \<and> int i < ap_num_addr ap \<and> i < 2 ^ 31"
    and "distinct ports" and "\<forall>j \<in> set ports. j < 65536"
    and "int (length (ap_pool ap) + length is * length ports) \<le> n"
  shows "\<exists>ap' mapper'. add_addrs is n ports ap = Some ap' \<and> filling ap' mapper'
     \<and> ap_pool ap' = ap_pool ap
         @ concat (map (\<lambda>i. map (\<lambda>j. (bswap32 (ap_addr_base ap + word_of_nat i), bswap16 (word_of_nat j))) ports) is)
     \<and> ap_num_addr ap' = ap_num_addr ap \<and> ap_addr_base ap' = ap_addr_base ap"
  using assms
proof (induction "is" arbitrary: ap mapper)
  case Nil
  then show ?case by auto
next
  case (Cons i "is")
  obtain ap1 m1 where ap1: "add_ports i (bswap32 (ap_addr_base ap + word_of_nat i)) n ports ap = Some ap1"
    "filling ap1 m1" "\<forall>k. k \<noteq> i \<longrightarrow> m1 k = mapper k"
    "ap_pool ap1 = ap_pool ap
         @ map (\<lambda>j. (bswap32 (ap_addr_base ap + word_of_nat i), bswap16 (word_of_nat j))) ports"
    "ap_num_addr ap1 = ap_num_addr ap" "ap_addr_base ap1 = ap_addr_base ap"
  proof -
    have "int (length (ap_pool ap) + length ports) \<le> int (length (ap_pool ap) + length (i # is) * length ports)"
      by simp
    then have "int (length (ap_pool ap) + length ports) \<le> n" using Cons.prems(6) by linarith
    then show thesis using filling_add_ports [of ap mapper ports i n] Cons.prems that by auto
  qed
  have "\<forall>k \<in> set is. m1 k = (\<lambda>_. None) \<and> int k < ap_num_addr ap1 \<and> k < 2 ^ 31"
    using Cons.prems(2,3) ap1(3,5) by auto
  moreover have "int (length (ap_pool ap1) + length is * length ports) \<le> n"
    using Cons.prems(6) ap1(4) by (simp add: algebra_simps)
  ultimately show ?case using Cons.IH [OF ap1(2)] Cons.prems ap1 by auto
qed

lemma filling_inv: "filling ap mapper \<Longrightarrow> ap_inv (set_counts ap)"
  by (auto simp: ap_inv_def filling_def set_counts_def Let_def entry_ok_def)

definition all_addrs :: "u32 \<Rightarrow> nat \<Rightarrow> sockaddr set" where
  "all_addrs addr_base n = {(bswap32 (bswap32 addr_base + word_of_nat i), bswap16 (word_of_nat j)) |i j.
     i < n \<and> MIN_PORT \<le> j \<and> j < MAX_PORT}"

lemma CreateAddressPool_ok:
  assumes "0 \<le> n" and "n * 64511 < 2 ^ 31"
  obtains ap where "CreateAddressPool True True True True addr_base n = Some (Some ap)" and "ap_inv ap"
    and "free_addrs ap = all_addrs addr_base (nat n)" and "used_addrs ap = {}"
proof -
  let ?e = "empty_addr_pool addr_base n"
  have "MAX_PORT - MIN_PORT = 64511" "MAX_PORT = 65536" by (simp_all add: MIN_PORT_def MAX_PORT_def)
  then have ports: "length [MIN_PORT..<MAX_PORT] = 64511" "\<forall>j \<in> set [MIN_PORT..<MAX_PORT]. j < 65536"
    by (simp_all only: length_upt set_upt) simp
  have "filling ?e (\<lambda>_ _. None)" by (simp add: filling_def empty_addr_pool_def)
  moreover have "int (length (ap_pool ?e) + length [0..<nat n] * length [MIN_PORT..<MAX_PORT]) \<le> n * 64511"
    unfolding ports(1) using assms(1) by (simp add: empty_addr_pool_def)
  moreover have "\<forall>i \<in> set [0..<nat n]. (\<lambda>_ _. None) i = (\<lambda>_. None) \<and> int i < ap_num_addr ?e \<and> i < 2 ^ 31"
    using assms by (auto simp: empty_addr_pool_def)
  ultimately obtain ap m where ap: "add_addrs [0..<nat n] (n * 64511) [MIN_PORT..<MAX_PORT] ?e = Some ap"
    "filling ap m" "ap_pool ap = ap_pool ?e @ concat (map (\<lambda>i. map (\<lambda>j. (bswap32 (ap_addr_base ?e + word_of_nat i),
        bswap16 (word_of_nat j))) [MIN_PORT..<MAX_PORT]) [0..<nat n])"
    using filling_add_addrs [of ?e "\<lambda>_ _. None" "[0..<nat n]" "[MIN_PORT..<MAX_PORT]" "n * 64511"] ports(2)
    by auto
  have "int (MAX_PORT - MIN_PORT) = 64511" by (simp add: MIN_PORT_def MAX_PORT_def)
  moreover have "int32_ok (n * 64511) = Some (n * 64511)" using assms by (simp add: int32_ok_def)
  ultimately have "CreateAddressPool True True True True addr_base n = Some (Some (set_counts ap))"
    using ap(1) by (simp add: CreateAddressPool_def)
  moreover have "ap_inv (set_counts ap)" by (rule filling_inv [OF ap(2)])
  moreover have "free_addrs (set_counts ap) = set (ap_pool ap)" "used_addrs (set_counts ap) = {}"
    using ap(2) nth_image [of "length (ap_pool ap)" "ap_pool ap"]
    by (simp_all add: free_addrs_def used_addrs_def set_counts_def filling_def Let_def lessThan_atLeast0)
  moreover have "set (ap_pool ap) = all_addrs addr_base (nat n)"
    by (auto simp: ap(3) all_addrs_def empty_addr_pool_def) blast
  ultimately show thesis using that by simp
qed

text \<open>C32. An address that \<open>FetchAddress\<close> hands out was free, fits the address, the port and the core
  that were asked for, and is used afterwards; no other address changes its place. \<open>FetchAddress\<close>
  fails only when no free address fits, and then changes nothing. Freeing the address restores the
  sets of free and used addresses. The free and the used addresses are always disjoint, and the
  counters and the mapper stay consistent.\<close>

theorem AddrPool_lease:
  assumes "ap_inv ap" and "(word_of_int num_queues :: u32) \<noteq> 0"
  shows "free_addrs ap \<inter> used_addrs ap = {}
    \<and> ((\<exists>a ap' ap''. FetchAddress (Some ap) core num_queues endian daddr saddr = Some (0, a, Some ap')
           \<and> a \<in> free_addrs ap \<and> addr_fits core num_queues endian daddr saddr a
           \<and> ap_inv ap' \<and> free_addrs ap' = free_addrs ap - {a} \<and> used_addrs ap' = insert a (used_addrs ap)
           \<and> FreeAddress (Some ap') a = Some (0, Some ap'') \<and> ap_inv ap''
           \<and> free_addrs ap'' = free_addrs ap \<and> used_addrs ap'' = used_addrs ap)
       \<or> (FetchAddress (Some ap) core num_queues endian daddr saddr = Some (- 1, saddr, Some ap)
           \<and> (\<forall>a \<in> free_addrs ap. \<not> addr_fits core num_queues endian daddr saddr a)))"
proof -
  let ?f = "\<lambda>w. ap_pool ap ! w"
  note inj = ap_inv_inj [OF assms(1)]
  have sub: "set (ap_free_list ap) \<subseteq> {..<length (ap_pool ap)}" "set (ap_used_list ap) \<subseteq> {..<length (ap_pool ap)}"
    and dis: "set (ap_free_list ap) \<inter> set (ap_used_list ap) = {}"
    using assms(1) by (auto simp: ap_inv_def)
  have disj: "free_addrs ap \<inter> used_addrs ap = {}"
    unfolding free_addrs_def used_addrs_def using inj_on_image_Int [OF inj sub] dis by simp
  show ?thesis
  proof (rule FetchAddress_cases [OF assms, of core endian daddr saddr], goal_cases)
    case (1 w ap')
    then have f': "free_addrs ap' = free_addrs ap - {?f w}" and u': "used_addrs ap' = insert (?f w) (used_addrs ap)"
      using image_diff_insert [OF inj sub(1), of w] sub by (auto simp: free_addrs_def used_addrs_def)
    obtain ap'' where ap'': "FreeAddress (Some ap') (?f w) = Some (0, Some ap'')" "ap_inv ap''"
      "used_addrs ap'' = used_addrs ap' - {?f w}" "free_addrs ap'' = insert (?f w) (free_addrs ap')"
      by (rule FreeAddress_used [OF 1(4), of w]) (use 1 in auto)
    have w: "?f w \<in> free_addrs ap" using 1(2) by (simp add: free_addrs_def)
    then have "free_addrs ap'' = free_addrs ap" "used_addrs ap'' = used_addrs ap"
      using ap'' f' u' disj by auto
    then show ?case using 1 ap'' w f' u' disj by blast
  next
    case 2
    then show ?case using disj by blast
  qed
qed

definition addr_example :: addr_pool where
  "addr_example = \<lparr>ap_pool = [(0x0100000A, 0x0104), (0x0100000A, 0x0204)],
     ap_mapper = Some (\<lambda>i j. if i = 0 \<and> j = 0x401 then Some 0 else if i = 0 \<and> j = 0x402 then Some 1 else None),
     ap_addr_base = 0x0A000001, ap_num_addr = 1, ap_num_entry = 2, ap_num_free = 1, ap_num_used = 1,
     ap_free_list = [1], ap_used_list = [0]\<rparr>"

lemma addr_example_inv: "ap_inv addr_example"
proof -
  let ?m = "the (ap_mapper addr_example)"
  have sw: "bswap32 0x0A000001 = 0x0100000A" "bswap16 0x401 = 0x0104" "bswap16 0x402 = 0x0204"
    by (simp_all add: bswap32_def be32_def bswap16_def be16_def)
  have "entry_ok addr_example ?m 0" unfolding entry_ok_def
    by (intro exI [of _ 0] exI [of _ "0x401"]) (simp add: sw addr_example_def)
  moreover have "entry_ok addr_example ?m 1" unfolding entry_ok_def
    by (intro exI [of _ 0] exI [of _ "0x402"]) (simp add: sw addr_example_def)
  ultimately have "\<forall>w < length (ap_pool addr_example). entry_ok addr_example ?m w"
    by (auto simp: addr_example_def less_Suc_eq numeral_2_eq_2)
  then show ?thesis by (auto simp: ap_inv_def addr_example_def)
qed

theorem AddrPool_lease_witness:
  "free_addrs addr_example \<inter> used_addrs addr_example = {}
    \<and> ((\<exists>a ap' ap''. FetchAddress (Some addr_example) 0 4 False (0x0200000A, 0x5000) (0, 0) = Some (0, a, Some ap')
           \<and> a \<in> free_addrs addr_example \<and> addr_fits 0 4 False (0x0200000A, 0x5000) (0, 0) a
           \<and> ap_inv ap' \<and> free_addrs ap' = free_addrs addr_example - {a}
           \<and> used_addrs ap' = insert a (used_addrs addr_example)
           \<and> FreeAddress (Some ap') a = Some (0, Some ap'') \<and> ap_inv ap''
           \<and> free_addrs ap'' = free_addrs addr_example \<and> used_addrs ap'' = used_addrs addr_example)
       \<or> (FetchAddress (Some addr_example) 0 4 False (0x0200000A, 0x5000) (0, 0)
             = Some (- 1, (0, 0), Some addr_example)
           \<and> (\<forall>a \<in> free_addrs addr_example. \<not> addr_fits 0 4 False (0x0200000A, 0x5000) (0, 0) a)))"
  by (rule AddrPool_lease [OF addr_example_inv]) simp

text \<open>C33. A pool created for \<open>n\<close> addresses from \<open>addr_base\<close> on (and \<open>n\<close> at most 33288, so that the number
  of entries fits an \<open>int\<close>) is consistent, has every port from 1025 to 65535 of every address free
  and none in use.\<close>

theorem AddrPool_created:
  assumes "0 \<le> n" and "n * 64511 < 2 ^ 31"
  shows "\<exists>ap. CreateAddressPool True True True True addr_base n = Some (Some ap) \<and> ap_inv ap
     \<and> free_addrs ap = all_addrs addr_base (nat n) \<and> used_addrs ap = {}"
  by (rule CreateAddressPool_ok [OF assms]) blast

theorem AddrPool_created_witness:
  "\<exists>ap. CreateAddressPool True True True True 0x0100000A 2 = Some (Some ap) \<and> ap_inv ap
     \<and> free_addrs ap = all_addrs 0x0100000A (nat 2) \<and> used_addrs ap = {}"
  by (rule AddrPool_created) simp_all

end
