(* ===== verification/Pipe_Buffer.thy ===== *)
theory Pipe_Buffer
  imports Prelude
begin

text \<open>
  The object behind a pair of pipe sockets (pipe.c): a ring of bytes with a state, and the copies
  into and out of the ring that wrap around its end. \<open>pipe_bytes\<close> is what the ring holds; a write
  appends to it and a read takes from its front.
\<close>

section \<open>The pipe\<close>

datatype pipe_state = PIPE_CLOSED | PIPE_ACTIVE | PIPE_CLOSE_WAIT

text \<open>The lock and the condition variable of the structure are not kept. The two sockets are
  entries of the socket map.\<close>

record pipe =
  pp_state :: pipe_state
  pp_socket0 :: nat
  pp_socket1 :: nat
  pp_buf :: "byte list"
  pp_buf_off :: int
  pp_buf_tail :: int
  pp_buf_len :: int
  pp_buf_size :: int

definition PIPE_BUF_SIZE :: int where "PIPE_BUF_SIZE = 10240"

text \<open>Copying \<open>to_read\<close> bytes out of the ring.\<close>

definition pipe_copy_out :: "int \<Rightarrow> pipe \<Rightarrow> (byte list \<times> pipe) option" where
  "pipe_copy_out to_read pp = do {
     if pp_buf_off pp + to_read < pp_buf_size pp then do {
       xs \<leftarrow> read_at (pp_buf pp) (nat (pp_buf_off pp)) (nat to_read);
       Some (xs, pp\<lparr>pp_buf_off := pp_buf_off pp + to_read, pp_buf_len := pp_buf_len pp - to_read\<rparr>)
     } else do {
       let temp_read = pp_buf_size pp - pp_buf_off pp;
       xs \<leftarrow> read_at (pp_buf pp) (nat (pp_buf_off pp)) (nat temp_read);
       ys \<leftarrow> read_at (pp_buf pp) 0 (nat (to_read - temp_read));
       Some (xs @ ys, pp\<lparr>pp_buf_off := to_read - temp_read, pp_buf_len := pp_buf_len pp - to_read\<rparr>)
     }
   }"

text \<open>Copying the first \<open>to_write\<close> bytes of \<open>data\<close> into the ring.\<close>

definition pipe_copy_in :: "byte list \<Rightarrow> int \<Rightarrow> pipe \<Rightarrow> pipe option" where
  "pipe_copy_in data to_write pp = do {
     if pp_buf_tail pp + to_write < pp_buf_size pp then do {
       xs \<leftarrow> read_at data 0 (nat to_write);
       b \<leftarrow> memcpy_at (pp_buf pp) (nat (pp_buf_tail pp)) xs;
       Some (pp\<lparr>pp_buf := b, pp_buf_tail := pp_buf_tail pp + to_write, pp_buf_len := pp_buf_len pp + to_write\<rparr>)
     } else do {
       let temp_write = pp_buf_size pp - pp_buf_tail pp;
       xs \<leftarrow> read_at data 0 (nat temp_write);
       b1 \<leftarrow> memcpy_at (pp_buf pp) (nat (pp_buf_tail pp)) xs;
       ys \<leftarrow> read_at data (nat temp_write) (nat (to_write - temp_write));
       b2 \<leftarrow> memcpy_at b1 0 ys;
       Some (pp\<lparr>pp_buf := b2, pp_buf_tail := to_write - temp_write, pp_buf_len := pp_buf_len pp + to_write\<rparr>)
     }
   }"

section \<open>The ring is a byte stream\<close>

definition pipe_inv :: "pipe \<Rightarrow> bool" where
  "pipe_inv pp \<longleftrightarrow> 0 < pp_buf_size pp \<and> int (length (pp_buf pp)) = pp_buf_size pp
     \<and> 0 \<le> pp_buf_off pp \<and> pp_buf_off pp < pp_buf_size pp
     \<and> 0 \<le> pp_buf_len pp \<and> pp_buf_len pp \<le> pp_buf_size pp
     \<and> pp_buf_tail pp = (pp_buf_off pp + pp_buf_len pp) mod pp_buf_size pp"

definition pipe_bytes :: "pipe \<Rightarrow> byte list" where
  "pipe_bytes pp = ring_slice (pp_buf pp) (nat (pp_buf_off pp)) (nat (pp_buf_len pp))"

lemma nat_int_diff: "nat (int i - int j) = i - j"
  by simp

lemma pipe_inv_nat:
  assumes "pipe_inv pp"
  obtains n h k where "pp_buf_size pp = int n" and "pp_buf_off pp = int h" and "pp_buf_len pp = int k"
    and "pp_buf_tail pp = int ((h + k) mod n)" and "length (pp_buf pp) = n" and "h < n" and "k \<le> n"
    and "0 < n"
proof -
  obtain n h k where *: "pp_buf_size pp = int n" "pp_buf_off pp = int h" "pp_buf_len pp = int k"
    using assms by (metis pipe_inv_def zero_le_imp_eq_int order_less_imp_le)
  from assms show thesis
    by (intro that [of n h k]) (simp_all add: * pipe_inv_def zmod_int)
qed

lemma length_pipe_bytes: "pipe_inv pp \<Longrightarrow> int (length (pipe_bytes pp)) = pp_buf_len pp"
  by (simp add: pipe_bytes_def pipe_inv_def)

text \<open>A slice of a ring is a prefix of it followed by the rest, and the slice up to the end of
  the array is contiguous.\<close>

lemma ring_slice_add:
  "ring_slice xs h (j + k) = ring_slice xs h j @ ring_slice xs ((h + j) mod length xs) k"
proof (rule nth_equalityI)
  fix i assume "i < length (ring_slice xs h (j + k))"
  moreover have "((h + j) mod length xs + (i - j)) mod length xs = (h + i) mod length xs" if "j \<le> i"
    using that mod_add_left_eq [of "h + j" "length xs" "i - j"] by simp
  ultimately show "ring_slice xs h (j + k) ! i
      = (ring_slice xs h j @ ring_slice xs ((h + j) mod length xs) k) ! i"
    by (auto simp: ring_slice_def nth_append)
qed simp

lemma ring_slice_flat:
  "h + k \<le> length xs \<Longrightarrow> ring_slice xs h k = take k (drop h xs)"
  by (rule nth_equalityI) (auto simp: ring_slice_def)

text \<open>Writing a block right behind a slice extends the slice.\<close>

lemma ring_slice_memcpy:
  assumes cp: "memcpy_at xs t d = Some zs" and t: "t = (h + k) mod length xs"
    and k: "k + length d \<le> length xs"
  shows "ring_slice zs h (k + length d) = ring_slice xs h k @ d"
proof (rule nth_equalityI)
  let ?n = "length xs"
  note len = length_memcpy_at [OF cp]
  from cp have le: "t + length d \<le> ?n" by (auto simp: memcpy_at_def split: if_splits)
  fix i assume "i < length (ring_slice zs h (k + length d))"
  then have i: "i < k + length d" by simp
  then have n: "0 < ?n" using k by linarith
  then have p: "(h + i) mod ?n < ?n" by (rule mod_less_divisor)
  have here: "t + j = (h + (k + j)) mod ?n" if "j < length d" for j
    using that le mod_add_left_eq [of "h + k" ?n j] by (simp add: t flip: add.assoc)
  show "ring_slice zs h (k + length d) ! i = (ring_slice xs h k @ d) ! i"
  proof (cases "i < k")
    case True
    have "(h + i) mod ?n \<noteq> t + j" if "j < length d" for j
      using here [OF that] mod_window_inj [of h i ?n "k + j"] True that k by auto
    then have "\<not> (t \<le> (h + i) mod ?n \<and> (h + i) mod ?n < t + length d)"
      by (metis le_Suc_ex nat_add_left_cancel_less)
    then have "zs ! ((h + i) mod ?n) = xs ! ((h + i) mod ?n)" unfolding nth_memcpy_at [OF cp p] by (rule if_not_P)
    with True i show ?thesis by (simp add: ring_slice_def nth_append len)
  next
    case False
    then obtain j where j: "i = k + j" "j < length d" using i by (metis add_less_cancel_left le_Suc_ex not_less)
    with here [of j] have "(h + i) mod ?n = t + j" by simp
    with nth_memcpy_at [OF cp p] j(2) have "zs ! ((h + i) mod ?n) = d ! j" by simp
    with j show ?thesis by (simp add: ring_slice_def nth_append len)
  qed
qed simp

lemma pipe_copy_out_ok:
  assumes inv: "pipe_inv pp" and r: "0 \<le> r" "r \<le> pp_buf_len pp"
  shows "\<exists>pp'. pipe_copy_out r pp = Some (take (nat r) (pipe_bytes pp), pp') \<and> pipe_inv pp'
    \<and> pipe_bytes pp' = drop (nat r) (pipe_bytes pp) \<and> pp_state pp' = pp_state pp
    \<and> pp_buf_size pp' = pp_buf_size pp"
proof -
  obtain n h k where *: "pp_buf_size pp = int n" "pp_buf_off pp = int h" "pp_buf_len pp = int k"
    "pp_buf_tail pp = int ((h + k) mod n)" "length (pp_buf pp) = n" "h < n" "k \<le> n" "0 < n"
    using inv by (rule pipe_inv_nat)
  obtain j where j: "r = int j" using r(1) by (metis zero_le_imp_eq_int)
  with r * obtain l where l: "k = j + l" by (metis le_Suc_ex of_nat_le_iff)
  have bytes: "pipe_bytes pp = ring_slice (pp_buf pp) h j @ ring_slice (pp_buf pp) ((h + j) mod n) l"
    by (simp add: pipe_bytes_def * l ring_slice_add nat_int_add)
  let ?pp = "pp\<lparr>pp_buf_off := int ((h + j) mod n), pp_buf_len := int l\<rparr>"
  have tail: "int ((h + k) mod n) = (int ((h + j) mod n) + int l) mod int n"
    by (simp add: l zmod_int mod_simps add.assoc)
  have inv': "pipe_inv ?pp" using * l tail by (simp add: pipe_inv_def)
  have copy: "pipe_copy_out r pp = Some (ring_slice (pp_buf pp) h j, ?pp)"
  proof (cases "h + j < n")
    case True
    then show ?thesis
      using * j l by (simp add: pipe_copy_out_def read_at_def ring_slice_flat)
  next
    case False
    define t where "t = n - h"
    have t: "n = h + t" "t \<le> j" "int n - int h = int t" using False *(6) by (simp_all add: t_def)
    have lt: "j - t < n" and "h + j = (j - t) + n" using t *(6-8) l by linarith+
    then have hj: "(h + j) mod n = j - t" by simp
    have "ring_slice (pp_buf pp) h j = ring_slice (pp_buf pp) h (t + (j - t))" using t by simp
    also have "\<dots> = take t (drop h (pp_buf pp)) @ take (j - t) (pp_buf pp)"
      unfolding ring_slice_add using * t lt by (simp add: ring_slice_flat)
    finally show ?thesis
      using * j l t hj lt False nat_int_diff [of j t]
      by (simp add: pipe_copy_out_def read_at_def Let_def of_nat_diff)
  qed
  show ?thesis
    using inv' copy unfolding bytes by (intro exI [of _ ?pp]) (simp add: j pipe_bytes_def)
qed

lemma pipe_copy_in_ok:
  assumes inv: "pipe_inv pp" and w: "0 \<le> w" "w \<le> pp_buf_size pp - pp_buf_len pp" "w \<le> int (length d)"
  shows "\<exists>pp'. pipe_copy_in d w pp = Some pp' \<and> pipe_inv pp'
    \<and> pipe_bytes pp' = pipe_bytes pp @ take (nat w) d \<and> pp_state pp' = pp_state pp
    \<and> pp_buf_size pp' = pp_buf_size pp"
proof -
  obtain n h k where *: "pp_buf_size pp = int n" "pp_buf_off pp = int h" "pp_buf_len pp = int k"
    "pp_buf_tail pp = int ((h + k) mod n)" "length (pp_buf pp) = n" "h < n" "k \<le> n" "0 < n"
    using inv by (rule pipe_inv_nat)
  obtain j where j: "w = int j" using w(1) by (metis zero_le_imp_eq_int)
  define t where "t = (h + k) mod n"
  have kj: "k + j \<le> n" "j \<le> length d" and tn: "t < n" using w * j by (simp_all add: t_def)
  let ?done = "\<lambda>b. pp\<lparr>pp_buf := b, pp_buf_tail := int ((h + (k + j)) mod n), pp_buf_len := int (k + j)\<rparr>"
  have ok: "pipe_inv (?done b) \<and> pipe_bytes (?done b) = ring_slice b h (k + j)" if "length b = n" for b
    using that * kj by (simp add: pipe_inv_def pipe_bytes_def zmod_int nat_int_add)
  have "\<exists>b. pipe_copy_in d w pp = Some (?done b) \<and> length b = n
      \<and> ring_slice b h (k + j) = ring_slice (pp_buf pp) h k @ take j d"
  proof (cases "t + j < n")
    case True
    then obtain b where b: "memcpy_at (pp_buf pp) t (take j d) = Some b"
      using kj * by (simp add: memcpy_at_def)
    have "(h + (k + j)) mod n = t + j"
      using True mod_add_left_eq [of "h + k" n j] by (simp add: t_def add.assoc)
    then show ?thesis
      using True * j kj b length_memcpy_at [OF b] ring_slice_memcpy [OF b, of h k]
      by (intro exI [of _ b]) (simp add: pipe_copy_in_def read_at_def flip: t_def)
  next
    case False
    define r where "r = n - t"
    have r: "n = t + r" "r \<le> j" "int n - int t = int r" using False tn by (simp_all add: r_def)
    obtain b1 where b1: "memcpy_at (pp_buf pp) t (take r d) = Some b1"
      using kj * r by (simp add: memcpy_at_def)
    note len1 = length_memcpy_at [OF b1]
    have "j - r \<le> n" using kj(1) by linarith
    then obtain b2 where b2: "memcpy_at b1 0 (take (j - r) (drop r d)) = Some b2"
      using *(5) len1 by (simp add: memcpy_at_def min.coboundedI2)
    have zero: "0 = (h + (k + r)) mod n"
      using r mod_add_left_eq [of "h + k" n r] by (simp add: t_def add.assoc)
    have tail: "(h + (k + j)) mod n = j - r"
    proof -
      have "j - r < n" using r kj(1) tn by linarith
      then show ?thesis
        using zero mod_add_left_eq [of "h + (k + r)" n "j - r"] r(2) by (simp add: add.assoc)
    qed
    have "ring_slice b1 h (k + r) = ring_slice (pp_buf pp) h k @ take r d"
      using ring_slice_memcpy [OF b1, of h k] kj r(2) *(5) by (simp add: t_def)
    moreover have "ring_slice b2 h (k + r + (j - r)) = ring_slice b1 h (k + r) @ take (j - r) (drop r d)"
      using ring_slice_memcpy [OF b2, of h "k + r"] kj r(2) *(5) len1 zero by (simp add: add.assoc)
    moreover have "take r d @ take (j - r) (drop r d) = take j d"
      using r(2) by (simp flip: take_add)
    ultimately show ?thesis
      using False * j kj b1 b2 len1 length_memcpy_at [OF b2] r(2,3) tail
        nat_int_diff [of j r]
      by (intro exI [of _ b2]) (simp add: pipe_copy_in_def read_at_def Let_def of_nat_diff flip: t_def)
  qed
  then show ?thesis using ok * j by (auto simp: pipe_bytes_def)
qed

end
