(* ===== verification/Mtcp_State.thy ===== *)
theory Mtcp_State
  imports Flow_Table Event_Queue Addr_Pool Click_Queues Pipe_Buffer
begin

text \<open>
  The state that the components of the stack share (mtcp.h): the configuration, the ARP table, the
  senders with their lists, the retransmission hash store and the per-core manager.

  Pointers to streams are chunks of the flow pool and index \<open>m_streams\<close>; sockets are positions in
  \<open>smap\<close>; listeners, epoll objects and pipes are numbered in the order of their allocation.
  \<open>m_ctx_done\<close>, \<open>m_ctx_exit\<close> and \<open>m_ctx_interrupt\<close> are the flags of the thread context the manager
  points to. What the
  environment decides is part of the state, as a sequence of answers and the number of answers
  used so far: whether an allocation succeeds, whether the driver has a free transmit buffer, the
  random numbers. \<open>io_tx\<close> is what the stack has handed to the driver.
\<close>

section \<open>Configuration\<close>

record eth_table =
  et_ifindex :: int
  et_haddr :: "byte list"
  et_netmask :: u32
  et_ip_addr :: u32

record route_table =
  rt_daddr :: u32
  rt_mask :: u32
  rt_masked :: u32
  rt_prefix :: int
  rt_nif :: int

record mtcp_config =
  c_eths :: "eth_table list"
  c_nif_to_eidx :: "int list"
  c_rtable :: "route_table list"
  c_gateway :: "route_table option"
  c_num_cores :: int
  c_max_concurrency :: int
  c_max_num_buffers :: int
  c_rcvbuf_size :: int
  c_sndbuf_size :: int
  c_tcp_timewait :: int
  c_tcp_timeout :: int

text \<open>The ARP table of the configuration, which grows while the stack runs: \<open>arp_size\<close> entries are
  allocated, and the gateway is a pointer to one of them.\<close>

record arp_entry =
  ae_ip :: u32
  ae_prefix :: int
  ae_ip_mask :: u32
  ae_ip_masked :: u32
  ae_haddr :: "byte list"

record arp_table =
  arp_entry_list :: "arp_entry list"
  arp_gateway :: "nat option"
  arp_size :: nat

record arp_queue_entry =
  aq_ip :: u32
  aq_nif_out :: int
  aq_ts_out :: u32

section \<open>Devices\<close>

text \<open>The offload commands of the I/O modules. A frame whose checksums were delegated to the card
  is marked; the driver completes them.\<close>

datatype io_cmd =
    PKT_TX_IP_CSUM | PKT_TX_TCP_CSUM | PKT_RX_IP_CSUM | PKT_RX_TCP_CSUM | PKT_TX_TCPIP_CSUM
  | PKT_TX_TCPIP_CSUM_PEEK

record tx_frame =
  tx_eidx :: int
  tx_bytes :: "byte list"
  tx_ip_offload :: bool
  tx_l4_offload :: bool

section \<open>The manager\<close>

record mtcp_sender =
  sd_ifidx :: int
  control_list :: "nat list"
  send_list :: "nat list"
  ack_list :: "nat list"
  control_list_cnt :: int
  send_list_cnt :: int
  ack_list_cnt :: int

datatype sender_id = GSender | NSender nat

record tcp_listener =
  l_sockid :: int
  l_socket :: "nat option"
  l_backlog :: int
  l_acceptq :: "nat click_queue"

record rto_hashstore =
  rto_now_idx :: u32
  rto_now_ts :: u32
  rto_list :: "nat \<Rightarrow> nat list"

record mtcp_manager =
  m_streams :: stream_mem
  m_flow_pool :: mem_pool
  m_rv_pool :: mem_pool
  m_sv_pool :: mem_pool
  m_rbm_snd :: sb_manager
  m_rbm_rcv :: rb_manager
  m_flow_table :: flow_table
  m_smap :: "nat \<Rightarrow> socket_map"
  m_free_smap :: "nat list"
  m_ap :: "addr_pool option"
  m_aps :: "nat \<Rightarrow> addr_pool option"
  m_g_id :: u32
  m_flow_cnt :: u32
  m_eps :: "nat \<Rightarrow> mtcp_epoll"
  m_eps_next :: nat
  m_ep :: "nat option"
  m_pipes :: "nat \<Rightarrow> pipe"
  m_pipes_next :: nat
  m_ts_last_event :: u32
  m_listeners :: "nat \<Rightarrow> tcp_listener"
  m_listeners_next :: nat
  m_lt_table :: "nat \<Rightarrow> nat list"
  m_connectq :: "nat click_queue"
  m_sendq :: "nat click_queue"
  m_ackq :: "nat click_queue"
  m_closeq :: "nat click_queue"
  m_closeq_int :: "nat stream_queue_int"
  m_resetq :: "nat click_queue"
  m_resetq_int :: "nat stream_queue_int"
  m_destroyq :: "nat click_queue"
  m_senders :: "sender_id \<Rightarrow> mtcp_sender"
  m_rto_store :: rto_hashstore
  m_timewait_list :: "nat list"
  m_timeout_list :: "nat list"
  m_rto_list_cnt :: int
  m_timewait_list_cnt :: int
  m_timeout_list_cnt :: int
  m_cur_ts :: u32
  m_wakeup_flag :: bool
  m_is_sleeping :: bool
  m_ctx_done :: bool
  m_ctx_exit :: bool
  m_ctx_interrupt :: bool
  m_arp :: arp_table
  m_arpq :: "arp_queue_entry list"
  env_alloc :: "nat \<Rightarrow> bool"
  env_alloc_n :: nat
  env_rand :: "nat \<Rightarrow> u32"
  env_rand_n :: nat
  io_wptr :: "nat \<Rightarrow> bool"
  io_wptr_n :: nat
  io_ioctl :: "int \<Rightarrow> io_cmd \<Rightarrow> int"
  io_tx :: "tx_frame list"

section \<open>Access\<close>

text \<open>Updating the stream \<open>s\<close> and its send and receive variables.\<close>

definition upd_stream :: "nat \<Rightarrow> (tcp_stream \<Rightarrow> tcp_stream) \<Rightarrow> mtcp_manager \<Rightarrow> mtcp_manager" where
  "upd_stream s f m = m\<lparr>m_streams := (m_streams m)(s := f (m_streams m s))\<rparr>"

definition upd_snd :: "nat \<Rightarrow> (tcp_send_vars \<Rightarrow> tcp_send_vars) \<Rightarrow> mtcp_manager \<Rightarrow> mtcp_manager" where
  "upd_snd s f m = upd_stream s (\<lambda>x. x\<lparr>sndvar := f (sndvar x)\<rparr>) m"

definition upd_rcv :: "nat \<Rightarrow> (tcp_recv_vars \<Rightarrow> tcp_recv_vars) \<Rightarrow> mtcp_manager \<Rightarrow> mtcp_manager" where
  "upd_rcv s f m = upd_stream s (\<lambda>x. x\<lparr>rcvvar := f (rcvvar x)\<rparr>) m"

definition upd_sender :: "sender_id \<Rightarrow> (mtcp_sender \<Rightarrow> mtcp_sender) \<Rightarrow> mtcp_manager \<Rightarrow> mtcp_manager" where
  "upd_sender k f m = m\<lparr>m_senders := (m_senders m)(k := f (m_senders m k))\<rparr>"

definition upd_rto :: "(rto_hashstore \<Rightarrow> rto_hashstore) \<Rightarrow> mtcp_manager \<Rightarrow> mtcp_manager" where
  "upd_rto f m = m\<lparr>m_rto_store := f (m_rto_store m)\<rparr>"

text \<open>The next answer of the environment.\<close>

definition next_alloc :: "mtcp_manager \<Rightarrow> bool \<times> mtcp_manager" where
  "next_alloc m = (env_alloc m (env_alloc_n m), m\<lparr>env_alloc_n := env_alloc_n m + 1\<rparr>)"

definition next_rand :: "mtcp_manager \<Rightarrow> u32 \<times> mtcp_manager" where
  "next_rand m = (env_rand m (env_rand_n m), m\<lparr>env_rand_n := env_rand_n m + 1\<rparr>)"

definition next_wptr :: "mtcp_manager \<Rightarrow> bool \<times> mtcp_manager" where
  "next_wptr m = (io_wptr m (io_wptr_n m), m\<lparr>io_wptr_n := io_wptr_n m + 1\<rparr>)"

text \<open>An element of a C array, undefined outside it.\<close>

definition arr_at :: "'a list \<Rightarrow> int \<Rightarrow> 'a option" where
  "arr_at xs i = (if 0 \<le> i \<and> i < int (length xs) then Some (xs ! nat i) else None)"

text \<open>\<open>AddEpollEvent\<close> on the epoll object of the manager.\<close>

definition mtcp_add_event :: "event_queue_type \<Rightarrow> nat \<Rightarrow> u32 \<Rightarrow> mtcp_manager \<Rightarrow> mtcp_manager option" where
  "mtcp_add_event qt sockid ev m = do {
     (r, epo, so) \<leftarrow> AddEpollEvent (map_option (m_eps m) (m_ep m)) qt (Some (m_smap m sockid)) ev;
     (case (m_ep m, epo, so) of
        (Some e, Some ep, Some socket) \<Rightarrow>
          Some (m\<lparr>m_eps := (m_eps m)(e := ep), m_smap := (m_smap m)(sockid := socket)\<rparr>)
      | _ \<Rightarrow> Some m)
   }"

lemmas upd_defs = upd_stream_def upd_snd_def upd_rcv_def upd_sender_def upd_rto_def

lemma arr_at_Some [simp]: "arr_at xs i = Some x \<longleftrightarrow> 0 \<le> i \<and> i < int (length xs) \<and> x = xs ! nat i"
  by (auto simp: arr_at_def)

end
