(* ===== verification/Net_Out.thy ===== *)
theory Net_Out
  imports Mtcp_State
begin

text \<open>
  The layers below TCP: the choice of the outgoing interface (ip_out.c), the ARP table and its
  requests (arp.c), and Ethernet and IP output (eth_out.c, ip_out.c).

  A write buffer is obtained from the driver with \<open>get_wptr\<close>, filled from the Ethernet header on and
  is sent as it stands when the caller returns. The model keeps the bytes written so far together
  with the length that was asked for, and appends the frame to \<open>io_tx\<close> when the layer that asked
  for the buffer has written its part; writing more than was asked for is undefined.
\<close>

definition ETH_ALEN :: nat where "ETH_ALEN = 6"
definition ETH_P_IP :: u16 where "ETH_P_IP = 0x0800"
definition ETH_P_ARP :: u16 where "ETH_P_ARP = 0x0806"
definition ETHERNET_HEADER_LEN :: u16 where "ETHERNET_HEADER_LEN = 14"
definition IP_HEADER_LEN :: u16 where "IP_HEADER_LEN = 20"
definition IPPROTO_ICMP :: u8 where "IPPROTO_ICMP = 1"

definition le32_bytes :: "u32 \<Rightarrow> byte list" where
  "le32_bytes x = [ucast x, ucast (drop_bit 8 x), ucast (drop_bit 16 x), ucast (drop_bit 24 x)]"

section \<open>Routing\<close>

text \<open>The loop stops at the first route that matches. The result is the interface, -1 when there is
  none, and \<open>is_external\<close>.\<close>

fun route_walk :: "mtcp_config \<Rightarrow> u32 \<Rightarrow> route_table list \<Rightarrow> int \<times> bool" where
  "route_walk cfg daddr [] = (- 1, False)"
| "route_walk cfg daddr (r # rs) =
     (if daddr AND rt_mask r = rt_masked r then
        (if rt_prefix r > 0 then (rt_nif r, False)
         else case c_gateway cfg of Some g \<Rightarrow> (rt_nif g, True) | None \<Rightarrow> (- 1, False))
      else route_walk cfg daddr rs)"

definition GetOutputInterface :: "mtcp_config \<Rightarrow> u32 \<Rightarrow> int \<times> bool" where
  "GetOutputInterface cfg daddr = route_walk cfg daddr (c_rtable cfg)"

section \<open>The ARP table\<close>

definition MAX_ARPENTRY :: nat where "MAX_ARPENTRY = 1024"

definition InitARPTable :: "mtcp_manager \<Rightarrow> int \<times> mtcp_manager" where
  "InitARPTable m =
     (let (ok, m) = next_alloc m in
      if \<not> ok then (- 1, m\<lparr>m_arp := (m_arp m)\<lparr>arp_entry_list := [], arp_size := 0\<rparr>\<rparr>)
      else (0, m\<lparr>m_arp := (m_arp m)\<lparr>arp_entry_list := [], arp_size := MAX_ARPENTRY\<rparr>, m_arpq := []\<rparr>))"

fun GetHWaddr_walk :: "u32 \<Rightarrow> eth_table list \<Rightarrow> byte list option" where
  "GetHWaddr_walk ip [] = None"
| "GetHWaddr_walk ip (e # es) = (if ip = et_ip_addr e then Some (et_haddr e) else GetHWaddr_walk ip es)"

definition GetHWaddr :: "mtcp_config \<Rightarrow> u32 \<Rightarrow> byte list option" where
  "GetHWaddr cfg ip = GetHWaddr_walk ip (c_eths cfg)"

text \<open>The loop over the entries, with the address and the prefix found so far.\<close>

fun arp_walk :: "u32 \<Rightarrow> arp_entry list \<Rightarrow> byte list option \<Rightarrow> int \<Rightarrow> byte list option" where
  "arp_walk dip [] d_haddr prefix = d_haddr"
| "arp_walk dip (e # es) d_haddr prefix =
     (if ae_prefix e = 1 then
        (if ae_ip e = dip then Some (ae_haddr e) else arp_walk dip es d_haddr prefix)
      else if dip AND ae_ip_mask e = ae_ip_masked e \<and> ae_prefix e > prefix
      then arp_walk dip es (Some (ae_haddr e)) (ae_prefix e)
      else arp_walk dip es d_haddr prefix)"

definition GetDestinationHWaddr :: "mtcp_manager \<Rightarrow> u32 \<Rightarrow> bool \<Rightarrow> byte list option" where
  "GetDestinationHWaddr m dip is_gateway =
     (case (is_gateway, arp_gateway (m_arp m)) of
        (True, Some g) \<Rightarrow> Some (ae_haddr (arp_entry_list (m_arp m) ! g))
      | _ \<Rightarrow> arp_walk dip (arp_entry_list (m_arp m)) None 0)"

definition RegisterARPEntry :: "mtcp_config \<Rightarrow> u32 \<Rightarrow> byte list \<Rightarrow> mtcp_manager \<Rightarrow> mtcp_manager option" where
  "RegisterARPEntry cfg ip haddr m =
     (let arp = m_arp m; idx = length (arp_entry_list arp) in
      if idx < arp_size arp then do {
        hw \<leftarrow> read_at haddr 0 ETH_ALEN;
        let e = \<lparr>ae_ip = ip, ae_prefix = 32, ae_ip_mask = - 1, ae_ip_masked = ip, ae_haddr = hw\<rparr>;
        let gw = (case c_gateway cfg of
                    Some g \<Rightarrow> (if rt_daddr g AND ae_ip_mask e = ae_ip_masked e then Some idx else arp_gateway arp)
                  | None \<Rightarrow> arp_gateway arp);
        Some (m\<lparr>m_arp := arp\<lparr>arp_entry_list := arp_entry_list arp @ [e], arp_gateway := gw\<rparr>\<rparr>)
      } else None)"

section \<open>Ethernet output\<close>

text \<open>A write buffer: the interface, the bytes written and the length that was asked for.\<close>

type_synonym wbuf = "int \<times> byte list \<times> nat"

definition EthernetOutput ::
    "mtcp_config \<Rightarrow> u16 \<Rightarrow> int \<Rightarrow> byte list \<Rightarrow> u16 \<Rightarrow> mtcp_manager \<Rightarrow> (wbuf option \<times> mtcp_manager) option" where
  "EthernetOutput cfg h_proto nif dst_haddr iplen m =
     (if nif < 0 then Some (None, m)
      else do {
        eidx \<leftarrow> arr_at (c_nif_to_eidx cfg) nif;
        if eidx < 0 then Some (None, m)
        else
          let (ok, m) = next_wptr m in
          if \<not> ok then Some (None, m)
          else do {
            eth \<leftarrow> arr_at (c_eths cfg) eidx;
            src \<leftarrow> read_at (et_haddr eth) 0 ETH_ALEN;
            dst \<leftarrow> read_at dst_haddr 0 ETH_ALEN;
            Some (Some (eidx, dst @ src @ be16_bytes h_proto, unat (iplen + ETHERNET_HEADER_LEN)), m)
          }
      })"

text \<open>The rest of the frame is written and the caller returns.\<close>

definition put_frame :: "wbuf \<Rightarrow> byte list \<Rightarrow> bool \<Rightarrow> bool \<Rightarrow> mtcp_manager \<Rightarrow> mtcp_manager option" where
  "put_frame w payload ip_off l4_off m =
     (case w of (eidx, hdr, len) \<Rightarrow>
        if length (hdr @ payload) = len
        then Some (m\<lparr>io_tx := io_tx m @ [\<lparr>tx_eidx = eidx, tx_bytes = hdr @ payload, tx_ip_offload = ip_off,
                                          tx_l4_offload = l4_off\<rparr>]\<rparr>)
        else None)"

section \<open>ARP messages\<close>

definition arp_op_request :: u16 where "arp_op_request = 1"
definition arp_op_reply :: u16 where "arp_op_reply = 2"
definition ARP_PAD_LEN :: nat where "ARP_PAD_LEN = 18"

record arphdr =
  ar_op :: u16
  ar_sha :: "byte list"
  ar_sip :: u32
  ar_tha :: "byte list"
  ar_tip :: u32

definition arphdr_bytes :: "arphdr \<Rightarrow> byte list" where
  "arphdr_bytes a = be16_bytes 1 @ be16_bytes ETH_P_IP @ [6, 4] @ be16_bytes (ar_op a) @ ar_sha a
     @ le32_bytes (ar_sip a) @ ar_tha a @ le32_bytes (ar_tip a) @ replicate ARP_PAD_LEN 0"

definition sizeof_arphdr :: u16 where "sizeof_arphdr = 46"

definition ARPOutput ::
    "mtcp_config \<Rightarrow> int \<Rightarrow> u16 \<Rightarrow> u32 \<Rightarrow> byte list \<Rightarrow> byte list option \<Rightarrow> mtcp_manager \<Rightarrow> (int \<times> mtcp_manager) option" where
  "ARPOutput cfg nif opcode dst_ip dst_haddr target_haddr m = do {
     (w, m) \<leftarrow> EthernetOutput cfg ETH_P_ARP nif dst_haddr sizeof_arphdr m;
     (case w of
        None \<Rightarrow> Some (- 1, m)
      | Some w \<Rightarrow> do {
          eidx \<leftarrow> arr_at (c_nif_to_eidx cfg) nif;
          eth \<leftarrow> arr_at (c_eths cfg) eidx;
          sha \<leftarrow> read_at (et_haddr eth) 0 ETH_ALEN;
          tha \<leftarrow> (case target_haddr of Some t \<Rightarrow> read_at t 0 ETH_ALEN | None \<Rightarrow> read_at dst_haddr 0 ETH_ALEN);
          m \<leftarrow> put_frame w (arphdr_bytes \<lparr>ar_op = opcode, ar_sha = sha, ar_sip = et_ip_addr eth,
                  ar_tha = tha, ar_tip = dst_ip\<rparr>) False False m;
          Some (0, m)
        })
   }"

definition RequestARP :: "mtcp_config \<Rightarrow> u32 \<Rightarrow> int \<Rightarrow> u32 \<Rightarrow> mtcp_manager \<Rightarrow> mtcp_manager option" where
  "RequestARP cfg ip nif cur_ts m =
     (if \<exists>ent \<in> set (m_arpq m). aq_ip ent = ip then Some m
      else
        let (ok, m) = next_alloc m in
        if \<not> ok then None
        else do {
          let m = m\<lparr>m_arpq := m_arpq m @ [\<lparr>aq_ip = ip, aq_nif_out = nif, aq_ts_out = cur_ts\<rparr>]\<rparr>;
          (_, m) \<leftarrow> ARPOutput cfg nif arp_op_request ip (replicate ETH_ALEN 0xFF) (Some (replicate ETH_ALEN 0)) m;
          Some m
        })"

text \<open>What the code reads of a received ARP message, from the bytes behind the Ethernet header.\<close>

definition read_arphdr :: "byte list \<Rightarrow> arphdr option" where
  "read_arphdr b = (if 28 \<le> length b then Some
     \<lparr>ar_op = be16 (b ! 6) (b ! 7), ar_sha = take 6 (drop 8 b),
      ar_sip = le32 (b ! 14) (b ! 15) (b ! 16) (b ! 17), ar_tha = take 6 (drop 18 b),
      ar_tip = le32 (b ! 24) (b ! 25) (b ! 26) (b ! 27)\<rparr> else None)"

definition ProcessARPRequest :: "mtcp_config \<Rightarrow> arphdr \<Rightarrow> int \<Rightarrow> mtcp_manager \<Rightarrow> mtcp_manager option" where
  "ProcessARPRequest cfg arph nif m = do {
     m \<leftarrow> (case GetDestinationHWaddr m (ar_sip arph) False of
             None \<Rightarrow> RegisterARPEntry cfg (ar_sip arph) (ar_sha arph) m
           | Some _ \<Rightarrow> Some m);
     (_, m) \<leftarrow> ARPOutput cfg nif arp_op_reply (ar_sip arph) (ar_sha arph) None m;
     Some m
   }"

fun arpq_remove :: "u32 \<Rightarrow> arp_queue_entry list \<Rightarrow> arp_queue_entry list" where
  "arpq_remove ip [] = []"
| "arpq_remove ip (e # es) = (if aq_ip e = ip then es else e # arpq_remove ip es)"

definition ProcessARPReply :: "mtcp_config \<Rightarrow> arphdr \<Rightarrow> mtcp_manager \<Rightarrow> mtcp_manager option" where
  "ProcessARPReply cfg arph m = do {
     m \<leftarrow> (case GetDestinationHWaddr m (ar_sip arph) False of
             None \<Rightarrow> RegisterARPEntry cfg (ar_sip arph) (ar_sha arph) m
           | Some _ \<Rightarrow> Some m);
     Some (m\<lparr>m_arpq := arpq_remove (ar_sip arph) (m_arpq m)\<rparr>)
   }"

definition ProcessARPPacket :: "mtcp_config \<Rightarrow> int \<Rightarrow> byte list \<Rightarrow> mtcp_manager \<Rightarrow> mtcp_manager option" where
  "ProcessARPPacket cfg ifidx pkt m = do {
     arph \<leftarrow> read_arphdr (drop 14 pkt);
     if \<not> (\<exists>e \<in> set (c_eths cfg). ar_tip arph = et_ip_addr e) then Some m
     else if ar_op arph = arp_op_request then do {
       eth \<leftarrow> arr_at (c_eths cfg) ifidx;
       ProcessARPRequest cfg arph (et_ifindex eth) m
     }
     else if ar_op arph = arp_op_reply then ProcessARPReply cfg arph m
     else Some m
   }"

definition ARPTimer :: "u32 \<Rightarrow> mtcp_manager \<Rightarrow> mtcp_manager" where
  "ARPTimer cur_ts m = m\<lparr>m_arpq := filter (\<lambda>ent. \<not> TCP_SEQ_GT cur_ts (aq_ts_out ent + 1000)) (m_arpq m)\<rparr>"

section \<open>IP output\<close>

definition iphdr_bytes :: "u16 \<Rightarrow> u16 \<Rightarrow> u8 \<Rightarrow> u16 \<Rightarrow> u32 \<Rightarrow> u32 \<Rightarrow> byte list" where
  "iphdr_bytes tot_len ip_ident protocol check saddr daddr =
     [0x45, 0] @ be16_bytes tot_len @ be16_bytes ip_ident @ [0x40, 0, 64, protocol]
     @ le16_bytes check @ le32_bytes saddr @ le32_bytes daddr"

text \<open>The header is written with a zero checksum, which is filled in unless the card does it.\<close>

definition ip_header ::
    "u16 \<Rightarrow> u16 \<Rightarrow> u8 \<Rightarrow> u32 \<Rightarrow> u32 \<Rightarrow> int \<Rightarrow> mtcp_manager \<Rightarrow> (byte list \<times> bool) option" where
  "ip_header tot_len ip_ident protocol saddr daddr nif m =
     (let h = \<lambda>check. iphdr_bytes tot_len ip_ident protocol check saddr daddr;
          rc = (if ucast protocol = IPPROTO_TCP then io_ioctl m nif PKT_TX_TCPIP_CSUM_PEEK
                else if protocol = IPPROTO_ICMP then io_ioctl m nif PKT_TX_IP_CSUM else - 1)
      in if rc = - 1 then do { c \<leftarrow> ip_fast_csum (h 0) 5; Some (h c, False) }
         else Some (h 0, True))"

definition IPOutputStandalone ::
    "mtcp_config \<Rightarrow> u8 \<Rightarrow> u16 \<Rightarrow> u32 \<Rightarrow> u32 \<Rightarrow> u16 \<Rightarrow> mtcp_manager \<Rightarrow> ((wbuf \<times> bool) option \<times> mtcp_manager) option" where
  "IPOutputStandalone cfg protocol ip_ident saddr daddr payloadlen m =
     (let (nif, is_external) = GetOutputInterface cfg daddr in
      if nif < 0 then Some (None, m)
      else case GetDestinationHWaddr m daddr is_external of
        None \<Rightarrow> do {
          ip \<leftarrow> (if is_external then map_option rt_daddr (c_gateway cfg) else Some daddr);
          m \<leftarrow> RequestARP cfg ip nif (m_cur_ts m) m;
          Some (None, m)
        }
      | Some haddr \<Rightarrow> do {
          (w, m) \<leftarrow> EthernetOutput cfg ETH_P_IP nif haddr (payloadlen + IP_HEADER_LEN) m;
          (case w of
             None \<Rightarrow> Some (None, m)
           | Some (eidx, hdr, len) \<Rightarrow> do {
               (iph, off) \<leftarrow> ip_header (IP_HEADER_LEN + payloadlen) ip_ident protocol saddr daddr nif m;
               Some (Some ((eidx, hdr @ iph, len), off), m)
             })
        })"

definition IPOutput ::
    "mtcp_config \<Rightarrow> nat \<Rightarrow> u16 \<Rightarrow> mtcp_manager \<Rightarrow> ((wbuf \<times> bool) option \<times> mtcp_manager) option" where
  "IPOutput cfg s tcplen m =
     (let m = (if nif_out (sndvar (m_streams m s)) \<ge> 0 then m
               else
                 let (nif, is_ext) = GetOutputInterface cfg (s_daddr (m_streams m s))
                 in upd_stream s (\<lambda>x. x\<lparr>is_external := is_ext\<rparr>) (upd_snd s (\<lambda>v. v\<lparr>nif_out := nif\<rparr>) m));
          st = m_streams m s; nif = nif_out (sndvar st)
      in case GetDestinationHWaddr m (s_daddr st) (is_external st) of
        None \<Rightarrow> do {
          ip \<leftarrow> (if is_external st then map_option rt_daddr (c_gateway cfg) else Some (s_daddr st));
          m \<leftarrow> RequestARP cfg ip nif (m_cur_ts m) m;
          Some (None, m)
        }
      | Some haddr \<Rightarrow> do {
          (w, m) \<leftarrow> EthernetOutput cfg ETH_P_IP nif haddr (tcplen + IP_HEADER_LEN) m;
          (case w of
             None \<Rightarrow> Some (None, m)
           | Some (eidx, hdr, len) \<Rightarrow> do {
               let ident = ip_id (sndvar (m_streams m s));
               let m = upd_snd s (\<lambda>v. v\<lparr>ip_id := ip_id v + 1\<rparr>) m;
               (iph, off) \<leftarrow> ip_header (IP_HEADER_LEN + tcplen) ident (ucast IPPROTO_TCP) (s_saddr st)
                              (s_daddr st) nif m;
               Some (Some ((eidx, hdr @ iph, len), off), m)
             })
        })"

end
