(* ===== verification/Stream_Lists.thy ===== *)
theory Stream_Lists
  imports Net_Out
begin

text \<open>
  The lists a stream can be on: the control, send and acknowledgement lists of a sender
  (tcp_out.c), and the retransmission hash store, the timewait list and the timeout list
  (timer.c); and the events that are raised for its socket (tcp_stream.c).

  Each list has a counter and each stream a flag; \<open>Engine_Inv\<close> has the invariant that they agree.
\<close>

section \<open>Events\<close>

definition RaiseReadEvent :: "nat \<Rightarrow> mtcp_manager \<Rightarrow> mtcp_manager option" where
  "RaiseReadEvent s m =
     (case s_socket (m_streams m s) of
        Some k \<Rightarrow> (if so_epoll (m_smap m k) AND MTCP_EPOLLIN \<noteq> 0
                   then mtcp_add_event MTCP_EVENT_QUEUE k MTCP_EPOLLIN m else Some m)
      | None \<Rightarrow> Some m)"

definition RaiseWriteEvent :: "nat \<Rightarrow> mtcp_manager \<Rightarrow> mtcp_manager option" where
  "RaiseWriteEvent s m =
     (case s_socket (m_streams m s) of
        Some k \<Rightarrow> (if so_epoll (m_smap m k) AND MTCP_EPOLLOUT \<noteq> 0
                   then mtcp_add_event MTCP_EVENT_QUEUE k MTCP_EPOLLOUT m else Some m)
      | None \<Rightarrow> Some m)"

definition RaiseCloseEvent :: "nat \<Rightarrow> mtcp_manager \<Rightarrow> mtcp_manager option" where
  "RaiseCloseEvent s m =
     (case s_socket (m_streams m s) of
        Some k \<Rightarrow> (if so_epoll (m_smap m k) AND MTCP_EPOLLRDHUP \<noteq> 0
                   then mtcp_add_event MTCP_EVENT_QUEUE k MTCP_EPOLLRDHUP m
                   else if so_epoll (m_smap m k) AND MTCP_EPOLLIN \<noteq> 0
                   then mtcp_add_event MTCP_EVENT_QUEUE k MTCP_EPOLLIN m else Some m)
      | None \<Rightarrow> Some m)"

definition RaiseErrorEvent :: "nat \<Rightarrow> mtcp_manager \<Rightarrow> mtcp_manager option" where
  "RaiseErrorEvent s m =
     (case s_socket (m_streams m s) of
        Some k \<Rightarrow> (if so_epoll (m_smap m k) AND MTCP_EPOLLERR \<noteq> 0
                   then mtcp_add_event MTCP_EVENT_QUEUE k MTCP_EPOLLERR m else Some m)
      | None \<Rightarrow> Some m)"

section \<open>Lists of the senders\<close>

text \<open>The inner \<^const>\<open>None\<close> is the result NULL; every caller asserts that it does not get it.\<close>

definition GetSender :: "mtcp_config \<Rightarrow> nat \<Rightarrow> mtcp_manager \<Rightarrow> sender_id option option" where
  "GetSender cfg s m =
     (let nif = nif_out (sndvar (m_streams m s)) in
      if nif < 0 then Some (Some GSender)
      else do {
        eidx \<leftarrow> arr_at (c_nif_to_eidx cfg) nif;
        if eidx < 0 \<or> eidx \<ge> int (length (c_eths cfg)) then Some None
        else Some (Some (NSender (nat eidx)))
      })"

definition sender_of :: "mtcp_config \<Rightarrow> nat \<Rightarrow> mtcp_manager \<Rightarrow> sender_id option" where
  "sender_of cfg s m = do { k \<leftarrow> GetSender cfg s m; k }"

definition AddtoControlList :: "mtcp_config \<Rightarrow> nat \<Rightarrow> mtcp_manager \<Rightarrow> mtcp_manager option" where
  "AddtoControlList cfg s m =
     (if \<not> on_control_list (sndvar (m_streams m s)) then do {
        k \<leftarrow> sender_of cfg s m;
        let m = upd_snd s (\<lambda>v. v\<lparr>on_control_list := True\<rparr>) m;
        q \<leftarrow> tailq_insert_tail (control_list (m_senders m k)) s;
        Some (upd_sender k (\<lambda>sd. sd\<lparr>control_list := q, control_list_cnt := control_list_cnt sd + 1\<rparr>) m)
      } else Some m)"

definition AddtoSendList :: "mtcp_config \<Rightarrow> nat \<Rightarrow> mtcp_manager \<Rightarrow> mtcp_manager option" where
  "AddtoSendList cfg s m = do {
     k \<leftarrow> sender_of cfg s m;
     if sndbuf (sndvar (m_streams m s)) = None then Some m
     else if \<not> on_send_list (sndvar (m_streams m s)) then do {
       let m = upd_snd s (\<lambda>v. v\<lparr>on_send_list := True\<rparr>) m;
       q \<leftarrow> tailq_insert_tail (send_list (m_senders m k)) s;
       Some (upd_sender k (\<lambda>sd. sd\<lparr>send_list := q, send_list_cnt := send_list_cnt sd + 1\<rparr>) m)
     } else Some m
   }"

definition AddtoACKList :: "mtcp_config \<Rightarrow> nat \<Rightarrow> mtcp_manager \<Rightarrow> mtcp_manager option" where
  "AddtoACKList cfg s m = do {
     k \<leftarrow> sender_of cfg s m;
     if \<not> on_ack_list (sndvar (m_streams m s)) then do {
       let m = upd_snd s (\<lambda>v. v\<lparr>on_ack_list := True\<rparr>) m;
       q \<leftarrow> tailq_insert_tail (ack_list (m_senders m k)) s;
       Some (upd_sender k (\<lambda>sd. sd\<lparr>ack_list := q, ack_list_cnt := ack_list_cnt sd + 1\<rparr>) m)
     } else Some m
   }"

definition RemoveFromControlList :: "mtcp_config \<Rightarrow> nat \<Rightarrow> mtcp_manager \<Rightarrow> mtcp_manager option" where
  "RemoveFromControlList cfg s m = do {
     k \<leftarrow> sender_of cfg s m;
     if on_control_list (sndvar (m_streams m s)) then do {
       let m = upd_snd s (\<lambda>v. v\<lparr>on_control_list := False\<rparr>) m;
       q \<leftarrow> tailq_remove (control_list (m_senders m k)) s;
       Some (upd_sender k (\<lambda>sd. sd\<lparr>control_list := q, control_list_cnt := control_list_cnt sd - 1\<rparr>) m)
     } else Some m
   }"

definition RemoveFromSendList :: "mtcp_config \<Rightarrow> nat \<Rightarrow> mtcp_manager \<Rightarrow> mtcp_manager option" where
  "RemoveFromSendList cfg s m = do {
     k \<leftarrow> sender_of cfg s m;
     if on_send_list (sndvar (m_streams m s)) then do {
       let m = upd_snd s (\<lambda>v. v\<lparr>on_send_list := False\<rparr>) m;
       q \<leftarrow> tailq_remove (send_list (m_senders m k)) s;
       Some (upd_sender k (\<lambda>sd. sd\<lparr>send_list := q, send_list_cnt := send_list_cnt sd - 1\<rparr>) m)
     } else Some m
   }"

definition RemoveFromACKList :: "mtcp_config \<Rightarrow> nat \<Rightarrow> mtcp_manager \<Rightarrow> mtcp_manager option" where
  "RemoveFromACKList cfg s m = do {
     k \<leftarrow> sender_of cfg s m;
     if on_ack_list (sndvar (m_streams m s)) then do {
       let m = upd_snd s (\<lambda>v. v\<lparr>on_ack_list := False\<rparr>) m;
       q \<leftarrow> tailq_remove (ack_list (m_senders m k)) s;
       Some (upd_sender k (\<lambda>sd. sd\<lparr>ack_list := q, ack_list_cnt := ack_list_cnt sd - 1\<rparr>) m)
     } else Some m
   }"

datatype ack_opt = ACK_OPT_NOW | ACK_OPT_AGGREGATE | ACK_OPT_WACK

text \<open>The comparison \<open>ack_cnt < ack_cnt + 1\<close> is one of \<open>int\<close>s and always true, while the bit field has six
  bits.\<close>

definition EnqueueACK :: "mtcp_config \<Rightarrow> nat \<Rightarrow> ack_opt \<Rightarrow> mtcp_manager \<Rightarrow> mtcp_manager option" where
  "EnqueueACK cfg s opt m =
     (let m = (case opt of
        ACK_OPT_NOW \<Rightarrow> (if uint (ack_cnt (sndvar (m_streams m s))) < uint (ack_cnt (sndvar (m_streams m s))) + 1
                        then upd_snd s (\<lambda>v. v\<lparr>ack_cnt := ack_cnt v + 1\<rparr>) m else m)
      | ACK_OPT_AGGREGATE \<Rightarrow> (if ack_cnt (sndvar (m_streams m s)) = 0
                              then upd_snd s (\<lambda>v. v\<lparr>ack_cnt := 1\<rparr>) m else m)
      | ACK_OPT_WACK \<Rightarrow> upd_snd s (\<lambda>v. v\<lparr>is_wack := True\<rparr>) m)
      in AddtoACKList cfg s m)"

section \<open>Timer lists\<close>

definition RTO_HASH :: int where "RTO_HASH = 3000"

definition InitRTOHashstore :: "bool \<Rightarrow> rto_hashstore option" where
  "InitRTOHashstore calloc_ok =
     (if calloc_ok then Some \<lparr>rto_now_idx = 0, rto_now_ts = 0, rto_list = (\<lambda>_. [])\<rparr> else None)"

text \<open>The position that a difference of \<open>diff\<close> ticks from now has in the store: the addition is one of
  unsigned integers.\<close>

definition rto_offset :: "rto_hashstore \<Rightarrow> int \<Rightarrow> nat" where
  "rto_offset rs diff = unat ((word_of_int diff + rto_now_idx rs) mod 3000)"

definition rto_insert :: "nat \<Rightarrow> nat \<Rightarrow> mtcp_manager \<Rightarrow> mtcp_manager option" where
  "rto_insert i s m = do {
     let m = upd_stream s (\<lambda>x. x\<lparr>on_rto_idx := int i\<rparr>) m;
     q \<leftarrow> tailq_insert_tail (rto_list (m_rto_store m) i) s;
     Some (upd_rto (\<lambda>rs. rs\<lparr>rto_list := (rto_list rs)(i := q)\<rparr>) m)
   }"

definition AddtoRTOList :: "nat \<Rightarrow> mtcp_manager \<Rightarrow> mtcp_manager option" where
  "AddtoRTOList s m =
     (let m = (if m_rto_list_cnt m = 0
               then upd_rto (\<lambda>rs. rs\<lparr>rto_now_idx := 0, rto_now_ts := ts_rto (sndvar (m_streams m s))\<rparr>) m else m)
      in if on_rto_idx (m_streams m s) < 0 then
           (if on_timewait_list (m_streams m s) then Some m
            else
              let diff = sint (ts_rto (sndvar (m_streams m s)) - rto_now_ts (m_rto_store m)) in do {
                m \<leftarrow> rto_insert (if diff < RTO_HASH then rto_offset (m_rto_store m) diff else nat RTO_HASH) s m;
                Some (m\<lparr>m_rto_list_cnt := m_rto_list_cnt m + 1\<rparr>)
              })
         else Some m)"

definition RemoveFromRTOList :: "nat \<Rightarrow> mtcp_manager \<Rightarrow> mtcp_manager option" where
  "RemoveFromRTOList s m =
     (if on_rto_idx (m_streams m s) < 0 then Some m
      else
        let i = nat (on_rto_idx (m_streams m s)) in do {
          q \<leftarrow> tailq_remove (rto_list (m_rto_store m) i) s;
          let m = upd_rto (\<lambda>rs. rs\<lparr>rto_list := (rto_list rs)(i := q)\<rparr>) m;
          let m = upd_stream s (\<lambda>x. x\<lparr>on_rto_idx := - 1\<rparr>) m;
          Some (m\<lparr>m_rto_list_cnt := m_rto_list_cnt m - 1\<rparr>)
        })"

definition AddtoTimewaitList :: "mtcp_config \<Rightarrow> nat \<Rightarrow> u32 \<Rightarrow> mtcp_manager \<Rightarrow> mtcp_manager option" where
  "AddtoTimewaitList cfg s cur_ts m =
     (let m = upd_rcv s (\<lambda>v. v\<lparr>ts_tw_expire := cur_ts + word_of_int (c_tcp_timewait cfg)\<rparr>) m in
      if on_timewait_list (m_streams m s) then do {
        q \<leftarrow> tailq_remove (m_timewait_list m) s;
        q \<leftarrow> tailq_insert_tail q s;
        Some (m\<lparr>m_timewait_list := q\<rparr>)
      } else do {
        m \<leftarrow> (if on_rto_idx (m_streams m s) \<ge> 0 then RemoveFromRTOList s m else Some m);
        let m = upd_stream s (\<lambda>x. x\<lparr>on_timewait_list := True\<rparr>) m;
        q \<leftarrow> tailq_insert_tail (m_timewait_list m) s;
        Some (m\<lparr>m_timewait_list := q, m_timewait_list_cnt := m_timewait_list_cnt m + 1\<rparr>)
      })"

definition RemoveFromTimewaitList :: "nat \<Rightarrow> mtcp_manager \<Rightarrow> mtcp_manager option" where
  "RemoveFromTimewaitList s m =
     (if \<not> on_timewait_list (m_streams m s) then Some m
      else do {
        q \<leftarrow> tailq_remove (m_timewait_list m) s;
        let m = upd_stream s (\<lambda>x. x\<lparr>on_timewait_list := False\<rparr>) m;
        Some (m\<lparr>m_timewait_list := q, m_timewait_list_cnt := m_timewait_list_cnt m - 1\<rparr>)
      })"

definition AddtoTimeoutList :: "nat \<Rightarrow> mtcp_manager \<Rightarrow> mtcp_manager option" where
  "AddtoTimeoutList s m =
     (if on_timeout_list (m_streams m s) then Some m
      else do {
        let m = upd_stream s (\<lambda>x. x\<lparr>on_timeout_list := True\<rparr>) m;
        q \<leftarrow> tailq_insert_tail (m_timeout_list m) s;
        Some (m\<lparr>m_timeout_list := q, m_timeout_list_cnt := m_timeout_list_cnt m + 1\<rparr>)
      })"

definition RemoveFromTimeoutList :: "nat \<Rightarrow> mtcp_manager \<Rightarrow> mtcp_manager option" where
  "RemoveFromTimeoutList s m =
     (if on_timeout_list (m_streams m s) then do {
        let m = upd_stream s (\<lambda>x. x\<lparr>on_timeout_list := False\<rparr>) m;
        q \<leftarrow> tailq_remove (m_timeout_list m) s;
        Some (m\<lparr>m_timeout_list := q, m_timeout_list_cnt := m_timeout_list_cnt m - 1\<rparr>)
      } else Some m)"

definition UpdateTimeoutList :: "nat \<Rightarrow> mtcp_manager \<Rightarrow> mtcp_manager option" where
  "UpdateTimeoutList s m =
     (if on_timeout_list (m_streams m s) then do {
        q \<leftarrow> tailq_remove (m_timeout_list m) s;
        q \<leftarrow> tailq_insert_tail q s;
        Some (m\<lparr>m_timeout_list := q\<rparr>)
      } else Some m)"

definition UpdateRetransmissionTimer :: "nat \<Rightarrow> u32 \<Rightarrow> mtcp_manager \<Rightarrow> mtcp_manager option" where
  "UpdateRetransmissionTimer s cur_ts m =
     (if rto (sndvar (m_streams m s)) = 0 then None
      else do {
        let m = upd_snd s (\<lambda>v. v\<lparr>nrtx := 0\<rparr>) m;
        m \<leftarrow> (if on_rto_idx (m_streams m s) \<ge> 0 then RemoveFromRTOList s m else Some m);
        if TCP_SEQ_GT (snd_nxt (m_streams m s)) (snd_una (sndvar (m_streams m s))) then do {
          let m = upd_snd s (\<lambda>v. v\<lparr>ts_rto := cur_ts + rto v\<rparr>) m;
          AddtoRTOList s m
        } else Some m
      })"

end
