(* ===== verification/Tcp_Stream.thy ===== *)
theory Tcp_Stream
  imports Stream_Lists
begin

text \<open>
  Creation and destruction of streams (tcp_stream.c). A stream takes one chunk of each of the three
  pools and an entry in the flow table; destruction takes it off every list, gives the buffers,
  the chunks and the address back.
\<close>

definition TCP_MAX_SEQ :: u32 where "TCP_MAX_SEQ = 4294967295"

text \<open>The fields that \<open>CreateTCPStream\<close> sets once the stream is in the flow table.\<close>

definition init_stream ::
    "mtcp_config \<Rightarrow> nat option \<Rightarrow> u8 \<Rightarrow> int \<Rightarrow> bool \<Rightarrow> u32 \<Rightarrow> tcp_stream \<Rightarrow> tcp_stream" where
  "init_stream cfg socket type nif is_ext iss0 x =
     x\<lparr>s_socket := (case socket of Some k \<Rightarrow> Some k | None \<Rightarrow> s_socket x), stream_type := type,
       s_state := TCP_ST_LISTEN, on_rto_idx := - 1,
       sndvar := (sndvar x)\<lparr>ip_id := 0, mss := TCP_DEFAULT_MSS, wscale_mine := TCP_DEFAULT_WSCALE,
         wscale_peer := 0, nif_out := nif, iss := iss0, snd_una := iss0,
         snd_wnd := word_of_int (c_sndbuf_size cfg), rto := TCP_INITIAL_RTO\<rparr>,
       is_external := is_ext, snd_nxt := iss0, rcv_nxt := 0,
       rcvvar := (rcvvar x)\<lparr>irs := 0, rcv_wnd := TCP_INITIAL_WINDOW, snd_wl1 := 0 - 1\<rparr>\<rparr>"

definition set_sock_obj :: "nat option \<Rightarrow> socket_obj \<Rightarrow> mtcp_manager \<Rightarrow> mtcp_manager" where
  "set_sock_obj socket ob m =
     (case socket of
        Some k \<Rightarrow> m\<lparr>m_smap := (m_smap m)(k := (m_smap m k)\<lparr>so_obj := ob\<rparr>)\<rparr>
      | None \<Rightarrow> m)"

text \<open>The inner \<^const>\<open>None\<close> is the result NULL. \<open>StreamHTInsert\<close> has no failing result, so the branch that
  handles one frees what it frees in the source: the stream, and not its variables.\<close>

definition CreateTCPStream ::
    "mtcp_config \<Rightarrow> nat option \<Rightarrow> u8 \<Rightarrow> u32 \<Rightarrow> u16 \<Rightarrow> u32 \<Rightarrow> u16 \<Rightarrow> mtcp_manager \<Rightarrow> (nat option \<times> mtcp_manager) option" where
  "CreateTCPStream cfg socket type saddr sport daddr dport m = do {
     (c, fp) \<leftarrow> MPAllocateChunk (m_flow_pool m);
     let m = m\<lparr>m_flow_pool := fp\<rparr>;
     (case c of
        None \<Rightarrow> Some (None, m)
      | Some s \<Rightarrow> do {
          (rc, rp) \<leftarrow> MPAllocateChunk (m_rv_pool m);
          let m = m\<lparr>m_rv_pool := rp\<rparr>;
          (case rc of
             None \<Rightarrow> do { fp \<leftarrow> MPFreeChunk (m_flow_pool m) s; Some (None, m\<lparr>m_flow_pool := fp\<rparr>) }
           | Some r \<Rightarrow> do {
               (vc, vp) \<leftarrow> MPAllocateChunk (m_sv_pool m);
               let m = m\<lparr>m_sv_pool := vp\<rparr>;
               (case vc of
                  None \<Rightarrow> do {
                    rp \<leftarrow> MPFreeChunk (m_rv_pool m) r;
                    fp \<leftarrow> MPFreeChunk (m_flow_pool m) s;
                    Some (None, m\<lparr>m_rv_pool := rp, m_flow_pool := fp\<rparr>)
                  }
                | Some v \<Rightarrow> do {
                    let m = upd_stream s (\<lambda>_. zero_stream\<lparr>rv_chunk := r, sv_chunk := v, s_id := ucast (m_g_id m),
                              s_saddr := saddr, s_sport := sport, s_daddr := daddr, s_dport := dport\<rparr>) m;
                    let m = m\<lparr>m_g_id := m_g_id m + 1\<rparr>;
                    (ret, ht, streams) \<leftarrow> StreamHTInsert (m_flow_table m) (m_streams m) s;
                    let m = m\<lparr>m_flow_table := ht, m_streams := streams\<rparr>;
                    if ret < 0 then do { fp \<leftarrow> MPFreeChunk (m_flow_pool m) s; Some (None, m\<lparr>m_flow_pool := fp\<rparr>) }
                    else do {
                      let m = upd_stream s (\<lambda>x. x\<lparr>on_hash_table := True\<rparr>) m;
                      let m = m\<lparr>m_flow_cnt := m_flow_cnt m + 1\<rparr>;
                      let m = set_sock_obj socket (StreamObj s) m;
                      let (nif, is_ext) = GetOutputInterface cfg daddr;
                      let (rnd, m) = next_rand m;
                      Some (Some s, upd_stream s (init_stream cfg socket type nif is_ext (rnd mod TCP_MAX_SEQ)) m)
                    }
                  })
             })
        })
   }"

text \<open>Returning the address of a bound stream to the pool of the core or of the interface.\<close>

definition free_bound_addr :: "mtcp_config \<Rightarrow> sockaddr \<Rightarrow> mtcp_manager \<Rightarrow> mtcp_manager option" where
  "free_bound_addr cfg addr m =
     (case m_ap m of
        Some ap \<Rightarrow> do { (r, apo) \<leftarrow> FreeAddress (Some ap) addr; Some (m\<lparr>m_ap := apo\<rparr>) }
      | None \<Rightarrow>
          (let (nif, is_ext) = GetOutputInterface cfg (fst addr) in
           if nif < 0 then Some m
           else do {
             eidx \<leftarrow> arr_at (c_nif_to_eidx cfg) nif;
             if eidx < 0 then None
             else do {
               (r, apo) \<leftarrow> FreeAddress (m_aps m (nat eidx)) addr;
               Some (m\<lparr>m_aps := (m_aps m)(nat eidx := apo)\<rparr>)
             }
           }))"

definition DestroyTCPStream :: "mtcp_config \<Rightarrow> nat \<Rightarrow> mtcp_manager \<Rightarrow> mtcp_manager option" where
  "DestroyTCPStream cfg s m = do {
     let bound_addr = is_bound_addr (m_streams m s);
     let addr = (s_saddr (m_streams m s), s_sport (m_streams m s));
     m \<leftarrow> RemoveFromControlList cfg s m;
     m \<leftarrow> RemoveFromSendList cfg s m;
     m \<leftarrow> RemoveFromACKList cfg s m;
     m \<leftarrow> (if on_rto_idx (m_streams m s) \<ge> 0 then RemoveFromRTOList s m else Some m);
     m \<leftarrow> (if on_timewait_list (m_streams m s) then RemoveFromTimewaitList s m else Some m);
     m \<leftarrow> (if c_tcp_timeout cfg > 0 then RemoveFromTimeoutList s m else Some m);
     if \<not> on_hash_table (m_streams m s) then None
     else do {
       m \<leftarrow> (case sndbuf (sndvar (m_streams m s)) of
               Some b \<Rightarrow> do {
                 sbm \<leftarrow> SBFree (m_rbm_snd m) (Some b);
                 Some (upd_snd s (\<lambda>v. v\<lparr>sndbuf := None\<rparr>) (m\<lparr>m_rbm_snd := sbm\<rparr>))
               }
             | None \<Rightarrow> Some m);
       m \<leftarrow> (case rcvbuf (rcvvar (m_streams m s)) of
               Some b \<Rightarrow> do {
                 rbm \<leftarrow> RBFree (m_rbm_rcv m) b;
                 Some (upd_rcv s (\<lambda>v. v\<lparr>rcvbuf := None\<rparr>) (m\<lparr>m_rbm_rcv := rbm\<rparr>))
               }
             | None \<Rightarrow> Some m);
       ht \<leftarrow> StreamHTRemove (m_flow_table m) (m_streams m) s;
       let m = upd_stream s (\<lambda>x. x\<lparr>on_hash_table := False\<rparr>) (m\<lparr>m_flow_table := ht\<rparr>);
       let m = m\<lparr>m_flow_cnt := m_flow_cnt m - 1\<rparr>;
       rp \<leftarrow> MPFreeChunk (m_rv_pool m) (rv_chunk (m_streams m s));
       vp \<leftarrow> MPFreeChunk (m_sv_pool m) (sv_chunk (m_streams m s));
       fp \<leftarrow> MPFreeChunk (m_flow_pool m) s;
       let m = m\<lparr>m_rv_pool := rp, m_sv_pool := vp, m_flow_pool := fp\<rparr>;
       if bound_addr then free_bound_addr cfg addr m else Some m
     }
   }"

end
