(* ===== verification/Tcp_Out.thy ===== *)
theory Tcp_Out
  imports Tcp_Stream
begin

text \<open>
  TCP output (tcp_out.c): building and sending segments, the flush of a send buffer within the
  windows, the control packets of each state, and the three lists of a sender.
\<close>

section \<open>Segments\<close>

definition shr32 :: "u32 \<Rightarrow> nat \<Rightarrow> u32 option" where
  "shr32 x n = (if n < 32 then Some (drop_bit n x) else None)"

text \<open>The segment with its checksum, unless the card computes it.\<close>

definition tcp_segment ::
    "tcphdr \<Rightarrow> byte list \<Rightarrow> byte list \<Rightarrow> u32 \<Rightarrow> u32 \<Rightarrow> int \<Rightarrow> mtcp_manager \<Rightarrow> (byte list \<times> bool) option" where
  "tcp_segment h opts payload saddr daddr nif m =
     (let seg = \<lambda>check. tcphdr_bytes (h\<lparr>th_check := check\<rparr>) @ opts @ payload in
      if io_ioctl m nif PKT_TX_TCPIP_CSUM = - 1 then do {
        c \<leftarrow> TCPCalcChecksum (seg 0) (word_of_nat (length (seg 0))) saddr daddr;
        Some (seg c, False)
      } else Some (seg 0, True))"

definition SendTCPPacketStandalone ::
    "mtcp_config \<Rightarrow> u32 \<Rightarrow> u16 \<Rightarrow> u32 \<Rightarrow> u16 \<Rightarrow> u32 \<Rightarrow> u32 \<Rightarrow> u16 \<Rightarrow> u8 \<Rightarrow> byte list \<Rightarrow> u16 \<Rightarrow> u32 \<Rightarrow> u32 \<Rightarrow>
     mtcp_manager \<Rightarrow> (int \<times> mtcp_manager) option" where
  "SendTCPPacketStandalone cfg saddr sport daddr dport seq ack_seq window flags payload payloadlen cur_ts
      echo_ts m = do {
     optlen \<leftarrow> CalculateOptionLength flags;
     if unat payloadlen + optlen > unat TCP_DEFAULT_MSS then Some (- 1, m)
     else do {
       (w, m) \<leftarrow> IPOutputStandalone cfg (ucast IPPROTO_TCP) 0 saddr daddr
                   (word_of_nat TCP_HEADER_LEN + word_of_nat optlen + payloadlen) m;
       (case w of
          None \<Rightarrow> Some (- 1, m)
        | Some (w, ip_off) \<Rightarrow> do {
            let h = \<lparr>th_source = sport, th_dest = dport, th_seq = seq,
                     th_ack_seq = (if has_flag flags TCP_FLAG_ACK then ack_seq else 0),
                     th_doff = (TCP_HEADER_LEN + optlen) div 4,
                     th_fin = has_flag flags TCP_FLAG_FIN, th_syn = has_flag flags TCP_FLAG_SYN,
                     th_rst = has_flag flags TCP_FLAG_RST, th_psh = has_flag flags TCP_FLAG_PSH,
                     th_ack = has_flag flags TCP_FLAG_ACK,
                     th_window = (if ucast window < TCP_MAX_WINDOW then window else ucast TCP_MAX_WINDOW),
                     th_check = 0\<rparr>;
            opts \<leftarrow> memcpy_at (replicate optlen 0) 0
                     ([TCP_OPT_NOP, TCP_OPT_NOP, TCP_OPT_TIMESTAMP, word_of_nat TCP_OPT_TIMESTAMP_LEN]
                      @ be32_bytes cur_ts @ be32_bytes echo_ts);
            data \<leftarrow> read_at payload 0 (unat payloadlen);
            (seg, l4_off) \<leftarrow> tcp_segment h opts data saddr daddr (fst (GetOutputInterface cfg daddr)) m;
            m \<leftarrow> put_frame w seg ip_off l4_off m;
            let payloadlen = (if th_syn h \<or> th_fin h then payloadlen + 1 else payloadlen);
            Some (int (unat payloadlen), m)
          })
     }
   }"

text \<open>The header of a segment of the stream \<open>st\<close>; the sequence number depends on the kind of segment.\<close>

definition stream_header :: "tcp_stream \<Rightarrow> u8 \<Rightarrow> nat \<Rightarrow> u32 \<Rightarrow> tcphdr" where
  "stream_header st flags optlen window32 =
     (let wack = has_flag flags TCP_FLAG_WACK; fin = has_flag flags TCP_FLAG_FIN in
      \<lparr>th_source = s_sport st, th_dest = s_dport st,
       th_seq = (if wack then snd_nxt st - 1 else if fin then fss (sndvar st) else snd_nxt st),
       th_ack_seq = (if has_flag flags TCP_FLAG_ACK then rcv_nxt st else 0),
       th_doff = (TCP_HEADER_LEN + optlen) div 4,
       th_fin = (fin \<and> \<not> wack), th_syn = has_flag flags TCP_FLAG_SYN,
       th_rst = has_flag flags TCP_FLAG_RST, th_psh = has_flag flags TCP_FLAG_PSH,
       th_ack = has_flag flags TCP_FLAG_ACK,
       th_window = ucast (if window32 < TCP_MAX_WINDOW then window32 else TCP_MAX_WINDOW), th_check = 0\<rparr>)"

definition SendTCPPacket ::
    "mtcp_config \<Rightarrow> nat \<Rightarrow> u32 \<Rightarrow> u8 \<Rightarrow> byte list \<Rightarrow> u16 \<Rightarrow> mtcp_manager \<Rightarrow> (int \<times> mtcp_manager) option" where
  "SendTCPPacket cfg s cur_ts flags payload payloadlen m = do {
     optlen \<leftarrow> CalculateOptionLength flags;
     if unat payloadlen + optlen > unat (mss (sndvar (m_streams m s))) then Some (- 1, m)
     else do {
       (w, m) \<leftarrow> IPOutput cfg s (word_of_nat TCP_HEADER_LEN + word_of_nat optlen + payloadlen) m;
       (case w of
          None \<Rightarrow> Some (- 2, m)
        | Some (w, ip_off) \<Rightarrow> do {
            let m = (if has_flag flags TCP_FLAG_FIN \<and> \<not> has_flag flags TCP_FLAG_WACK
                     then upd_snd s (\<lambda>v. v\<lparr>is_fin_sent := True\<rparr>) m else m);
            m \<leftarrow> (if has_flag flags TCP_FLAG_ACK
                   then UpdateTimeoutList s (upd_stream s (\<lambda>x. x\<lparr>last_active_ts := cur_ts\<rparr>)
                          (upd_snd s (\<lambda>v. v\<lparr>ts_lastack_sent := cur_ts\<rparr>) m))
                   else Some m);
            let wscale = (if has_flag flags TCP_FLAG_SYN then 0 else wscale_mine (sndvar (m_streams m s)));
            window32 \<leftarrow> shr32 (rcv_wnd (rcvvar (m_streams m s))) (unat wscale);
            let m = (if window32 = 0 then upd_stream s (\<lambda>x. x\<lparr>need_wnd_adv := True\<rparr>) m else m);
            let st = m_streams m s;
            opts \<leftarrow> GenerateTCPOptions st cur_ts flags optlen;
            let h = stream_header st flags optlen window32;
            data \<leftarrow> read_at payload 0 (unat payloadlen);
            (seg, l4_off) \<leftarrow> tcp_segment h opts data (s_saddr st) (s_daddr st) (nif_out (sndvar st)) m;
            m \<leftarrow> put_frame w seg ip_off l4_off m;
            let m = upd_stream s (\<lambda>x. x\<lparr>snd_nxt := snd_nxt x + ucast payloadlen\<rparr>) m;
            let m = (if th_syn h \<or> th_fin h then upd_stream s (\<lambda>x. x\<lparr>snd_nxt := snd_nxt x + 1\<rparr>) m else m);
            let payloadlen = (if th_syn h \<or> th_fin h then payloadlen + 1 else payloadlen);
            m \<leftarrow> (if payloadlen > 0
                   then AddtoRTOList s (upd_snd s (\<lambda>v. v\<lparr>ts_rto := cur_ts + rto v\<rparr>) m) else Some m);
            Some (int (unat payloadlen), m)
          })
     }
   }"

section \<open>Flushing the send buffer\<close>

text \<open>The loop of \<open>FlushTCPSendingBuffer\<close>, which sends one segment after the other until the data or
  the window is used up. \<^const>\<open>None\<close> is also a loop that does not end.\<close>

partial_function (option) FlushTCPSendingBuffer_loop ::
    "mtcp_config \<Rightarrow> nat \<Rightarrow> u32 \<Rightarrow> int \<Rightarrow> mtcp_manager \<Rightarrow> (int \<times> mtcp_manager) option" where
  "FlushTCPSendingBuffer_loop cfg s cur_ts packets m =
     (let st = m_streams m s; sv = sndvar st; seq = snd_nxt st in
      case sndbuf sv of
        None \<Rightarrow> None
      | Some b \<Rightarrow>
          (if TCP_SEQ_LT seq (sb_head_seq b) then Some (packets, m)
           else if TCP_SEQ_LT seq (snd_una sv) then Some (packets, m)
           else if sb_len b < seq - sb_head_seq b then Some (packets, m)
           else if sb_len b - (seq - sb_head_seq b) = 0 then Some (packets, m)
           else
             let len = sb_len b - (seq - sb_head_seq b);
                 remaining_window = sint (min (cwnd sv) (peer_wnd sv) - (seq - snd_una sv))
             in if remaining_window \<le> 0
                   \<or> (remaining_window < int (unat (mss sv)) \<and> seq - snd_una sv > 0) then
                  (if peer_wnd sv \<le> cwnd sv \<and> TS_TO_MSEC (cur_ts - ts_lastack_sent sv) > 500
                   then do { m \<leftarrow> EnqueueACK cfg s ACK_OPT_WACK m; Some (- 3, m) }
                   else Some (- 3, m))
                else do {
                  optlen \<leftarrow> CalculateOptionLength TCP_FLAG_ACK;
                  let len = min len (word_of_int remaining_window);
                  let pkt_len = min len (word_of_int (int (unat (mss sv)) - int optlen));
                  let pl = (ucast pkt_len :: u16);
                  data \<leftarrow> read_at (sb_data b) (sb_head b + unat (seq - sb_head_seq b)) (unat pl);
                  r \<leftarrow> SendTCPPacket cfg s cur_ts TCP_FLAG_ACK data pl m;
                  if fst r < 0 then Some (- 3, snd r)
                  else FlushTCPSendingBuffer_loop cfg s cur_ts (packets + 1) (snd r)
                }))"

definition FlushTCPSendingBuffer :: "mtcp_config \<Rightarrow> nat \<Rightarrow> u32 \<Rightarrow> mtcp_manager \<Rightarrow> (int \<times> mtcp_manager) option" where
  "FlushTCPSendingBuffer cfg s cur_ts m =
     (case sndbuf (sndvar (m_streams m s)) of
        None \<Rightarrow> Some (0, m)
      | Some b \<Rightarrow> (if sb_len b = 0 then Some (0, m) else FlushTCPSendingBuffer_loop cfg s cur_ts 0 m))"

section \<open>Control packets\<close>

definition SendControlPacket :: "mtcp_config \<Rightarrow> nat \<Rightarrow> u32 \<Rightarrow> mtcp_manager \<Rightarrow> (int \<times> mtcp_manager) option" where
  "SendControlPacket cfg s cur_ts m =
     (let sv = sndvar (m_streams m s);
          busy = (on_send_list sv \<or> on_ack_list sv);
          send = (\<lambda>flags m. SendTCPPacket cfg s cur_ts flags [] 0 m)
      in case s_state (m_streams m s) of
        TCP_ST_SYN_SENT \<Rightarrow> send TCP_FLAG_SYN m
      | TCP_ST_SYN_RCVD \<Rightarrow> send (TCP_FLAG_SYN OR TCP_FLAG_ACK) (upd_stream s (\<lambda>x. x\<lparr>snd_nxt := iss sv\<rparr>) m)
      | TCP_ST_ESTABLISHED \<Rightarrow> send TCP_FLAG_ACK m
      | TCP_ST_CLOSE_WAIT \<Rightarrow> send TCP_FLAG_ACK m
      | TCP_ST_LAST_ACK \<Rightarrow> (if busy then Some (- 1, m) else send (TCP_FLAG_FIN OR TCP_FLAG_ACK) m)
      | TCP_ST_FIN_WAIT_1 \<Rightarrow> (if busy then Some (- 1, m) else send (TCP_FLAG_FIN OR TCP_FLAG_ACK) m)
      | TCP_ST_FIN_WAIT_2 \<Rightarrow> send TCP_FLAG_ACK m
      | TCP_ST_CLOSING \<Rightarrow>
          (if is_fin_sent sv then
             (if snd_nxt (m_streams m s) = fss sv then send (TCP_FLAG_FIN OR TCP_FLAG_ACK) m
              else send TCP_FLAG_ACK m)
           else send (TCP_FLAG_FIN OR TCP_FLAG_ACK) m)
      | TCP_ST_TIME_WAIT \<Rightarrow> send TCP_FLAG_ACK m
      | TCP_ST_CLOSED \<Rightarrow>
          (if busy then Some (- 1, m)
           else do {
             (ret, m) \<leftarrow> send TCP_FLAG_RST m;
             if ret \<ge> 0 then do { m \<leftarrow> DestroyTCPStream cfg s m; Some (ret, m) } else Some (ret, m)
           })
      | TCP_ST_LISTEN \<Rightarrow> Some (0, m))"

section \<open>The lists of a sender\<close>

text \<open>One turn of each loop: the result says whether the loop goes on. The first argument of the loops
  is the number of turns that \<open>thresh\<close> still allows; \<open>cnt\<close> counts as in the source.\<close>

definition control_turn :: "mtcp_config \<Rightarrow> sender_id \<Rightarrow> u32 \<Rightarrow> nat \<Rightarrow> mtcp_manager \<Rightarrow> (bool \<times> mtcp_manager) option" where
  "control_turn cfg k cur_ts s m = do {
     q \<leftarrow> tailq_remove (control_list (m_senders m k)) s;
     let m = upd_sender k (\<lambda>sd. sd\<lparr>control_list := q, control_list_cnt := control_list_cnt sd - 1\<rparr>) m;
     if on_control_list (sndvar (m_streams m s)) then do {
       let m = upd_snd s (\<lambda>v. v\<lparr>on_control_list := False\<rparr>) m;
       (ret, m) \<leftarrow> SendControlPacket cfg s cur_ts m;
       if ret = - 2 then do {
         q \<leftarrow> tailq_insert_head (control_list (m_senders m k)) s;
         let m = upd_snd s (\<lambda>v. v\<lparr>on_control_list := True\<rparr>) m;
         Some (False, upd_sender k (\<lambda>sd. sd\<lparr>control_list := q, control_list_cnt := control_list_cnt sd + 1\<rparr>) m)
       } else if ret < 0 then do {
         q \<leftarrow> tailq_insert_tail (control_list (m_senders m k)) s;
         let m = upd_snd s (\<lambda>v. v\<lparr>on_control_list := True\<rparr>) m;
         Some (True, upd_sender k (\<lambda>sd. sd\<lparr>control_list := q, control_list_cnt := control_list_cnt sd + 1\<rparr>) m)
       } else Some (True, m)
     } else Some (True, m)
   }"

fun control_loop ::
    "nat \<Rightarrow> mtcp_config \<Rightarrow> sender_id \<Rightarrow> u32 \<Rightarrow> nat option \<Rightarrow> nat option \<Rightarrow> int \<Rightarrow> mtcp_manager \<Rightarrow> (int \<times> mtcp_manager) option" where
  "control_loop n cfg k cur_ts lst None cnt m = Some (cnt, m)"
| "control_loop 0 cfg k cur_ts lst (Some s) cnt m = Some (cnt + 1, m)"
| "control_loop (Suc n) cfg k cur_ts lst (Some s) cnt m = do {
     let next = tailq_next (control_list (m_senders m k)) s;
     (go, m) \<leftarrow> control_turn cfg k cur_ts s m;
     if \<not> go \<or> lst = Some s then Some (cnt + 1, m)
     else control_loop n cfg k cur_ts lst next (cnt + 1) m
   }"

definition WriteTCPControlList ::
    "mtcp_config \<Rightarrow> sender_id \<Rightarrow> u32 \<Rightarrow> int \<Rightarrow> mtcp_manager \<Rightarrow> (int \<times> mtcp_manager) option" where
  "WriteTCPControlList cfg k cur_ts thresh m =
     (let thresh = min thresh (control_list_cnt (m_senders m k)); q = control_list (m_senders m k)
      in control_loop (nat thresh) cfg k cur_ts (tailq_last q) (tailq_first q) 0 m)"

definition data_turn :: "mtcp_config \<Rightarrow> sender_id \<Rightarrow> u32 \<Rightarrow> nat \<Rightarrow> mtcp_manager \<Rightarrow> (bool \<times> mtcp_manager) option" where
  "data_turn cfg k cur_ts s m = do {
     q \<leftarrow> tailq_remove (send_list (m_senders m k)) s;
     let m = upd_sender k (\<lambda>sd. sd\<lparr>send_list := q\<rparr>) m;
     if on_send_list (sndvar (m_streams m s)) then do {
       (ret, m) \<leftarrow> (case s_state (m_streams m s) of
           TCP_ST_ESTABLISHED \<Rightarrow>
             (if on_control_list (sndvar (m_streams m s)) then Some (- 1, m)
              else FlushTCPSendingBuffer cfg s cur_ts m)
         | TCP_ST_CLOSE_WAIT \<Rightarrow> FlushTCPSendingBuffer cfg s cur_ts m
         | TCP_ST_FIN_WAIT_1 \<Rightarrow> FlushTCPSendingBuffer cfg s cur_ts m
         | TCP_ST_LAST_ACK \<Rightarrow> FlushTCPSendingBuffer cfg s cur_ts m
         | _ \<Rightarrow> Some (0, m));
       if ret < 0 then do {
         q \<leftarrow> tailq_insert_tail (send_list (m_senders m k)) s;
         Some (False, upd_sender k (\<lambda>sd. sd\<lparr>send_list := q\<rparr>) m)
       } else do {
         let m = upd_snd s (\<lambda>v. v\<lparr>on_send_list := False\<rparr>) m;
         let m = upd_sender k (\<lambda>sd. sd\<lparr>send_list_cnt := send_list_cnt sd - 1\<rparr>) m;
         let m = (if ack_cnt (sndvar (m_streams m s)) > 0
                  then upd_snd s (\<lambda>v. v\<lparr>ack_cnt := (if uint (ack_cnt v) > ret then ack_cnt v - word_of_int ret else 0)\<rparr>) m
                  else m);
         m \<leftarrow> (if control_list_waiting (m_streams m s) \<and> \<not> on_ack_list (sndvar (m_streams m s))
                then AddtoControlList cfg s (upd_stream s (\<lambda>x. x\<lparr>control_list_waiting := False\<rparr>) m)
                else Some m);
         Some (True, m)
       }
     } else Some (True, m)
   }"

fun data_loop ::
    "nat \<Rightarrow> mtcp_config \<Rightarrow> sender_id \<Rightarrow> u32 \<Rightarrow> nat option \<Rightarrow> nat option \<Rightarrow> int \<Rightarrow> mtcp_manager \<Rightarrow> (int \<times> mtcp_manager) option" where
  "data_loop n cfg k cur_ts lst None cnt m = Some (cnt, m)"
| "data_loop 0 cfg k cur_ts lst (Some s) cnt m = Some (cnt + 1, m)"
| "data_loop (Suc n) cfg k cur_ts lst (Some s) cnt m = do {
     let next = tailq_next (send_list (m_senders m k)) s;
     (go, m) \<leftarrow> data_turn cfg k cur_ts s m;
     if \<not> go \<or> lst = Some s then Some (cnt + 1, m)
     else data_loop n cfg k cur_ts lst next (cnt + 1) m
   }"

definition WriteTCPDataList ::
    "mtcp_config \<Rightarrow> sender_id \<Rightarrow> u32 \<Rightarrow> int \<Rightarrow> mtcp_manager \<Rightarrow> (int \<times> mtcp_manager) option" where
  "WriteTCPDataList cfg k cur_ts thresh m =
     (let q = send_list (m_senders m k)
      in data_loop (nat thresh) cfg k cur_ts (tailq_last q) (tailq_first q) 0 m)"

text \<open>The queued acknowledgements of a stream. Each turn takes one off the six-bit counter, so 63
  turns are enough.\<close>

fun send_acks :: "nat \<Rightarrow> mtcp_config \<Rightarrow> nat \<Rightarrow> u32 \<Rightarrow> mtcp_manager \<Rightarrow> mtcp_manager option" where
  "send_acks 0 cfg s cur_ts m = (if ack_cnt (sndvar (m_streams m s)) > 0 then None else Some m)"
| "send_acks (Suc n) cfg s cur_ts m =
     (if ack_cnt (sndvar (m_streams m s)) > 0 then do {
        (ret, m) \<leftarrow> SendTCPPacket cfg s cur_ts TCP_FLAG_ACK [] 0 m;
        if ret < 0 then Some m
        else send_acks n cfg s cur_ts (upd_snd s (\<lambda>v. v\<lparr>ack_cnt := ack_cnt v - 1\<rparr>) m)
      } else Some m)"

definition remove_ack :: "sender_id \<Rightarrow> nat \<Rightarrow> mtcp_manager \<Rightarrow> mtcp_manager option" where
  "remove_ack k s m = do {
     q \<leftarrow> tailq_remove (ack_list (m_senders m k)) s;
     Some (upd_sender k (\<lambda>sd. sd\<lparr>ack_list := q, ack_list_cnt := ack_list_cnt sd - 1\<rparr>) m)
   }"

text \<open>Whether the stream has data to acknowledge.\<close>

definition to_ack :: "tcp_stream \<Rightarrow> bool" where
  "to_ack st \<longleftrightarrow>
     s_state st \<in> {TCP_ST_ESTABLISHED, TCP_ST_CLOSE_WAIT, TCP_ST_FIN_WAIT_1, TCP_ST_FIN_WAIT_2, TCP_ST_TIME_WAIT}
     \<and> (case rcvbuf (rcvvar st) of
          Some b \<Rightarrow> TCP_SEQ_LEQ (rcv_nxt st) (rb_head_seq b + word_of_int (rb_merged_len b))
        | None \<Rightarrow> False)"

definition ack_turn :: "mtcp_config \<Rightarrow> sender_id \<Rightarrow> u32 \<Rightarrow> nat \<Rightarrow> mtcp_manager \<Rightarrow> mtcp_manager option" where
  "ack_turn cfg k cur_ts s m =
     (if on_ack_list (sndvar (m_streams m s)) then do {
        m \<leftarrow> (if to_ack (m_streams m s) then do {
                m \<leftarrow> send_acks 63 cfg s cur_ts m;
                m \<leftarrow> (if is_wack (sndvar (m_streams m s)) then do {
                        let m = upd_snd s (\<lambda>v. v\<lparr>is_wack := False\<rparr>) m;
                        (ret, m) \<leftarrow> SendTCPPacket cfg s cur_ts (TCP_FLAG_ACK OR TCP_FLAG_WACK) [] 0 m;
                        Some (if ret < 0 then upd_snd s (\<lambda>v. v\<lparr>is_wack := True\<rparr>) m else m)
                      } else Some m);
                if \<not> (ack_cnt (sndvar (m_streams m s)) \<noteq> 0 \<or> is_wack (sndvar (m_streams m s)))
                then remove_ack k s (upd_snd s (\<lambda>v. v\<lparr>on_ack_list := False\<rparr>) m)
                else Some m
              } else remove_ack k s (upd_snd s (\<lambda>v. v\<lparr>on_ack_list := False, ack_cnt := 0, is_wack := False\<rparr>) m));
        if control_list_waiting (m_streams m s) \<and> \<not> on_send_list (sndvar (m_streams m s))
        then AddtoControlList cfg s (upd_stream s (\<lambda>x. x\<lparr>control_list_waiting := False\<rparr>) m)
        else Some m
      } else remove_ack k s m)"

fun ack_loop ::
    "nat \<Rightarrow> mtcp_config \<Rightarrow> sender_id \<Rightarrow> u32 \<Rightarrow> nat option \<Rightarrow> nat option \<Rightarrow> int \<Rightarrow> mtcp_manager \<Rightarrow> (int \<times> mtcp_manager) option" where
  "ack_loop n cfg k cur_ts lst None cnt m = Some (cnt, m)"
| "ack_loop 0 cfg k cur_ts lst (Some s) cnt m = Some (cnt + 1, m)"
| "ack_loop (Suc n) cfg k cur_ts lst (Some s) cnt m = do {
     let next = tailq_next (ack_list (m_senders m k)) s;
     m \<leftarrow> ack_turn cfg k cur_ts s m;
     if lst = Some s then Some (cnt + 1, m)
     else ack_loop n cfg k cur_ts lst next (cnt + 1) m
   }"

definition WriteTCPACKList ::
    "mtcp_config \<Rightarrow> sender_id \<Rightarrow> u32 \<Rightarrow> int \<Rightarrow> mtcp_manager \<Rightarrow> (int \<times> mtcp_manager) option" where
  "WriteTCPACKList cfg k cur_ts thresh m =
     (let q = ack_list (m_senders m k)
      in ack_loop (nat thresh) cfg k cur_ts (tailq_last q) (tailq_first q) 0 m)"

end
