(* ===== verification/Tcp_Timer.thy ===== *)
theory Tcp_Timer
  imports Tcp_Out
begin

text \<open>
  The timers (timer.c): retransmission timeouts with their backoff and limits, the hash store that
  finds the streams whose timer expires, the expiry of the timewait state and of idle connections.
\<close>

section \<open>Retransmission timeouts\<close>

text \<open>The connection is given up.\<close>

definition lose_stream :: "mtcp_config \<Rightarrow> nat \<Rightarrow> tcp_close_reason \<Rightarrow> mtcp_manager \<Rightarrow> mtcp_manager option" where
  "lose_stream cfg s reason m =
     (let m = upd_stream s (\<lambda>x. x\<lparr>s_state := TCP_ST_CLOSED, close_reason := reason\<rparr>) m in
      if s_socket (m_streams m s) \<noteq> None then RaiseErrorEvent s m else DestroyTCPStream cfg s m)"

text \<open>The next timeout and the reduced windows.\<close>

definition rto_backoff :: "tcp_stream \<Rightarrow> u32" where
  "rto_backoff st =
     (let sv = sndvar st; rv = rcvvar st in
      if s_state st \<ge> TCP_ST_ESTABLISHED then
        (let backoff = min (nrtx sv) TCP_MAX_BACKOFF;
             r = push_bit (unat backoff) (drop_bit 3 (srtt rv) + rttvar rv)
         in if r = 0 then rto sv else r)
      else if s_state st \<ge> TCP_ST_SYN_SENT \<and> nrtx sv < TCP_MAX_BACKOFF then push_bit 1 (rto sv)
      else rto sv)"

definition loss_window :: "tcp_send_vars \<Rightarrow> tcp_send_vars" where
  "loss_window v =
     (let th = min (cwnd v) (peer_wnd v) div 2
      in v\<lparr>ssthresh := (if th < 2 * ucast (mss v) then ucast (mss v) * 2 else th), cwnd := ucast (mss v)\<rparr>)"

text \<open>Where the stream goes so that the lost data, FIN or control packet is sent again.\<close>

definition queue_retransmission :: "mtcp_config \<Rightarrow> nat \<Rightarrow> mtcp_manager \<Rightarrow> mtcp_manager option" where
  "queue_retransmission cfg s m =
     (let m = upd_stream s (\<lambda>x. x\<lparr>snd_nxt := snd_una (sndvar x)\<rparr>) m; st = m_streams m s in
      if s_state st = TCP_ST_ESTABLISHED \<or> s_state st = TCP_ST_CLOSE_WAIT then AddtoSendList cfg s m
      else if s_state st \<in> {TCP_ST_FIN_WAIT_1, TCP_ST_CLOSING, TCP_ST_LAST_ACK} then
        (if TCP_SEQ_LT (snd_nxt st) (fss (sndvar st)) then do {
           m \<leftarrow> (if on_control_list (sndvar st) then RemoveFromControlList cfg s m else Some m);
           AddtoSendList cfg s (upd_stream s (\<lambda>x. x\<lparr>control_list_waiting := True\<rparr>) m)
         } else AddtoControlList cfg s m)
      else AddtoControlList cfg s m)"

definition HandleRTO :: "mtcp_config \<Rightarrow> u32 \<Rightarrow> nat \<Rightarrow> mtcp_manager \<Rightarrow> (int \<times> mtcp_manager) option" where
  "HandleRTO cfg cur_ts s m =
     (if rto (sndvar (m_streams m s)) = 0 then None
      else if close_reason (m_streams m s) \<noteq> TCP_NOT_CLOSED then Some (0, m)
      else if \<not> nrtx (sndvar (m_streams m s)) < TCP_MAX_RTX then
        (if s_state (m_streams m s) < TCP_ST_ESTABLISHED then do {
           m \<leftarrow> DestroyTCPStream cfg s
                 (upd_stream s (\<lambda>x. x\<lparr>s_state := TCP_ST_CLOSED, close_reason := TCP_CONN_FAIL\<rparr>) m);
           Some (- 1, m)
         } else do { m \<leftarrow> lose_stream cfg s TCP_CONN_LOST m; Some (- 1, m) })
      else
        let m = upd_snd s (\<lambda>v. v\<lparr>nrtx := nrtx v + 1\<rparr>) m;
            m = (if nrtx (sndvar (m_streams m s)) > max_nrtx (sndvar (m_streams m s))
                 then upd_snd s (\<lambda>v. v\<lparr>max_nrtx := nrtx v\<rparr>) m else m);
            m = upd_stream s (\<lambda>x. x\<lparr>sndvar := (sndvar x)\<lparr>rto := rto_backoff x\<rparr>\<rparr>) m;
            m = upd_snd s loss_window m
        in if s_state (m_streams m s) = TCP_ST_SYN_SENT \<and> nrtx (sndvar (m_streams m s)) > TCP_MAX_SYN_RETRY
           then do { m \<leftarrow> lose_stream cfg s TCP_CONN_FAIL m; Some (- 1, m) }
           else if s_state (m_streams m s) \<notin> {TCP_ST_SYN_SENT, TCP_ST_SYN_RCVD, TCP_ST_ESTABLISHED,
                     TCP_ST_CLOSE_WAIT, TCP_ST_LAST_ACK, TCP_ST_FIN_WAIT_1, TCP_ST_CLOSING}
           then Some (- 1, m)
           else if have_reset (m_streams m s) \<and> s_state (m_streams m s) = TCP_ST_SYN_RCVD
           then do { m \<leftarrow> DestroyTCPStream cfg s m; Some (0, m) }
           else do { m \<leftarrow> queue_retransmission cfg s m; Some (0, m) })"

section \<open>The retransmission hash store\<close>

fun rearrange_walk :: "nat list \<Rightarrow> mtcp_manager \<Rightarrow> mtcp_manager option" where
  "rearrange_walk [] m = Some m"
| "rearrange_walk (walk # rest) m = do {
     let diff = sint (rto_now_ts (m_rto_store m) - ts_rto (sndvar (m_streams m walk)));
     m \<leftarrow> (if diff < RTO_HASH then do {
             q \<leftarrow> tailq_remove (rto_list (m_rto_store m) (nat RTO_HASH)) walk;
             let m = upd_rto (\<lambda>rs. rs\<lparr>rto_list := (rto_list rs)(nat RTO_HASH := q)\<rparr>) m;
             rto_insert (rto_offset (m_rto_store m) diff) walk m
           } else Some m);
     rearrange_walk rest m
   }"

definition RearrangeRTOStore :: "mtcp_manager \<Rightarrow> mtcp_manager option" where
  "RearrangeRTOStore m = rearrange_walk (rto_list (m_rto_store m) (nat RTO_HASH)) m"

definition rtm_turn :: "mtcp_config \<Rightarrow> u32 \<Rightarrow> nat \<Rightarrow> nat \<Rightarrow> mtcp_manager \<Rightarrow> mtcp_manager option" where
  "rtm_turn cfg cur_ts i walk m =
     (if on_rto_idx (m_streams m walk) \<ge> 0 then do {
        q \<leftarrow> tailq_remove (rto_list (m_rto_store m) i) walk;
        let m = upd_rto (\<lambda>rs. rs\<lparr>rto_list := (rto_list rs)(i := q)\<rparr>) m;
        let m = m\<lparr>m_rto_list_cnt := m_rto_list_cnt m - 1\<rparr>;
        (r, m) \<leftarrow> HandleRTO cfg cur_ts walk (upd_stream walk (\<lambda>x. x\<lparr>on_rto_idx := - 1\<rparr>) m);
        Some m
      } else Some m)"

text \<open>The loop over the list at index \<open>i\<close>. The first argument is what \<open>thresh\<close> leaves; the result says
  whether the threshold was exceeded.\<close>

fun rtm_inner ::
    "nat \<Rightarrow> mtcp_config \<Rightarrow> u32 \<Rightarrow> nat \<Rightarrow> nat option \<Rightarrow> mtcp_manager \<Rightarrow> (bool \<times> nat \<times> mtcp_manager) option" where
  "rtm_inner r cfg cur_ts i None m = Some (False, r, m)"
| "rtm_inner 0 cfg cur_ts i (Some walk) m = Some (True, 0, m)"
| "rtm_inner (Suc r) cfg cur_ts i (Some walk) m = do {
     let next = tailq_next (rto_list (m_rto_store m) i) walk;
     m \<leftarrow> rtm_turn cfg cur_ts i walk m;
     rtm_inner r cfg cur_ts i next m
   }"

text \<open>The loop over the ticks that have passed. Every turn that does not end it advances \<open>rto_now_ts\<close>
  by one tick, so the ticks between it and now bound the number of turns.\<close>

fun rtm_outer :: "nat \<Rightarrow> nat \<Rightarrow> mtcp_config \<Rightarrow> u32 \<Rightarrow> mtcp_manager \<Rightarrow> mtcp_manager option" where
  "rtm_outer 0 r cfg cur_ts m = (if sint (cur_ts - rto_now_ts (m_rto_store m)) < 0 then Some m else None)"
| "rtm_outer (Suc fuel) r cfg cur_ts m =
     (if sint (cur_ts - rto_now_ts (m_rto_store m)) < 0 then Some m
      else
        let i = unat (rto_now_idx (m_rto_store m)) in do {
          (exceeded, r, m) \<leftarrow> rtm_inner r cfg cur_ts i (tailq_first (rto_list (m_rto_store m) i)) m;
          if exceeded then Some m
          else do {
            let m = upd_rto (\<lambda>rs. rs\<lparr>rto_now_idx := (rto_now_idx rs + 1) mod 3000, rto_now_ts := rto_now_ts rs + 1\<rparr>) m;
            m \<leftarrow> (if rto_now_idx (m_rto_store m) mod 1000 = 0 then RearrangeRTOStore m else Some m);
            rtm_outer fuel r cfg cur_ts m
          }
        })"

text \<open>With a negative threshold the first turn ends the loop before it handles anything.\<close>

definition CheckRtmTimeout :: "mtcp_config \<Rightarrow> u32 \<Rightarrow> int \<Rightarrow> mtcp_manager \<Rightarrow> mtcp_manager option" where
  "CheckRtmTimeout cfg cur_ts thresh m =
     (if m_rto_list_cnt m = 0 \<or> thresh < 0 then Some m
      else rtm_outer (nat (sint (cur_ts - rto_now_ts (m_rto_store m)) + 1)) (nat thresh) cfg cur_ts m)"

section \<open>Timewait and idle connections\<close>

text \<open>One turn of each loop; the result says whether the loop goes on.\<close>

definition timewait_turn :: "mtcp_config \<Rightarrow> u32 \<Rightarrow> nat \<Rightarrow> mtcp_manager \<Rightarrow> (bool \<times> mtcp_manager) option" where
  "timewait_turn cfg cur_ts walk m =
     (if on_timewait_list (m_streams m walk) then
        (if sint (cur_ts - ts_tw_expire (rcvvar (m_streams m walk))) \<ge> 0 then
           (if \<not> on_control_list (sndvar (m_streams m walk)) then do {
              q \<leftarrow> tailq_remove (m_timewait_list m) walk;
              let m = m\<lparr>m_timewait_list := q, m_timewait_list_cnt := m_timewait_list_cnt m - 1\<rparr>;
              let m = upd_stream walk (\<lambda>x. x\<lparr>on_timewait_list := False, s_state := TCP_ST_CLOSED,
                        close_reason := TCP_ACTIVE_CLOSE\<rparr>) m;
              m \<leftarrow> DestroyTCPStream cfg walk m;
              Some (True, m)
            } else Some (True, m))
         else Some (False, m))
      else Some (True, m))"

fun timewait_loop :: "nat \<Rightarrow> mtcp_config \<Rightarrow> u32 \<Rightarrow> nat option \<Rightarrow> mtcp_manager \<Rightarrow> mtcp_manager option" where
  "timewait_loop n cfg cur_ts None m = Some m"
| "timewait_loop 0 cfg cur_ts (Some walk) m = Some m"
| "timewait_loop (Suc n) cfg cur_ts (Some walk) m = do {
     let next = tailq_next (m_timewait_list m) walk;
     (go, m) \<leftarrow> timewait_turn cfg cur_ts walk m;
     if go then timewait_loop n cfg cur_ts next m else Some m
   }"

definition CheckTimewaitExpire :: "mtcp_config \<Rightarrow> u32 \<Rightarrow> int \<Rightarrow> mtcp_manager \<Rightarrow> mtcp_manager option" where
  "CheckTimewaitExpire cfg cur_ts thresh m =
     timewait_loop (nat thresh) cfg cur_ts (tailq_first (m_timewait_list m)) m"

definition timeout_turn :: "mtcp_config \<Rightarrow> u32 \<Rightarrow> nat \<Rightarrow> mtcp_manager \<Rightarrow> (bool \<times> mtcp_manager) option" where
  "timeout_turn cfg cur_ts walk m =
     (if sint (cur_ts - last_active_ts (m_streams m walk)) \<ge> c_tcp_timeout cfg then do {
        let m = upd_stream walk (\<lambda>x. x\<lparr>on_timeout_list := False\<rparr>) m;
        q \<leftarrow> tailq_remove (m_timeout_list m) walk;
        let m = m\<lparr>m_timeout_list := q, m_timeout_list_cnt := m_timeout_list_cnt m - 1\<rparr>;
        m \<leftarrow> lose_stream cfg walk TCP_TIMEDOUT m;
        Some (True, m)
      } else Some (False, m))"

fun timeout_loop :: "nat \<Rightarrow> mtcp_config \<Rightarrow> u32 \<Rightarrow> nat option \<Rightarrow> mtcp_manager \<Rightarrow> mtcp_manager option" where
  "timeout_loop n cfg cur_ts None m = Some m"
| "timeout_loop 0 cfg cur_ts (Some walk) m = Some m"
| "timeout_loop (Suc n) cfg cur_ts (Some walk) m = do {
     let next = tailq_next (m_timeout_list m) walk;
     (go, m) \<leftarrow> timeout_turn cfg cur_ts walk m;
     if go then timeout_loop n cfg cur_ts next m else Some m
   }"

definition CheckConnectionTimeout :: "mtcp_config \<Rightarrow> u32 \<Rightarrow> int \<Rightarrow> mtcp_manager \<Rightarrow> mtcp_manager option" where
  "CheckConnectionTimeout cfg cur_ts thresh m =
     timeout_loop (nat thresh) cfg cur_ts (tailq_first (m_timeout_list m)) m"

end
