(* ===== verification/Socket_Map.thy ===== *)
theory Socket_Map
  imports Mtcp_State
begin

text \<open>
  The socket map (socket.c) and the hash table of the listeners (fhash.c). Socket numbers are
  allocated from a free list; listeners are found by their port.
\<close>

section \<open>Sockets\<close>

text \<open>The loop of \<open>AllocateSocket\<close> skips sockets with pending events by moving them to the end of the
  free list; \<^const>\<open>None\<close> is also the loop that never ends when all of them have some. The inner
  \<^const>\<open>None\<close> is the result NULL.\<close>

partial_function (option) AllocateSocket_loop :: "mtcp_manager \<Rightarrow> (nat option \<times> mtcp_manager) option" where
  "AllocateSocket_loop m =
     (case m_free_smap m of
        [] \<Rightarrow> Some (None, m)
      | k # rest \<Rightarrow>
          (if so_events (m_smap m k) \<noteq> 0 then AllocateSocket_loop (m\<lparr>m_free_smap := rest @ [k]\<rparr>)
           else Some (Some k, m\<lparr>m_free_smap := rest\<rparr>)))"

definition AllocateSocket :: "socket_type \<Rightarrow> mtcp_manager \<Rightarrow> (nat option \<times> mtcp_manager) option" where
  "AllocateSocket socktype m = do {
     (r, m) \<leftarrow> AllocateSocket_loop m;
     (case r of
        None \<Rightarrow> Some (None, m)
      | Some k \<Rightarrow>
          Some (Some k, m\<lparr>m_smap := (m_smap m)(k := (m_smap m k)\<lparr>so_socktype := socktype, so_opts := 0,
            so_obj := NoObj, so_epoll := 0, so_events := 0, so_sin_addr := 0, so_sin_port := 0,
            so_ep_data := 0\<rparr>)\<rparr>))
   }"

definition FreeSocket :: "nat \<Rightarrow> mtcp_manager \<Rightarrow> mtcp_manager option" where
  "FreeSocket sockid m =
     (if so_socktype (m_smap m sockid) = MTCP_SOCK_UNUSED then Some m
      else do {
        q \<leftarrow> tailq_insert_tail (m_free_smap m) sockid;
        Some (m\<lparr>m_smap := (m_smap m)(sockid := (m_smap m sockid)\<lparr>so_socktype := MTCP_SOCK_UNUSED,
                 so_epoll := MTCP_EPOLLNONE, so_events := 0, so_obj := NoObj\<rparr>),
               m_free_smap := q\<rparr>)
      })"

definition GetSocket :: "mtcp_config \<Rightarrow> int \<Rightarrow> nat option" where
  "GetSocket cfg sockid = (if sockid < 0 \<or> sockid \<ge> c_max_concurrency cfg then None else Some (nat sockid))"

section \<open>Listeners\<close>

definition NUM_BINS_LISTENERS :: nat where "NUM_BINS_LISTENERS = 1024"

definition HashListener :: "u16 \<Rightarrow> nat" where
  "HashListener port = unat (port AND (of_nat NUM_BINS_LISTENERS - 1))"

text \<open>The port of a listener, undefined when its socket is NULL.\<close>

definition listener_port :: "mtcp_manager \<Rightarrow> nat \<Rightarrow> u16 option" where
  "listener_port m l = map_option (\<lambda>k. so_sin_port (m_smap m k)) (l_socket (m_listeners m l))"

definition EqualListener :: "mtcp_manager \<Rightarrow> nat \<Rightarrow> u16 \<Rightarrow> bool option" where
  "EqualListener m l port = do { p \<leftarrow> listener_port m l; Some (p = port) }"

definition ListenerHTInsert :: "nat \<Rightarrow> mtcp_manager \<Rightarrow> (int \<times> mtcp_manager) option" where
  "ListenerHTInsert l m = do {
     port \<leftarrow> listener_port m l;
     let idx = HashListener port;
     if idx < NUM_BINS_LISTENERS then do {
       q \<leftarrow> tailq_insert_tail (m_lt_table m idx) l;
       Some (0, m\<lparr>m_lt_table := (m_lt_table m)(idx := q)\<rparr>)
     } else None
   }"

definition ListenerHTRemove :: "nat \<Rightarrow> mtcp_manager \<Rightarrow> mtcp_manager option" where
  "ListenerHTRemove l m = do {
     port \<leftarrow> listener_port m l;
     let idx = HashListener port;
     q \<leftarrow> tailq_remove (m_lt_table m idx) l;
     Some (m\<lparr>m_lt_table := (m_lt_table m)(idx := q)\<rparr>)
   }"

fun listener_walk :: "mtcp_manager \<Rightarrow> u16 \<Rightarrow> nat list \<Rightarrow> nat option option" where
  "listener_walk m port [] = Some None"
| "listener_walk m port (walk # rest) = do {
     eq \<leftarrow> EqualListener m walk port;
     if eq then Some (Some walk) else listener_walk m port rest
   }"

text \<open>The inner \<^const>\<open>None\<close> is the result NULL.\<close>

definition ListenerHTSearch :: "mtcp_manager \<Rightarrow> u16 \<Rightarrow> nat option option" where
  "ListenerHTSearch m port = listener_walk m port (m_lt_table m (HashListener port))"

end
