(* ===== verification/Tcp_In.thy ===== *)
theory Tcp_In
  imports Tcp_Timer Socket_Map
begin

text \<open>
  TCP input (tcp_in.c): the handlers of the states of a connection, and what they share: sequence
  validation, resets, round-trip estimation, acknowledgement processing, reassembly of payload and
  the creation of streams for new connections.

  A segment is the list of the bytes from the TCP header to the end of the frame, its header as
  \<open>read_tcphdr\<close> reads it, and the payload length that follows from the IP header.
\<close>

section \<open>Opening\<close>

definition FilterSYNPacket :: "mtcp_config \<Rightarrow> u32 \<Rightarrow> u16 \<Rightarrow> mtcp_manager \<Rightarrow> bool option" where
  "FilterSYNPacket cfg ip port m = do {
     lo \<leftarrow> ListenerHTSearch m port;
     (case lo of
        None \<Rightarrow> Some False
      | Some l \<Rightarrow> do {
          k \<leftarrow> l_socket (m_listeners m l);
          if so_sin_port (m_smap m k) = port then
            (if so_sin_addr (m_smap m k) \<noteq> INADDR_ANY then Some (ip = so_sin_addr (m_smap m k))
             else Some (\<exists>e \<in> set (c_eths cfg). ip = et_ip_addr e))
          else Some False
        })
   }"

text \<open>The bytes from the first option on, and the length that the header gives them.\<close>

definition opt_area :: "byte list \<Rightarrow> byte list" where
  "opt_area seg = drop TCP_HEADER_LEN seg"

definition opt_len :: "tcphdr \<Rightarrow> int" where
  "opt_len tcph = int (th_doff tcph * 4) - int TCP_HEADER_LEN"

definition parse_options :: "nat \<Rightarrow> u32 \<Rightarrow> tcphdr \<Rightarrow> byte list \<Rightarrow> mtcp_manager \<Rightarrow> mtcp_manager option" where
  "parse_options s cur_ts tcph seg m = do {
     st \<leftarrow> ParseTCPOptions (m_streams m s) cur_ts (opt_area seg) (opt_len tcph);
     Some (upd_stream s (\<lambda>_. st) m)
   }"

definition MTCP_SOCK_STREAM_num :: u8 where "MTCP_SOCK_STREAM_num = 1"

definition HandlePassiveOpen ::
    "mtcp_config \<Rightarrow> u32 \<Rightarrow> u32 \<Rightarrow> u32 \<Rightarrow> tcphdr \<Rightarrow> byte list \<Rightarrow> u32 \<Rightarrow> u16 \<Rightarrow> mtcp_manager \<Rightarrow>
     (nat option \<times> mtcp_manager) option" where
  "HandlePassiveOpen cfg cur_ts saddr daddr tcph seg seq window m = do {
     (so, m) \<leftarrow> CreateTCPStream cfg None MTCP_SOCK_STREAM_num daddr (th_dest tcph) saddr (th_source tcph) m;
     (case so of
        None \<Rightarrow> Some (None, m)
      | Some s \<Rightarrow> do {
          let m = upd_rcv s (\<lambda>v. v\<lparr>irs := seq\<rparr>) m;
          let m = upd_snd s (\<lambda>v. v\<lparr>peer_wnd := ucast window\<rparr>) m;
          let m = upd_stream s (\<lambda>x. x\<lparr>rcv_nxt := irs (rcvvar x)\<rparr>) m;
          let m = upd_snd s (\<lambda>v. v\<lparr>cwnd := 1\<rparr>) m;
          m \<leftarrow> parse_options s cur_ts tcph seg m;
          Some (Some s, m)
        })
   }"

definition HandleActiveOpen ::
    "nat \<Rightarrow> u32 \<Rightarrow> tcphdr \<Rightarrow> byte list \<Rightarrow> u32 \<Rightarrow> u32 \<Rightarrow> u16 \<Rightarrow> mtcp_manager \<Rightarrow> mtcp_manager option" where
  "HandleActiveOpen s cur_ts tcph seg seq ack_seq window m = do {
     let m = upd_rcv s (\<lambda>v. v\<lparr>irs := seq\<rparr>) m;
     let m = upd_stream s (\<lambda>x. x\<lparr>snd_nxt := ack_seq\<rparr>) m;
     let m = upd_snd s (\<lambda>v. v\<lparr>peer_wnd := ucast window\<rparr>) m;
     let m = upd_rcv s (\<lambda>v. v\<lparr>snd_wl1 := irs v - 1\<rparr>) m;
     let m = upd_stream s (\<lambda>x. x\<lparr>rcv_nxt := irs (rcvvar x) + 1\<rparr>) m;
     let m = upd_rcv s (\<lambda>v. v\<lparr>last_ack_seq := ack_seq\<rparr>) m;
     m \<leftarrow> parse_options s cur_ts tcph seg m;
     let m = upd_snd s (\<lambda>v. v\<lparr>cwnd := (if cwnd v = 1 then ucast (mss v) * 2 else ucast (mss v))\<rparr>) m;
     let m = upd_snd s (\<lambda>v. v\<lparr>ssthresh := ucast (mss v) * 10\<rparr>) m;
     UpdateRetransmissionTimer s cur_ts m
   }"

section \<open>Validation\<close>

text \<open>The timestamp test of \<open>ValidateSequence\<close> against old duplicates.\<close>

definition paws_check ::
    "mtcp_config \<Rightarrow> nat \<Rightarrow> u32 \<Rightarrow> tcphdr \<Rightarrow> byte list \<Rightarrow> mtcp_manager \<Rightarrow> (bool \<times> mtcp_manager) option" where
  "paws_check cfg s cur_ts tcph seg m =
     (if \<not> th_rst tcph \<and> saw_timestamp (m_streams m s) then do {
        tso \<leftarrow> ParseTCPTimestamp (opt_area seg) (opt_len tcph);
        (case tso of
           None \<Rightarrow> Some (False, m)
         | Some (ts_val, ts_ref) \<Rightarrow>
             (if TCP_SEQ_LT ts_val (ts_recent (rcvvar (m_streams m s))) then do {
                m \<leftarrow> EnqueueACK cfg s ACK_OPT_NOW m;
                Some (False, m)
              } else
                let m = (if TCP_SEQ_GT ts_val (ts_recent (rcvvar (m_streams m s)))
                         then upd_rcv s (\<lambda>v. v\<lparr>ts_last_ts_upd := cur_ts\<rparr>) m else m)
                in Some (True, upd_rcv s (\<lambda>v. v\<lparr>ts_recent := ts_val, ts_lastack_rcvd := ts_ref\<rparr>) m)))
      } else Some (True, m))"

definition ValidateSequence ::
    "mtcp_config \<Rightarrow> nat \<Rightarrow> u32 \<Rightarrow> tcphdr \<Rightarrow> byte list \<Rightarrow> u32 \<Rightarrow> int \<Rightarrow> mtcp_manager \<Rightarrow> (bool \<times> mtcp_manager) option" where
  "ValidateSequence cfg s cur_ts tcph seg seq payloadlen m = do {
     (ok, m) \<leftarrow> paws_check cfg s cur_ts tcph seg m;
     if \<not> ok then Some (False, m)
     else
       let st = m_streams m s in
       if \<not> TCP_SEQ_BETWEEN (seq + word_of_int payloadlen) (rcv_nxt st) (rcv_nxt st + rcv_wnd (rcvvar st)) then
         (if th_rst tcph then Some (False, m)
          else if s_state st = TCP_ST_ESTABLISHED then
            (if seq + 1 = rcv_nxt st then do { m \<leftarrow> EnqueueACK cfg s ACK_OPT_AGGREGATE m; Some (False, m) }
             else do {
               m \<leftarrow> EnqueueACK cfg s (if TCP_SEQ_LEQ seq (rcv_nxt st) then ACK_OPT_AGGREGATE else ACK_OPT_NOW) m;
               Some (False, m)
             })
          else do {
            m \<leftarrow> (if s_state st = TCP_ST_TIME_WAIT then AddtoTimewaitList cfg s cur_ts m else Some m);
            m \<leftarrow> AddtoControlList cfg s m;
            Some (False, m)
          })
       else Some (True, m)
   }"

definition ProcessRST :: "mtcp_config \<Rightarrow> nat \<Rightarrow> u32 \<Rightarrow> mtcp_manager \<Rightarrow> (bool \<times> mtcp_manager) option" where
  "ProcessRST cfg s ack_seq m =
     (let st = m_streams m s; sv = sndvar st in
      if s_state st \<le> TCP_ST_SYN_SENT then Some (False, m)
      else if s_state st = TCP_ST_SYN_RCVD then
        (if ack_seq = snd_nxt st then do {
           m \<leftarrow> DestroyTCPStream cfg s
                 (upd_stream s (\<lambda>x. x\<lparr>s_state := TCP_ST_CLOSED, close_reason := TCP_RESET\<rparr>) m);
           Some (True, m)
         } else Some (True, m))
      else if s_state st \<in> {TCP_ST_FIN_WAIT_1, TCP_ST_FIN_WAIT_2, TCP_ST_LAST_ACK, TCP_ST_CLOSING, TCP_ST_TIME_WAIT}
      then do {
        m \<leftarrow> DestroyTCPStream cfg s
              (upd_stream s (\<lambda>x. x\<lparr>s_state := TCP_ST_CLOSED, close_reason := TCP_ACTIVE_CLOSE\<rparr>) m);
        Some (True, m)
      }
      else if \<not> (on_closeq sv \<or> on_closeq_int sv \<or> on_resetq sv \<or> on_resetq_int sv) then do {
        m \<leftarrow> RaiseCloseEvent s
              (upd_stream s (\<lambda>x. x\<lparr>s_state := TCP_ST_CLOSE_WAIT, close_reason := TCP_RESET\<rparr>) m);
        Some (True, m)
      }
      else Some (True, m))"

section \<open>Round-trip time\<close>

text \<open>\<open>m\<close> is a \<open>long\<close> and signed; the variables it is added to are unsigned and wrap.\<close>

definition mdev_change :: "int \<Rightarrow> u32 \<Rightarrow> int" where
  "mdev_change k dev =
     (if k < 0 then (let k = - k - uint (drop_bit 2 dev) in if k > 0 then k div 8 else k)
      else k - uint (drop_bit 2 dev))"

definition rtt_variation :: "tcp_stream \<Rightarrow> tcp_recv_vars \<Rightarrow> tcp_recv_vars" where
  "rtt_variation st rv =
     (let rv = (if mdev rv > mdev_max rv then
                  (let rv = rv\<lparr>mdev_max := mdev rv\<rparr>
                   in if mdev_max rv > rttvar rv then rv\<lparr>rttvar := mdev_max rv\<rparr> else rv)
                else rv)
      in if TCP_SEQ_GT (snd_una (sndvar st)) (rtt_seq rv) then
           (let rv = (if mdev_max rv < rttvar rv
                      then rv\<lparr>rttvar := rttvar rv - drop_bit 2 (rttvar rv - mdev_max rv)\<rparr> else rv)
            in rv\<lparr>rtt_seq := snd_nxt st, mdev_max := 0\<rparr>)
         else rv)"

definition EstimateRTT :: "u32 \<Rightarrow> tcp_stream \<Rightarrow> tcp_stream" where
  "EstimateRTT mrtt st =
     (let rv = rcvvar st; k = (if mrtt = 0 then 1 else uint mrtt) in
      if srtt rv \<noteq> 0 then
        let k = k - uint (drop_bit 3 (srtt rv));
            rv = rv\<lparr>srtt := srtt rv + word_of_int k\<rparr>;
            rv = rv\<lparr>mdev := mdev rv + word_of_int (mdev_change k (mdev rv))\<rparr>
        in st\<lparr>rcvvar := rtt_variation st rv\<rparr>
      else
        let mdev0 = word_of_int (k * 2)
        in st\<lparr>rcvvar := rv\<lparr>srtt := word_of_int (k * 8), mdev := mdev0, mdev_max := max mdev0 0,
                           rttvar := max mdev0 0, rtt_seq := snd_nxt st\<rparr>\<rparr>)"

section \<open>Acknowledgements\<close>

text \<open>The parts of \<open>ProcessACK\<close>, in its order. The send window is updated from a newer segment:\<close>

definition ack_window :: "nat \<Rightarrow> u32 \<Rightarrow> u32 \<Rightarrow> u32 \<Rightarrow> mtcp_manager \<Rightarrow> mtcp_manager option" where
  "ack_window s seq ack_seq cwindow m =
     (let st = m_streams m s; sv = sndvar st; rv = rcvvar st in
      if TCP_SEQ_LT (snd_wl1 rv) seq \<or> (snd_wl1 rv = seq \<and> TCP_SEQ_LT (snd_wl2 rv) ack_seq)
         \<or> (snd_wl2 rv = ack_seq \<and> cwindow > peer_wnd sv) then
        let cwindow_prev = peer_wnd sv;
            m = upd_rcv s (\<lambda>v. v\<lparr>snd_wl1 := seq, snd_wl2 := ack_seq\<rparr>) (upd_snd s (\<lambda>v. v\<lparr>peer_wnd := cwindow\<rparr>) m)
        in if cwindow_prev < snd_nxt st - snd_una sv \<and> cwindow \<ge> snd_nxt st - snd_una sv
           then RaiseWriteEvent s m else Some m
      else Some m)"

text \<open>Duplicate acknowledgements are counted. The test \<open>dup_acks + 1 > dup_acks\<close> compares \<open>int\<close>s and is
  always true; the counter has eight bits.\<close>

definition ack_dup :: "nat \<Rightarrow> u32 \<Rightarrow> u32 \<Rightarrow> int \<Rightarrow> mtcp_manager \<Rightarrow> bool \<times> mtcp_manager" where
  "ack_dup s ack_seq right_wnd_edge payloadlen m =
     (let st = m_streams m s; rv = rcvvar st in
      if TCP_SEQ_LT ack_seq (snd_nxt st) \<and> ack_seq = last_ack_seq rv \<and> payloadlen = 0
         \<and> snd_wl2 rv + peer_wnd (sndvar st) = right_wnd_edge
      then (True, if uint (dup_acks rv) + 1 > uint (dup_acks rv)
                  then upd_rcv s (\<lambda>v. v\<lparr>dup_acks := dup_acks v + 1\<rparr>) m else m)
      else (False, upd_rcv s (\<lambda>v. v\<lparr>dup_acks := 0, last_ack_seq := ack_seq\<rparr>) m))"

text \<open>Fast retransmission at the third duplicate, and inflation of the window afterwards:\<close>

definition ack_loss :: "mtcp_config \<Rightarrow> nat \<Rightarrow> u32 \<Rightarrow> bool \<Rightarrow> mtcp_manager \<Rightarrow> mtcp_manager option" where
  "ack_loss cfg s ack_seq dup m =
     (if dup \<and> dup_acks (rcvvar (m_streams m s)) = 3 then
        let m = (if TCP_SEQ_LT ack_seq (snd_nxt (m_streams m s))
                 then upd_stream s (\<lambda>x. x\<lparr>snd_nxt := ack_seq\<rparr>) m else m);
            m = upd_snd s (\<lambda>v. let th = min (cwnd v) (peer_wnd v) div 2
                  in v\<lparr>ssthresh := (if th < 2 * ucast (mss v) then 2 * ucast (mss v) else th)\<rparr>) m;
            m = upd_snd s (\<lambda>v. v\<lparr>cwnd := ssthresh v + 3 * ucast (mss v)\<rparr>) m;
            m = upd_snd s (\<lambda>v. if nrtx v < TCP_MAX_RTX then v\<lparr>nrtx := nrtx v + 1\<rparr> else v) m
        in AddtoSendList cfg s m
      else if dup_acks (rcvvar (m_streams m s)) > 3 then
        Some (upd_snd s (\<lambda>v. if cwnd v + ucast (mss v) > cwnd v then v\<lparr>cwnd := cwnd v + ucast (mss v)\<rparr> else v) m)
      else Some m)"

definition ack_recover :: "mtcp_config \<Rightarrow> nat \<Rightarrow> u32 \<Rightarrow> mtcp_manager \<Rightarrow> mtcp_manager option" where
  "ack_recover cfg s ack_seq m =
     (if TCP_SEQ_GT ack_seq (snd_nxt (m_streams m s)) then
        let m = upd_stream s (\<lambda>x. x\<lparr>snd_nxt := ack_seq\<rparr>) m
        in case sndbuf (sndvar (m_streams m s)) of
             None \<Rightarrow> None
           | Some b \<Rightarrow> (if sb_len b = 0 then RemoveFromSendList cfg s m else Some m)
      else Some m)"

text \<open>The congestion window after \<open>packets\<close> new segments were acknowledged. The products are computed
  as \<open>int\<close>; their overflow and the division by a zero window are undefined.\<close>

definition ack_cwnd :: "u16 \<Rightarrow> tcp_send_vars \<Rightarrow> tcp_send_vars option" where
  "ack_cwnd packets v =
     (let k = int (unat packets); ms = int (unat (mss v)) in
      if cwnd v < ssthresh v then
        (if cwnd v + ucast (mss v) > cwnd v
         then do { d \<leftarrow> int32_ok (ms * k); Some (v\<lparr>cwnd := cwnd v + word_of_int d\<rparr>) }
         else Some v)
      else do {
        d1 \<leftarrow> int32_ok (k * ms);
        d2 \<leftarrow> int32_ok (d1 * ms);
        if cwnd v = 0 then None
        else
          let new_cwnd = cwnd v + word_of_int d2 div cwnd v
          in Some (if new_cwnd > cwnd v then v\<lparr>cwnd := new_cwnd\<rparr> else v)
      })"

text \<open>New data is acknowledged: the round-trip estimate, the congestion window, the send buffer and the
  timer.\<close>

definition ack_new :: "nat \<Rightarrow> u32 \<Rightarrow> u32 \<Rightarrow> u32 \<Rightarrow> mtcp_manager \<Rightarrow> mtcp_manager option" where
  "ack_new s cur_ts ack_seq rmlen m =
     (if eff_mss (sndvar (m_streams m s)) = 0 then None
      else do {
        let em = ucast (eff_mss (sndvar (m_streams m s)));
        let packets = (ucast (rmlen div em) :: u16);
        let packets = (if (rmlen div em) * em > rmlen then packets + 1 else packets);
        m \<leftarrow> (if saw_timestamp (m_streams m s) then
                let m = upd_stream s (EstimateRTT (cur_ts - ts_lastack_rcvd (rcvvar (m_streams m s)))) m;
                    m = upd_stream s (\<lambda>x. x\<lparr>sndvar := (sndvar x)\<lparr>rto := drop_bit 3 (srtt (rcvvar x)) + rttvar (rcvvar x)\<rparr>\<rparr>) m
                in if rto (sndvar (m_streams m s)) = 0 then None else Some m
              else Some m);
        m \<leftarrow> (if s_state (m_streams m s) \<ge> TCP_ST_ESTABLISHED then do {
                v \<leftarrow> ack_cwnd packets (sndvar (m_streams m s));
                Some (upd_snd s (\<lambda>_. v) m)
              } else Some m);
        b \<leftarrow> sndbuf (sndvar (m_streams m s));
        let (r, b) = SBRemove b (ucast rmlen);
        let snd_wnd_prev = snd_wnd (sndvar (m_streams m s));
        let m = upd_snd s (\<lambda>v. v\<lparr>sndbuf := Some b, snd_una := ack_seq, snd_wnd := sb_size b - sb_len b\<rparr>) m;
        m \<leftarrow> (if snd_wnd_prev \<le> 0 then RaiseWriteEvent s m else Some m);
        UpdateRetransmissionTimer s cur_ts m
      })"

definition ProcessACK ::
    "mtcp_config \<Rightarrow> nat \<Rightarrow> u32 \<Rightarrow> tcphdr \<Rightarrow> u32 \<Rightarrow> u32 \<Rightarrow> u16 \<Rightarrow> int \<Rightarrow> mtcp_manager \<Rightarrow> mtcp_manager option" where
  "ProcessACK cfg s cur_ts tcph seq ack_seq window payloadlen m = do {
     let st = m_streams m s;
     cwindow \<leftarrow> (if \<not> th_syn tcph then shl32 (ucast window) (unat (wscale_peer (sndvar st))) else Some (ucast window));
     let right_wnd_edge = peer_wnd (sndvar st) + snd_wl2 (rcvvar st);
     let ack_seq = (if s_state st \<in> {TCP_ST_FIN_WAIT_1, TCP_ST_FIN_WAIT_2, TCP_ST_CLOSING, TCP_ST_CLOSE_WAIT,
                         TCP_ST_LAST_ACK} \<and> is_fin_sent (sndvar st) \<and> ack_seq = fss (sndvar st) + 1
                    then ack_seq - 1 else ack_seq);
     b \<leftarrow> sndbuf (sndvar st);
     if TCP_SEQ_GT ack_seq (sb_head_seq b + sb_len b) then Some m
     else do {
       m \<leftarrow> ack_window s seq ack_seq cwindow m;
       let (dup, m) = ack_dup s ack_seq right_wnd_edge payloadlen m;
       m \<leftarrow> ack_loss cfg s ack_seq dup m;
       m \<leftarrow> ack_recover cfg s ack_seq m;
       if TCP_SEQ_GEQ (sb_head_seq b) ack_seq then Some m
       else
         let rmlen = ack_seq - sb_head_seq b
         in if rmlen > 0 then ack_new s cur_ts ack_seq rmlen m else Some m
     }
   }"

section \<open>Payload\<close>

text \<open>The result is TRUE (1), FALSE (0) or ERROR (-1).\<close>

definition ProcessTCPPayload ::
    "nat \<Rightarrow> byte list \<Rightarrow> u32 \<Rightarrow> int \<Rightarrow> mtcp_manager \<Rightarrow> (int \<times> mtcp_manager) option" where
  "ProcessTCPPayload s payload seq payloadlen m =
     (let st = m_streams m s; seg_end = seq + word_of_int payloadlen in
      if TCP_SEQ_LT seg_end (rcv_nxt st) then Some (0, m)
      else if TCP_SEQ_GT seg_end (rcv_nxt st + rcv_wnd (rcvvar st)) then Some (0, m)
      else do {
        (bo, m) \<leftarrow>
          (case rcvbuf (rcvvar st) of
             Some b \<Rightarrow> Some (Some b, m)
           | None \<Rightarrow>
               let (ok, m) = next_alloc m in do {
                 (bo, rbm) \<leftarrow> RBInit ok (m_rbm_rcv m) (irs (rcvvar st) + 1);
                 Some (bo, upd_rcv s (\<lambda>v. v\<lparr>rcvbuf := bo\<rparr>) (m\<lparr>m_rbm_rcv := rbm\<rparr>))
               });
        (case bo of
           None \<Rightarrow> do {
             m \<leftarrow> RaiseErrorEvent s (upd_stream s (\<lambda>x. x\<lparr>s_state := TCP_ST_CLOSED, close_reason := TCP_NO_MEM\<rparr>) m);
             Some (- 1, m)
           }
         | Some b \<Rightarrow> do {
             let prev_rcv_nxt = rcv_nxt (m_streams m s);
             let (ok, m) = next_alloc m;
             (ret, b, rbm) \<leftarrow> RBPut ok (m_rbm_rcv m) b payload (word_of_int payloadlen) seq;
             (b, rbm) \<leftarrow>
               (if s_state (m_streams m s) = TCP_ST_FIN_WAIT_1 \<or> s_state (m_streams m s) = TCP_ST_FIN_WAIT_2 then do {
                  (n, b, rbm) \<leftarrow> RBRemove rbm b (word_of_int (rb_merged_len b)) AT_MTCP;
                  Some (b, rbm)
                } else Some (b, rbm));
             let m = m\<lparr>m_rbm_rcv := rbm\<rparr>;
             let m = upd_rcv s (\<lambda>v. v\<lparr>rcvbuf := Some b, rcv_wnd := word_of_int (rb_size b - rb_merged_len b)\<rparr>) m;
             let m = upd_stream s (\<lambda>x. x\<lparr>rcv_nxt := rb_head_seq b + word_of_int (rb_merged_len b)\<rparr>) m;
             if TCP_SEQ_LEQ (rcv_nxt (m_streams m s)) prev_rcv_nxt then Some (0, m)
             else do {
               m \<leftarrow> (if s_state (m_streams m s) = TCP_ST_ESTABLISHED then RaiseReadEvent s m else Some m);
               Some (1, m)
             }
           })
      })"

text \<open>The callers test the result as a boolean, so ERROR counts as TRUE.\<close>

definition payload_ack ::
    "mtcp_config \<Rightarrow> nat \<Rightarrow> byte list \<Rightarrow> u32 \<Rightarrow> int \<Rightarrow> mtcp_manager \<Rightarrow> mtcp_manager option" where
  "payload_ack cfg s payload seq payloadlen m =
     (if payloadlen > 0 then do {
        (r, m) \<leftarrow> ProcessTCPPayload s payload seq payloadlen m;
        EnqueueACK cfg s (if r \<noteq> 0 then ACK_OPT_AGGREGATE else ACK_OPT_NOW) m
      } else Some m)"

section \<open>New connections\<close>

text \<open>\<open>saddr\<close> and \<open>daddr\<close> are those of the IP header of the segment.\<close>

definition send_rst ::
    "mtcp_config \<Rightarrow> u32 \<Rightarrow> u32 \<Rightarrow> tcphdr \<Rightarrow> u32 \<Rightarrow> u32 \<Rightarrow> u8 \<Rightarrow> u32 \<Rightarrow> mtcp_manager \<Rightarrow> mtcp_manager option" where
  "send_rst cfg saddr daddr tcph seq ack_seq flags cur_ts m = do {
     (r, m) \<leftarrow> SendTCPPacketStandalone cfg daddr (th_dest tcph) saddr (th_source tcph) seq ack_seq 0 flags [] 0
                 cur_ts 0 m;
     Some m
   }"

definition CreateNewFlowHTEntry ::
    "mtcp_config \<Rightarrow> u32 \<Rightarrow> u32 \<Rightarrow> u32 \<Rightarrow> tcphdr \<Rightarrow> byte list \<Rightarrow> u32 \<Rightarrow> u32 \<Rightarrow> int \<Rightarrow> u16 \<Rightarrow> mtcp_manager \<Rightarrow>
     (nat option \<times> mtcp_manager) option" where
  "CreateNewFlowHTEntry cfg cur_ts saddr daddr tcph seg seq ack_seq payloadlen window m =
     (if th_syn tcph \<and> \<not> th_ack tcph then do {
        ret \<leftarrow> FilterSYNPacket cfg daddr (th_dest tcph) m;
        if \<not> ret then do {
          m \<leftarrow> send_rst cfg saddr daddr tcph 0 (seq + word_of_int payloadlen + 1) (TCP_FLAG_RST OR TCP_FLAG_ACK) cur_ts m;
          Some (None, m)
        } else do {
          (so, m) \<leftarrow> HandlePassiveOpen cfg cur_ts saddr daddr tcph seg seq window m;
          (case so of
             None \<Rightarrow> do {
               m \<leftarrow> send_rst cfg saddr daddr tcph 0 (seq + word_of_int payloadlen + 1) (TCP_FLAG_RST OR TCP_FLAG_ACK) cur_ts m;
               Some (None, m)
             }
           | Some s \<Rightarrow> Some (Some s, m))
        }
      }
      else if th_rst tcph then Some (None, m)
      else do {
        m \<leftarrow> (if th_ack tcph then send_rst cfg saddr daddr tcph ack_seq 0 TCP_FLAG_RST cur_ts m
               else send_rst cfg saddr daddr tcph 0 (seq + word_of_int payloadlen) (TCP_FLAG_RST OR TCP_FLAG_ACK) cur_ts m);
        Some (None, m)
      })"

section \<open>The states\<close>

definition Handle_TCP_ST_LISTEN :: "mtcp_config \<Rightarrow> nat \<Rightarrow> tcphdr \<Rightarrow> mtcp_manager \<Rightarrow> mtcp_manager option" where
  "Handle_TCP_ST_LISTEN cfg s tcph m =
     (if th_syn tcph then
        let m = (if s_state (m_streams m s) = TCP_ST_LISTEN then upd_stream s (\<lambda>x. x\<lparr>rcv_nxt := rcv_nxt x + 1\<rparr>) m else m)
        in AddtoControlList cfg s (upd_stream s (\<lambda>x. x\<lparr>s_state := TCP_ST_SYN_RCVD\<rparr>) m)
      else Some m)"

definition Handle_TCP_ST_SYN_SENT ::
    "mtcp_config \<Rightarrow> u32 \<Rightarrow> nat \<Rightarrow> u32 \<Rightarrow> u32 \<Rightarrow> tcphdr \<Rightarrow> byte list \<Rightarrow> u32 \<Rightarrow> u32 \<Rightarrow> int \<Rightarrow> u16 \<Rightarrow> mtcp_manager \<Rightarrow> mtcp_manager option" where
  "Handle_TCP_ST_SYN_SENT cfg cur_ts s saddr daddr tcph seg seq ack_seq payloadlen window m =
     (if th_ack tcph \<and> (TCP_SEQ_LEQ ack_seq (iss (sndvar (m_streams m s))) \<or> TCP_SEQ_GT ack_seq (snd_nxt (m_streams m s)))
      then (if \<not> th_rst tcph then send_rst cfg saddr daddr tcph ack_seq 0 TCP_FLAG_RST cur_ts m else Some m)
      else
        let m = (if th_ack tcph then upd_snd s (\<lambda>v. v\<lparr>snd_una := snd_una v + 1\<rparr>) m else m) in
        if th_rst tcph then
          (if th_ack tcph then
             let m = upd_stream s (\<lambda>x. x\<lparr>s_state := TCP_ST_CLOSE_WAIT, close_reason := TCP_RESET\<rparr>) m
             in if s_socket (m_streams m s) \<noteq> None then RaiseErrorEvent s m else DestroyTCPStream cfg s m
           else Some m)
        else if th_syn tcph then
          (if th_ack tcph then do {
             m \<leftarrow> HandleActiveOpen s cur_ts tcph seg seq ack_seq window m;
             let m = upd_snd s (\<lambda>v. v\<lparr>nrtx := 0\<rparr>) m;
             let m = upd_stream s (\<lambda>x. x\<lparr>rcv_nxt := irs (rcvvar x) + 1\<rparr>) m;
             m \<leftarrow> RemoveFromRTOList s m;
             let m = upd_stream s (\<lambda>x. x\<lparr>s_state := TCP_ST_ESTABLISHED\<rparr>) m;
             if s_socket (m_streams m s) \<noteq> None then do {
               m \<leftarrow> RaiseWriteEvent s m;
               m \<leftarrow> AddtoControlList cfg s m;
               if c_tcp_timeout cfg > 0 then AddtoTimeoutList s m else Some m
             } else do {
               m \<leftarrow> send_rst cfg saddr daddr tcph 0 (seq + word_of_int payloadlen + 1) (TCP_FLAG_RST OR TCP_FLAG_ACK) cur_ts m;
               DestroyTCPStream cfg s (upd_stream s (\<lambda>x. x\<lparr>close_reason := TCP_ACTIVE_CLOSE\<rparr>) m)
             }
           } else
             AddtoControlList cfg s
               (upd_stream s (\<lambda>x. x\<lparr>s_state := TCP_ST_SYN_RCVD, snd_nxt := iss (sndvar x)\<rparr>) m))
        else Some m)"

definition Handle_TCP_ST_SYN_RCVD :: "mtcp_config \<Rightarrow> nat \<Rightarrow> tcphdr \<Rightarrow> u32 \<Rightarrow> mtcp_manager \<Rightarrow> mtcp_manager option" where
  "Handle_TCP_ST_SYN_RCVD cfg s tcph ack_seq m =
     (if th_ack tcph then
        (if ack_seq \<noteq> iss (sndvar (m_streams m s)) + 1 then Some m
         else do {
           let m = upd_snd s (\<lambda>v. v\<lparr>snd_una := snd_una v + 1\<rparr>) m;
           let m = upd_stream s (\<lambda>x. x\<lparr>snd_nxt := ack_seq\<rparr>) m;
           let m = upd_snd s (\<lambda>v. v\<lparr>cwnd := (if cwnd v = 1 then ucast (mss v) * 2 else ucast (mss v))\<rparr>) m;
           let m = upd_snd s (\<lambda>v. v\<lparr>nrtx := 0\<rparr>) m;
           let m = upd_stream s (\<lambda>x. x\<lparr>rcv_nxt := irs (rcvvar x) + 1\<rparr>) m;
           m \<leftarrow> RemoveFromRTOList s m;
           let m = upd_stream s (\<lambda>x. x\<lparr>s_state := TCP_ST_ESTABLISHED\<rparr>) m;
           lo \<leftarrow> ListenerHTSearch m (th_dest tcph);
           l \<leftarrow> lo;
           (ret, q) \<leftarrow> StreamEnqueue (l_acceptq (m_listeners m l)) s;
           let m = m\<lparr>m_listeners := (m_listeners m)(l := (m_listeners m l)\<lparr>l_acceptq := q\<rparr>)\<rparr>;
           m \<leftarrow> (if ret < 0
                  then AddtoControlList cfg s (upd_stream s (\<lambda>x. x\<lparr>close_reason := TCP_NOT_ACCEPTED, s_state := TCP_ST_CLOSED\<rparr>) m)
                  else Some m);
           m \<leftarrow> (if c_tcp_timeout cfg > 0 then AddtoTimeoutList s m else Some m);
           (case l_socket (m_listeners m l) of
              Some k \<Rightarrow> (if so_epoll (m_smap m k) AND MTCP_EPOLLIN \<noteq> 0
                         then mtcp_add_event MTCP_EVENT_QUEUE k MTCP_EPOLLIN m else Some m)
            | None \<Rightarrow> Some m)
         })
      else AddtoControlList cfg s (upd_stream s (\<lambda>x. x\<lparr>snd_nxt := iss (sndvar x)\<rparr>) m))"

text \<open>\<open>ProcessACK\<close> is called only when the stream has a send buffer.\<close>

definition process_ack_if ::
    "mtcp_config \<Rightarrow> nat \<Rightarrow> u32 \<Rightarrow> tcphdr \<Rightarrow> u32 \<Rightarrow> u32 \<Rightarrow> u16 \<Rightarrow> int \<Rightarrow> mtcp_manager \<Rightarrow> mtcp_manager option" where
  "process_ack_if cfg s cur_ts tcph seq ack_seq window payloadlen m =
     (if sndbuf (sndvar (m_streams m s)) \<noteq> None
      then ProcessACK cfg s cur_ts tcph seq ack_seq window payloadlen m else Some m)"

definition Handle_TCP_ST_ESTABLISHED ::
    "mtcp_config \<Rightarrow> u32 \<Rightarrow> nat \<Rightarrow> tcphdr \<Rightarrow> u32 \<Rightarrow> u32 \<Rightarrow> byte list \<Rightarrow> int \<Rightarrow> u16 \<Rightarrow> mtcp_manager \<Rightarrow> mtcp_manager option" where
  "Handle_TCP_ST_ESTABLISHED cfg cur_ts s tcph seq ack_seq payload payloadlen window m =
     (if th_syn tcph then AddtoControlList cfg s (upd_stream s (\<lambda>x. x\<lparr>snd_nxt := ack_seq\<rparr>) m)
      else do {
        m \<leftarrow> payload_ack cfg s payload seq payloadlen m;
        m \<leftarrow> (if th_ack tcph then process_ack_if cfg s cur_ts tcph seq ack_seq window payloadlen m else Some m);
        if th_fin tcph then
          (if seq + word_of_int payloadlen = rcv_nxt (m_streams m s) then do {
             let m = upd_stream s (\<lambda>x. x\<lparr>s_state := TCP_ST_CLOSE_WAIT, rcv_nxt := rcv_nxt x + 1\<rparr>) m;
             m \<leftarrow> AddtoControlList cfg s m;
             RaiseReadEvent s m
           } else EnqueueACK cfg s ACK_OPT_NOW m)
        else Some m
      })"

definition Handle_TCP_ST_CLOSE_WAIT ::
    "mtcp_config \<Rightarrow> u32 \<Rightarrow> nat \<Rightarrow> tcphdr \<Rightarrow> u32 \<Rightarrow> u32 \<Rightarrow> int \<Rightarrow> u16 \<Rightarrow> mtcp_manager \<Rightarrow> mtcp_manager option" where
  "Handle_TCP_ST_CLOSE_WAIT cfg cur_ts s tcph seq ack_seq payloadlen window m =
     (if TCP_SEQ_LT seq (rcv_nxt (m_streams m s)) then AddtoControlList cfg s m
      else process_ack_if cfg s cur_ts tcph seq ack_seq window payloadlen m)"

definition Handle_TCP_ST_LAST_ACK ::
    "mtcp_config \<Rightarrow> u32 \<Rightarrow> nat \<Rightarrow> tcphdr \<Rightarrow> u32 \<Rightarrow> u32 \<Rightarrow> int \<Rightarrow> u16 \<Rightarrow> mtcp_manager \<Rightarrow> mtcp_manager option" where
  "Handle_TCP_ST_LAST_ACK cfg cur_ts s tcph seq ack_seq payloadlen window m =
     (if TCP_SEQ_LT seq (rcv_nxt (m_streams m s)) then Some m
      else if th_ack tcph then do {
        m \<leftarrow> process_ack_if cfg s cur_ts tcph seq ack_seq window payloadlen m;
        if \<not> is_fin_sent (sndvar (m_streams m s)) then Some m
        else if ack_seq = fss (sndvar (m_streams m s)) + 1 then do {
          let m = upd_snd s (\<lambda>v. v\<lparr>snd_una := snd_una v + 1\<rparr>) m;
          m \<leftarrow> UpdateRetransmissionTimer s cur_ts m;
          DestroyTCPStream cfg s
            (upd_stream s (\<lambda>x. x\<lparr>s_state := TCP_ST_CLOSED, close_reason := TCP_PASSIVE_CLOSE\<rparr>) m)
        } else AddtoControlList cfg s m
      }
      else AddtoControlList cfg s m)"

definition Handle_TCP_ST_FIN_WAIT_1 ::
    "mtcp_config \<Rightarrow> u32 \<Rightarrow> nat \<Rightarrow> tcphdr \<Rightarrow> u32 \<Rightarrow> u32 \<Rightarrow> byte list \<Rightarrow> int \<Rightarrow> u16 \<Rightarrow> mtcp_manager \<Rightarrow> mtcp_manager option" where
  "Handle_TCP_ST_FIN_WAIT_1 cfg cur_ts s tcph seq ack_seq payload payloadlen window m =
     (if TCP_SEQ_LT seq (rcv_nxt (m_streams m s)) then AddtoControlList cfg s m
      else if th_ack tcph then do {
        m \<leftarrow> process_ack_if cfg s cur_ts tcph seq ack_seq window payloadlen m;
        m \<leftarrow> (if is_fin_sent (sndvar (m_streams m s)) \<and> ack_seq = fss (sndvar (m_streams m s)) + 1 then do {
                let m = upd_snd s (\<lambda>v. v\<lparr>snd_una := ack_seq\<rparr>) m;
                let m = (if TCP_SEQ_GT ack_seq (snd_nxt (m_streams m s))
                         then upd_stream s (\<lambda>x. x\<lparr>snd_nxt := ack_seq\<rparr>) m else m);
                let m = upd_snd s (\<lambda>v. v\<lparr>nrtx := 0\<rparr>) m;
                m \<leftarrow> RemoveFromRTOList s m;
                Some (upd_stream s (\<lambda>x. x\<lparr>s_state := TCP_ST_FIN_WAIT_2\<rparr>) m)
              } else Some m);
        m \<leftarrow> payload_ack cfg s payload seq payloadlen m;
        if th_fin tcph \<and> seq + word_of_int payloadlen = rcv_nxt (m_streams m s) then do {
          let m = upd_stream s (\<lambda>x. x\<lparr>rcv_nxt := rcv_nxt x + 1\<rparr>) m;
          m \<leftarrow> (if s_state (m_streams m s) = TCP_ST_FIN_WAIT_1
                 then Some (upd_stream s (\<lambda>x. x\<lparr>s_state := TCP_ST_CLOSING\<rparr>) m)
                 else if s_state (m_streams m s) = TCP_ST_FIN_WAIT_2
                 then AddtoTimewaitList cfg s cur_ts (upd_stream s (\<lambda>x. x\<lparr>s_state := TCP_ST_TIME_WAIT\<rparr>) m)
                 else Some m);
          AddtoControlList cfg s m
        } else Some m
      }
      else Some m)"

definition Handle_TCP_ST_FIN_WAIT_2 ::
    "mtcp_config \<Rightarrow> u32 \<Rightarrow> nat \<Rightarrow> tcphdr \<Rightarrow> u32 \<Rightarrow> u32 \<Rightarrow> byte list \<Rightarrow> int \<Rightarrow> u16 \<Rightarrow> mtcp_manager \<Rightarrow> mtcp_manager option" where
  "Handle_TCP_ST_FIN_WAIT_2 cfg cur_ts s tcph seq ack_seq payload payloadlen window m =
     (if th_ack tcph then do {
        m \<leftarrow> process_ack_if cfg s cur_ts tcph seq ack_seq window payloadlen m;
        m \<leftarrow> payload_ack cfg s payload seq payloadlen m;
        if th_fin tcph \<and> seq + word_of_int payloadlen = rcv_nxt (m_streams m s) then do {
          let m = upd_stream s (\<lambda>x. x\<lparr>s_state := TCP_ST_TIME_WAIT, rcv_nxt := rcv_nxt x + 1\<rparr>) m;
          m \<leftarrow> AddtoTimewaitList cfg s cur_ts m;
          AddtoControlList cfg s m
        } else Some m
      }
      else Some m)"

definition Handle_TCP_ST_CLOSING ::
    "mtcp_config \<Rightarrow> u32 \<Rightarrow> nat \<Rightarrow> tcphdr \<Rightarrow> u32 \<Rightarrow> u32 \<Rightarrow> int \<Rightarrow> u16 \<Rightarrow> mtcp_manager \<Rightarrow> mtcp_manager option" where
  "Handle_TCP_ST_CLOSING cfg cur_ts s tcph seq ack_seq payloadlen window m =
     (if th_ack tcph then do {
        m \<leftarrow> process_ack_if cfg s cur_ts tcph seq ack_seq window payloadlen m;
        if \<not> is_fin_sent (sndvar (m_streams m s)) then Some m
        else if ack_seq \<noteq> fss (sndvar (m_streams m s)) + 1 then Some m
        else do {
          let m = upd_stream s (\<lambda>x. x\<lparr>snd_nxt := ack_seq\<rparr>) (upd_snd s (\<lambda>v. v\<lparr>snd_una := ack_seq\<rparr>) m);
          m \<leftarrow> UpdateRetransmissionTimer s cur_ts m;
          AddtoTimewaitList cfg s cur_ts (upd_stream s (\<lambda>x. x\<lparr>s_state := TCP_ST_TIME_WAIT\<rparr>) m)
        }
      }
      else Some m)"

section \<open>Segments\<close>

text \<open>The \<open>switch\<close> of \<open>ProcessTCPPacket\<close> over the state of the stream.\<close>

definition dispatch_state ::
    "mtcp_config \<Rightarrow> u32 \<Rightarrow> nat \<Rightarrow> u32 \<Rightarrow> u32 \<Rightarrow> tcphdr \<Rightarrow> byte list \<Rightarrow> int \<Rightarrow> mtcp_manager \<Rightarrow> mtcp_manager option" where
  "dispatch_state cfg cur_ts s saddr daddr tcph seg payloadlen m =
     (let seq = th_seq tcph; ack_seq = th_ack_seq tcph; window = th_window tcph;
          payload = drop (th_doff tcph * 4) seg
      in case s_state (m_streams m s) of
        TCP_ST_LISTEN \<Rightarrow> Handle_TCP_ST_LISTEN cfg s tcph m
      | TCP_ST_SYN_SENT \<Rightarrow>
          Handle_TCP_ST_SYN_SENT cfg cur_ts s saddr daddr tcph seg seq ack_seq payloadlen window m
      | TCP_ST_SYN_RCVD \<Rightarrow>
          (if th_syn tcph \<and> seq = irs (rcvvar (m_streams m s)) then Handle_TCP_ST_LISTEN cfg s tcph m
           else do {
             m \<leftarrow> Handle_TCP_ST_SYN_RCVD cfg s tcph ack_seq m;
             if payloadlen > 0 \<and> s_state (m_streams m s) = TCP_ST_ESTABLISHED
             then Handle_TCP_ST_ESTABLISHED cfg cur_ts s tcph seq ack_seq payload payloadlen window m
             else Some m
           })
      | TCP_ST_ESTABLISHED \<Rightarrow> Handle_TCP_ST_ESTABLISHED cfg cur_ts s tcph seq ack_seq payload payloadlen window m
      | TCP_ST_CLOSE_WAIT \<Rightarrow> Handle_TCP_ST_CLOSE_WAIT cfg cur_ts s tcph seq ack_seq payloadlen window m
      | TCP_ST_LAST_ACK \<Rightarrow> Handle_TCP_ST_LAST_ACK cfg cur_ts s tcph seq ack_seq payloadlen window m
      | TCP_ST_FIN_WAIT_1 \<Rightarrow> Handle_TCP_ST_FIN_WAIT_1 cfg cur_ts s tcph seq ack_seq payload payloadlen window m
      | TCP_ST_FIN_WAIT_2 \<Rightarrow> Handle_TCP_ST_FIN_WAIT_2 cfg cur_ts s tcph seq ack_seq payload payloadlen window m
      | TCP_ST_CLOSING \<Rightarrow> Handle_TCP_ST_CLOSING cfg cur_ts s tcph seq ack_seq payloadlen window m
      | TCP_ST_TIME_WAIT \<Rightarrow> do {
          m \<leftarrow> (if on_timewait_list (m_streams m s) then do {
                  m \<leftarrow> RemoveFromTimewaitList s m;
                  AddtoTimewaitList cfg s cur_ts m
                } else Some m);
          AddtoControlList cfg s m
        }
      | TCP_ST_CLOSED \<Rightarrow> Some m)"

text \<open>What is done with a segment once its stream is known: validation, the window and the activity of
  the stream, resets and the handler of the state.\<close>

definition process_on_stream ::
    "mtcp_config \<Rightarrow> u32 \<Rightarrow> nat \<Rightarrow> u32 \<Rightarrow> u32 \<Rightarrow> tcphdr \<Rightarrow> byte list \<Rightarrow> int \<Rightarrow> mtcp_manager \<Rightarrow> mtcp_manager option" where
  "process_on_stream cfg cur_ts s saddr daddr tcph seg payloadlen m = do {
     (ok, m) \<leftarrow> (if s_state (m_streams m s) > TCP_ST_SYN_RCVD
                  then ValidateSequence cfg s cur_ts tcph seg (th_seq tcph) payloadlen m else Some (True, m));
     if \<not> ok then Some m
     else do {
       wnd \<leftarrow> (if th_syn tcph then Some (ucast (th_window tcph))
               else shl32 (ucast (th_window tcph)) (unat (wscale_peer (sndvar (m_streams m s)))));
       let m = upd_snd s (\<lambda>v. v\<lparr>peer_wnd := wnd\<rparr>) m;
       m \<leftarrow> UpdateTimeoutList s (upd_stream s (\<lambda>x. x\<lparr>last_active_ts := cur_ts\<rparr>) m);
       (finished, m) \<leftarrow>
         (if th_rst tcph then
            let m = upd_stream s (\<lambda>x. x\<lparr>have_reset := True\<rparr>) m
            in if s_state (m_streams m s) > TCP_ST_SYN_SENT then ProcessRST cfg s (th_ack_seq tcph) m
               else Some (False, m)
          else Some (False, m));
       if finished then Some m
       else dispatch_state cfg cur_ts s saddr daddr tcph seg payloadlen m
     }
   }"

text \<open>\<open>ihl\<close>, \<open>saddr\<close> and \<open>daddr\<close> are fields of the IP header, \<open>seg\<close> the bytes behind it. The result is TRUE (1)
  or ERROR (-1).\<close>

definition ProcessTCPPacket ::
    "mtcp_config \<Rightarrow> u32 \<Rightarrow> int \<Rightarrow> nat \<Rightarrow> u32 \<Rightarrow> u32 \<Rightarrow> int \<Rightarrow> byte list \<Rightarrow> mtcp_manager \<Rightarrow> (int \<times> mtcp_manager) option" where
  "ProcessTCPPacket cfg cur_ts ifidx ihl saddr daddr ip_len seg m = do {
     tcph \<leftarrow> read_tcphdr seg;
     let payloadlen = ip_len - int (ihl * 4) - int (th_doff tcph * 4);
     if ip_len < int ((ihl + th_doff tcph) * 4) then Some (- 1, m)
     else do {
       check \<leftarrow> (if io_ioctl m ifidx PKT_RX_TCP_CSUM = - 1
                 then TCPCalcChecksum seg (word_of_int (int (th_doff tcph * 4) + payloadlen)) saddr daddr
                 else Some 0);
       if check \<noteq> 0 then Some (- 1, m)
       else do {
         let key = zero_stream\<lparr>s_saddr := daddr, s_sport := th_dest tcph, s_daddr := saddr, s_dport := th_source tcph\<rparr>;
         (so, m) \<leftarrow>
           (case StreamHTSearch (m_flow_table m) (m_streams m) key of
              Some s \<Rightarrow> Some (Some s, m)
            | None \<Rightarrow> CreateNewFlowHTEntry cfg cur_ts saddr daddr tcph seg (th_seq tcph) (th_ack_seq tcph)
                        payloadlen (th_window tcph) m);
         (case so of
            None \<Rightarrow> Some (1, m)
          | Some s \<Rightarrow> do {
              m \<leftarrow> process_on_stream cfg cur_ts s saddr daddr tcph seg payloadlen m;
              Some (1, m)
            })
       }
     }
   }"

end
