(* ===== verification/Rtt_Bounds.thy ===== *)
theory Rtt_Bounds
  imports Tcp_In
begin

text \<open>
  The estimate of the round trip time stays within the range of the measurements, so the timeout
  computed from it neither wraps around nor becomes zero.
\<close>

section \<open>One measurement\<close>

text \<open>All measurements lie between \<open>L\<close> and \<open>M\<close>. The smoothed round trip time is kept times eight.\<close>

definition rtt_ok :: "int \<Rightarrow> int \<Rightarrow> tcp_recv_vars \<Rightarrow> bool" where
  "rtt_ok L M v \<longleftrightarrow> 8 * L \<le> uint (srtt v) \<and> uint (srtt v) \<le> 8 * M
     \<and> uint (mdev v) \<le> 4 * M \<and> uint (mdev_max v) \<le> 4 * M \<and> uint (rttvar v) \<le> 4 * M"

lemma uint_add_int: "0 \<le> uint x + k \<Longrightarrow> uint x + k < 2 ^ 32 \<Longrightarrow> uint (x + word_of_int k) = uint x + k" for x :: u32
  by (simp add: uint_word_ariths uint_word_of_int_eq take_bit_eq_mod mod_add_right_eq mod_pos_pos_trivial)

lemma uint_shift: "uint (drop_bit 2 x) = uint x div 4" "uint (drop_bit 3 x) = uint x div 8" for x :: u32
  by (simp_all add: drop_bit_eq_div uint_div_distrib)

lemma smooth_range:
  assumes "0 \<le> L" "8 * L \<le> s" "s \<le> 8 * M" "L \<le> k" "k \<le> M"
  shows "8 * L \<le> s + (k - s div 8)" "s + (k - s div 8) \<le> (8 * M :: int)"
proof -
  have "s - s div 8 \<le> 7 * M" using assms(3) by presburger
  moreover have "7 * L \<le> s - s div 8" using assms(2) by presburger
  ultimately show "8 * L \<le> s + (k - s div 8)" "s + (k - s div 8) \<le> 8 * M" using assms(4,5) by linarith+
qed

lemma dev_range:
  assumes "\<bar>d\<bar> \<le> M" "uint x \<le> 4 * M"
  shows "0 \<le> uint x + mdev_change d x" "uint x + mdev_change d x \<le> 4 * M"
proof -
  have a: "y - y div 4 \<le> 3 * M" "0 \<le> y - y div 4" if "0 \<le> y" "y \<le> 4 * M" for y :: int using that by presburger+
  have "k div 8 \<le> k" "0 \<le> k div 8" if "k > 0" for k :: int using that by presburger+
  from this [of "- d - uint x div 4"] show "0 \<le> uint x + mdev_change d x" "uint x + mdev_change d x \<le> 4 * M"
    using a [of "uint x"] assms by (auto simp: mdev_change_def uint_shift Let_def abs_if split: if_splits)
qed

lemma max_word: "uint x \<le> n \<Longrightarrow> uint y \<le> n \<Longrightarrow> uint (max x y) \<le> n" for x y :: u32
  by (simp add: max_def)

lemma uint_sub_le: "y \<le> x \<Longrightarrow> uint (x - drop_bit 2 (x - y)) \<le> uint x" for x y :: u32
proof -
  assume "y \<le> x"
  have "drop_bit 2 (x - y) \<le> x"
  proof -
    have "a div 4 \<le> a" if "0 \<le> a" for a :: int using that by presburger
    then have "uint (drop_bit 2 (x - y)) \<le> uint (x - y)" by (simp add: uint_shift)
    moreover have "uint (x - y) \<le> uint x" using \<open>y \<le> x\<close> by (simp add: uint_minus_simple_alt word_le_def uint_sub_if')
    ultimately show ?thesis by (simp add: word_le_def)
  qed
  then show ?thesis by (simp add: uint_sub_if' word_le_def)
qed

lemma EstimateRTT_first:
  assumes "0 < L" "M < 2 ^ 29" "L \<le> uint k" "uint k \<le> M" "srtt (rcvvar st) = 0"
  shows "rtt_ok L M (rcvvar (EstimateRTT k st))"
proof -
  have k: "uint k \<noteq> 0" "k \<noteq> 0" using assms(1,3) by auto
  have "uint (word_of_int (uint k * 8) :: u32) = uint k * 8" "uint (word_of_int (uint k * 2) :: u32) = uint k * 2"
    using assms(2,4) uint_add_int [of 0 "uint k * 8"] uint_add_int [of 0 "uint k * 2"] by simp_all
  then show ?thesis using assms k by (simp add: rtt_ok_def EstimateRTT_def Let_def)
qed

lemma rtt_variation_ok:
  assumes "rtt_ok L M w" shows "rtt_ok L M (rtt_variation st w)"
proof -
  have "uint (mdev w) \<le> 4 * M" using assms by (simp add: rtt_ok_def)
  with uint_ge_0 [of "mdev w"] have "0 \<le> M" by linarith
  moreover have "uint (x - drop_bit 2 (x - y)) \<le> 4 * M" if "y < x" "uint x \<le> 4 * M" for x y :: u32
    using uint_sub_le [OF less_imp_le [OF that(1)]] that(2) by (rule order_trans)
  ultimately show ?thesis using assms by (auto simp: rtt_variation_def rtt_ok_def Let_def)
qed

lemma EstimateRTT_next:
  assumes "0 < L" "M < 2 ^ 29" "L \<le> uint k" "uint k \<le> M" and ok: "rtt_ok L M (rcvvar st)"
  shows "rtt_ok L M (rcvvar (EstimateRTT k st))"
proof -
  define v where "v = rcvvar st"
  define d where "d = uint k - uint (srtt v) div 8"
  define s1 where "s1 = srtt v + word_of_int d"
  define d1 where "d1 = mdev v + word_of_int (mdev_change d (mdev v))"
  have v: "8 * L \<le> uint (srtt v)" "uint (srtt v) \<le> 8 * M" "uint (mdev v) \<le> 4 * M" "uint (mdev_max v) \<le> 4 * M"
    "uint (rttvar v) \<le> 4 * M" using ok by (simp_all add: rtt_ok_def v_def)
  have k: "k \<noteq> 0" using assms(1,3) by auto
  have sv: "srtt v \<noteq> 0" using assms(1) v(1) by auto
  note s = smooth_range [OF less_imp_le [OF assms(1)] v(1,2) assms(3,4)]
  have s1: "8 * L \<le> uint s1" "uint s1 \<le> 8 * M"
    using s assms(1,2) uint_add_int [of "srtt v" d] by (simp_all add: s1_def d_def)
  have "\<bar>d\<bar> \<le> M" using v(1,2) assms(1,3,4) by (simp add: d_def)
  from dev_range [OF this v(3)] have d1: "uint d1 \<le> 4 * M"
    using assms(2) uint_add_int [of "mdev v" "mdev_change d (mdev v)"] by (simp add: d1_def)
  have "rcvvar (EstimateRTT k st) = rtt_variation st (v\<lparr>srtt := s1, mdev := d1\<rparr>)"
    using k sv by (simp add: EstimateRTT_def Let_def v_def [symmetric] s1_def d1_def d_def uint_shift)
  moreover have "rtt_ok L M (v\<lparr>srtt := s1, mdev := d1\<rparr>)" using s1 d1 v by (simp add: rtt_ok_def)
  ultimately show ?thesis by (simp add: rtt_variation_ok)
qed

section \<open>All measurements of a connection\<close>

text \<open>What happens to the estimate of a connection: it is created without one, measurements between
  \<open>L\<close> and \<open>M\<close> ticks are taken in, and everything else leaves the estimate alone.\<close>

inductive measured :: "int \<Rightarrow> int \<Rightarrow> nat \<Rightarrow> tcp_stream \<Rightarrow> bool" for L M where
  new: "srtt (rcvvar st) = 0 \<Longrightarrow> measured L M 0 st"
| sample: "measured L M n st \<Longrightarrow> L \<le> uint k \<Longrightarrow> uint k \<le> M \<Longrightarrow> measured L M (Suc n) (EstimateRTT k st)"
| other: "measured L M n st \<Longrightarrow> srtt (rcvvar st') = srtt (rcvvar st) \<Longrightarrow> mdev (rcvvar st') = mdev (rcvvar st) \<Longrightarrow>
    mdev_max (rcvvar st') = mdev_max (rcvvar st) \<Longrightarrow> rttvar (rcvvar st') = rttvar (rcvvar st) \<Longrightarrow> measured L M n st'"

lemma measured_ok:
  "measured L M n st \<Longrightarrow> 0 < L \<Longrightarrow> M < 2 ^ 29 \<Longrightarrow> (if n = 0 then srtt (rcvvar st) = 0 else rtt_ok L M (rcvvar st))"
proof (induction rule: measured.induct)
  case (sample n st k)
  then show ?case by (cases n) (auto intro: EstimateRTT_first EstimateRTT_next)
qed (auto simp: rtt_ok_def split: if_splits)

text \<open>The timeout that \<open>ProcessACK\<close> computes from the estimate.\<close>

definition rto_of :: "tcp_recv_vars \<Rightarrow> u32" where
  "rto_of v = drop_bit 3 (srtt v) + rttvar v"

lemma rto_of_range:
  assumes "rtt_ok L M v" "0 < L" "M < 2 ^ 29"
  shows "L \<le> uint (rto_of v)" "uint (rto_of v) \<le> 5 * M"
proof -
  have v: "8 * L \<le> uint (srtt v)" "uint (srtt v) \<le> 8 * M" "uint (rttvar v) \<le> 4 * M" using assms(1) by (simp_all add: rtt_ok_def)
  have d: "L \<le> uint (srtt v) div 8" "uint (srtt v) div 8 \<le> M" using v by presburger+
  have "uint (rto_of v) = uint (srtt v) div 8 + uint (rttvar v)"
    using uint_add_int [of "drop_bit 3 (srtt v)" "uint (rttvar v)"] d v(3) assms(2,3)
    by (simp add: rto_of_def uint_shift)
  then show "L \<le> uint (rto_of v)" "uint (rto_of v) \<le> 5 * M"
    using d v(3) uint_ge_0 [of "rttvar v"] by linarith+
qed

text \<open>C18. When all measured round trip times of a connection lie between \<open>L\<close> and \<open>M\<close> ticks, with at least one
  taken and \<open>M\<close> below \<open>2 ^ 29\<close>, then so does the smoothed round trip time (which is stored times eight),
  and the retransmission timeout computed from it is at least \<open>L\<close> and at most \<open>5 * M\<close> ticks: no addition
  or subtraction of the estimator wraps around and the timeout is never zero.\<close>

theorem EstimateRTT_range:
  assumes "measured L M n st" and "0 < n" and "0 < L" and "M < 2 ^ 29"
  shows "8 * L \<le> uint (srtt (rcvvar st)) \<and> uint (srtt (rcvvar st)) \<le> 8 * M
    \<and> L \<le> uint (rto_of (rcvvar st)) \<and> uint (rto_of (rcvvar st)) \<le> 5 * M"
proof -
  have ok: "rtt_ok L M (rcvvar st)" using measured_ok [OF assms(1,3,4)] assms(2) by simp
  from rto_of_range [OF this assms(3,4)] this show ?thesis by (simp add: rtt_ok_def)
qed

theorem EstimateRTT_range_witness:
  "8 * 10 \<le> uint (srtt (rcvvar (EstimateRTT 10 (EstimateRTT 50 zero_stream))))
    \<and> uint (srtt (rcvvar (EstimateRTT 10 (EstimateRTT 50 zero_stream)))) \<le> 8 * 50
    \<and> 10 \<le> uint (rto_of (rcvvar (EstimateRTT 10 (EstimateRTT 50 zero_stream))))
    \<and> uint (rto_of (rcvvar (EstimateRTT 10 (EstimateRTT 50 zero_stream)))) \<le> 5 * 50"
proof -
  have "measured 10 50 0 zero_stream" by (rule measured.new) (simp add: zero_stream_def zero_recv_vars_def)
  then have "measured 10 50 (Suc (Suc 0)) (EstimateRTT 10 (EstimateRTT 50 zero_stream))"
    by (intro measured.sample) simp_all
  from EstimateRTT_range [OF this] show ?thesis by simp
qed

end
