(* ===== verification/Icmp.thy ===== *)
theory Icmp
  imports Net_Out
begin

text \<open>
  ICMP (icmp.c): the checksum, echo requests and replies. A packet is the list of the bytes from the
  IP header to the end of the frame.
\<close>

section \<open>Received IP headers\<close>

record iphdr =
  ih_ihl :: nat
  ih_version :: nat
  ih_tot_len :: u16
  ih_protocol :: u8
  ih_saddr :: u32
  ih_daddr :: u32

definition read_iphdr :: "byte list \<Rightarrow> iphdr option" where
  "read_iphdr b = (if 20 \<le> length b then Some
     \<lparr>ih_ihl = unat (b ! 0 AND 0x0F), ih_version = unat (drop_bit 4 (b ! 0)), ih_tot_len = be16 (b ! 2) (b ! 3),
      ih_protocol = b ! 9, ih_saddr = le32 (b ! 12) (b ! 13) (b ! 14) (b ! 15),
      ih_daddr = le32 (b ! 16) (b ! 17) (b ! 18) (b ! 19)\<rparr> else None)"

section \<open>Checksum\<close>

text \<open>For an odd length the code adds a variable of which only the low byte is assigned; its value is
  indeterminate, so the result is undefined.\<close>

definition ICMPChecksum :: "byte list \<Rightarrow> int \<Rightarrow> u16 option" where
  "ICMPChecksum icmph len =
     (if len < 0 then None
      else do {
        bs \<leftarrow> read_at icmph 0 (nat len);
        if odd (nat len) then None
        else
          let acc = csum_words bs 0;
              acc = drop_bit 16 acc + (acc AND 0xffff);
              acc = acc + drop_bit 16 acc
          in Some (ucast (NOT acc))
      })"

section \<open>Messages\<close>

definition ICMP_ECHOREPLY :: u8 where "ICMP_ECHOREPLY = 0"
definition ICMP_ECHO :: u8 where "ICMP_ECHO = 8"
definition sizeof_icmphdr :: nat where "sizeof_icmphdr = 8"

definition icmp_bytes :: "u8 \<Rightarrow> u8 \<Rightarrow> u16 \<Rightarrow> u16 \<Rightarrow> u16 \<Rightarrow> byte list \<Rightarrow> byte list" where
  "icmp_bytes type code check ident seq data =
     [type, code] @ le16_bytes check @ be16_bytes ident @ be16_bytes seq @ data"

definition ICMPOutput ::
    "mtcp_config \<Rightarrow> u32 \<Rightarrow> u32 \<Rightarrow> u8 \<Rightarrow> u8 \<Rightarrow> u16 \<Rightarrow> u16 \<Rightarrow> byte list \<Rightarrow> u16 \<Rightarrow> mtcp_manager \<Rightarrow> (int \<times> mtcp_manager) option" where
  "ICMPOutput cfg saddr daddr type code ident seq icmpd len m = do {
     (w, m) \<leftarrow> IPOutputStandalone cfg IPPROTO_ICMP 0 saddr daddr (word_of_nat sizeof_icmphdr + len) m;
     (case w of
        None \<Rightarrow> Some (- 1, m)
      | Some (w, ip_off) \<Rightarrow> do {
          data \<leftarrow> read_at icmpd 0 (unat len);
          c \<leftarrow> ICMPChecksum (icmp_bytes type code 0 ident seq data) (int sizeof_icmphdr + int (unat len));
          m \<leftarrow> put_frame w (icmp_bytes type code c ident seq data) ip_off False m;
          Some (0, m)
        })
   }"

definition RequestICMP ::
    "mtcp_config \<Rightarrow> u32 \<Rightarrow> u32 \<Rightarrow> u16 \<Rightarrow> u16 \<Rightarrow> byte list \<Rightarrow> u16 \<Rightarrow> mtcp_manager \<Rightarrow> mtcp_manager option" where
  "RequestICMP cfg saddr daddr ident seq icmpd len m = do {
     (r, m) \<leftarrow> ICMPOutput cfg saddr daddr ICMP_ECHO 0 (bswap16 ident) (bswap16 seq) icmpd len m;
     Some m
   }"

text \<open>The result of \<open>ICMPOutput\<close> is ignored. The data length is truncated to 16 bits, also when it is
  negative.\<close>

definition ProcessICMPECHORequest ::
    "mtcp_config \<Rightarrow> iphdr \<Rightarrow> byte list \<Rightarrow> int \<Rightarrow> mtcp_manager \<Rightarrow> (int \<times> mtcp_manager) option" where
  "ProcessICMPECHORequest cfg iph icmp len m = do {
     c \<leftarrow> ICMPChecksum icmp (len - int (ih_ihl iph * 4));
     if c \<noteq> 0 then Some (- 1, m)
     else do {
       hdr \<leftarrow> read_at icmp 0 sizeof_icmphdr;
       (r, m) \<leftarrow> ICMPOutput cfg (ih_daddr iph) (ih_saddr iph) ICMP_ECHOREPLY 0 (be16 (hdr ! 4) (hdr ! 5))
                   (be16 (hdr ! 6) (hdr ! 7)) (drop sizeof_icmphdr icmp)
                   (word_of_int (len - int (ih_ihl iph * 4) - int sizeof_icmphdr)) m;
       Some (0, m)
     }
   }"

text \<open>\<open>pkt\<close> is the packet from its IP header on, and \<open>len\<close> its total length. The result is always TRUE.\<close>

definition ProcessICMPPacket :: "mtcp_config \<Rightarrow> byte list \<Rightarrow> int \<Rightarrow> mtcp_manager \<Rightarrow> (int \<times> mtcp_manager) option" where
  "ProcessICMPPacket cfg pkt len m = do {
     iph \<leftarrow> read_iphdr pkt;
     if \<not> (\<exists>e \<in> set (c_eths cfg). ih_daddr iph = et_ip_addr e) then Some (1, m)
     else do {
       let icmp = drop (ih_ihl iph * 4) pkt;
       type \<leftarrow> byte_at icmp 0;
       if type = ICMP_ECHO then do {
         (r, m) \<leftarrow> ProcessICMPECHORequest cfg iph icmp len m;
         Some (1, m)
       } else Some (1, m)
     }
   }"

end
