(* ===== verification/Core.thy ===== *)
theory Core
  imports Tcp_In Icmp
begin

text \<open>
  The main loop of the stack (core.c) and the input path below TCP (eth_in.c, ip_in.c): a round
  takes received frames, runs the timers, moves events to the application, handles what the
  application has put into the queues and writes out the segments that are due.
\<close>

section \<open>Received frames\<close>

text \<open>The results are TRUE (1), FALSE (0) and ERROR (-1). \<open>pkt\<close> is the frame.\<close>

definition ProcessIPv4Packet ::
    "mtcp_config \<Rightarrow> u32 \<Rightarrow> int \<Rightarrow> byte list \<Rightarrow> mtcp_manager \<Rightarrow> (int \<times> mtcp_manager) option" where
  "ProcessIPv4Packet cfg cur_ts ifidx pkt m = do {
     let ip = drop (unat ETHERNET_HEADER_LEN) pkt;
     iph \<leftarrow> read_iphdr ip;
     let ip_len = int (unat (ih_tot_len iph));
     if ip_len < 20 then Some (- 1, m)
     else do {
       c \<leftarrow> (if io_ioctl m ifidx PKT_RX_IP_CSUM = - 1 then ip_fast_csum ip (ih_ihl iph) else Some 0);
       if c \<noteq> 0 then Some (- 1, m)
       else if ih_version iph \<noteq> 4 then Some (0, m)
       else if ucast (ih_protocol iph) = IPPROTO_TCP then
         ProcessTCPPacket cfg cur_ts ifidx (ih_ihl iph) (ih_saddr iph) (ih_daddr iph) ip_len
           (drop (ih_ihl iph * 4) ip) m
       else if ih_protocol iph = IPPROTO_ICMP then ProcessICMPPacket cfg ip ip_len m
       else Some (0, m)
     }
   }"

definition ProcessPacket ::
    "mtcp_config \<Rightarrow> int \<Rightarrow> u32 \<Rightarrow> byte list \<Rightarrow> mtcp_manager \<Rightarrow> (int \<times> mtcp_manager) option" where
  "ProcessPacket cfg ifidx cur_ts pkt m = do {
     hdr \<leftarrow> read_at pkt 0 (unat ETHERNET_HEADER_LEN);
     let ip_proto = be16 (hdr ! 12) (hdr ! 13);
     if ip_proto = ETH_P_IP then ProcessIPv4Packet cfg cur_ts ifidx pkt m
     else if ip_proto = ETH_P_ARP then do { m \<leftarrow> ProcessARPPacket cfg ifidx pkt m; Some (1, m) }
     else Some (1, m)
   }"

section \<open>Calls of the application\<close>

text \<open>A loop that empties a queue; the stream it takes out is handled before the next one. A queue
  holds fewer streams than its capacity, which bounds the number of turns.\<close>

fun drain ::
    "nat \<Rightarrow> (mtcp_manager \<Rightarrow> nat click_queue) \<Rightarrow> (nat click_queue \<Rightarrow> mtcp_manager \<Rightarrow> mtcp_manager) \<Rightarrow>
     (nat \<Rightarrow> mtcp_manager \<Rightarrow> mtcp_manager option) \<Rightarrow> mtcp_manager \<Rightarrow> mtcp_manager option" where
  "drain 0 get put f m = do {
     (r, q) \<leftarrow> StreamDequeue (get m);
     if r = None then Some (put q m) else None
   }"
| "drain (Suc n) get put f m = do {
     (r, q) \<leftarrow> StreamDequeue (get m);
     (case r of
        None \<Rightarrow> Some (put q m)
      | Some s \<Rightarrow> do { m \<leftarrow> f s (put q m); drain n get put f m })
   }"

definition drain_queue where
  "drain_queue get put f m = drain (unat (q_capacity (get m))) get put f m"

definition start_close :: "nat \<Rightarrow> mtcp_manager \<Rightarrow> mtcp_manager" where
  "start_close s m =
     (if s_state (m_streams m s) = TCP_ST_ESTABLISHED then upd_stream s (\<lambda>x. x\<lparr>s_state := TCP_ST_FIN_WAIT_1\<rparr>) m
      else if s_state (m_streams m s) = TCP_ST_CLOSE_WAIT then upd_stream s (\<lambda>x. x\<lparr>s_state := TCP_ST_LAST_ACK\<rparr>) m
      else m)"

definition reset_destroy :: "mtcp_config \<Rightarrow> nat \<Rightarrow> mtcp_manager \<Rightarrow> mtcp_manager option" where
  "reset_destroy cfg s m =
     (if s_state (m_streams m s) \<noteq> TCP_ST_CLOSED
      then DestroyTCPStream cfg s (upd_stream s (\<lambda>x. x\<lparr>close_reason := TCP_RESET, s_state := TCP_ST_CLOSED\<rparr>) m)
      else Some m)"

definition handle_close :: "mtcp_config \<Rightarrow> nat \<Rightarrow> mtcp_manager \<Rightarrow> mtcp_manager option" where
  "handle_close cfg s m = do {
     let m = upd_snd s (\<lambda>v. v\<lparr>on_closeq := False\<rparr>) m;
     let m = upd_stream s (\<lambda>x. x\<lparr>sndvar := (sndvar x)\<lparr>fss :=
               (case sndbuf (sndvar x) of Some b \<Rightarrow> sb_head_seq b + sb_len b | None \<Rightarrow> snd_nxt x)\<rparr>\<rparr>) m;
     m \<leftarrow> (if c_tcp_timeout cfg > 0 then RemoveFromTimeoutList s m else Some m);
     let sv = sndvar (m_streams m s);
     if have_reset (m_streams m s) then reset_destroy cfg s m
     else if on_control_list sv then do {
       let m = upd_snd s (\<lambda>v. v\<lparr>on_closeq_int := True\<rparr>) m;
       (r, q) \<leftarrow> StreamInternalEnqueue (m_closeq_int m) s;
       Some (m\<lparr>m_closeq_int := q\<rparr>)
     }
     else if on_send_list sv \<or> on_ack_list sv then
       Some (upd_stream s (\<lambda>x. x\<lparr>control_list_waiting := True\<rparr>) (start_close s m))
     else if s_state (m_streams m s) \<noteq> TCP_ST_CLOSED then AddtoControlList cfg s (start_close s m)
     else Some m
   }"

fun close_int_loop :: "nat \<Rightarrow> mtcp_config \<Rightarrow> mtcp_manager \<Rightarrow> mtcp_manager option" where
  "close_int_loop 0 cfg m = Some m"
| "close_int_loop (Suc n) cfg m = do {
     (r, q) \<leftarrow> StreamInternalDequeue (m_closeq_int m);
     s \<leftarrow> r;
     let m = m\<lparr>m_closeq_int := q\<rparr>;
     m \<leftarrow> (if on_control_list (sndvar (m_streams m s)) then do {
             (r, q) \<leftarrow> StreamInternalEnqueue (m_closeq_int m) s;
             Some (m\<lparr>m_closeq_int := q\<rparr>)
           }
           else if s_state (m_streams m s) \<noteq> TCP_ST_CLOSED
           then AddtoControlList cfg s (start_close s (upd_snd s (\<lambda>v. v\<lparr>on_closeq_int := False\<rparr>) m))
           else Some (upd_snd s (\<lambda>v. v\<lparr>on_closeq_int := False\<rparr>) m));
     close_int_loop n cfg m
   }"

text \<open>The connection is closed with a RST, which the control list sends.\<close>

definition abort_stream :: "mtcp_config \<Rightarrow> nat \<Rightarrow> mtcp_manager \<Rightarrow> mtcp_manager option" where
  "abort_stream cfg s m =
     (if s_state (m_streams m s) \<noteq> TCP_ST_CLOSED
      then AddtoControlList cfg s (upd_stream s (\<lambda>x. x\<lparr>close_reason := TCP_ACTIVE_CLOSE, s_state := TCP_ST_CLOSED\<rparr>) m)
      else Some m)"

definition on_any_list :: "tcp_send_vars \<Rightarrow> bool" where
  "on_any_list v \<longleftrightarrow> on_control_list v \<or> on_send_list v \<or> on_ack_list v"

definition handle_reset :: "mtcp_config \<Rightarrow> nat \<Rightarrow> mtcp_manager \<Rightarrow> mtcp_manager option" where
  "handle_reset cfg s m = do {
     let m = upd_snd s (\<lambda>v. v\<lparr>on_resetq := False\<rparr>) m;
     m \<leftarrow> (if c_tcp_timeout cfg > 0 then RemoveFromTimeoutList s m else Some m);
     if have_reset (m_streams m s) then reset_destroy cfg s m
     else if on_any_list (sndvar (m_streams m s)) then do {
       let m = upd_snd s (\<lambda>v. v\<lparr>on_resetq_int := True\<rparr>) m;
       (r, q) \<leftarrow> StreamInternalEnqueue (m_resetq_int m) s;
       Some (m\<lparr>m_resetq_int := q\<rparr>)
     }
     else abort_stream cfg s m
   }"

fun reset_int_loop :: "nat \<Rightarrow> mtcp_config \<Rightarrow> mtcp_manager \<Rightarrow> mtcp_manager option" where
  "reset_int_loop 0 cfg m = Some m"
| "reset_int_loop (Suc n) cfg m = do {
     (r, q) \<leftarrow> StreamInternalDequeue (m_resetq_int m);
     s \<leftarrow> r;
     let m = m\<lparr>m_resetq_int := q\<rparr>;
     m \<leftarrow> (if on_any_list (sndvar (m_streams m s)) then do {
             (r, q) \<leftarrow> StreamInternalEnqueue (m_resetq_int m) s;
             Some (m\<lparr>m_resetq_int := q\<rparr>)
           }
           else abort_stream cfg s (upd_snd s (\<lambda>v. v\<lparr>on_resetq_int := False\<rparr>) m));
     reset_int_loop n cfg m
   }"

definition HandleApplicationCalls :: "mtcp_config \<Rightarrow> mtcp_manager \<Rightarrow> mtcp_manager option" where
  "HandleApplicationCalls cfg m = do {
     m \<leftarrow> drain_queue m_connectq (\<lambda>q m. m\<lparr>m_connectq := q\<rparr>) (AddtoControlList cfg) m;
     m \<leftarrow> drain_queue m_sendq (\<lambda>q m. m\<lparr>m_sendq := q\<rparr>)
            (\<lambda>s m. AddtoSendList cfg s (upd_snd s (\<lambda>v. v\<lparr>on_sendq := False\<rparr>) m)) m;
     m \<leftarrow> drain_queue m_ackq (\<lambda>q m. m\<lparr>m_ackq := q\<rparr>)
            (\<lambda>s m. EnqueueACK cfg s ACK_OPT_AGGREGATE (upd_snd s (\<lambda>v. v\<lparr>on_ackq := False\<rparr>) m)) m;
     m \<leftarrow> drain_queue m_closeq (\<lambda>q m. m\<lparr>m_closeq := q\<rparr>) (handle_close cfg) m;
     m \<leftarrow> close_int_loop (nat (si_count (m_closeq_int m))) cfg m;
     m \<leftarrow> drain_queue m_resetq (\<lambda>q m. m\<lparr>m_resetq := q\<rparr>) (handle_reset cfg) m;
     m \<leftarrow> reset_int_loop (nat (si_count (m_resetq_int m))) cfg m;
     m \<leftarrow> drain_queue m_destroyq (\<lambda>q m. m\<lparr>m_destroyq := q\<rparr>) (DestroyTCPStream cfg) m;
     Some (m\<lparr>m_wakeup_flag := False\<rparr>)
   }"

section \<open>Writing packets\<close>

definition write_sender :: "mtcp_config \<Rightarrow> u32 \<Rightarrow> int \<Rightarrow> sender_id \<Rightarrow> mtcp_manager \<Rightarrow> mtcp_manager option" where
  "write_sender cfg cur_ts thresh k m = do {
     m \<leftarrow> (if control_list_cnt (m_senders m k) \<noteq> 0
            then map_option snd (WriteTCPControlList cfg k cur_ts thresh m) else Some m);
     m \<leftarrow> (if ack_list_cnt (m_senders m k) \<noteq> 0
            then map_option snd (WriteTCPACKList cfg k cur_ts thresh m) else Some m);
     if send_list_cnt (m_senders m k) \<noteq> 0
     then map_option snd (WriteTCPDataList cfg k cur_ts thresh m) else Some m
   }"

fun write_senders :: "mtcp_config \<Rightarrow> u32 \<Rightarrow> int \<Rightarrow> sender_id list \<Rightarrow> mtcp_manager \<Rightarrow> mtcp_manager option" where
  "write_senders cfg cur_ts thresh [] m = Some m"
| "write_senders cfg cur_ts thresh (k # ks) m = do {
     m \<leftarrow> write_sender cfg cur_ts thresh k m;
     write_senders cfg cur_ts thresh ks m
   }"

definition WritePacketsToChunks :: "mtcp_config \<Rightarrow> u32 \<Rightarrow> mtcp_manager \<Rightarrow> mtcp_manager option" where
  "WritePacketsToChunks cfg cur_ts m =
     write_senders cfg cur_ts (c_max_concurrency cfg) (GSender # map NSender [0..<length (c_eths cfg)]) m"

section \<open>The main loop\<close>

fun process_frames ::
    "mtcp_config \<Rightarrow> u32 \<Rightarrow> (int \<times> byte list option) list \<Rightarrow> mtcp_manager \<Rightarrow> mtcp_manager option" where
  "process_frames cfg ts [] m = Some m"
| "process_frames cfg ts ((rx_inf, pkt) # frames) m = do {
     m \<leftarrow> (case pkt of
             Some p \<Rightarrow> do { (r, m) \<leftarrow> ProcessPacket cfg rx_inf ts p m; Some m }
           | None \<Rightarrow> Some m);
     process_frames cfg ts frames m
   }"

definition flush_manager_events :: "u32 \<Rightarrow> mtcp_manager \<Rightarrow> mtcp_manager option" where
  "flush_manager_events ts m =
     (case m_ep m of
        Some e \<Rightarrow> do {
          (woken, ep) \<leftarrow> FlushEpollEvents (m_eps m e);
          let m = m\<lparr>m_eps := (m_eps m)(e := ep)\<rparr>;
          Some (if woken then m\<lparr>m_ts_last_event := ts\<rparr> else m)
        }
      | None \<Rightarrow> Some m)"

text \<open>One round of the loop in \<open>RunMainLoop\<close>. \<open>frames\<close> is what the driver delivers, interface by interface,
  with \<^const>\<open>None\<close> for a frame it cannot hand out; \<open>ts\<close> is the time and \<open>master\<close> whether this core runs
  the ARP timer. Sending what is in the write buffers is left to the driver.\<close>

definition main_loop_round ::
    "mtcp_config \<Rightarrow> bool \<Rightarrow> u32 \<Rightarrow> u32 \<Rightarrow> (int \<times> byte list option) list \<Rightarrow> mtcp_manager \<Rightarrow> mtcp_manager option" where
  "main_loop_round cfg master ts ts_prev frames m = do {
     let m = m\<lparr>m_cur_ts := ts\<rparr>;
     m \<leftarrow> process_frames cfg ts frames m;
     m \<leftarrow> (if m_flow_cnt m > 0 then do {
             m \<leftarrow> CheckRtmTimeout cfg ts (c_max_concurrency cfg) m;
             m \<leftarrow> CheckTimewaitExpire cfg ts (c_max_concurrency cfg) m;
             if c_tcp_timeout cfg > 0 \<and> ts \<noteq> ts_prev
             then CheckConnectionTimeout cfg ts (c_max_concurrency cfg) m else Some m
           } else Some m);
     m \<leftarrow> flush_manager_events ts m;
     m \<leftarrow> (if m_flow_cnt m > 0 then HandleApplicationCalls cfg m else Some m);
     m \<leftarrow> WritePacketsToChunks cfg ts m;
     Some (if ts \<noteq> ts_prev \<and> master then ARPTimer ts m else m)
   }"

end
