(* ===== verification/Manager_Init.thy ===== *)
theory Manager_Init
  imports Core
begin

text \<open>
  The creation of the per-core manager (core.c, fhash.c). The structure starts zeroed; the argument
  \<open>e\<close> is the surroundings of the manager, with the outcomes of the allocations and the contents of
  fresh memory. The result is \<^const>\<open>None\<close> when the process exits or would use a pointer that is NULL,
  and \<open>Some None\<close> when the manager is given up and NULL is returned.
\<close>

section \<open>Senders and sockets\<close>

definition CreateMTCPSender :: "bool \<Rightarrow> int \<Rightarrow> mtcp_sender option" where
  "CreateMTCPSender calloc_ok ifidx =
     (if \<not> calloc_ok then None
      else Some \<lparr>sd_ifidx = ifidx, control_list = [], send_list = [], ack_list = [],
                 control_list_cnt = 0, send_list_cnt = 0, ack_list_cnt = 0\<rparr>)"

text \<open>The senders of the interfaces from \<open>i\<close> on; \<open>n\<close> of them are left to create.\<close>

fun create_senders ::
    "nat \<Rightarrow> (nat \<Rightarrow> bool) \<Rightarrow> nat \<Rightarrow> (sender_id \<Rightarrow> mtcp_sender) \<Rightarrow> (sender_id \<Rightarrow> mtcp_sender) option" where
  "create_senders 0 ok i sd = Some sd"
| "create_senders (Suc n) ok i sd =
     (case CreateMTCPSender (ok i) (int i) of
        None \<Rightarrow> None
      | Some s \<Rightarrow> create_senders n ok (Suc i) (sd(NSender i := s)))"

definition unused_socket :: "nat \<Rightarrow> socket_map" where
  "unused_socket i = \<lparr>so_id = i, so_socktype = MTCP_SOCK_UNUSED, so_opts = 0, so_sin_addr = 0, so_sin_port = 0,
     so_obj = NoObj, so_epoll = 0, so_events = 0, so_ep_data = 0\<rparr>"

fun init_smap :: "nat list \<Rightarrow> (nat \<Rightarrow> socket_map) \<Rightarrow> nat list \<Rightarrow> ((nat \<Rightarrow> socket_map) \<times> nat list) option" where
  "init_smap [] smap free = Some (smap, free)"
| "init_smap (i # is) smap free = do {
     free \<leftarrow> tailq_insert_tail free i;
     init_smap is (smap(i := unused_socket i)) free
   }"

section \<open>The manager\<close>

definition BACKLOG_SIZE :: int where "BACKLOG_SIZE = 10 * 1024"

text \<open>\<open>if (!x) return NULL;\<close>\<close>

definition or_null :: "'a option option \<Rightarrow> ('a \<Rightarrow> 'b option option) \<Rightarrow> 'b option option" where
  "or_null x f = do { r \<leftarrow> x; (case r of None \<Rightarrow> Some None | Some v \<Rightarrow> f v) }"

text \<open>A pool for as many objects of \<open>sz\<close> bytes as there may be connections.\<close>

definition flow_sized_pool :: "mtcp_config \<Rightarrow> bool \<Rightarrow> bool \<Rightarrow> (nat \<Rightarrow> mem_chunk) \<Rightarrow> nat \<Rightarrow> mem_pool option option" where
  "flow_sized_pool cfg calloc_ok memalign_ok mem sz =
     MPCreate calloc_ok memalign_ok mem sz (unat (word_of_nat sz * word_of_int (c_max_concurrency cfg) :: u64))"

text \<open>\<open>sizes\<close> are the sizes of \<open>tcp_stream\<close>, \<open>tcp_recv_vars\<close> and \<open>tcp_send_vars\<close>, which the compiler decides;
  \<open>log_ok\<close> is whether the log file can be opened. The outcome of allocation number \<open>n\<close> is \<open>ok n\<close>. The
  pointer to the retransmission store is not checked.\<close>

definition InitializeMTCPManager ::
    "mtcp_config \<Rightarrow> nat \<times> nat \<times> nat \<Rightarrow> bool \<Rightarrow> mtcp_manager \<Rightarrow> mtcp_manager option option" where
  "InitializeMTCPManager cfg sizes log_ok e = (
     let ok = (\<lambda>n. env_alloc e (env_alloc_n e + n)); (sz_flow, sz_rv, sz_sv) = sizes;
         cap = c_max_concurrency cfg; eths = length (c_eths cfg);
         bufs = (word_of_int (c_max_num_buffers cfg) :: u32)
     in
     if \<not> ok 0 then Some None
     else
     or_null (Some (CreateHashtable (ok 1) (ok 2))) (\<lambda>flow_table.
     or_null (Some (CreateHashtable (ok 3) (ok 4))) (\<lambda>listeners.
     or_null (flow_sized_pool cfg (ok 5) (ok 6) (mp_mem (m_flow_pool e)) sz_flow) (\<lambda>flow_pool.
     or_null (flow_sized_pool cfg (ok 7) (ok 8) (mp_mem (m_rv_pool e)) sz_rv) (\<lambda>rv_pool.
     or_null (flow_sized_pool cfg (ok 9) (ok 10) (mp_mem (m_sv_pool e)) sz_sv) (\<lambda>sv_pool.
     or_null (SBManagerCreate (ok 11) (ok 12) (ok 13) (ok 14) (ok 15) (mp_mem (sbm_mp (m_rbm_snd e)))
                (sbm_bytes (m_rbm_snd e)) (unat (word_of_int (c_sndbuf_size cfg) :: u64)) bufs) (\<lambda>rbm_snd.
     or_null (RBManagerCreate (ok 16) (ok 17, ok 18) (ok 19, ok 20) (ok 21, ok 22) (ok 23, ok 24)
                (mp_mem (rbm_mp (m_rbm_rcv e))) (mp_mem (rbm_frag_mp (m_rbm_rcv e))) (rbm_bytes (m_rbm_rcv e))
                (unat (word_of_int (c_rcvbuf_size cfg) :: u64)) bufs) (\<lambda>rbm_rcv.
     if \<not> ok 25 then Some None
     else do {
     (smap, free_smap) \<leftarrow> init_smap [0..<nat cap] (m_smap e) [];
     if \<not> log_ok then Some None
     else
     or_null (Some (CreateStreamQueue (ok 26) (ok 27) BACKLOG_SIZE)) (\<lambda>connectq.
     or_null (Some (CreateStreamQueue (ok 28) (ok 29) cap)) (\<lambda>sendq.
     or_null (Some (CreateStreamQueue (ok 30) (ok 31) cap)) (\<lambda>ackq.
     or_null (Some (CreateStreamQueue (ok 32) (ok 33) cap)) (\<lambda>closeq.
     or_null (Some (CreateInternalStreamQueue (ok 34) (ok 35) cap)) (\<lambda>closeq_int.
     or_null (Some (CreateStreamQueue (ok 36) (ok 37) cap)) (\<lambda>resetq.
     or_null (Some (CreateInternalStreamQueue (ok 38) (ok 39) cap)) (\<lambda>resetq_int.
     or_null (Some (CreateStreamQueue (ok 40) (ok 41) cap)) (\<lambda>destroyq.
     or_null (Some (CreateMTCPSender (ok 42) (- 1))) (\<lambda>g_sender.
     or_null (Some (create_senders eths (\<lambda>i. ok (43 + i)) 0 (\<lambda>_. g_sender))) (\<lambda>senders. do {
       rto_store \<leftarrow> InitRTOHashstore (ok (43 + eths));
       Some (Some (e\<lparr>m_flow_pool := flow_pool, m_rv_pool := rv_pool, m_sv_pool := sv_pool,
         m_rbm_snd := rbm_snd, m_rbm_rcv := rbm_rcv, m_flow_table := flow_table,
         m_smap := smap, m_free_smap := free_smap, m_ap := None, m_aps := (\<lambda>_. None), m_g_id := 0, m_flow_cnt := 0,
         m_eps_next := 0, m_ep := None, m_pipes_next := 0, m_ts_last_event := 0, m_listeners_next := 0, m_lt_table := listeners,
         m_connectq := connectq, m_sendq := sendq, m_ackq := ackq, m_closeq := closeq, m_closeq_int := closeq_int,
         m_resetq := resetq, m_resetq_int := resetq_int, m_destroyq := destroyq,
         m_senders := senders, m_rto_store := rto_store, m_timewait_list := [], m_timeout_list := [],
         m_rto_list_cnt := 0, m_timewait_list_cnt := 0, m_timeout_list_cnt := 0, m_cur_ts := 0,
         m_wakeup_flag := False, m_is_sleeping := False, env_alloc_n := env_alloc_n e + 44 + eths\<rparr>))
     })))))))))) }))))))))"

section \<open>The fresh manager\<close>

lemma or_null_Some: "or_null x f = Some (Some y) \<longleftrightarrow> (\<exists>v. x = Some (Some v) \<and> f v = Some (Some y))"
  by (auto simp: or_null_def split: option.splits Option.bind_splits)

definition idle_sender :: "mtcp_sender \<Rightarrow> bool" where
  "idle_sender sd \<longleftrightarrow> control_list sd = [] \<and> send_list sd = [] \<and> ack_list sd = []
     \<and> control_list_cnt sd = 0 \<and> send_list_cnt sd = 0 \<and> ack_list_cnt sd = 0"

lemma CreateMTCPSender_idle: "CreateMTCPSender b i = Some sd \<Longrightarrow> idle_sender sd"
  by (auto simp: CreateMTCPSender_def idle_sender_def split: if_splits)

lemma create_senders_idle:
  "create_senders n ok i sd = Some sd' \<Longrightarrow> (\<And>k. idle_sender (sd k)) \<Longrightarrow> idle_sender (sd' k)"
proof (induction n ok i sd rule: create_senders.induct)
  case (2 n ok i sd)
  from 2(2) obtain s where s: "CreateMTCPSender (ok i) (int i) = Some s"
    "create_senders n ok (Suc i) (sd(NSender i := s)) = Some sd'" by (auto split: option.splits)
  show ?case by (rule 2(1) [OF s]) (simp add: 2(3) CreateMTCPSender_idle [OF s(1)])
qed simp

lemma all_senders_idle:
  "create_senders n ok i (\<lambda>_. g) = Some sd \<Longrightarrow> CreateMTCPSender b j = Some g \<Longrightarrow> idle_sender (sd k)"
  by (rule create_senders_idle) (auto intro: CreateMTCPSender_idle)

text \<open>All that a successful creation says about the new manager.\<close>

lemma InitializeMTCPManager_fresh:
  assumes "InitializeMTCPManager cfg sizes log_ok e = Some (Some m)"
  shows "m_flow_table m = (\<lambda>_. [])" "m_flow_cnt m = 0" "idle_sender (m_senders m k)"
    "pool_use (m_flow_pool m) {}" "pool_use (m_rv_pool m) {}" "pool_use (m_sv_pool m) {}"
    "m_timewait_list m = []" "m_timeout_list m = []" "rto_list (m_rto_store m) i = []"
    "m_rto_list_cnt m = 0" "m_timewait_list_cnt m = 0" "m_timeout_list_cnt m = 0"
  using assms unfolding InitializeMTCPManager_def Let_def
  by (auto simp: or_null_Some CreateHashtable_def flow_sized_pool_def InitRTOHashstore_def Option.bind_eq_Some_conv
      split: if_splits prod.splits intro: pool_use.create all_senders_idle)

section \<open>With enough memory the creation succeeds\<close>

lemma MPCreate_ok:
  assumes "16 \<le> cs" "cs mod 4 = 0" "0 < n" "n < 2 ^ 31"
  shows "\<exists>mp. MPCreate True True mem cs (cs * n) = Some (Some mp)"
proof -
  have "(cs * n + (cs - 1)) div cs = n" using assms(1) by (subst div_mult_self4) simp_all
  moreover have "sint (word_of_nat n :: u32) = int n"
    using assms(4) by (simp add: sint_uint uint_nat unat_of_nat signed_take_bit_int_eq_self take_bit_nat_eq_self)
  ultimately show ?thesis using assms by (simp add: MPCreate_def sizeof_mem_chunk_def Let_def)
qed

lemma init_smap_ok:
  "distinct (free @ is) \<Longrightarrow> init_smap is smap free = Some ((\<lambda>i. if i \<in> set is then unused_socket i else smap i), free @ is)"
  by (induction "is" arbitrary: smap free) (auto simp: tailq_insert_tail_def fun_eq_iff)

lemma create_senders_ok: "(\<And>i. ok i) \<Longrightarrow> \<exists>sd'. create_senders n ok i sd = Some sd'"
  by (induction n arbitrary: i sd) (auto simp: CreateMTCPSender_def)

text \<open>A configuration that the creation accepts: the pools hold whole words and at least one chunk, and
  the sizes fit the types of the source.\<close>

definition chunk_ok :: "nat \<Rightarrow> bool" where
  "chunk_ok cs \<longleftrightarrow> 16 \<le> cs \<and> cs mod 4 = 0 \<and> cs < 2 ^ 31"

definition init_ok :: "mtcp_config \<Rightarrow> nat \<times> nat \<times> nat \<Rightarrow> bool" where
  "init_ok cfg sizes \<longleftrightarrow> chunk_ok (fst sizes) \<and> chunk_ok (fst (snd sizes)) \<and> chunk_ok (snd (snd sizes))
     \<and> 0 < c_max_concurrency cfg \<and> c_max_concurrency cfg < 2 ^ 31
     \<and> 0 < c_max_num_buffers cfg \<and> c_max_num_buffers cfg < 2 ^ 31
     \<and> 0 \<le> c_sndbuf_size cfg \<and> chunk_ok (nat (c_sndbuf_size cfg)) \<and> 0 \<le> c_rcvbuf_size cfg \<and> chunk_ok (nat (c_rcvbuf_size cfg))"

lemma flow_sized_pool_ok:
  assumes "chunk_ok cs" "0 < c_max_concurrency cfg" "c_max_concurrency cfg < 2 ^ 31"
  shows "\<exists>mp. flow_sized_pool cfg True True mem cs = Some (Some mp)"
proof -
  define n where "n = nat (c_max_concurrency cfg)"
  have n: "c_max_concurrency cfg = int n" "0 < n" "n < 2 ^ 31" using assms(2,3) by (simp_all add: n_def)
  have "cs * n < 2 ^ 31 * 2 ^ 31" using assms(1) n by (intro mult_strict_mono) (simp_all add: chunk_ok_def)
  then have "unat (word_of_nat cs * word_of_nat n :: u64) = cs * n"
    by (simp flip: of_nat_mult add: unat_of_nat take_bit_nat_eq_self)
  then show ?thesis using assms(1) MPCreate_ok [of cs n mem] n by (simp add: flow_sized_pool_def chunk_ok_def)
qed

lemma unat_int:
  assumes "0 \<le> i" "i < 2 ^ 31"
  shows "unat (word_of_int i :: u64) = nat i" "unat (word_of_int i :: u32) = nat i"
proof -
  have "uint (word_of_int i :: u64) = i" "uint (word_of_int i :: u32) = i"
    using assms by (simp_all add: uint_word_of_int_eq take_bit_int_eq_self)
  then show "unat (word_of_int i :: u64) = nat i" "unat (word_of_int i :: u32) = nat i"
    by (simp_all only: unat_eq_nat_uint)
qed

lemma buffer_pool_ok:
  assumes "chunk_ok cs" "0 < i" "i < 2 ^ 31"
  shows "\<exists>mp. MPCreate True True mem cs (cs * unat (word_of_int i :: u32)) = Some (Some mp)"
proof -
  have "unat (word_of_int i :: u32) = nat i" using assms by (intro unat_int) simp_all
  then show ?thesis using MPCreate_ok [of cs "nat i" mem] assms by (simp add: chunk_ok_def)
qed

lemma SBManagerCreate_ok:
  assumes "chunk_ok cs" "0 < i" "i < 2 ^ 31"
  shows "\<exists>sbm. SBManagerCreate True True True True True mem b cs (word_of_int i) = Some (Some sbm)"
  using buffer_pool_ok [OF assms, of mem] by (auto simp: SBManagerCreate_def CreateSBQueue_def)

lemma RBManagerCreate_ok:
  assumes "chunk_ok cs" "0 < i" "i < 2 ^ 31"
  shows "\<exists>rbm. RBManagerCreate True (True, True) (True, True) (True, True) (True, True) mem fmem b cs (word_of_int i) = Some (Some rbm)"
  using buffer_pool_ok [OF assms, of mem] buffer_pool_ok [OF _ assms(2,3), of sizeof_fragment_ctx fmem]
  by (auto simp: RBManagerCreate_def CreateRBFragQueue_def sizeof_fragment_ctx_def chunk_ok_def)

lemma or_null_ok: "\<exists>v. x = Some (Some v) \<Longrightarrow> (\<And>v. \<exists>y. f v = Some (Some y)) \<Longrightarrow> \<exists>y. or_null x f = Some (Some y)"
  by (auto simp: or_null_def)

lemma InitializeMTCPManager_ok:
  assumes ok: "init_ok cfg sizes" and mem: "\<And>n. env_alloc e n"
  shows "\<exists>m. InitializeMTCPManager cfg sizes True e = Some (Some m)"
proof -
  obtain a b c where sizes: "sizes = (a, b, c)" by (cases sizes)
  have k: "chunk_ok a" "chunk_ok b" "chunk_ok c" "0 < c_max_concurrency cfg" "c_max_concurrency cfg < 2 ^ 31"
    "0 < c_max_num_buffers cfg" "c_max_num_buffers cfg < 2 ^ 31"
    using ok by (simp_all add: init_ok_def sizes)
  have bufs: "chunk_ok (unat (word_of_int (c_sndbuf_size cfg) :: u64))" "chunk_ok (unat (word_of_int (c_rcvbuf_size cfg) :: u64))"
    using ok by (auto simp: init_ok_def chunk_ok_def unat_int(1) nat_less_iff)
  have smap: "\<exists>y. Option.bind (init_smap [0..<n] sm []) f = Some (Some y)"
    if "\<And>p. \<exists>y. f p = Some (Some y)" for n sm and f :: "_ \<Rightarrow> mtcp_manager option option"
    using that by (simp add: init_smap_ok)
  show ?thesis
    unfolding InitializeMTCPManager_def Let_def sizes prod.case
    by (simp only: mem simp_thms if_False)
      (rule or_null_ok flow_sized_pool_ok SBManagerCreate_ok RBManagerCreate_ok smap k bufs
        | (simp add: create_senders_ok CreateHashtable_def CreateStreamQueue_def CreateInternalStreamQueue_def
            CreateMTCPSender_def InitRTOHashstore_def; fail) | (case_tac p, simp only: prod.case))+
qed

end
