(* ===== verification/Sample.thy ===== *)
theory Sample
  imports Manager_Init
begin

text \<open>
  A small configuration and a manager for it, on which the definitions are evaluated: one interface
  with the address 10.0.0.1 and four connections at most. Addresses and ports are in network byte
  order, as in the source.
\<close>

definition sample_cfg :: mtcp_config where
  "sample_cfg = \<lparr>c_eths = [\<lparr>et_ifindex = 0, et_haddr = [2, 0, 0, 0, 0, 1], et_netmask = 0x00ffffff, et_ip_addr = 0x0100000a\<rparr>],
     c_nif_to_eidx = [0],
     c_rtable = [\<lparr>rt_daddr = 0x0000000a, rt_mask = 0x00ffffff, rt_masked = 0x0000000a, rt_prefix = 24, rt_nif = 0\<rparr>],
     c_gateway = None, c_num_cores = 1, c_max_concurrency = 4, c_max_num_buffers = 4,
     c_rcvbuf_size = 64, c_sndbuf_size = 64, c_tcp_timewait = 0, c_tcp_timeout = 30000\<rparr>"

definition sample_pool :: mem_pool where
  "sample_pool = \<lparr>mp_mem = (\<lambda>_. \<lparr>mc_free_chunks = 4, mc_next = None\<rparr>), mp_freeptr = Some 0, mp_free_chunks = 4,
     mp_total_chunks = 4, mp_chunk_size = 64\<rparr>"

definition sample_queue :: "'a click_queue" where
  "sample_queue = \<lparr>q_capacity = 4, q_head = 0, q_tail = 0, q_slots = replicate 5 None\<rparr>"

definition sample_queue_int :: "nat stream_queue_int" where
  "sample_queue_int = \<lparr>si_array = replicate 4 None, si_size = 4, si_first = 0, si_last = 0, si_count = 0\<rparr>"

definition sample_events :: event_queue where
  "sample_events = \<lparr>eq_events = replicate 4 zero_event, eq_start = 0, eq_end = 0, eq_size = 4, eq_num_events = 0\<rparr>"

definition sample_epoll :: mtcp_epoll where
  "sample_epoll = \<lparr>usr_queue = sample_events, usr_shadow_queue = sample_events, mtcp_queue = sample_events, ep_waiting = False,
     ep_stat = \<lparr>st_calls = 0, st_waits = 0, st_wakes = 0, st_issued = 0, st_registered = 0, st_invalidated = 0, st_handled = 0\<rparr>\<rparr>"

definition sample_pipe :: pipe where
  "sample_pipe = \<lparr>pp_state = PIPE_CLOSED, pp_socket0 = 0, pp_socket1 = 0, pp_buf = [], pp_buf_off = 0, pp_buf_tail = 0,
     pp_buf_len = 0, pp_buf_size = 0\<rparr>"

text \<open>A listening socket on port 80.\<close>

definition sample_listener :: tcp_listener where
  "sample_listener = \<lparr>l_sockid = 0, l_socket = Some 0, l_backlog = 4, l_acceptq = sample_queue\<rparr>"

definition sample_smap :: "nat \<Rightarrow> socket_map" where
  "sample_smap = (\<lambda>i. unused_socket i)(0 := (unused_socket 0)\<lparr>so_socktype := MTCP_SOCK_LISTENER, so_sin_port := 0x5000,
     so_obj := ListenerObj 0, so_epoll := MTCP_EPOLLIN\<rparr>)"

text \<open>The manager before any connection. The card verifies and fills in the checksums, transmit
  buffers and memory never run out, and the hardware address of 10.0.0.2 is known.\<close>

definition sample_manager :: mtcp_manager where
  "sample_manager = \<lparr>m_streams = (\<lambda>_. zero_stream), m_flow_pool = sample_pool, m_rv_pool = sample_pool, m_sv_pool = sample_pool,
     m_rbm_snd = \<lparr>sbm_chunk_size = 64, sbm_cur_num = 0, sbm_cnum = 4, sbm_mp = sample_pool, sbm_freeq = sample_queue,
       sbm_bytes = (\<lambda>_. replicate 64 0)\<rparr>,
     m_rbm_rcv = \<lparr>rbm_chunk_size = 64, rbm_cur_num = 0, rbm_cnum = 4, rbm_mp = sample_pool,
       rbm_frag_mp = sample_pool\<lparr>mp_chunk_size := sizeof_fragment_ctx\<rparr>, rbm_free_fragq = sample_queue,
       rbm_free_fragq_int = sample_queue, rbm_bytes = (\<lambda>_. replicate 64 0), rbm_heap = 0\<rparr>,
     m_flow_table = (\<lambda>_. []), m_smap = sample_smap, m_free_smap = [1, 2, 3], m_ap = None, m_aps = (\<lambda>_. None), m_g_id = 0,
     m_flow_cnt = 0, m_eps = (\<lambda>_. sample_epoll), m_eps_next = 1, m_ep = Some 0,
     m_pipes = (\<lambda>_. sample_pipe), m_pipes_next = 0, m_ts_last_event = 0,
     m_listeners = (\<lambda>_. sample_listener), m_listeners_next = 1, m_lt_table = (\<lambda>_. [])(HashListener 0x5000 := [0]),
     m_connectq = sample_queue, m_sendq = sample_queue, m_ackq = sample_queue, m_closeq = sample_queue,
     m_closeq_int = sample_queue_int, m_resetq = sample_queue, m_resetq_int = sample_queue_int, m_destroyq = sample_queue,
     m_senders = (\<lambda>_. \<lparr>sd_ifidx = 0, control_list = [], send_list = [], ack_list = [], control_list_cnt = 0,
       send_list_cnt = 0, ack_list_cnt = 0\<rparr>),
     m_rto_store = \<lparr>rto_now_idx = 0, rto_now_ts = 0, rto_list = (\<lambda>_. [])\<rparr>, m_timewait_list = [], m_timeout_list = [],
     m_rto_list_cnt = 0, m_timewait_list_cnt = 0, m_timeout_list_cnt = 0, m_cur_ts = 0, m_wakeup_flag = False,
     m_is_sleeping = False, m_ctx_done = False, m_ctx_exit = False, m_ctx_interrupt = False,
     m_arp = \<lparr>arp_entry_list = [\<lparr>ae_ip = 0x0200000a, ae_prefix = 32, ae_ip_mask = 0xffffffff, ae_ip_masked = 0x0200000a,
       ae_haddr = [2, 0, 0, 0, 0, 2]\<rparr>], arp_gateway = None, arp_size = 4\<rparr>, m_arpq = [],
     env_alloc = (\<lambda>_. True), env_alloc_n = 0, env_rand = (\<lambda>_. 1000), env_rand_n = 0, io_wptr = (\<lambda>_. True), io_wptr_n = 0,
     io_ioctl = (\<lambda>_ _. 0), io_tx = []\<rparr>"

lemma sample_init_ok: "init_ok sample_cfg (64, 64, 64)"
  by (simp add: init_ok_def chunk_ok_def sample_cfg_def)

lemma sample_pool_use: "pool_use sample_pool {}"
proof -
  have "MPCreate True True (\<lambda>_. \<lparr>mc_free_chunks = 4, mc_next = None\<rparr>) 64 256 = Some (Some sample_pool)"
    by (simp add: MPCreate_def sizeof_mem_chunk_def sample_pool_def Let_def fun_eq_iff)
  then show ?thesis by (rule pool_use.create)
qed

end
