(* ===== verification/Api_Base.thy ===== *)
theory Api_Base
  imports Core
begin

text \<open>
  What the calls of the application have in common (mtcp_api.h, the head of api.c): the context a
  call is made in, its result with \<open>errno\<close>, the checks every call starts with, and the pointers
  behind a socket. A call is a function of the manager of the context's core. Its result is
  \<^const>\<open>None\<close> where the code is undefined.
\<close>

section \<open>Results\<close>

datatype errno =
    EPERM | ENOENT | EINTR | EBADF | EAGAIN | ENOMEM | EACCES | EFAULT | EEXIST | EINVAL | ENFILE | EPIPE
  | ENOSYS | ENOTSOCK | EAFNOSUPPORT | EADDRINUSE | EISCONN | ENOTCONN | ECONNRESET | ETIMEDOUT
  | EALREADY | EINPROGRESS

text \<open>\<open>Ret\<close> is a returned value; \<open>Fail\<close> is the result -1, with the \<open>errno\<close> that the code sets, if it
  sets one; \<open>Wait\<close> is a call that sleeps on a condition or polls.\<close>

datatype 'a api = Ret 'a | Fail "errno option" | Wait

abbreviation fail :: "errno \<Rightarrow> mtcp_manager \<Rightarrow> ('a api \<times> mtcp_manager) option" where
  "fail e m \<equiv> Some (Fail (Some e), m)"

section \<open>The context\<close>

text \<open>The core of the calling thread, and the globals \<open>num_cpus\<close>, \<open>num_queues\<close> and the result of
  \<open>FetchEndianType\<close>.\<close>

record mtcp_context =
  cx_cpu :: int
  cx_num_cpus :: int
  cx_num_queues :: int
  cx_endian :: bool

text \<open>The manager is the one of the core of the context, \<open>g_mtcp[mctx->cpu]\<close>. \<open>Inl\<close> is the result
  NULL with the \<open>errno\<close>.\<close>

definition GetMTCPManager :: "mtcp_context option \<Rightarrow> mtcp_manager \<Rightarrow> errno + mtcp_context" where
  "GetMTCPManager mctx m =
     (case mctx of
        None \<Rightarrow> Inl EINVAL
      | Some c \<Rightarrow>
          (if cx_cpu c < 0 \<or> cx_cpu c \<ge> cx_num_cpus c then Inl EINVAL
           else if m_ctx_done m \<or> m_ctx_exit m then Inl EPERM
           else Inr c))"

text \<open>The two checks that open most calls: the manager, and the range of the socket number.\<close>

definition with_manager ::
    "mtcp_context option \<Rightarrow> (mtcp_context \<Rightarrow> mtcp_manager \<Rightarrow> ('a api \<times> mtcp_manager) option) \<Rightarrow> mtcp_manager \<Rightarrow>
     ('a api \<times> mtcp_manager) option" where
  "with_manager mctx f m =
     (case GetMTCPManager mctx m of Inl e \<Rightarrow> fail e m | Inr c \<Rightarrow> f c m)"

definition with_socket ::
    "mtcp_config \<Rightarrow> int \<Rightarrow> (nat \<Rightarrow> mtcp_manager \<Rightarrow> ('a api \<times> mtcp_manager) option) \<Rightarrow> mtcp_manager \<Rightarrow>
     ('a api \<times> mtcp_manager) option" where
  "with_socket cfg sockid f m =
     (if sockid < 0 \<or> sockid \<ge> c_max_concurrency cfg then fail EBADF m else f (nat sockid) m)"

text \<open>\<open>g_mtcp[mctx->cpu]\<close> without the checks of \<open>GetMTCPManager\<close>.\<close>

definition raw_manager ::
    "mtcp_context option \<Rightarrow> (mtcp_context \<Rightarrow> mtcp_manager \<Rightarrow> 'b option) \<Rightarrow> mtcp_manager \<Rightarrow> 'b option" where
  "raw_manager mctx f m =
     (case mctx of
        None \<Rightarrow> None
      | Some c \<Rightarrow> (if 0 \<le> cx_cpu c \<and> cx_cpu c < cx_num_cpus c then f c m else None))"

section \<open>Sockets\<close>

definition MTCP_NONBLOCK :: u32 where "MTCP_NONBLOCK = 0x01"
definition MTCP_ADDR_BIND :: u32 where "MTCP_ADDR_BIND = 0x02"
definition MTCP_EPOLLET :: u32 where "MTCP_EPOLLET = push_bit 31 1"

definition has_opt :: "u32 \<Rightarrow> u32 \<Rightarrow> bool" where
  "has_opt x flag \<longleftrightarrow> x AND flag \<noteq> 0"

definition upd_socket :: "nat \<Rightarrow> (socket_map \<Rightarrow> socket_map) \<Rightarrow> mtcp_manager \<Rightarrow> mtcp_manager" where
  "upd_socket k f m = m\<lparr>m_smap := (m_smap m)(k := f (m_smap m k))\<rparr>"

text \<open>The members of the union in a socket: the inner \<^const>\<open>None\<close> is NULL, and reading the pointer
  of another kind of object as if it were of this kind is undefined.\<close>

definition socket_stream :: "socket_map \<Rightarrow> nat option option" where
  "socket_stream socket = (case so_obj socket of NoObj \<Rightarrow> Some None | StreamObj s \<Rightarrow> Some (Some s) | _ \<Rightarrow> None)"

definition socket_listener :: "socket_map \<Rightarrow> nat option option" where
  "socket_listener socket = (case so_obj socket of NoObj \<Rightarrow> Some None | ListenerObj l \<Rightarrow> Some (Some l) | _ \<Rightarrow> None)"

definition socket_ep :: "socket_map \<Rightarrow> nat option option" where
  "socket_ep socket = (case so_obj socket of NoObj \<Rightarrow> Some None | EpollObj e \<Rightarrow> Some (Some e) | _ \<Rightarrow> None)"

definition socket_pp :: "socket_map \<Rightarrow> nat option option" where
  "socket_pp socket = (case so_obj socket of NoObj \<Rightarrow> Some None | PipeObj p \<Rightarrow> Some (Some p) | _ \<Rightarrow> None)"

text \<open>\<open>AddEpollEvent\<close> on the epoll object \<open>e\<close>.\<close>

definition ep_add_event :: "nat \<Rightarrow> event_queue_type \<Rightarrow> nat \<Rightarrow> u32 \<Rightarrow> mtcp_manager \<Rightarrow> mtcp_manager option" where
  "ep_add_event e qt sockid ev m = do {
     (r, epo, so) \<leftarrow> AddEpollEvent (Some (m_eps m e)) qt (Some (m_smap m sockid)) ev;
     (case (epo, so) of
        (Some ep, Some socket) \<Rightarrow>
          Some (m\<lparr>m_eps := (m_eps m)(e := ep), m_smap := (m_smap m)(sockid := socket)\<rparr>)
      | _ \<Rightarrow> Some m)
   }"

text \<open>The conversion of a \<open>size_t\<close> argument to an \<open>int\<close> parameter.\<close>

definition int_of_size :: "nat \<Rightarrow> int" where
  "int_of_size n = sint (of_nat n :: u32)"

end
