(* ===== verification/Pipe.thy ===== *)
theory Pipe
  imports Api_Base
begin

text \<open>
  Pipes (pipe.c): two sockets that share one ring of bytes. Either end may read and write.
\<close>

section \<open>Operations\<close>

text \<open>The allocations and the initialisation of the lock and of the condition ask the
  environment for their outcome, in the order of the calls. The result of a successful call is
  the pair that is written to \<open>pipeid\<close>.\<close>

definition free_pair :: "nat \<Rightarrow> nat \<Rightarrow> mtcp_manager \<Rightarrow> ((nat \<times> nat) api \<times> mtcp_manager) option" where
  "free_pair k0 k1 m = do { m \<leftarrow> FreeSocket k0 m; m \<leftarrow> FreeSocket k1 m; Some (Fail None, m) }"

definition new_pipe :: "nat \<Rightarrow> nat \<Rightarrow> byte list \<Rightarrow> pipe" where
  "new_pipe k0 k1 buf = \<lparr>pp_state = PIPE_ACTIVE, pp_socket0 = k0, pp_socket1 = k1, pp_buf = buf, pp_buf_off = 0,
     pp_buf_tail = 0, pp_buf_len = 0, pp_buf_size = PIPE_BUF_SIZE\<rparr>"

text \<open>\<open>buf\<close> is what \<open>malloc\<close> leaves in the block it returns.\<close>

definition mtcp_pipe ::
    "byte list \<Rightarrow> mtcp_context option \<Rightarrow> mtcp_manager \<Rightarrow> ((nat \<times> nat) api \<times> mtcp_manager) option" where
  "mtcp_pipe buf mctx m0 = raw_manager mctx (\<lambda>c m. do {
     (r0, m) \<leftarrow> AllocateSocket MTCP_SOCK_PIPE m;
     (case r0 of
        None \<Rightarrow> fail ENFILE m
      | Some k0 \<Rightarrow> do {
          (r1, m) \<leftarrow> AllocateSocket MTCP_SOCK_PIPE m;
          (case r1 of
             None \<Rightarrow> do { m \<leftarrow> FreeSocket k0 m; fail ENFILE m }
           | Some k1 \<Rightarrow> do {
               let (pp_ok, m) = next_alloc m;
               if \<not> pp_ok then free_pair k0 k1 m
               else do {
                 let (buf_ok, m) = next_alloc m;
                 if \<not> buf_ok then free_pair k0 k1 m
                 else do {
                   let (mutex_ok, m) = next_alloc m;
                   if \<not> mutex_ok then free_pair k0 k1 m
                   else do {
                     let (cond_ok, m) = next_alloc m;
                     if \<not> cond_ok then free_pair k0 k1 m
                     else do {
                       let p = m_pipes_next m;
                       let m = m\<lparr>m_pipes := (m_pipes m)(p := new_pipe k0 k1 buf), m_pipes_next := Suc p\<rparr>;
                       let m = upd_socket k0 (\<lambda>x. x\<lparr>so_obj := PipeObj p\<rparr>) m;
                       let m = upd_socket k1 (\<lambda>x. x\<lparr>so_obj := PipeObj p\<rparr>) m;
                       Some (Ret (so_id (m_smap m k0), so_id (m_smap m k1)), m)
                     }
                   }
                 }
               }
             })
        })
   }) m0"

text \<open>An end that is not in non-blocking mode is signalled instead; the sleeper then looks at the
  ring again.\<close>

definition RaiseEventToPair :: "nat \<Rightarrow> u32 \<Rightarrow> mtcp_manager \<Rightarrow> mtcp_manager option" where
  "RaiseEventToPair socket event m = do {
     po \<leftarrow> socket_pp (m_smap m socket);
     p \<leftarrow> po;
     let pair_socket = (if pp_socket0 (m_pipes m p) = socket then pp_socket1 (m_pipes m p) else pp_socket0 (m_pipes m p));
     if has_opt (so_opts (m_smap m pair_socket)) MTCP_NONBLOCK then
       (if so_epoll (m_smap m pair_socket) \<noteq> 0 then mtcp_add_event USR_EVENT_QUEUE pair_socket event m else Some m)
     else Some m
   }"

definition upd_pipe :: "nat \<Rightarrow> (pipe \<Rightarrow> pipe) \<Rightarrow> mtcp_manager \<Rightarrow> mtcp_manager" where
  "upd_pipe p f m = m\<lparr>m_pipes := (m_pipes m)(p := f (m_pipes m p))\<rparr>"

text \<open>Both transfers start by looking up the pipe.\<close>

definition with_pipe ::
    "mtcp_config \<Rightarrow> mtcp_context option \<Rightarrow> int \<Rightarrow> (nat \<Rightarrow> nat \<Rightarrow> mtcp_manager \<Rightarrow> ('a api \<times> mtcp_manager) option) \<Rightarrow>
     mtcp_manager \<Rightarrow> ('a api \<times> mtcp_manager) option" where
  "with_pipe cfg mctx pipeid f m0 = with_manager mctx (\<lambda>c m.
     (case GetSocket cfg pipeid of
        None \<Rightarrow> fail EBADF m
      | Some k \<Rightarrow>
          (if so_socktype (m_smap m k) \<noteq> MTCP_SOCK_PIPE then fail EBADF m
           else do {
             po \<leftarrow> socket_pp (m_smap m k);
             (case po of
                None \<Rightarrow> fail EBADF m
              | Some p \<Rightarrow> f k p m)
           }))) m0"

text \<open>The part of \<open>PipeRead\<close> after the wait: \<open>p\<close> is not empty on a blocking socket. \<open>to_read\<close> is
  not positive only for an empty pipe.\<close>

definition PipeRead_copy :: "nat \<Rightarrow> nat \<Rightarrow> int \<Rightarrow> mtcp_manager \<Rightarrow> (byte list api \<times> mtcp_manager) option" where
  "PipeRead_copy k p len m = do {
     let pp = m_pipes m p;
     let to_read = min len (pp_buf_len pp);
     if to_read \<le> 0 \<and> pp_state pp = PIPE_ACTIVE then fail EAGAIN m
     else if to_read \<le> 0 \<and> pp_state pp = PIPE_CLOSE_WAIT then Some (Ret [], m)
     else do {
       let to_notify = (pp_buf_len pp = pp_buf_size pp);
       (data, pp1) \<leftarrow> pipe_copy_out to_read pp;
       let m = upd_pipe p (\<lambda>_. pp1) m;
       m \<leftarrow> (if to_notify then RaiseEventToPair k MTCP_EPOLLOUT m else Some m);
       m \<leftarrow> (if pp_buf_len pp1 > 0 then
               (if has_opt (so_epoll (m_smap m k)) MTCP_EPOLLIN \<and> \<not> has_opt (so_epoll (m_smap m k)) MTCP_EPOLLET
                then mtcp_add_event USR_SHADOW_EVENT_QUEUE k MTCP_EPOLLIN m else Some m)
             else if pp_state pp1 = PIPE_CLOSE_WAIT \<and> pp_buf_len pp1 = 0
             then mtcp_add_event USR_SHADOW_EVENT_QUEUE k MTCP_EPOLLIN m
             else Some m);
       Some (Ret data, m)
     }
   }"

text \<open>The loop that waits for data looks only at the length: it sleeps again after every signal
  that finds the ring empty.\<close>

definition PipeRead_wait :: "nat \<Rightarrow> nat \<Rightarrow> int \<Rightarrow> mtcp_manager \<Rightarrow> (byte list api \<times> mtcp_manager) option" where
  "PipeRead_wait k p len m =
     (if \<not> has_opt (so_opts (m_smap m k)) MTCP_NONBLOCK \<and> pp_buf_len (m_pipes m p) = 0 then Some (Wait, m)
      else PipeRead_copy k p len m)"

definition PipeRead ::
    "mtcp_config \<Rightarrow> mtcp_context option \<Rightarrow> int \<Rightarrow> int \<Rightarrow> mtcp_manager \<Rightarrow> (byte list api \<times> mtcp_manager) option" where
  "PipeRead cfg mctx pipeid len m0 = with_pipe cfg mctx pipeid (\<lambda>k p m.
     let pp = m_pipes m p in
     if pp_state pp = PIPE_CLOSED then fail EINVAL m
     else if pp_state pp = PIPE_CLOSE_WAIT \<and> pp_buf_len pp = 0 then Some (Ret [], m)
     else if len \<le> 0 then
       (if has_opt (so_opts (m_smap m k)) MTCP_NONBLOCK then fail EAGAIN m else Some (Ret [], m))
     else PipeRead_wait k p len m) m0"

definition PipeWrite_copy :: "nat \<Rightarrow> nat \<Rightarrow> byte list \<Rightarrow> int \<Rightarrow> mtcp_manager \<Rightarrow> (int api \<times> mtcp_manager) option" where
  "PipeWrite_copy k p buf len m = do {
     let pp = m_pipes m p;
     let to_write = min len (pp_buf_size pp - pp_buf_len pp);
     if to_write \<le> 0 then fail EAGAIN m
     else do {
       let to_notify = (pp_buf_len pp = 0);
       pp1 \<leftarrow> pipe_copy_in buf to_write pp;
       let m = upd_pipe p (\<lambda>_. pp1) m;
       m \<leftarrow> (if to_notify then RaiseEventToPair k MTCP_EPOLLIN m else Some m);
       m \<leftarrow> (if pp_buf_len pp1 < pp_buf_size pp1
                \<and> has_opt (so_epoll (m_smap m k)) MTCP_EPOLLOUT \<and> \<not> has_opt (so_epoll (m_smap m k)) MTCP_EPOLLET
             then mtcp_add_event USR_SHADOW_EVENT_QUEUE k MTCP_EPOLLOUT m else Some m);
       Some (Ret to_write, m)
     }
   }"

definition PipeWrite_wait :: "nat \<Rightarrow> nat \<Rightarrow> byte list \<Rightarrow> int \<Rightarrow> mtcp_manager \<Rightarrow> (int api \<times> mtcp_manager) option" where
  "PipeWrite_wait k p buf len m =
     (if \<not> has_opt (so_opts (m_smap m k)) MTCP_NONBLOCK \<and> pp_buf_len (m_pipes m p) = pp_buf_size (m_pipes m p)
      then Some (Wait, m)
      else PipeWrite_copy k p buf len m)"

definition PipeWrite ::
    "mtcp_config \<Rightarrow> mtcp_context option \<Rightarrow> int \<Rightarrow> byte list \<Rightarrow> int \<Rightarrow> mtcp_manager \<Rightarrow> (int api \<times> mtcp_manager) option" where
  "PipeWrite cfg mctx pipeid buf len m0 = with_pipe cfg mctx pipeid (\<lambda>k p m.
     let pp = m_pipes m p in
     if pp_state pp = PIPE_CLOSED then fail EINVAL m
     else if pp_state pp = PIPE_CLOSE_WAIT then fail EPIPE m
     else if len \<le> 0 then
       (if has_opt (so_opts (m_smap m k)) MTCP_NONBLOCK then fail EAGAIN m else Some (Ret 0, m))
     else PipeWrite_wait k p buf len m) m0"

text \<open>The events that are due when an end is registered with the epoll object of \<open>epid\<close>. A socket
  number out of range makes \<open>GetSocket\<close> return NULL, which is dereferenced.\<close>

definition RaisePendingPipeEvents ::
    "mtcp_config \<Rightarrow> int \<Rightarrow> int \<Rightarrow> mtcp_manager \<Rightarrow> (int \<times> mtcp_manager) option" where
  "RaisePendingPipeEvents cfg epid pipeid m = do {
     ek \<leftarrow> GetSocket cfg epid;
     eo \<leftarrow> socket_ep (m_smap m ek);
     k \<leftarrow> GetSocket cfg pipeid;
     po \<leftarrow> socket_pp (m_smap m k);
     (case po of
        None \<Rightarrow> Some (- 1, m)
      | Some p \<Rightarrow> do {
          let pp = m_pipes m p;
          let add = (\<lambda>ev m. (case eo of None \<Rightarrow> Some m | Some e \<Rightarrow> ep_add_event e USR_SHADOW_EVENT_QUEUE k ev m));
          if pp_state pp = PIPE_CLOSED then Some (- 1, m)
          else do {
            m \<leftarrow> (if has_opt (so_epoll (m_smap m k)) MTCP_EPOLLIN \<and> (pp_buf_len pp > 0 \<or> pp_state pp = PIPE_CLOSE_WAIT)
                  then add MTCP_EPOLLIN m else Some m);
            m \<leftarrow> (if has_opt (so_epoll (m_smap m k)) MTCP_EPOLLOUT \<and> pp_buf_len pp < pp_buf_size pp
                  then add MTCP_EPOLLOUT m else Some m);
            Some (0, m)
          }
        })
   }"

text \<open>The first end to close leaves the pipe to the other one; the second frees it and clears the
  pointers of both sockets.\<close>

definition PipeClose :: "mtcp_config \<Rightarrow> mtcp_context option \<Rightarrow> int \<Rightarrow> mtcp_manager \<Rightarrow> (int api \<times> mtcp_manager) option" where
  "PipeClose cfg mctx pipeid m0 = with_manager mctx (\<lambda>c m.
     (case GetSocket cfg pipeid of
        None \<Rightarrow> fail EBADF m
      | Some k \<Rightarrow>
          (if so_socktype (m_smap m k) \<noteq> MTCP_SOCK_PIPE then fail EINVAL m
           else do {
             po \<leftarrow> socket_pp (m_smap m k);
             (case po of
                None \<Rightarrow> Some (Ret 0, m)
              | Some p \<Rightarrow>
                  (case pp_state (m_pipes m p) of
                     PIPE_CLOSED \<Rightarrow> Some (Ret 0, m)
                   | PIPE_ACTIVE \<Rightarrow> do {
                       let m = upd_pipe p (\<lambda>x. x\<lparr>pp_state := PIPE_CLOSE_WAIT\<rparr>) m;
                       m \<leftarrow> RaiseEventToPair k MTCP_EPOLLIN m;
                       Some (Ret 0, m)
                     }
                   | PIPE_CLOSE_WAIT \<Rightarrow>
                       let k0 = pp_socket0 (m_pipes m p); k1 = pp_socket1 (m_pipes m p);
                           m = upd_socket k0 (\<lambda>x. x\<lparr>so_obj := NoObj\<rparr>) m;
                           m = upd_socket k1 (\<lambda>x. x\<lparr>so_obj := NoObj\<rparr>) m
                       in Some (Ret 0, m)))
           }))) m0"

end
