(* ===== verification/Epoll.thy ===== *)
theory Epoll
  imports Pipe
begin

text \<open>
  The event interface of the application (eventpoll.c): creating and closing an epoll object,
  registering sockets with it, and waiting for events. The queues themselves are in
  \<open>Event_Queue\<close>.
\<close>

section \<open>Creation and removal\<close>

definition zero_stat :: mtcp_epoll_stat where
  "zero_stat = \<lparr>st_calls = 0, st_waits = 0, st_wakes = 0, st_issued = 0, st_registered = 0, st_invalidated = 0,
     st_handled = 0\<rparr>"

definition next_event_queue :: "int \<Rightarrow> mtcp_manager \<Rightarrow> event_queue option \<times> mtcp_manager" where
  "next_event_queue sz m =
     (let (eq_ok, m) = next_alloc m in
      if \<not> eq_ok then (CreateEventQueue False False sz, m)
      else let (events_ok, m) = next_alloc m in (CreateEventQueue True events_ok sz, m))"

definition drop_socket :: "nat \<Rightarrow> mtcp_manager \<Rightarrow> ('a api \<times> mtcp_manager) option" where
  "drop_socket k m = do { m \<leftarrow> FreeSocket k m; Some (Fail None, m) }"

text \<open>The object is published in \<open>mtcp->ep\<close> before its lock and condition are initialised; when
  one of these fails, the object is freed and \<open>mtcp->ep\<close> keeps pointing to it. The model has no
  state for that, and the call is undefined there.\<close>

definition mtcp_epoll_create :: "mtcp_context option \<Rightarrow> int \<Rightarrow> mtcp_manager \<Rightarrow> (nat api \<times> mtcp_manager) option" where
  "mtcp_epoll_create mctx sz m0 = raw_manager mctx (\<lambda>c m.
     if sz \<le> 0 then fail EINVAL m
     else do {
       (r, m) \<leftarrow> AllocateSocket MTCP_SOCK_EPOLL m;
       (case r of
          None \<Rightarrow> fail ENFILE m
        | Some k \<Rightarrow> do {
            let (ep_ok, m) = next_alloc m;
            if \<not> ep_ok then drop_socket k m
            else do {
              let (uq, m) = next_event_queue sz m;
              (case uq of None \<Rightarrow> drop_socket k m
               | Some uq \<Rightarrow> do {
                   let (sq, m) = next_event_queue sz m;
                   (case sq of None \<Rightarrow> drop_socket k m
                    | Some sq \<Rightarrow> do {
                        let (mq, m) = next_event_queue sz m;
                        (case mq of None \<Rightarrow> drop_socket k m
                         | Some mq \<Rightarrow> do {
                             let e = m_eps_next m;
                             let ep = \<lparr>usr_queue = uq, usr_shadow_queue = sq, mtcp_queue = mq, ep_waiting = False,
                                       ep_stat = zero_stat\<rparr>;
                             let m = m\<lparr>m_eps := (m_eps m)(e := ep), m_eps_next := Suc e, m_ep := Some e\<rparr>;
                             let m = upd_socket k (\<lambda>x. x\<lparr>so_obj := EpollObj e\<rparr>) m;
                             let (mutex_ok, m) = next_alloc m;
                             let (cond_ok, m) = (if mutex_ok then next_alloc m else (False, m));
                             if mutex_ok \<and> cond_ok then Some (Ret (so_id (m_smap m k)), m) else None
                           })
                      })
                 })
            }
          })
     }) m0"

definition O_CLOEXEC :: int where "O_CLOEXEC = 0x80000"

definition mtcp_epoll_create1 ::
    "mtcp_config \<Rightarrow> mtcp_context option \<Rightarrow> int \<Rightarrow> mtcp_manager \<Rightarrow> (nat api \<times> mtcp_manager) option" where
  "mtcp_epoll_create1 cfg mctx flags m =
     (if flags = 0 \<or> flags = O_CLOEXEC then do {
        sz \<leftarrow> int32_ok (c_max_concurrency cfg * 3);
        mtcp_epoll_create mctx sz m
      } else fail EINVAL m)"

text \<open>\<open>mtcp->ep\<close> is cleared whichever epoll object is closed.\<close>

definition CloseEpollSocket :: "mtcp_context option \<Rightarrow> nat \<Rightarrow> mtcp_manager \<Rightarrow> (int api \<times> mtcp_manager) option" where
  "CloseEpollSocket mctx epid m0 = with_manager mctx (\<lambda>c m. do {
     eo \<leftarrow> socket_ep (m_smap m epid);
     (case eo of
        None \<Rightarrow> fail EINVAL m
      | Some e \<Rightarrow> Some (Ret 0, upd_socket epid (\<lambda>x. x\<lparr>so_obj := NoObj\<rparr>) (m\<lparr>m_ep := None\<rparr>)))
   }) m0"

section \<open>Registration\<close>

definition RaisePendingStreamEvents :: "nat \<Rightarrow> nat \<Rightarrow> mtcp_manager \<Rightarrow> (int \<times> mtcp_manager) option" where
  "RaisePendingStreamEvents e k m = do {
     so \<leftarrow> socket_stream (m_smap m k);
     (case so of
        None \<Rightarrow> Some (- 1, m)
      | Some s \<Rightarrow>
          (if s_state (m_streams m s) < TCP_ST_ESTABLISHED then Some (- 1, m)
           else do {
             let stream = m_streams m s;
             m \<leftarrow> (if has_opt (so_epoll (m_smap m k)) MTCP_EPOLLIN then
                     (case rcvbuf (rcvvar stream) of
                        Some b \<Rightarrow>
                          (if rb_merged_len b > 0 \<or> s_state stream = TCP_ST_CLOSE_WAIT
                           then ep_add_event e USR_SHADOW_EVENT_QUEUE k MTCP_EPOLLIN m else Some m)
                      | None \<Rightarrow>
                          (if s_state stream = TCP_ST_CLOSE_WAIT
                           then ep_add_event e USR_SHADOW_EVENT_QUEUE k MTCP_EPOLLIN m else Some m))
                   else Some m);
             m \<leftarrow> (if has_opt (so_epoll (m_smap m k)) MTCP_EPOLLOUT
                      \<and> (sndbuf (sndvar stream) = None \<or> snd_wnd (sndvar stream) > 0)
                      \<and> \<not> has_opt (so_events (m_smap m k)) MTCP_EPOLLOUT
                   then ep_add_event e USR_SHADOW_EVENT_QUEUE k MTCP_EPOLLOUT m else Some m);
             Some (0, m)
           }))
   }"

datatype epoll_op = MTCP_EPOLL_CTL_ADD | MTCP_EPOLL_CTL_DEL | MTCP_EPOLL_CTL_MOD | EPOLL_CTL_OTHER

text \<open>Storing a registration and raising what is already due.\<close>

definition register_events ::
    "mtcp_config \<Rightarrow> int \<Rightarrow> nat \<Rightarrow> int \<Rightarrow> nat \<Rightarrow> mtcp_epoll_event \<Rightarrow> mtcp_manager \<Rightarrow> (unit api \<times> mtcp_manager) option" where
  "register_events cfg epid e sockid k event m = do {
     let events = ev_events event OR (MTCP_EPOLLERR OR MTCP_EPOLLHUP);
     let m = upd_socket k (\<lambda>x. x\<lparr>so_ep_data := ev_data event, so_epoll := events\<rparr>) m;
     (r, m) \<leftarrow> (if so_socktype (m_smap m k) = MTCP_SOCK_STREAM then RaisePendingStreamEvents e k m
                else if so_socktype (m_smap m k) = MTCP_SOCK_PIPE then RaisePendingPipeEvents cfg epid sockid m
                else Some (0, m));
     Some (Ret (), m)
   }"

definition mtcp_epoll_ctl ::
    "mtcp_config \<Rightarrow> mtcp_context option \<Rightarrow> int \<Rightarrow> epoll_op \<Rightarrow> int \<Rightarrow> mtcp_epoll_event option \<Rightarrow> mtcp_manager \<Rightarrow>
     (unit api \<times> mtcp_manager) option" where
  "mtcp_epoll_ctl cfg mctx epid ope sockid event m0 = with_manager mctx (\<lambda>c.
     with_socket cfg epid (\<lambda>ek. with_socket cfg sockid (\<lambda>k m.
       if so_socktype (m_smap m ek) = MTCP_SOCK_UNUSED then fail EBADF m
       else if so_socktype (m_smap m ek) \<noteq> MTCP_SOCK_EPOLL then fail EINVAL m
       else do {
         eo \<leftarrow> socket_ep (m_smap m ek);
         (case eo of
            None \<Rightarrow> fail EINVAL m
          | Some e \<Rightarrow>
              (case (ope, event) of
                 (MTCP_EPOLL_CTL_ADD, Some ev) \<Rightarrow>
                   (if so_epoll (m_smap m k) \<noteq> 0 then fail EEXIST m else register_events cfg epid e sockid k ev m)
               | (MTCP_EPOLL_CTL_MOD, Some ev) \<Rightarrow>
                   (if so_epoll (m_smap m k) = 0 then fail ENOENT m else register_events cfg epid e sockid k ev m)
               | (MTCP_EPOLL_CTL_DEL, _) \<Rightarrow>
                   (if so_epoll (m_smap m k) = 0 then fail ENOENT m
                    else Some (Ret (), upd_socket k (\<lambda>x. x\<lparr>so_epoll := MTCP_EPOLLNONE\<rparr>) m))
               | (EPOLL_CTL_OTHER, Some _) \<Rightarrow> Some (Ret (), m)
               | (_, None) \<Rightarrow> fail EINVAL m))
       }))) m0"

section \<open>Waiting\<close>

text \<open>The part after the label \<open>wait\<close>. When both queues are empty and time is left, the call goes
  to sleep. Otherwise it takes events from the two queues; when none of them was still valid and
  time is left, it goes back to the label.\<close>

definition fetch_queues ::
    "nat \<Rightarrow> int \<Rightarrow> mtcp_manager \<Rightarrow> (mtcp_epoll_event list \<times> mtcp_manager) option" where
  "fetch_queues e maxevents m = do {
     let ep = m_eps m e;
     (smap, st, uq, evs) \<leftarrow> fetch_events (nat (eq_num_events (usr_queue ep))) maxevents (m_smap m) (ep_stat ep) (usr_queue ep) [];
     (smap, st, sq, evs) \<leftarrow> fetch_events (nat (eq_num_events (usr_shadow_queue ep))) maxevents smap st (usr_shadow_queue ep) evs;
     Some (evs, m\<lparr>m_smap := smap, m_eps := (m_eps m)(e := ep\<lparr>usr_queue := uq, usr_shadow_queue := sq, ep_stat := st\<rparr>)\<rparr>)
   }"

partial_function (option) epoll_wait_loop ::
    "nat \<Rightarrow> int \<Rightarrow> int \<Rightarrow> mtcp_manager \<Rightarrow> (mtcp_epoll_event list api \<times> mtcp_manager) option" where
  "epoll_wait_loop e maxevents timeout m =
     (if eq_num_events (usr_queue (m_eps m e)) = 0 \<and> eq_num_events (usr_shadow_queue (m_eps m e)) = 0 \<and> timeout \<noteq> 0
      then Some (Wait, m\<lparr>m_eps := (m_eps m)(e := (m_eps m e)\<lparr>ep_waiting := True,
             ep_stat := (ep_stat (m_eps m e))\<lparr>st_waits := st_waits (ep_stat (m_eps m e)) + 1\<rparr>\<rparr>)\<rparr>)
      else do {
        (evs, m) \<leftarrow> fetch_queues e maxevents m;
        if evs = [] \<and> timeout \<noteq> 0 then epoll_wait_loop e maxevents timeout m
        else Some (Ret evs, m)
      })"

text \<open>The call up to its first sleep. \<open>events_ok\<close> says that the array of the caller is not NULL.\<close>

definition mtcp_epoll_wait ::
    "mtcp_config \<Rightarrow> mtcp_context option \<Rightarrow> int \<Rightarrow> bool \<Rightarrow> int \<Rightarrow> int \<Rightarrow> mtcp_manager \<Rightarrow>
     (mtcp_epoll_event list api \<times> mtcp_manager) option" where
  "mtcp_epoll_wait cfg mctx epid events_ok maxevents timeout m0 = with_manager mctx (\<lambda>c.
     with_socket cfg epid (\<lambda>ek m.
       if so_socktype (m_smap m ek) = MTCP_SOCK_UNUSED then fail EBADF m
       else if so_socktype (m_smap m ek) \<noteq> MTCP_SOCK_EPOLL then fail EINVAL m
       else do {
         eo \<leftarrow> socket_ep (m_smap m ek);
         (case eo of
            None \<Rightarrow> fail EINVAL m
          | Some e \<Rightarrow>
              (if \<not> events_ok \<or> maxevents \<le> 0 then fail EINVAL m
               else
                 let ep = m_eps m e in
                 epoll_wait_loop e maxevents timeout
                   (m\<lparr>m_eps := (m_eps m)(e := ep\<lparr>ep_stat := (ep_stat ep)\<lparr>st_calls := st_calls (ep_stat ep) + 1\<rparr>\<rparr>)\<rparr>)))
       })) m0"

text \<open>What follows a sleep: a signal or the deadline ends it. With a deadline, no time is left
  afterwards. The object may have been freed in the meantime.\<close>

definition epoll_wait_resume ::
    "nat \<Rightarrow> nat \<Rightarrow> int \<Rightarrow> int \<Rightarrow> mtcp_manager \<Rightarrow> (mtcp_epoll_event list api \<times> mtcp_manager) option" where
  "epoll_wait_resume ek e maxevents timeout m =
     (if so_obj (m_smap m ek) \<noteq> EpollObj e then None
      else
        let m = m\<lparr>m_eps := (m_eps m)(e := (m_eps m e)\<lparr>ep_waiting := False\<rparr>)\<rparr> in
        if m_ctx_done m \<or> m_ctx_exit m \<or> m_ctx_interrupt m
        then Some (Fail (Some EINTR), m\<lparr>m_ctx_interrupt := False\<rparr>)
        else epoll_wait_loop e maxevents (if timeout > 0 then 0 else timeout) m)"

end
