(* ===== verification/Api.thy ===== *)
theory Api
  imports Epoll
begin

text \<open>
  The socket calls of the application (api.c). The calls run in the thread of the application and
  reach the stack through the queues of the manager; locks are not modelled and every call is
  atomic up to a point where it sleeps.
\<close>

section \<open>Socket names and options\<close>

text \<open>\<open>addrlen\<close> is the value the caller passes in. The family of an address is not kept.\<close>

definition mtcp_is_connected :: "mtcp_manager \<Rightarrow> nat option \<Rightarrow> bool" where
  "mtcp_is_connected m cur_stream =
     (case cur_stream of None \<Rightarrow> False | Some s \<Rightarrow> s_state (m_streams m s) = TCP_ST_ESTABLISHED)"

text \<open>\<open>err\<close> is \<open>errno\<close> at the call. The first component of the result is what is written to
  \<open>optval\<close>: nothing, 0, or an error number.\<close>

definition GetSocketError ::
    "errno option \<Rightarrow> nat \<Rightarrow> mtcp_manager \<Rightarrow> (errno option option \<times> unit api) option" where
  "GetSocketError err k m = do {
     so \<leftarrow> socket_stream (m_smap m k);
     (case so of
        None \<Rightarrow> Some (None, Fail (Some EBADF))
      | Some s \<Rightarrow>
          let st = s_state (m_streams m s); reason = close_reason (m_streams m s) in
          if st = TCP_ST_CLOSED \<and> (reason = TCP_TIMEDOUT \<or> reason = TCP_CONN_FAIL \<or> reason = TCP_CONN_LOST)
          then Some (Some (Some ETIMEDOUT), Ret ())
          else if (st = TCP_ST_CLOSE_WAIT \<or> st = TCP_ST_CLOSED) \<and> reason = TCP_RESET
          then Some (Some (Some ECONNRESET), Ret ())
          else if st = TCP_ST_SYN_SENT \<and> err = Some EINPROGRESS
          then Some (Some err, Fail err)
          else if reason = TCP_NOT_CLOSED then Some (Some None, Ret ())
          else Some (None, Fail (Some ENOSYS)))
   }"

definition mtcp_getsockname ::
    "mtcp_config \<Rightarrow> mtcp_context option \<Rightarrow> int \<Rightarrow> u32 \<Rightarrow> mtcp_manager \<Rightarrow> (sockaddr api \<times> mtcp_manager) option" where
  "mtcp_getsockname cfg mctx sockid addrlen m0 = with_manager mctx (\<lambda>c. with_socket cfg sockid (\<lambda>k m.
     let socket = m_smap m k in
     if so_socktype socket = MTCP_SOCK_UNUSED then fail EBADF m
     else if addrlen = 0 then fail EINVAL m
     else if so_socktype socket \<noteq> MTCP_SOCK_LISTENER \<and> so_socktype socket \<noteq> MTCP_SOCK_STREAM then fail ENOTSOCK m
     else Some (Ret (so_sin_addr socket, so_sin_port socket), m))) m0"

definition mtcp_getpeername ::
    "mtcp_config \<Rightarrow> mtcp_context option \<Rightarrow> int \<Rightarrow> u32 \<Rightarrow> mtcp_manager \<Rightarrow> (sockaddr api \<times> mtcp_manager) option" where
  "mtcp_getpeername cfg mctx sockid addrlen m0 = with_manager mctx (\<lambda>c. with_socket cfg sockid (\<lambda>k m.
     let socket = m_smap m k in
     if so_socktype socket = MTCP_SOCK_UNUSED then fail EBADF m
     else if addrlen = 0 then fail EINVAL m
     else if so_socktype socket \<noteq> MTCP_SOCK_LISTENER \<and> so_socktype socket \<noteq> MTCP_SOCK_STREAM then fail ENOTSOCK m
     else do {
       so \<leftarrow> socket_stream socket;
       (case so of
          Some s \<Rightarrow>
            (if \<not> mtcp_is_connected m so then fail ENOTCONN m
             else Some (Ret (s_daddr (m_streams m s), s_dport (m_streams m s)), m))
        | None \<Rightarrow> fail ENOTCONN m)
     })) m0"

text \<open>\<open>so_error\<close> says that the option asked for is \<open>SO_ERROR\<close> of \<open>SOL_SOCKET\<close>.\<close>

definition mtcp_getsockopt ::
    "mtcp_config \<Rightarrow> mtcp_context option \<Rightarrow> int \<Rightarrow> bool \<Rightarrow> errno option \<Rightarrow> mtcp_manager \<Rightarrow>
     ((errno option option \<times> unit api) api \<times> mtcp_manager) option" where
  "mtcp_getsockopt cfg mctx sockid so_error err m0 = with_manager mctx (\<lambda>c. with_socket cfg sockid (\<lambda>k m.
     let socket = m_smap m k in
     if so_socktype socket = MTCP_SOCK_UNUSED then fail EBADF m
     else if so_socktype socket \<noteq> MTCP_SOCK_LISTENER \<and> so_socktype socket \<noteq> MTCP_SOCK_STREAM then fail ENOTSOCK m
     else if so_error \<and> so_socktype socket = MTCP_SOCK_STREAM
     then do { r \<leftarrow> GetSocketError err k m; Some (Ret r, m) }
     else fail ENOSYS m)) m0"

definition mtcp_setsockopt ::
    "mtcp_config \<Rightarrow> mtcp_context option \<Rightarrow> int \<Rightarrow> mtcp_manager \<Rightarrow> (unit api \<times> mtcp_manager) option" where
  "mtcp_setsockopt cfg mctx sockid m0 = with_manager mctx (\<lambda>c. with_socket cfg sockid (\<lambda>k m.
     let socket = m_smap m k in
     if so_socktype socket = MTCP_SOCK_UNUSED then fail EBADF m
     else if so_socktype socket \<noteq> MTCP_SOCK_LISTENER \<and> so_socktype socket \<noteq> MTCP_SOCK_STREAM then fail ENOTSOCK m
     else Some (Ret (), m))) m0"

definition mtcp_setsock_nonblock ::
    "mtcp_config \<Rightarrow> mtcp_context option \<Rightarrow> int \<Rightarrow> mtcp_manager \<Rightarrow> (unit api \<times> mtcp_manager) option" where
  "mtcp_setsock_nonblock cfg mctx sockid m0 = with_manager mctx (\<lambda>c. with_socket cfg sockid (\<lambda>k m.
     if so_socktype (m_smap m k) = MTCP_SOCK_UNUSED then fail EBADF m
     else Some (Ret (), upd_socket k (\<lambda>x. x\<lparr>so_opts := so_opts x OR MTCP_NONBLOCK\<rparr>) m))) m0"

datatype ioctl_request = FIONREAD | FIONBIO | IOCTL_OTHER

text \<open>\<open>argp\<close> is NULL or the integer it points to; a returned \<open>Some v\<close> is written there.\<close>

definition mtcp_socket_ioctl ::
    "mtcp_config \<Rightarrow> mtcp_context option \<Rightarrow> int \<Rightarrow> ioctl_request \<Rightarrow> int option \<Rightarrow> mtcp_manager \<Rightarrow>
     (int option api \<times> mtcp_manager) option" where
  "mtcp_socket_ioctl cfg mctx sockid request argp m0 = with_manager mctx (\<lambda>c. with_socket cfg sockid (\<lambda>k m.
     let socket = m_smap m k in
     if so_socktype socket \<noteq> MTCP_SOCK_STREAM \<and> so_socktype socket \<noteq> MTCP_SOCK_LISTENER then fail EBADF m
     else (case argp of
         None \<Rightarrow> fail EFAULT m
       | Some arg \<Rightarrow>
           (case request of
              FIONREAD \<Rightarrow> do {
                so \<leftarrow> socket_stream socket;
                (case so of
                   None \<Rightarrow> fail EBADF m
                 | Some s \<Rightarrow>
                     (case rcvbuf (rcvvar (m_streams m s)) of
                        Some rbuf \<Rightarrow> Some (Ret (Some (rb_merged_len rbuf)), m)
                      | None \<Rightarrow> Some (Ret (Some 0), m)))
              }
            | FIONBIO \<Rightarrow>
                (if arg \<noteq> 0 then do {
                   (r, m) \<leftarrow> mtcp_setsock_nonblock cfg mctx sockid m;
                   Some (case r of Ret _ \<Rightarrow> Ret None | Fail e \<Rightarrow> Fail e | Wait \<Rightarrow> Wait, m)
                 } else Some (Ret None, m))
            | IOCTL_OTHER \<Rightarrow> fail EINVAL m)))) m0"

section \<open>Creating sockets\<close>

definition mtcp_socket ::
    "mtcp_context option \<Rightarrow> bool \<Rightarrow> bool \<Rightarrow> mtcp_manager \<Rightarrow> (nat api \<times> mtcp_manager) option" where
  "mtcp_socket mctx domain_inet type_stream m0 = with_manager mctx (\<lambda>c m.
     if \<not> domain_inet then fail EAFNOSUPPORT m
     else if \<not> type_stream then fail EINVAL m
     else do {
       (r, m) \<leftarrow> AllocateSocket MTCP_SOCK_STREAM m;
       (case r of None \<Rightarrow> fail ENFILE m | Some k \<Rightarrow> Some (Ret (so_id (m_smap m k)), m))
     }) m0"

text \<open>An address argument: NULL, or an address with whether its family is \<open>AF_INET\<close> and its length
  is large enough.\<close>

definition mtcp_bind ::
    "mtcp_config \<Rightarrow> mtcp_context option \<Rightarrow> int \<Rightarrow> (bool \<times> sockaddr) option \<Rightarrow> mtcp_manager \<Rightarrow> (unit api \<times> mtcp_manager) option" where
  "mtcp_bind cfg mctx sockid addr m0 = with_manager mctx (\<lambda>c. with_socket cfg sockid (\<lambda>k m.
     let socket = m_smap m k in
     if so_socktype socket = MTCP_SOCK_UNUSED then fail EBADF m
     else if so_socktype socket \<noteq> MTCP_SOCK_STREAM \<and> so_socktype socket \<noteq> MTCP_SOCK_LISTENER then fail ENOTSOCK m
     else (case addr of
         None \<Rightarrow> fail EINVAL m
       | Some (inet, a, p) \<Rightarrow>
           (if has_opt (so_opts socket) MTCP_ADDR_BIND then fail EINVAL m
            else if \<not> inet then fail EINVAL m
            else Some (Ret (), upd_socket k (\<lambda>x. x\<lparr>so_sin_addr := a, so_sin_port := p,
                   so_opts := so_opts x OR MTCP_ADDR_BIND\<rparr>) m))))) m0"

section \<open>Passive connections\<close>

definition mtcp_listen ::
    "mtcp_config \<Rightarrow> mtcp_context option \<Rightarrow> int \<Rightarrow> int \<Rightarrow> mtcp_manager \<Rightarrow> (unit api \<times> mtcp_manager) option" where
  "mtcp_listen cfg mctx sockid backlog m0 = with_manager mctx (\<lambda>c. with_socket cfg sockid (\<lambda>k m.
     if so_socktype (m_smap m k) = MTCP_SOCK_UNUSED then fail EBADF m
     else do {
       let m = (if so_socktype (m_smap m k) = MTCP_SOCK_STREAM
                then upd_socket k (\<lambda>x. x\<lparr>so_socktype := MTCP_SOCK_LISTENER\<rparr>) m else m);
       if so_socktype (m_smap m k) \<noteq> MTCP_SOCK_LISTENER then fail ENOTSOCK m
       else if backlog \<le> 0 \<or> backlog > c_max_concurrency cfg then fail EINVAL m
       else do {
         found \<leftarrow> ListenerHTSearch m (so_sin_port (m_smap m k));
         if found \<noteq> None then fail EADDRINUSE m
         else do {
           let (listener_ok, m) = next_alloc m;
           if \<not> listener_ok then Some (Fail None, m)
           else do {
             let (cond_ok, m) = next_alloc m;
             if \<not> cond_ok then Some (Fail None, m)
             else do {
               let (mutex_ok, m) = next_alloc m;
               if \<not> mutex_ok then Some (Fail None, m)
               else do {
                 let (sq_ok, m) = next_alloc m;
                 let (q_ok, m) = (if sq_ok then next_alloc m else (False, m));
                 (case CreateStreamQueue sq_ok q_ok backlog of
                    None \<Rightarrow> fail ENOMEM m
                  | Some q \<Rightarrow> do {
                      let l = m_listeners_next m;
                      let m = m\<lparr>m_listeners := (m_listeners m)(l := \<lparr>l_sockid = sockid, l_socket = Some k, l_backlog = backlog,
                                  l_acceptq = q\<rparr>), m_listeners_next := Suc l\<rparr>;
                      let m = upd_socket k (\<lambda>x. x\<lparr>so_obj := ListenerObj l\<rparr>) m;
                      (_, m) \<leftarrow> ListenerHTInsert l m;
                      Some (Ret (), m)
                    })
               }
             }
           }
         }
       }
     })) m0"

text \<open>The part of \<open>mtcp_accept\<close> that follows a successful \<open>StreamDequeue\<close>: the result is the socket
  number with the address of the peer.\<close>

definition accept_stream :: "nat \<Rightarrow> nat \<Rightarrow> mtcp_manager \<Rightarrow> ((nat \<times> sockaddr) api \<times> mtcp_manager) option" where
  "accept_stream l s m = do {
     (r, m) \<leftarrow>
       (case s_socket (m_streams m s) of
          Some k \<Rightarrow> Some (Some k, m)
        | None \<Rightarrow> do {
            (r, m) \<leftarrow> AllocateSocket MTCP_SOCK_STREAM m;
            (case r of
               None \<Rightarrow> Some (None, m)
             | Some k \<Rightarrow> do {
                 let m = upd_socket k (\<lambda>x. x\<lparr>so_obj := StreamObj s\<rparr>) m;
                 let m = upd_stream s (\<lambda>x. x\<lparr>s_socket := Some k\<rparr>) m;
                 Some (Some k, upd_socket k (\<lambda>x. x\<lparr>so_sin_port := s_dport (m_streams m s),
                   so_sin_addr := s_daddr (m_streams m s)\<rparr>) m)
               })
          });
     (case r of
        None \<Rightarrow> fail ENFILE m
      | Some k \<Rightarrow> do {
          lk \<leftarrow> l_socket (m_listeners m l);
          m \<leftarrow> (if \<not> has_opt (so_epoll (m_smap m lk)) MTCP_EPOLLET \<and> \<not> StreamQueueIsEmpty (l_acceptq (m_listeners m l))
                then mtcp_add_event USR_SHADOW_EVENT_QUEUE lk MTCP_EPOLLIN m else Some m);
          Some (Ret (so_id (m_smap m k), s_daddr (m_streams m s), s_dport (m_streams m s)), m)
        })
   }"

definition accept_dequeue :: "nat \<Rightarrow> mtcp_manager \<Rightarrow> ((nat \<times> sockaddr) api \<times> mtcp_manager) option" where
  "accept_dequeue l m = do {
     (r, q) \<leftarrow> StreamDequeue (l_acceptq (m_listeners m l));
     let m = m\<lparr>m_listeners := (m_listeners m)(l := (m_listeners m l)\<lparr>l_acceptq := q\<rparr>)\<rparr>;
     (case r of
        Some s \<Rightarrow> accept_stream l s m
      | None \<Rightarrow> do {
          lk \<leftarrow> l_socket (m_listeners m l);
          if has_opt (so_opts (m_smap m lk)) MTCP_NONBLOCK then fail EAGAIN m else Some (Wait, m)
        })
   }"

definition mtcp_accept ::
    "mtcp_config \<Rightarrow> mtcp_context option \<Rightarrow> int \<Rightarrow> mtcp_manager \<Rightarrow> ((nat \<times> sockaddr) api \<times> mtcp_manager) option" where
  "mtcp_accept cfg mctx sockid m0 = with_manager mctx (\<lambda>c. with_socket cfg sockid (\<lambda>k m.
     if so_socktype (m_smap m k) \<noteq> MTCP_SOCK_LISTENER then fail EINVAL m
     else do {
       lo \<leftarrow> socket_listener (m_smap m k);
       l \<leftarrow> lo;
       accept_dequeue l m
     })) m0"

text \<open>After a sleep in \<open>mtcp_accept\<close>.\<close>

definition accept_resume :: "nat \<Rightarrow> mtcp_manager \<Rightarrow> ((nat \<times> sockaddr) api \<times> mtcp_manager) option" where
  "accept_resume l m = (if m_ctx_done m \<or> m_ctx_exit m then fail EINTR m else accept_dequeue l m)"

section \<open>Active connections\<close>

text \<open>\<open>in_addr_t dport\<close> is passed on as an \<open>in_port_t\<close>. The allocations of the pool ask the
  environment for their outcome; all four are asked for even if an earlier one fails.\<close>

definition mtcp_init_rss ::
    "mtcp_config \<Rightarrow> mtcp_context option \<Rightarrow> u32 \<Rightarrow> int \<Rightarrow> u32 \<Rightarrow> u32 \<Rightarrow> mtcp_manager \<Rightarrow> (unit api \<times> mtcp_manager) option" where
  "mtcp_init_rss cfg mctx saddr_base num_addr daddr dport m =
     (case GetMTCPManager mctx m of
        Inl _ \<Rightarrow> fail EACCES m
      | Inr c \<Rightarrow> do {
          let m = m\<lparr>m_ap := None\<rparr>;
          let nif = fst (GetOutputInterface cfg daddr);
          if saddr_base = INADDR_ANY \<and> nif < 0 then fail EINVAL m
          else do {
            base \<leftarrow> (if saddr_base = INADDR_ANY then do {
                       eidx \<leftarrow> arr_at (c_nif_to_eidx cfg) nif;
                       eth \<leftarrow> arr_at (c_eths cfg) eidx;
                       Some (et_ip_addr eth)
                     } else Some saddr_base);
            let (ok1, m) = next_alloc m;
            let (ok2, m) = next_alloc m;
            let (ok3, m) = next_alloc m;
            let (ok4, m) = next_alloc m;
            r \<leftarrow> CreateAddressPoolPerCore ok1 ok2 ok3 ok4 (cx_endian c) (cx_cpu c) (cx_num_cpus c) base num_addr daddr
                  (ucast dport);
            (case r of
               None \<Rightarrow> fail ENOMEM m
             | Some ap \<Rightarrow> Some (Ret (), m\<lparr>m_ap := Some ap\<rparr>))
          }
        })"

text \<open>Choosing the source address: an address the application has bound must belong to this core;
  otherwise one is fetched from the pool of the core or of the output interface. The result is
  whether an address was fetched.\<close>

definition connect_address ::
    "mtcp_config \<Rightarrow> mtcp_context \<Rightarrow> nat \<Rightarrow> sockaddr \<Rightarrow> mtcp_manager \<Rightarrow> (bool api \<times> mtcp_manager) option" where
  "connect_address cfg c k daddr m =
     (let socket = m_smap m k; saddr = (so_sin_addr socket, so_sin_port socket) in
      if has_opt (so_opts socket) MTCP_ADDR_BIND \<and> so_sin_port socket \<noteq> INPORT_ANY \<and> so_sin_addr socket \<noteq> INADDR_ANY then do {
        rss_core \<leftarrow> GetRSSCPUCore (so_sin_addr socket) (fst daddr) (so_sin_port socket) (snd daddr) (cx_num_queues c) (cx_endian c);
        if rss_core \<noteq> cx_cpu c then fail EINVAL m else Some (Ret False, m)
      } else if m_ap m = None \<and> fst (GetOutputInterface cfg (fst daddr)) < 0 then fail EINVAL m
      else do {
        (ret, saddr, m) \<leftarrow>
          (case m_ap m of
             Some ap \<Rightarrow> do {
               (ret, sa, apo) \<leftarrow> FetchAddressPerCore (Some ap) saddr;
               Some (ret, sa, m\<lparr>m_ap := apo\<rparr>)
             }
           | None \<Rightarrow> do {
               let nif = nat (fst (GetOutputInterface cfg (fst daddr)));
               (ret, sa, apo) \<leftarrow> FetchAddress (m_aps m nif) (cx_cpu c) (cx_num_queues c) (cx_endian c) daddr saddr;
               Some (ret, sa, m\<lparr>m_aps := (m_aps m)(nif := apo)\<rparr>)
             });
        let m = upd_socket k (\<lambda>x. x\<lparr>so_sin_addr := fst saddr, so_sin_port := snd saddr\<rparr>) m;
        if ret < 0 then fail EAGAIN m
        else Some (Ret True, upd_socket k (\<lambda>x. x\<lparr>so_opts := so_opts x OR MTCP_ADDR_BIND\<rparr>) m)
      })"

text \<open>Creating the stream and handing it to the stack.\<close>

definition connect_stream ::
    "mtcp_config \<Rightarrow> nat \<Rightarrow> bool \<Rightarrow> sockaddr \<Rightarrow> mtcp_manager \<Rightarrow> (unit api \<times> mtcp_manager) option" where
  "connect_stream cfg k is_dyn_bound daddr m = do {
     (so, m) \<leftarrow> CreateTCPStream cfg (Some k) MTCP_SOCK_STREAM_num (so_sin_addr (m_smap m k)) (so_sin_port (m_smap m k))
                (fst daddr) (snd daddr) m;
     (case so of
        None \<Rightarrow> fail ENOMEM m
      | Some s \<Rightarrow> do {
          let m = (if is_dyn_bound then upd_stream s (\<lambda>x. x\<lparr>is_bound_addr := True\<rparr>) m else m);
          let m = upd_snd s (\<lambda>v. v\<lparr>cwnd := 1, ssthresh := ucast (mss v) * 10\<rparr>) m;
          let m = upd_stream s (\<lambda>x. x\<lparr>s_state := TCP_ST_SYN_SENT\<rparr>) m;
          (ret, q) \<leftarrow> StreamEnqueue (m_connectq m) s;
          let m = m\<lparr>m_connectq := q, m_wakeup_flag := True\<rparr>;
          if ret < 0 then do {
            (_, q) \<leftarrow> StreamEnqueue (m_destroyq m) s;
            fail EAGAIN (m\<lparr>m_destroyq := q\<rparr>)
          }
          else if has_opt (so_opts (m_smap m k)) MTCP_NONBLOCK then fail EINPROGRESS m
          else Some (Wait, m)
        })
   }"

definition mtcp_connect ::
    "mtcp_config \<Rightarrow> mtcp_context option \<Rightarrow> int \<Rightarrow> (bool \<times> sockaddr) option \<Rightarrow> mtcp_manager \<Rightarrow> (unit api \<times> mtcp_manager) option" where
  "mtcp_connect cfg mctx sockid addr m0 = with_manager mctx (\<lambda>c. with_socket cfg sockid (\<lambda>k m.
     let socket = m_smap m k in
     if so_socktype socket = MTCP_SOCK_UNUSED then fail EBADF m
     else if so_socktype socket \<noteq> MTCP_SOCK_STREAM then fail ENOTSOCK m
     else (case addr of
         None \<Rightarrow> fail EFAULT m
       | Some (inet, daddr) \<Rightarrow>
           (if \<not> inet then fail EAFNOSUPPORT m
            else do {
              so \<leftarrow> socket_stream socket;
              (case so of
                 Some s \<Rightarrow> fail (if s_state (m_streams m s) \<ge> TCP_ST_ESTABLISHED then EISCONN else EALREADY) m
               | None \<Rightarrow> do {
                   (r, m) \<leftarrow> connect_address cfg c k daddr m;
                   (case r of
                      Ret is_dyn_bound \<Rightarrow> connect_stream cfg k is_dyn_bound daddr m
                    | Fail e \<Rightarrow> Some (Fail e, m)
                    | Wait \<Rightarrow> None)
                 })
            })))) m0"

text \<open>A turn of the loop in which a blocking \<open>mtcp_connect\<close> polls its stream.\<close>

definition connect_poll :: "nat \<Rightarrow> mtcp_manager \<Rightarrow> (unit api \<times> mtcp_manager) option" where
  "connect_poll s m =
     (if s_state (m_streams m s) > TCP_ST_ESTABLISHED then fail ENOSYS m
      else if s_state (m_streams m s) = TCP_ST_ESTABLISHED then Some (Ret (), m)
      else Some (Wait, m))"

section \<open>Closing\<close>

text \<open>The result of \<open>StreamEnqueue\<close> on the destroy queue is ignored.\<close>

definition enqueue_destroy :: "nat \<Rightarrow> mtcp_manager \<Rightarrow> mtcp_manager option" where
  "enqueue_destroy s m = do {
     (_, q) \<leftarrow> StreamEnqueue (m_destroyq m) s;
     Some (m\<lparr>m_destroyq := q, m_wakeup_flag := True\<rparr>)
   }"

definition CloseStreamSocket :: "mtcp_context option \<Rightarrow> nat \<Rightarrow> mtcp_manager \<Rightarrow> (int api \<times> mtcp_manager) option" where
  "CloseStreamSocket mctx sockid m0 = with_manager mctx (\<lambda>c m. do {
     so \<leftarrow> socket_stream (m_smap m sockid);
     (case so of
        None \<Rightarrow> fail ENOTCONN m
      | Some s \<Rightarrow>
          (if s_closed (m_streams m s) then Some (Ret 0, m)
           else do {
             let m = upd_stream s (\<lambda>x. x\<lparr>s_closed := True, s_socket := None\<rparr>) m;
             let st = s_state (m_streams m s);
             if st = TCP_ST_CLOSED then do { m \<leftarrow> enqueue_destroy s m; Some (Ret 0, m) }
             else if st = TCP_ST_SYN_SENT then do { m \<leftarrow> enqueue_destroy s m; Some (Fail None, m) }
             else if st \<noteq> TCP_ST_ESTABLISHED \<and> st \<noteq> TCP_ST_CLOSE_WAIT then fail EBADF m
             else do {
               let m = upd_snd s (\<lambda>v. v\<lparr>on_closeq := True\<rparr>) m;
               (ret, q) \<leftarrow> StreamEnqueue (m_closeq m) s;
               let m = m\<lparr>m_closeq := q, m_wakeup_flag := True\<rparr>;
               if ret < 0 then fail EAGAIN m else Some (Ret 0, m)
             }
           }))
   }) m0"

text \<open>The listener is freed but stays in the hash table of the listeners. A freed listener is one
  whose socket cannot be read.\<close>

definition CloseListeningSocket :: "mtcp_context option \<Rightarrow> nat \<Rightarrow> mtcp_manager \<Rightarrow> (int api \<times> mtcp_manager) option" where
  "CloseListeningSocket mctx sockid m0 = with_manager mctx (\<lambda>c m. do {
     lo \<leftarrow> socket_listener (m_smap m sockid);
     (case lo of
        None \<Rightarrow> fail EINVAL m
      | Some l \<Rightarrow>
          Some (Ret 0, upd_socket sockid (\<lambda>x. x\<lparr>so_obj := NoObj\<rparr>)
            (m\<lparr>m_listeners := (m_listeners m)(l := (m_listeners m l)\<lparr>l_socket := None\<rparr>)\<rparr>)))
   }) m0"

definition mtcp_close ::
    "mtcp_config \<Rightarrow> mtcp_context option \<Rightarrow> int \<Rightarrow> mtcp_manager \<Rightarrow> (int api \<times> mtcp_manager) option" where
  "mtcp_close cfg mctx sockid m0 = with_manager mctx (\<lambda>c. with_socket cfg sockid (\<lambda>k m.
     if so_socktype (m_smap m k) = MTCP_SOCK_UNUSED then fail EBADF m
     else do {
       (ret, m) \<leftarrow>
         (case so_socktype (m_smap m k) of
            MTCP_SOCK_STREAM \<Rightarrow> CloseStreamSocket mctx k m
          | MTCP_SOCK_LISTENER \<Rightarrow> CloseListeningSocket mctx k m
          | MTCP_SOCK_EPOLL \<Rightarrow> CloseEpollSocket mctx k m
          | MTCP_SOCK_PIPE \<Rightarrow> PipeClose cfg mctx sockid m
          | _ \<Rightarrow> fail EINVAL m);
       m \<leftarrow> FreeSocket k m;
       Some (ret, m)
     })) m0"

definition mtcp_abort ::
    "mtcp_config \<Rightarrow> mtcp_context option \<Rightarrow> int \<Rightarrow> mtcp_manager \<Rightarrow> (int api \<times> mtcp_manager) option" where
  "mtcp_abort cfg mctx sockid m0 = with_manager mctx (\<lambda>c. with_socket cfg sockid (\<lambda>k m.
     if so_socktype (m_smap m k) = MTCP_SOCK_UNUSED then fail EBADF m
     else if so_socktype (m_smap m k) \<noteq> MTCP_SOCK_STREAM then fail ENOTSOCK m
     else do {
       so \<leftarrow> socket_stream (m_smap m k);
       (case so of
          None \<Rightarrow> fail ENOTCONN m
        | Some s \<Rightarrow> do {
            m \<leftarrow> FreeSocket k m;
            let m = upd_stream s (\<lambda>x. x\<lparr>s_socket := None\<rparr>) m;
            let st = s_state (m_streams m s);
            if st = TCP_ST_CLOSED then Some (Fail None, m)
            else if st = TCP_ST_SYN_SENT \<or> st = TCP_ST_CLOSING \<or> st = TCP_ST_LAST_ACK \<or> st = TCP_ST_TIME_WAIT then do {
              m \<leftarrow> enqueue_destroy s (upd_stream s (\<lambda>x. x\<lparr>s_state := TCP_ST_CLOSED, close_reason := TCP_ACTIVE_CLOSE\<rparr>) m);
              Some (Ret 0, m)
            }
            else if on_resetq (sndvar (m_streams m s)) then fail ECONNRESET m
            else do {
              let m = upd_snd s (\<lambda>v. v\<lparr>on_resetq := True\<rparr>) m;
              (ret, q) \<leftarrow> StreamEnqueue (m_resetq m) s;
              let m = m\<lparr>m_resetq := q, m_wakeup_flag := True\<rparr>;
              if ret < 0 then fail EAGAIN m else Some (Ret 0, m)
            }
          })
     })) m0"

end
