(* ===== verification/Api_Data.thy ===== *)
theory Api_Data
  imports Api
begin

text \<open>
  The calls of the application that move data (api.c): receiving takes bytes from the front of the
  receive buffer of the stream and may ask for a window update, sending appends to the send buffer
  and puts the stream into the send queue.
\<close>

section \<open>Receiving\<close>

text \<open>The result is the data that is copied to the buffer of the caller.\<close>

definition PeekForUser :: "nat \<Rightarrow> int \<Rightarrow> mtcp_manager \<Rightarrow> (byte list api) option" where
  "PeekForUser s len m = do {
     b \<leftarrow> rcvbuf (rcvvar (m_streams m s));
     let copylen = min (rb_merged_len b) len;
     if copylen \<le> 0 then Some (Fail (Some EAGAIN))
     else do { data \<leftarrow> read_at (rb_data b) (rb_head b) (nat copylen); Some (Ret data) }
   }"

text \<open>The application asks the stack to advertise a window that has become large enough again.\<close>

definition advertise_window :: "nat \<Rightarrow> mtcp_manager \<Rightarrow> mtcp_manager option" where
  "advertise_window s m =
     (let stream = m_streams m s in
      if need_wnd_adv stream \<and> rcv_wnd (rcvvar stream) > ucast (eff_mss (sndvar stream)) \<and> \<not> on_ackq (sndvar stream)
      then do {
        let m = upd_snd s (\<lambda>v. v\<lparr>on_ackq := True\<rparr>) m;
        (_, q) \<leftarrow> StreamEnqueue (m_ackq m) s;
        Some (upd_stream s (\<lambda>x. x\<lparr>need_wnd_adv := False\<rparr>) (m\<lparr>m_ackq := q, m_wakeup_flag := True\<rparr>))
      } else Some m)"

definition CopyToUser :: "nat \<Rightarrow> int \<Rightarrow> mtcp_manager \<Rightarrow> (byte list api \<times> mtcp_manager) option" where
  "CopyToUser s len m = do {
     b \<leftarrow> rcvbuf (rcvvar (m_streams m s));
     let copylen = min (rb_merged_len b) len;
     if copylen \<le> 0 then fail EAGAIN m
     else do {
       data \<leftarrow> read_at (rb_data b) (rb_head b) (nat copylen);
       (_, b, rbm) \<leftarrow> RBRemove (m_rbm_rcv m) b (word_of_int copylen) AT_APP;
       let m = m\<lparr>m_rbm_rcv := rbm\<rparr>;
       let m = upd_rcv s (\<lambda>v. v\<lparr>rcvbuf := Some b, rcv_wnd := word_of_int (rb_size b - rb_merged_len b)\<rparr>) m;
       m \<leftarrow> advertise_window s m;
       Some (Ret data, m)
     }
   }"

definition MSG_PEEK :: int where "MSG_PEEK = 2"

text \<open>The checks that precede a read: \<open>Inl\<close> is the result without one.\<close>

definition read_ready :: "nat \<Rightarrow> nat option \<Rightarrow> mtcp_manager \<Rightarrow> byte list api + nat" where
  "read_ready k so m =
     (case so of
        None \<Rightarrow> Inl (Fail (Some ENOTCONN))
      | Some s \<Rightarrow>
          let st = s_state (m_streams m s); buf = rcvbuf (rcvvar (m_streams m s));
              empty = (case buf of None \<Rightarrow> True | Some b \<Rightarrow> rb_merged_len b = 0) in
          if \<not> (st \<ge> TCP_ST_ESTABLISHED \<and> st \<le> TCP_ST_CLOSE_WAIT) then Inl (Fail (Some ENOTCONN))
          else if st = TCP_ST_CLOSE_WAIT \<and> empty then Inl (Ret [])
          else if has_opt (so_opts (m_smap m k)) MTCP_NONBLOCK \<and> empty then Inl (Fail (Some EAGAIN))
          else Inr s)"

text \<open>Whether an event is due after a read of \<open>ret\<close> bytes.\<close>

definition event_remaining :: "nat \<Rightarrow> nat \<Rightarrow> int \<Rightarrow> mtcp_manager \<Rightarrow> bool option" where
  "event_remaining k s ret m = do {
     e1 \<leftarrow> (if has_opt (so_epoll (m_smap m k)) MTCP_EPOLLIN \<and> \<not> has_opt (so_epoll (m_smap m k)) MTCP_EPOLLET
            then do { b \<leftarrow> rcvbuf (rcvvar (m_streams m s)); Some (rb_merged_len b > 0) } else Some False);
     e2 \<leftarrow> (if s_state (m_streams m s) = TCP_ST_CLOSE_WAIT
            then do { b \<leftarrow> rcvbuf (rcvvar (m_streams m s)); Some (rb_merged_len b = 0 \<and> ret > 0) } else Some False);
     Some (e1 \<or> e2)
   }"

definition mtcp_recv ::
    "mtcp_config \<Rightarrow> mtcp_context option \<Rightarrow> int \<Rightarrow> nat \<Rightarrow> int \<Rightarrow> mtcp_manager \<Rightarrow> (byte list api \<times> mtcp_manager) option" where
  "mtcp_recv cfg mctx sockid len flags m0 = with_manager mctx (\<lambda>c. with_socket cfg sockid (\<lambda>k m.
     if so_socktype (m_smap m k) = MTCP_SOCK_UNUSED then fail EBADF m
     else if so_socktype (m_smap m k) = MTCP_SOCK_PIPE then PipeRead cfg mctx sockid (int_of_size len) m
     else if so_socktype (m_smap m k) \<noteq> MTCP_SOCK_STREAM then fail ENOTSOCK m
     else do {
       so \<leftarrow> socket_stream (m_smap m k);
       (case read_ready k so m of
          Inl r \<Rightarrow> Some (r, m)
        | Inr s \<Rightarrow>
            (if flags \<noteq> 0 \<and> flags \<noteq> MSG_PEEK then fail EINVAL m
             else do {
               (ret, m) \<leftarrow> (if flags = 0 then CopyToUser s (int_of_size len) m
                            else do { r \<leftarrow> PeekForUser s (int_of_size len) m; Some (r, m) });
               ev \<leftarrow> event_remaining k s (case ret of Ret data \<Rightarrow> int (length data) | _ \<Rightarrow> - 1) m;
               m \<leftarrow> (if ev \<and> so_epoll (m_smap m k) \<noteq> 0 then mtcp_add_event USR_SHADOW_EVENT_QUEUE k MTCP_EPOLLIN m
                     else Some m);
               Some (ret, m)
             }))
     })) m0"

definition mtcp_read where
  "mtcp_read cfg mctx sockid len = mtcp_recv cfg mctx sockid len 0"

text \<open>The loop over the vector; \<open>lens\<close> are the lengths of its buffers that are left, \<open>acc\<close> what has
  been copied.\<close>

fun readv_loop :: "nat \<Rightarrow> nat list \<Rightarrow> byte list \<Rightarrow> mtcp_manager \<Rightarrow> (byte list \<times> mtcp_manager) option" where
  "readv_loop s [] acc m = Some (acc, m)"
| "readv_loop s (n # lens) acc m =
     (if n = 0 then readv_loop s lens acc m
      else do {
        (ret, m) \<leftarrow> CopyToUser s (int_of_size n) m;
        (case ret of
           Ret data \<Rightarrow>
             (if data = [] then Some (acc, m)
              else if length data < n then Some (acc @ data, m)
              else readv_loop s lens (acc @ data) m)
         | _ \<Rightarrow> Some (acc, m))
      })"

definition mtcp_readv ::
    "mtcp_config \<Rightarrow> mtcp_context option \<Rightarrow> int \<Rightarrow> nat list \<Rightarrow> mtcp_manager \<Rightarrow> (byte list api \<times> mtcp_manager) option" where
  "mtcp_readv cfg mctx sockid lens m0 = with_manager mctx (\<lambda>c. with_socket cfg sockid (\<lambda>k m.
     if so_socktype (m_smap m k) = MTCP_SOCK_UNUSED then fail EBADF m
     else if so_socktype (m_smap m k) \<noteq> MTCP_SOCK_STREAM then fail ENOTSOCK m
     else do {
       so \<leftarrow> socket_stream (m_smap m k);
       (case read_ready k so m of
          Inl r \<Rightarrow> Some (r, m)
        | Inr s \<Rightarrow> do {
            (data, m) \<leftarrow> readv_loop s lens [] m;
            ev \<leftarrow> event_remaining k s (int (length data)) m;
            m \<leftarrow> (if ev \<and> has_opt (so_epoll (m_smap m k)) MTCP_EPOLLIN \<and> \<not> has_opt (so_epoll (m_smap m k)) MTCP_EPOLLET
                  then mtcp_add_event USR_SHADOW_EVENT_QUEUE k MTCP_EPOLLIN m else Some m);
            Some (Ret data, m)
          })
     })) m0"

section \<open>Sending\<close>

text \<open>The result is the number of bytes taken from \<open>buf\<close>.\<close>

definition CopyFromUser :: "nat \<Rightarrow> byte list \<Rightarrow> int \<Rightarrow> mtcp_manager \<Rightarrow> (int api \<times> mtcp_manager) option" where
  "CopyFromUser s buf len m = do {
     let sndlen = min (sint (snd_wnd (sndvar (m_streams m s)))) len;
     if sndlen \<le> 0 then fail EAGAIN m
     else do {
       (bo, m) \<leftarrow>
         (case sndbuf (sndvar (m_streams m s)) of
            Some b \<Rightarrow> Some (Some b, m)
          | None \<Rightarrow> do {
              let (ok, m) = next_alloc m;
              (b, sbm) \<leftarrow> SBInit ok (m_rbm_snd m) (iss (sndvar (m_streams m s)) + 1);
              Some (b, upd_snd s (\<lambda>v. v\<lparr>sndbuf := b\<rparr>) (m\<lparr>m_rbm_snd := sbm\<rparr>))
            });
       (case bo of
          None \<Rightarrow> fail ENOMEM (upd_stream s (\<lambda>x. x\<lparr>close_reason := TCP_NO_MEM\<rparr>) m)
        | Some b \<Rightarrow> do {
            (r, b) \<leftarrow> SBPut b buf (word_of_int sndlen);
            let ret = sint (ucast r :: u32);
            if ret \<noteq> sndlen then None
            else Some (Ret ret, upd_snd s (\<lambda>v. v\<lparr>sndbuf := Some b, snd_wnd := sb_size b - sb_len b\<rparr>) m)
          })
     }
   }"

text \<open>What follows the copy in both calls.\<close>

definition after_write :: "nat \<Rightarrow> nat \<Rightarrow> bool \<Rightarrow> mtcp_manager \<Rightarrow> mtcp_manager option" where
  "after_write k s written m = do {
     m \<leftarrow> (if written \<and> \<not> (on_sendq (sndvar (m_streams m s)) \<or> on_send_list (sndvar (m_streams m s))) then do {
             let m = upd_snd s (\<lambda>v. v\<lparr>on_sendq := True\<rparr>) m;
             (_, q) \<leftarrow> StreamEnqueue (m_sendq m) s;
             Some (m\<lparr>m_sendq := q, m_wakeup_flag := True\<rparr>)
           } else Some m);
     (if snd_wnd (sndvar (m_streams m s)) > 0 \<and> has_opt (so_epoll (m_smap m k)) MTCP_EPOLLOUT
         \<and> \<not> has_opt (so_epoll (m_smap m k)) MTCP_EPOLLET
      then mtcp_add_event USR_SHADOW_EVENT_QUEUE k MTCP_EPOLLOUT m else Some m)
   }"

definition may_write :: "tcp_state \<Rightarrow> bool" where
  "may_write st \<longleftrightarrow> st = TCP_ST_ESTABLISHED \<or> st = TCP_ST_CLOSE_WAIT"

definition mtcp_write ::
    "mtcp_config \<Rightarrow> mtcp_context option \<Rightarrow> int \<Rightarrow> byte list \<Rightarrow> mtcp_manager \<Rightarrow> (int api \<times> mtcp_manager) option" where
  "mtcp_write cfg mctx sockid buf m0 = with_manager mctx (\<lambda>c. with_socket cfg sockid (\<lambda>k m.
     if so_socktype (m_smap m k) = MTCP_SOCK_UNUSED then fail EBADF m
     else if so_socktype (m_smap m k) = MTCP_SOCK_PIPE then PipeWrite cfg mctx sockid buf (int_of_size (length buf)) m
     else if so_socktype (m_smap m k) \<noteq> MTCP_SOCK_STREAM then fail ENOTSOCK m
     else do {
       so \<leftarrow> socket_stream (m_smap m k);
       (case so of
          None \<Rightarrow> fail ENOTCONN m
        | Some s \<Rightarrow>
            (if \<not> may_write (s_state (m_streams m s)) then fail ENOTCONN m
             else if buf = [] then
               (if has_opt (so_opts (m_smap m k)) MTCP_NONBLOCK then fail EAGAIN m else Some (Ret 0, m))
             else do {
               (ret, m) \<leftarrow> CopyFromUser s buf (int_of_size (length buf)) m;
               m \<leftarrow> after_write k s (case ret of Ret n \<Rightarrow> n > 0 | _ \<Rightarrow> False) m;
               Some (case ret of Ret n \<Rightarrow> (if n = 0 \<and> has_opt (so_opts (m_smap m k)) MTCP_NONBLOCK then Fail (Some EAGAIN) else ret)
                     | _ \<Rightarrow> ret, m)
             }))
     })) m0"

fun writev_loop :: "nat \<Rightarrow> byte list list \<Rightarrow> int \<Rightarrow> mtcp_manager \<Rightarrow> (int \<times> mtcp_manager) option" where
  "writev_loop s [] to_write m = Some (to_write, m)"
| "writev_loop s (buf # iov) to_write m =
     (if buf = [] then writev_loop s iov to_write m
      else do {
        (ret, m) \<leftarrow> CopyFromUser s buf (int_of_size (length buf)) m;
        (case ret of
           Ret n \<Rightarrow>
             (if n \<le> 0 then Some (to_write, m)
              else do {
                t \<leftarrow> int32_ok (to_write + n);
                if n < int (length buf) then Some (t, m) else writev_loop s iov t m
              })
         | _ \<Rightarrow> Some (to_write, m))
      })"

definition mtcp_writev ::
    "mtcp_config \<Rightarrow> mtcp_context option \<Rightarrow> int \<Rightarrow> byte list list \<Rightarrow> mtcp_manager \<Rightarrow> (int api \<times> mtcp_manager) option" where
  "mtcp_writev cfg mctx sockid iov m0 = with_manager mctx (\<lambda>c. with_socket cfg sockid (\<lambda>k m.
     if so_socktype (m_smap m k) = MTCP_SOCK_UNUSED then fail EBADF m
     else if so_socktype (m_smap m k) \<noteq> MTCP_SOCK_STREAM then fail ENOTSOCK m
     else do {
       so \<leftarrow> socket_stream (m_smap m k);
       (case so of
          None \<Rightarrow> fail ENOTCONN m
        | Some s \<Rightarrow>
            (if \<not> may_write (s_state (m_streams m s)) then fail ENOTCONN m
             else do {
               (to_write, m) \<leftarrow> writev_loop s iov 0 m;
               m \<leftarrow> after_write k s (to_write > 0) m;
               Some (if to_write = 0 \<and> has_opt (so_opts (m_smap m k)) MTCP_NONBLOCK then Fail (Some EAGAIN)
                     else Ret to_write, m)
             }))
     })) m0"

end
