(* ===== verification/Engine_Frame.thy ===== *)
theory Engine_Frame
  imports Core
begin

text \<open>
  What the handlers of the stack leave alone. The lists, the flow table and the pools depend on a few
  fields of a stream only, its \<open>skey\<close>; all other work of a handler leaves them alone, and the network
  side does not touch them at all.

  The locale states what a predicate on the state has to be closed under so that every handler of one
  stream keeps it; it is used for the consistency of the lists and for the separation of streams.
\<close>

section \<open>The part of the state that the lists and pools depend on\<close>

definition vkey where
  "vkey v = (on_control_list v, on_send_list v, on_ack_list v, nif_out v)"

definition skey where
  "skey x = (vkey (sndvar x), on_timewait_list x, on_timeout_list x, on_rto_idx x, flow_key x, rv_chunk x,
     sv_chunk x, on_hash_table x)"

definition core where
  "core m = (m_streams m, m_senders m, m_rto_store m, m_timewait_list m, m_timeout_list m, m_rto_list_cnt m,
     m_timewait_list_cnt m, m_timeout_list_cnt m, m_flow_table m, m_flow_pool m, m_rv_pool m, m_sv_pool m,
     m_flow_cnt m)"

lemmas skeys = skey_def vkey_def flow_key_def

lemma core_streams: "core m' = core m \<Longrightarrow> m_streams m' = m_streams m"
  by (simp add: core_def)

section \<open>Rules for steps\<close>

lemma post_if: "(c \<Longrightarrow> post R x) \<Longrightarrow> (\<not> c \<Longrightarrow> post R y) \<Longrightarrow> post R (if c then x else y)"
  by simp

lemma post_case_option:
  "(x = None \<Longrightarrow> post R n) \<Longrightarrow> (\<And>a. x = Some a \<Longrightarrow> post R (f a)) \<Longrightarrow> post R (case x of None \<Rightarrow> n | Some a \<Rightarrow> f a)"
  by (cases x) simp_all

lemma post_case_prod: "(\<And>a b. p = (a, b) \<Longrightarrow> post R (f a b)) \<Longrightarrow> post R (case p of (a, b) \<Rightarrow> f a b)"
  by (cases p) simp

lemma post_Let: "post R (f x) \<Longrightarrow> post R (Let x f)"
  by (simp add: Let_def)

lemma post_bind_any: "(\<And>y. x = Some y \<Longrightarrow> post R (f y)) \<Longrightarrow> post R (Option.bind x f)"
  by (cases x) simp_all

lemma post_bind2:
  "post (\<lambda>(r, m). S r m) x \<Longrightarrow> (\<And>r m. S r m \<Longrightarrow> post R (g r m)) \<Longrightarrow> post R (Option.bind x (\<lambda>(r, m). g r m))"
  by (cases x) auto

lemma post_map_option: "post (\<lambda>y. R (f y)) x \<Longrightarrow> post R (map_option f x)"
  by (cases x) simp_all

text \<open>A step that leaves the core alone, alone and with a result.\<close>

definition quiet :: "mtcp_manager \<Rightarrow> mtcp_manager option \<Rightarrow> bool" where
  "quiet m x \<longleftrightarrow> post (\<lambda>m'. core m' = core m) x"

definition quiet2 :: "mtcp_manager \<Rightarrow> ('a \<times> mtcp_manager) option \<Rightarrow> bool" where
  "quiet2 m x \<longleftrightarrow> post (\<lambda>(r, m'). core m' = core m) x"

named_theorems quiet_intros \<open>rules for steps that leave the core alone\<close>

lemma quiet_rules [quiet_intros]:
  "quiet m None" "quiet2 m None"
  "core m' = core m \<Longrightarrow> quiet m (Some m')"
  "core m' = core m \<Longrightarrow> quiet2 m (Some (r, m'))"
  "(c \<Longrightarrow> quiet m x) \<Longrightarrow> (\<not> c \<Longrightarrow> quiet m y) \<Longrightarrow> quiet m (if c then x else y)"
  "(c \<Longrightarrow> quiet2 m x2) \<Longrightarrow> (\<not> c \<Longrightarrow> quiet2 m y2) \<Longrightarrow> quiet2 m (if c then x2 else y2)"
  by (simp_all add: quiet_def quiet2_def)

lemma quiet_cases [quiet_intros]:
  "(x = None \<Longrightarrow> quiet m n) \<Longrightarrow> (\<And>a. x = Some a \<Longrightarrow> quiet m (f a)) \<Longrightarrow> quiet m (case x of None \<Rightarrow> n | Some a \<Rightarrow> f a)"
  "(x = None \<Longrightarrow> quiet2 m n2) \<Longrightarrow> (\<And>a. x = Some a \<Longrightarrow> quiet2 m (f2 a)) \<Longrightarrow> quiet2 m (case x of None \<Rightarrow> n2 | Some a \<Rightarrow> f2 a)"
  "(\<And>a b. p = (a, b) \<Longrightarrow> quiet m (g a b)) \<Longrightarrow> quiet m (case p of (a, b) \<Rightarrow> g a b)"
  "(\<And>a b. p = (a, b) \<Longrightarrow> quiet2 m (g2 a b)) \<Longrightarrow> quiet2 m (case p of (a, b) \<Rightarrow> g2 a b)"
  by (simp_all split: option.split prod.split)

lemma quiet_bind [quiet_intros]:
  "quiet m x \<Longrightarrow> (\<And>m1. core m1 = core m \<Longrightarrow> quiet m (f m1)) \<Longrightarrow> quiet m (Option.bind x f)"
  "quiet m x \<Longrightarrow> (\<And>m1. core m1 = core m \<Longrightarrow> quiet2 m (f2 m1)) \<Longrightarrow> quiet2 m (Option.bind x f2)"
  "quiet2 m y \<Longrightarrow> (\<And>r m1. core m1 = core m \<Longrightarrow> quiet m (g r m1)) \<Longrightarrow> quiet m (Option.bind y (\<lambda>(r, m1). g r m1))"
  "quiet2 m y \<Longrightarrow> (\<And>r m1. core m1 = core m \<Longrightarrow> quiet2 m (g2 r m1)) \<Longrightarrow> quiet2 m (Option.bind y (\<lambda>(r, m1). g2 r m1))"
  unfolding quiet_def quiet2_def by (erule post_bindI post_bind2; blast)+

lemma quiet_bind_any:
  "(\<And>y. x = Some y \<Longrightarrow> quiet m (f y)) \<Longrightarrow> quiet m (Option.bind x f)"
  "(\<And>y. x = Some y \<Longrightarrow> quiet2 m (f2 y)) \<Longrightarrow> quiet2 m (Option.bind x f2)"
  by (cases x; simp add: quiet_rules)+

lemma core_updates [simp]:
  "core (m\<lparr>io_tx := a1\<rparr>) = core m" "core (m\<lparr>m_eps := a2\<rparr>) = core m" "core (m\<lparr>m_smap := a3\<rparr>) = core m"
  "core (m\<lparr>m_arpq := a4\<rparr>) = core m" "core (m\<lparr>m_arp := a5\<rparr>) = core m" "core (m\<lparr>env_alloc_n := a6\<rparr>) = core m"
  "core (m\<lparr>io_wptr_n := a7\<rparr>) = core m" "core (m\<lparr>m_rbm_rcv := a8\<rparr>) = core m" "core (m\<lparr>m_rbm_snd := a9\<rparr>) = core m"
  "core (m\<lparr>m_listeners := b1\<rparr>) = core m" "core (m\<lparr>m_closeq_int := b2\<rparr>) = core m"
  "core (m\<lparr>m_resetq_int := b3\<rparr>) = core m" "core (m\<lparr>m_ap := b4\<rparr>) = core m" "core (m\<lparr>m_aps := b5\<rparr>) = core m"
  "core (m\<lparr>m_ts_last_event := b6\<rparr>) = core m" "core (m\<lparr>m_cur_ts := b7\<rparr>) = core m"
  "core (m\<lparr>m_wakeup_flag := b8\<rparr>) = core m" "core (m\<lparr>env_rand_n := b9\<rparr>) = core m"
  "core (m\<lparr>m_connectq := c1\<rparr>) = core m" "core (m\<lparr>m_sendq := c2\<rparr>) = core m" "core (m\<lparr>m_ackq := c3\<rparr>) = core m"
  "core (m\<lparr>m_closeq := c4\<rparr>) = core m" "core (m\<lparr>m_resetq := c5\<rparr>) = core m" "core (m\<lparr>m_destroyq := c6\<rparr>) = core m"
  "core (m\<lparr>m_free_smap := c7\<rparr>) = core m" "core (m\<lparr>m_lt_table := c8\<rparr>) = core m"
  "core (m\<lparr>m_listeners_next := c9\<rparr>) = core m" "core (m\<lparr>m_ep := d1\<rparr>) = core m" "core (m\<lparr>m_eps_next := d2\<rparr>) = core m"
  "core (m\<lparr>m_pipes := d3\<rparr>) = core m" "core (m\<lparr>m_pipes_next := d4\<rparr>) = core m"
  "core (m\<lparr>m_ctx_interrupt := d5\<rparr>) = core m"
  by (simp_all add: core_def)

section \<open>The network side\<close>

named_theorems quiet_ops \<open>the operations that leave the core alone\<close>

lemma put_frame_quiet [quiet_ops]: "core m1 = core m \<Longrightarrow> quiet m (put_frame w p a b m1)"
  by (auto simp: put_frame_def quiet_def post_def split: prod.splits if_splits)

lemma EthernetOutput_quiet [quiet_ops]: "core m1 = core m \<Longrightarrow> quiet2 m (EthernetOutput cfg p nif d len m1)"
  by (auto simp: EthernetOutput_def next_wptr_def quiet2_def post_def Option.bind_eq_Some_conv Let_def
      split: prod.splits if_splits)

lemma ARPOutput_quiet [quiet_ops]: "core m1 = core m \<Longrightarrow> quiet2 m (ARPOutput cfg nif op ip d t m1)"
  unfolding ARPOutput_def by (rule quiet_ops quiet_intros | rule quiet_bind_any | (simp; fail))+

lemma RequestARP_quiet [quiet_ops]: "core m1 = core m \<Longrightarrow> quiet m (RequestARP cfg ip nif ts m1)"
  unfolding RequestARP_def next_alloc_def Let_def prod.case
  by (rule quiet_ops quiet_intros | rule quiet_bind_any | (simp; fail))+

lemma mtcp_add_event_quiet [quiet_ops]: "core m1 = core m \<Longrightarrow> quiet m (mtcp_add_event qt k ev m1)"
  unfolding mtcp_add_event_def prod.case
  by (rule quiet_intros | rule quiet_bind_any | (simp; fail))+

lemma Raise_quiet [quiet_ops]:
  "core m1 = core m \<Longrightarrow> quiet m (RaiseReadEvent s m1)" "core m1 = core m \<Longrightarrow> quiet m (RaiseWriteEvent s m1)"
  "core m1 = core m \<Longrightarrow> quiet m (RaiseCloseEvent s m1)" "core m1 = core m \<Longrightarrow> quiet m (RaiseErrorEvent s m1)"
  unfolding RaiseReadEvent_def RaiseWriteEvent_def RaiseCloseEvent_def RaiseErrorEvent_def
  by (rule quiet_ops quiet_intros | (simp; fail))+

lemma IPOutputStandalone_quiet [quiet_ops]:
  "core m1 = core m \<Longrightarrow> quiet2 m (IPOutputStandalone cfg p i sa da len m1)"
  unfolding IPOutputStandalone_def Let_def
  by (rule quiet_ops quiet_intros | rule quiet_bind_any | (simp; fail))+

lemma SendTCPPacketStandalone_quiet [quiet_ops]:
  "core m1 = core m \<Longrightarrow> quiet2 m (SendTCPPacketStandalone cfg sa sp da dp seq ack w fl pl len ts ets m1)"
  unfolding SendTCPPacketStandalone_def Let_def
  by (rule quiet_ops quiet_intros | rule quiet_bind_any | (simp; fail))+

lemma send_rst_quiet [quiet_ops]:
  "core m1 = core m \<Longrightarrow> quiet m (send_rst cfg sa da h seq ack fl ts m1)"
  unfolding send_rst_def by (rule quiet_ops quiet_intros | rule quiet_bind_any | (simp; fail))+

lemma RegisterARPEntry_quiet [quiet_ops]: "core m1 = core m \<Longrightarrow> quiet m (RegisterARPEntry cfg ip h m1)"
  unfolding RegisterARPEntry_def Let_def
  by (rule quiet_ops quiet_intros | rule quiet_bind_any | (simp; fail))+

lemma ProcessARPPacket_quiet [quiet_ops]: "core m1 = core m \<Longrightarrow> quiet m (ProcessARPPacket cfg nif pkt m1)"
  unfolding ProcessARPPacket_def ProcessARPRequest_def ProcessARPReply_def Let_def
  by (rule quiet_ops quiet_intros | rule quiet_bind_any | (simp; fail))+

lemma ICMPOutput_quiet [quiet_ops]:
  "core m1 = core m \<Longrightarrow> quiet2 m (ICMPOutput cfg sa da t c i seq d len m1)"
  unfolding ICMPOutput_def by (rule quiet_ops quiet_intros | rule quiet_bind_any | (simp; fail))+

lemma ProcessICMPPacket_quiet [quiet_ops]: "core m1 = core m \<Longrightarrow> quiet2 m (ProcessICMPPacket cfg pkt len m1)"
  unfolding ProcessICMPPacket_def ProcessICMPECHORequest_def Let_def
  by (rule quiet_ops quiet_intros | rule quiet_bind_any | (simp; fail))+

section \<open>Steps of one stream\<close>

lemma upd_unfold:
  "upd_snd s f m = upd_stream s (\<lambda>x. x\<lparr>sndvar := f (sndvar x)\<rparr>) m"
  "upd_rcv s g m = upd_stream s (\<lambda>x. x\<lparr>rcvvar := g (rcvvar x)\<rparr>) m"
  by (simp_all add: upd_snd_def upd_rcv_def)

lemma upd_stream_same [simp]: "m_streams (upd_stream s f m) s = f (m_streams m s)"
  by (simp add: upd_stream_def)

lemma ParseTCPOptions_loop_skey:
  "ParseTCPOptions_loop ts buf len i st = Some r \<Longrightarrow> (case r of Some st' \<Rightarrow> skey st' = skey st | None \<Rightarrow> True)"
  by (induction rule: ParseTCPOptions_loop.raw_induct [rotated, consumes 1])
    (fastforce simp: Let_def skey_def vkey_def flow_key_def split: if_splits option.splits)

lemma ParseTCPOptions_skey:
  "ParseTCPOptions st ts opts len = Some st' \<Longrightarrow> skey st' = skey st"
  using ParseTCPOptions_loop_skey by (fastforce simp: ParseTCPOptions_def Option.bind_eq_Some_conv)

lemma EstimateRTT_skey: "skey (EstimateRTT k st) = skey st"
  by (auto simp: EstimateRTT_def Let_def skey_def flow_key_def)

lemma ack_cwnd_vkey: "ack_cwnd k v = Some v' \<Longrightarrow> vkey v' = vkey v"
  by (auto simp: ack_cwnd_def Let_def vkey_def Option.bind_eq_Some_conv split: if_splits)

lemma loss_window_vkey: "vkey (loss_window v) = vkey v"
  by (simp add: loss_window_def Let_def vkey_def)

text \<open>\<open>P s\<close> is kept by the steps that send segments of the stream \<open>s\<close>.\<close>

locale output_step =
  fixes cfg :: mtcp_config
    and P :: "nat \<Rightarrow> mtcp_manager \<Rightarrow> bool"
  assumes modify: "P s m \<Longrightarrow> skey (f (m_streams m s)) = skey (m_streams m s) \<Longrightarrow> P s (upd_stream s f m)"
    and other: "P s m \<Longrightarrow> core m' = core m \<Longrightarrow> P s m'"
    and route: "P s m \<Longrightarrow>
      P s (upd_snd s (\<lambda>v. v\<lparr>nif_out := fst (GetOutputInterface cfg (s_daddr (m_streams m s)))\<rparr>) m)"
    and ack: "P s m \<Longrightarrow> post (P s) (AddtoACKList cfg s m)"
    and arm: "P s m \<Longrightarrow> post (P s) (AddtoRTOList s m)"
    and touch: "P s m \<Longrightarrow> post (P s) (UpdateTimeoutList s m)"
begin

text \<open>\<open>x\<close> keeps \<open>P s\<close>, with and without a result.\<close>

abbreviation kp :: "nat \<Rightarrow> mtcp_manager option \<Rightarrow> bool" where
  "kp s x \<equiv> post (P s) x"

abbreviation kp2 :: "nat \<Rightarrow> ('a \<times> mtcp_manager) option \<Rightarrow> bool" where
  "kp2 s x \<equiv> post (\<lambda>(r, m). P s m) x"

lemma bindP:
  "post (P s) x \<Longrightarrow> (\<And>y. P s y \<Longrightarrow> post R (f y)) \<Longrightarrow> post R (Option.bind x f)"
  "post (\<lambda>(r, m). P s m) x2 \<Longrightarrow> (\<And>r y. P s y \<Longrightarrow> post R (g r y)) \<Longrightarrow> post R (Option.bind x2 (\<lambda>(r, y). g r y))"
  by (erule post_bindI post_bind2; blast)+

lemma bindP_snd:
  "post (\<lambda>(r, m). P s m) x \<Longrightarrow> (\<And>p. P s (snd p) \<Longrightarrow> post R (f p)) \<Longrightarrow> post R (Option.bind x f)"
  by (cases x) auto

lemma someP:
  "P s m \<Longrightarrow> post (P s) (Some m)" "P s m \<Longrightarrow> post (\<lambda>(r, m). P s m) (Some (r, m))"
  by simp_all

lemma quietP:
  "quiet m x \<Longrightarrow> P s m \<Longrightarrow> post (P s) x" "quiet2 m x2 \<Longrightarrow> P s m \<Longrightarrow> post (\<lambda>(r, m). P s m) x2"
  unfolding quiet_def quiet2_def
  by (erule post_weaken, erule (1) other, erule post_weaken, auto elim: other)

lemma writes [simp]:
  "P s m \<Longrightarrow> skey (f (m_streams m s)) = skey (m_streams m s) \<Longrightarrow> P s (upd_stream s f m)"
  "P s m \<Longrightarrow> vkey (g (sndvar (m_streams m s))) = vkey (sndvar (m_streams m s)) \<Longrightarrow> P s (upd_snd s g m)"
  "P s m \<Longrightarrow> P s (upd_rcv s h m)"
  unfolding upd_unfold by (rule modify; simp add: skey_def flow_key_def)+

lemmas quiets =
  quietP(1) [OF put_frame_quiet [OF refl]] quietP(1) [OF RequestARP_quiet [OF refl]]
  quietP(1) [OF mtcp_add_event_quiet [OF refl]] quietP(1) [OF Raise_quiet(1) [OF refl]]
  quietP(1) [OF Raise_quiet(2) [OF refl]] quietP(1) [OF Raise_quiet(3) [OF refl]]
  quietP(1) [OF Raise_quiet(4) [OF refl]] quietP(1) [OF send_rst_quiet [OF refl]]
  quietP(2) [OF EthernetOutput_quiet [OF refl]]

lemmas stepP = post_if post_case_option post_case_prod post_Let post_None

lemma IPOutput_keeps:
  assumes "P s m" shows "kp2 s (IPOutput cfg s len m)"
proof -
  define m1 where "m1 = (if nif_out (sndvar (m_streams m s)) \<ge> 0 then m
    else case GetOutputInterface cfg (s_daddr (m_streams m s)) of (nif, is_ext) \<Rightarrow>
      upd_stream s (\<lambda>x. x\<lparr>is_external := is_ext\<rparr>) (upd_snd s (\<lambda>v. v\<lparr>nif_out := nif\<rparr>) m))"
  have "P s m1"
    using assms route [OF assms]
    by (auto simp: m1_def skey_def flow_key_def split: prod.split)
  then show ?thesis
    unfolding IPOutput_def Let_def m1_def [symmetric]
    by - (rule stepP bindP [where s = s] quiets someP
      | assumption | rule post_bind_any | (simp add: vkey_def; fail))+
qed

lemma EnqueueACK_keeps: "P s m \<Longrightarrow> kp s (EnqueueACK cfg s opt m)"
  unfolding EnqueueACK_def Let_def by (rule ack) (auto simp: vkey_def split: ack_opt.split)

lemma SendTCPPacket_keeps: "P s m \<Longrightarrow> kp2 s (SendTCPPacket cfg s ts fl pl len m)"
  unfolding SendTCPPacket_def Let_def
  by (rule stepP bindP [where s = s] arm touch someP IPOutput_keeps quiets | rule post_bind_any
      | (simp add: vkey_def skey_def flow_key_def; fail))+

lemma FlushTCPSendingBuffer_loop_snd:
  "FlushTCPSendingBuffer_loop c s ts k m = Some r \<Longrightarrow> c = cfg \<Longrightarrow> P s m \<Longrightarrow> case r of (x, m') \<Rightarrow> P s m'"
proof (induction rule: FlushTCPSendingBuffer_loop.raw_induct [rotated, consumes 1, case_names step])
  case (step f c s ts k m r)
  have rec: "kp2 s (f cfg s ts j m')" if "P s m'" for j m'
    using step.IH [OF _ refl that] unfolding post_def by blast
  have p: "P s m" "c = cfg" using step.prems by simp_all
  show ?case
    by (rule postD [OF _ step.hyps(1)], unfold p(2) Let_def)
      (rule p(1)  stepP bindP [where s = s] bindP_snd [where s = s] someP EnqueueACK_keeps
        SendTCPPacket_keeps rec | rule post_bind_any | assumption)+
qed

lemma FlushTCPSendingBuffer_keeps: "P s m \<Longrightarrow> kp2 s (FlushTCPSendingBuffer cfg s ts m)"
  unfolding FlushTCPSendingBuffer_def
  by (rule stepP someP | assumption | (rule postI, erule FlushTCPSendingBuffer_loop_snd, rule refl))+

lemma send_acks_keeps: "P s m \<Longrightarrow> kp s (send_acks n cfg s ts m)"
  by (induction n arbitrary: m)
    (auto simp: vkey_def intro!: bindP(2) [where s = s, OF SendTCPPacket_keeps])

end

text \<open>\<open>P s\<close> is kept by all steps that work on the stream \<open>s\<close>; \<open>Q\<close> is what remains when the stream is
  destroyed.\<close>

locale stream_step = output_step +
  fixes Q :: "mtcp_manager \<Rightarrow> bool"
  assumes weaken: "P s m \<Longrightarrow> Q m"
    and other_Q: "Q m \<Longrightarrow> core m' = core m \<Longrightarrow> Q m'"
    and control: "P s m \<Longrightarrow> post (P s) (AddtoControlList cfg s m)"
      "P s m \<Longrightarrow> post (P s) (RemoveFromControlList cfg s m)"
    and send: "P s m \<Longrightarrow> post (P s) (AddtoSendList cfg s m)"
      "P s m \<Longrightarrow> post (P s) (RemoveFromSendList cfg s m)"
    and disarm: "P s m \<Longrightarrow> post (P s) (RemoveFromRTOList s m)"
    and timewait: "P s m \<Longrightarrow> post (P s) (AddtoTimewaitList cfg s ts m)"
      "P s m \<Longrightarrow> post (P s) (RemoveFromTimewaitList s m)"
    and timeout: "P s m \<Longrightarrow> c_tcp_timeout cfg > 0 \<Longrightarrow> post (P s) (AddtoTimeoutList s m)"
      "P s m \<Longrightarrow> post (P s) (RemoveFromTimeoutList s m)"
    and destroy: "P s m \<Longrightarrow> post Q (DestroyTCPStream cfg s m)"
begin

abbreviation kq2 :: "('a \<times> mtcp_manager) option \<Rightarrow> bool" where
  "kq2 x \<equiv> post (\<lambda>(r, m). Q m) x"

lemma someQ:
  "Q m \<Longrightarrow> post Q (Some m)" "Q m \<Longrightarrow> post (\<lambda>(r, m). Q m) (Some (r, m))"
  by simp_all

lemma quietQ:
  "quiet m x \<Longrightarrow> Q m \<Longrightarrow> post Q x" "quiet2 m x2 \<Longrightarrow> Q m \<Longrightarrow> post (\<lambda>(r, m). Q m) x2"
  unfolding quiet_def quiet2_def
  by (erule post_weaken, erule (1) other_Q, erule post_weaken, auto elim: other_Q)

lemma toQ:
  "post (P s) x \<Longrightarrow> post Q x" "post (\<lambda>(r, m). P s m) x2 \<Longrightarrow> post (\<lambda>(r, m). Q m) x2"
  using weaken by (auto simp: post_def)

lemma bindQ: "post Q x \<Longrightarrow> (\<And>y. Q y \<Longrightarrow> post R (f y)) \<Longrightarrow> post R (Option.bind x f)"
  by (rule post_bindI)

lemmas keeps = control send ack arm disarm touch timewait timeout destroy

lemma UpdateRetransmissionTimer_keeps: "P s m \<Longrightarrow> kp s (UpdateRetransmissionTimer s ts m)"
  unfolding UpdateRetransmissionTimer_def Let_def
  by (rule stepP bindP [where s = s] keeps someP | (simp add: vkey_def; fail))+

text \<open>A stream in the state CLOSED is destroyed once its RST is sent.\<close>

lemma SendControlPacket_keeps:
  assumes "P s m"
  shows "post (\<lambda>(r, m'). Q m' \<and> (r < 0 \<longrightarrow> P s m')) (SendControlPacket cfg s ts m)"
proof -
  have *: "post (\<lambda>(r, m'). Q m' \<and> (r < 0 \<longrightarrow> P s m')) x" if "kp2 s x" for x
    using that weaken by (auto simp: post_def)
  have rst: "post (\<lambda>(r, m'). Q m' \<and> (r < 0 \<longrightarrow> P s m'))
    (if ret \<ge> (0 :: int) then do { m \<leftarrow> DestroyTCPStream cfg s m1; Some (ret, m) } else Some (ret, m1))"
    if "P s m1" for ret m1
  proof (cases "ret \<ge> 0")
    case True
    then show ?thesis by (simp, intro post_bindI [OF destroy [OF that]]) simp
  qed (use that weaken in simp)
  show ?thesis
    unfolding SendControlPacket_def Let_def using assms
    by (cases "s_state (m_streams m s)"; simp only: tcp_state.case)
      (rule * rst SendTCPPacket_keeps someP someQ post_if bindP(2) [where s = s] | assumption
        | (simp add: skey_def flow_key_def; fail))+
qed

lemma lose_stream_keeps: "P s m \<Longrightarrow> post Q (lose_stream cfg s reason m)"
  unfolding lose_stream_def Let_def
  by (rule stepP keeps quietQ(1) [OF Raise_quiet(4) [OF refl]] weaken [where s = s] | (simp add: skey_def flow_key_def; fail))+

lemma queue_retransmission_keeps: "P s m \<Longrightarrow> kp s (queue_retransmission cfg s m)"
  unfolding queue_retransmission_def Let_def
  by (rule stepP bindP [where s = s] keeps someP someQ | (simp add: skey_def flow_key_def; fail))+

lemma HandleRTO_keeps:
  assumes "P s m" shows "kq2 (HandleRTO cfg ts s m)"
proof -
  define m1 where "m1 = (let m = upd_snd s (\<lambda>v. v\<lparr>nrtx := nrtx v + 1\<rparr>) m;
            m = (if nrtx (sndvar (m_streams m s)) > max_nrtx (sndvar (m_streams m s))
                 then upd_snd s (\<lambda>v. v\<lparr>max_nrtx := nrtx v\<rparr>) m else m);
            m = upd_stream s (\<lambda>x. x\<lparr>sndvar := (sndvar x)\<lparr>rto := rto_backoff x\<rparr>\<rparr>) m
        in upd_snd s loss_window m)"
  have m1: "P s m1" using assms by (simp add: m1_def Let_def loss_window_def skeys)
  have "kq2 (Some (- 1 :: int, m1))" using m1 weaken by simp
  with assms m1 show ?thesis
    unfolding HandleRTO_def Let_def m1_def [unfolded Let_def, symmetric]
    by - (assumption | rule stepP keeps lose_stream_keeps someP someQ weaken [where s = s]
          bindP(1) [OF queue_retransmission_keeps] bindQ | (simp add: skeys; fail))+
qed

lemma parse_options_keeps: "P s m \<Longrightarrow> kp s (parse_options s ts h seg m)"
  unfolding parse_options_def by (rule post_bind_any someP someQ | simp add: ParseTCPOptions_skey)+

lemma HandleActiveOpen_keeps: "P s m \<Longrightarrow> kp s (HandleActiveOpen s ts h seg seq ack wnd m)"
  unfolding HandleActiveOpen_def Let_def
  by (rule bindP [where s = s] parse_options_keeps UpdateRetransmissionTimer_keeps | (simp add: skeys; fail))+

lemma paws_check_keeps: "P s m \<Longrightarrow> kp2 s (paws_check cfg s ts h seg m)"
  unfolding paws_check_def Let_def
  by (rule stepP bindP [where s = s] EnqueueACK_keeps someP someQ | rule post_bind_any | (simp; fail))+

lemma ValidateSequence_keeps: "P s m \<Longrightarrow> kp2 s (ValidateSequence cfg s ts h seg seq len m)"
  unfolding ValidateSequence_def Let_def
  by (rule stepP bindP [where s = s] paws_check_keeps EnqueueACK_keeps keeps someP someQ | (simp; fail))+

lemma ProcessRST_keeps:
  "P s m \<Longrightarrow> post (\<lambda>(r, m'). Q m' \<and> (\<not> r \<longrightarrow> P s m')) (ProcessRST cfg s ack m)"
  unfolding ProcessRST_def Let_def
  by (assumption | rule stepP bindQ keeps quietQ(1) [OF Raise_quiet(3) [OF refl]] weaken [where s = s]
      | (simp add: skeys weaken; fail))+

lemma ack_window_keeps: "P s m \<Longrightarrow> kp s (ack_window s seq ack cw m)"
  unfolding ack_window_def Let_def by (rule stepP quiets someP someQ | (simp add: skeys; fail))+

lemma ack_dup_keeps: "ack_dup s ack re len m = (d, m') \<Longrightarrow> P s m \<Longrightarrow> P s m'"
  by (auto simp: ack_dup_def Let_def split: if_splits)

lemma ack_loss_keeps: "P s m \<Longrightarrow> kp s (ack_loss cfg s ack dup m)"
  unfolding ack_loss_def Let_def
  by (rule stepP keeps someP someQ | (simp add: skeys; fail))+

lemma ack_recover_keeps: "P s m \<Longrightarrow> kp s (ack_recover cfg s ack m)"
  unfolding ack_recover_def Let_def by (rule stepP keeps someP someQ | (simp add: skeys; fail))+

lemma ack_new_keeps: "P s m \<Longrightarrow> kp s (ack_new s ts ack len m)"
  unfolding ack_new_def Let_def
  by (rule stepP bindP [where s = s] UpdateRetransmissionTimer_keeps quiets someP someQ | rule post_bind_any
      | (simp add: skeys EstimateRTT_skey [unfolded skeys]; fail) | (simp add: ack_cwnd_vkey; fail))+

lemma ProcessACK_keeps: "P s m \<Longrightarrow> kp s (ProcessACK cfg s ts h seq ack wnd len m)"
  unfolding ProcessACK_def Let_def
  by (rule stepP bindP [where s = s] ack_window_keeps ack_loss_keeps ack_recover_keeps ack_new_keeps someP someQ
      | rule post_bind_any | assumption | erule (1) ack_dup_keeps)+

lemma core_keeps [simp]: "P s m \<Longrightarrow> P s (m\<lparr>env_alloc_n := c\<rparr>)" "P s m \<Longrightarrow> P s (m\<lparr>m_rbm_rcv := a\<rparr>)" "P s m \<Longrightarrow> P s (m\<lparr>m_listeners := b\<rparr>)"
  by (auto intro: other)

lemma ProcessTCPPayload_keeps: "P s m \<Longrightarrow> kp2 s (ProcessTCPPayload s pl seq len m)"
  unfolding ProcessTCPPayload_def Let_def next_alloc_def prod.case
  by (rule stepP bindP [where s = s] quiets someP someQ | rule post_bind_any | assumption
      | (simp add: skeys; fail))+

lemma payload_ack_keeps: "P s m \<Longrightarrow> kp s (payload_ack cfg s pl seq len m)"
  unfolding payload_ack_def
  by (rule stepP bindP [where s = s] ProcessTCPPayload_keeps EnqueueACK_keeps someP someQ | assumption)+

lemma process_ack_if_keeps: "P s m \<Longrightarrow> kp s (process_ack_if cfg s ts h seq ack wnd len m)"
  unfolding process_ack_if_def by (rule stepP ProcessACK_keeps someP someQ | assumption)+

lemma Handle_LISTEN_keeps: "P s m \<Longrightarrow> kp s (Handle_TCP_ST_LISTEN cfg s h m)"
  unfolding Handle_TCP_ST_LISTEN_def Let_def by (rule stepP keeps someP someQ | (simp add: skeys; fail))+

lemma Handle_SYN_RCVD_keeps: "P s m \<Longrightarrow> kp s (Handle_TCP_ST_SYN_RCVD cfg s h ack m)"
  unfolding Handle_TCP_ST_SYN_RCVD_def Let_def
  by (rule stepP bindP [where s = s] keeps quiets someP someQ | rule post_bind_any | assumption | (simp add: skeys; fail))+

lemma Handle_ESTABLISHED_keeps: "P s m \<Longrightarrow> kp s (Handle_TCP_ST_ESTABLISHED cfg ts s h seq ack pl len wnd m)"
  unfolding Handle_TCP_ST_ESTABLISHED_def Let_def
  by (rule stepP bindP [where s = s] keeps quiets payload_ack_keeps process_ack_if_keeps EnqueueACK_keeps someP someQ
      | assumption | (simp add: skeys; fail))+

lemma Handle_CLOSE_WAIT_keeps: "P s m \<Longrightarrow> kp s (Handle_TCP_ST_CLOSE_WAIT cfg ts s h seq ack len wnd m)"
  unfolding Handle_TCP_ST_CLOSE_WAIT_def by (rule stepP keeps process_ack_if_keeps | assumption)+

lemma Handle_FIN_WAIT_1_keeps: "P s m \<Longrightarrow> kp s (Handle_TCP_ST_FIN_WAIT_1 cfg ts s h seq ack pl len wnd m)"
  unfolding Handle_TCP_ST_FIN_WAIT_1_def Let_def
  by (rule stepP bindP [where s = s] keeps payload_ack_keeps process_ack_if_keeps someP someQ
      | assumption | (simp add: skeys; fail))+

lemma Handle_FIN_WAIT_2_keeps: "P s m \<Longrightarrow> kp s (Handle_TCP_ST_FIN_WAIT_2 cfg ts s h seq ack pl len wnd m)"
  unfolding Handle_TCP_ST_FIN_WAIT_2_def Let_def
  by (rule stepP bindP [where s = s] keeps payload_ack_keeps process_ack_if_keeps someP someQ
      | assumption | (simp add: skeys; fail))+

lemma Handle_CLOSING_keeps: "P s m \<Longrightarrow> kp s (Handle_TCP_ST_CLOSING cfg ts s h seq ack len wnd m)"
  unfolding Handle_TCP_ST_CLOSING_def Let_def
  by (rule stepP bindP [where s = s] keeps UpdateRetransmissionTimer_keeps process_ack_if_keeps someP someQ
      | assumption | (simp add: skeys; fail))+

lemma Handle_LAST_ACK_keeps: "P s m \<Longrightarrow> post Q (Handle_TCP_ST_LAST_ACK cfg ts s h seq ack len wnd m)"
  unfolding Handle_TCP_ST_LAST_ACK_def Let_def
  by (rule stepP bindP [where s = s] toQ(1) [OF control(1)] destroy UpdateRetransmissionTimer_keeps
        process_ack_if_keeps someP someQ | assumption | (simp add: skeys; fail) | erule weaken)+

lemma Handle_SYN_SENT_keeps:
  "P s m \<Longrightarrow> post Q (Handle_TCP_ST_SYN_SENT cfg ts s sa da h seg seq ack len wnd m)"
  unfolding Handle_TCP_ST_SYN_SENT_def Let_def
  by (rule stepP bindP [where s = s] toQ(1) [OF control(1)] toQ(1) [OF timeout(1)] destroy HandleActiveOpen_keeps
        quietQ(1) [OF Raise_quiet(4) [OF refl]] quietQ(1) [OF send_rst_quiet [OF refl]] keeps quiets someP someQ weaken [where s = s]
      | assumption | (simp add: skeys; fail))+

lemmas handlers = toQ(1) [OF Handle_LISTEN_keeps] toQ(1) [OF Handle_ESTABLISHED_keeps] toQ(1) [OF Handle_CLOSE_WAIT_keeps]
  toQ(1) [OF Handle_FIN_WAIT_1_keeps] toQ(1) [OF Handle_FIN_WAIT_2_keeps] toQ(1) [OF Handle_CLOSING_keeps]
  Handle_LAST_ACK_keeps Handle_SYN_SENT_keeps

lemma dispatch_state_keeps: "P s m \<Longrightarrow> post Q (dispatch_state cfg ts s sa da h seg len m)"
  unfolding dispatch_state_def Let_def
  by (cases "s_state (m_streams m s)"; simp only: tcp_state.case)
    (rule handlers stepP bindP(1) [OF Handle_SYN_RCVD_keeps] bindP(1) [where s = s] toQ(1) [OF control(1)] keeps someP someQ
      | assumption | erule weaken)+

lemma process_on_stream_keeps:
  assumes "P s m" shows "post Q (process_on_stream cfg ts s sa da h seg len m)"
proof -
  have rst: "post (\<lambda>(r, m'). Q m' \<and> (\<not> r \<longrightarrow> P s m')) (if th_rst h then
       if s_state (m_streams (upd_stream s (\<lambda>x. x\<lparr>have_reset := True\<rparr>) m1) s) > TCP_ST_SYN_SENT
       then ProcessRST cfg s (th_ack_seq h) (upd_stream s (\<lambda>x. x\<lparr>have_reset := True\<rparr>) m1)
       else Some (False, upd_stream s (\<lambda>x. x\<lparr>have_reset := True\<rparr>) m1)
     else Some (False, m1))" if "P s m1" for m1
  proof -
    have "post (\<lambda>(r, m'). Q m' \<and> (\<not> r \<longrightarrow> P s m')) (Some (False, m2))" if "P s m2" for m2
      using that weaken by simp
    note some = this
    show ?thesis using that by - (rule stepP ProcessRST_keeps some | (simp add: skeys; fail))+
  qed
  show ?thesis
    unfolding process_on_stream_def Let_def using assms
    by - (rule stepP bindP [where s = s] ValidateSequence_keeps keeps someP someQ dispatch_state_keeps post_bind2 [OF rst]
      | rule post_bind_any | assumption | erule weaken | (elim conjE, simp; fail) | (simp add: skeys; fail))+
qed

section \<open>Calls of the application\<close>

lemma start_close_keeps: "P s m \<Longrightarrow> P s (start_close s m)"
  by (simp add: start_close_def skeys)

lemma reset_destroy_keeps: "P s m \<Longrightarrow> post Q (reset_destroy cfg s m)"
  unfolding reset_destroy_def by (rule stepP keeps someP someQ | (simp add: skeys; fail) | erule weaken)+

lemma queues_keeps [simp]:
  "P s m \<Longrightarrow> P s (m\<lparr>m_closeq_int := a\<rparr>)" "P s m \<Longrightarrow> P s (m\<lparr>m_resetq_int := b\<rparr>)"
  by (auto intro: other)

lemma handle_close_keeps: "P s m \<Longrightarrow> post Q (handle_close cfg s m)"
  unfolding handle_close_def Let_def
  by (rule stepP bindP [where s = s] reset_destroy_keeps toQ(1) [OF control(1)] keeps someP someQ weaken [where s = s]
      start_close_keeps | rule post_bind_any | assumption | (simp add: skeys start_close_keeps split: option.split; fail))+

lemma abort_stream_keeps: "P s m \<Longrightarrow> kp s (abort_stream cfg s m)"
  unfolding abort_stream_def by (rule stepP keeps someP someQ | (simp add: skeys; fail))+

lemma handle_reset_keeps: "P s m \<Longrightarrow> post Q (handle_reset cfg s m)"
  unfolding handle_reset_def Let_def
  by (rule stepP bindP [where s = s] reset_destroy_keeps toQ(1) [OF abort_stream_keeps] keeps someP someQ weaken [where s = s]
      | rule post_bind_any | assumption | (simp add: skeys; fail))+

end

end
