(* ===== verification/Engine_Inv.thy ===== *)
theory Engine_Inv
  imports Engine_Frame
begin

text \<open>
  The invariant of the stack: the flow table, the pools, the lists of the senders and the timer lists
  are consistent with each other and with the flags of the streams. The operations on the lists and
  the destruction of a stream keep it, so that it is an instance of \<open>stream_step\<close>: all handlers of one
  stream keep it.
\<close>

section \<open>Lists with a counter\<close>

definition list_ok :: "nat list \<Rightarrow> int \<Rightarrow> nat set \<Rightarrow> bool" where
  "list_ok q n A \<longleftrightarrow> distinct q \<and> n = int (length q) \<and> set q = A"

lemma list_ok_insert: "list_ok q n A \<Longrightarrow> s \<notin> A \<Longrightarrow> list_ok (q @ [s]) (n + 1) (insert s A)"
  and list_ok_insert_head: "list_ok q n A \<Longrightarrow> s \<notin> A \<Longrightarrow> list_ok (s # q) (n + 1) (insert s A)"
  and list_ok_remove: "list_ok q n A \<Longrightarrow> s \<in> A \<Longrightarrow> list_ok (remove1 s q) (n - 1) (A - {s})"
  and list_ok_rotate: "list_ok q n A \<Longrightarrow> s \<in> A \<Longrightarrow> list_ok (remove1 s q @ [s]) n A"
  using int_length_remove1 [of s q] by (auto simp: list_ok_def simp del: length_remove1)

lemma list_ok_set: "list_ok q n A \<Longrightarrow> set q = A"
  by (simp add: list_ok_def)

section \<open>The invariant\<close>

text \<open>The streams in use are those in the flow table.\<close>

definition live :: "mtcp_manager \<Rightarrow> nat set" where
  "live m = {s. \<exists>b. s \<in> set (m_flow_table m b)}"

definition table_inv :: "mtcp_manager \<Rightarrow> bool" where
  "table_inv m \<longleftrightarrow> (\<exists>M. ht_repr (m_flow_table m) (m_streams m) M) \<and> finite (live m)
     \<and> m_flow_cnt m = of_nat (card (live m)) \<and> (\<forall>s \<in> live m. on_hash_table (m_streams m s))"

text \<open>Each stream in use owns one chunk of every pool, and the pools hand out nothing else.\<close>

definition pools_inv :: "mtcp_manager \<Rightarrow> bool" where
  "pools_inv m \<longleftrightarrow> pool.owns (m_flow_pool m) (live m)
     \<and> inj_on (\<lambda>s. rv_chunk (m_streams m s)) (live m) \<and> pool.owns (m_rv_pool m) ((\<lambda>s. rv_chunk (m_streams m s)) ` live m)
     \<and> inj_on (\<lambda>s. sv_chunk (m_streams m s)) (live m) \<and> pool.owns (m_sv_pool m) ((\<lambda>s. sv_chunk (m_streams m s)) ` live m)"

definition routes_inv :: "mtcp_config \<Rightarrow> mtcp_manager \<Rightarrow> bool" where
  "routes_inv cfg m \<longleftrightarrow> (\<forall>s \<in> live m. nif_out (sndvar (m_streams m s)) = fst (GetOutputInterface cfg (s_daddr (m_streams m s))))"

text \<open>Each list of a sender holds the streams whose flag is set and which go out through it.\<close>

definition control_inv :: "mtcp_config \<Rightarrow> mtcp_manager \<Rightarrow> bool" where
  "control_inv cfg m \<longleftrightarrow> (\<forall>k. list_ok (control_list (m_senders m k)) (control_list_cnt (m_senders m k))
     {s \<in> live m. on_control_list (sndvar (m_streams m s)) \<and> sender_of cfg s m = Some k})"

definition send_inv :: "mtcp_config \<Rightarrow> mtcp_manager \<Rightarrow> bool" where
  "send_inv cfg m \<longleftrightarrow> (\<forall>k. list_ok (send_list (m_senders m k)) (send_list_cnt (m_senders m k))
     {s \<in> live m. on_send_list (sndvar (m_streams m s)) \<and> sender_of cfg s m = Some k})"

definition ack_inv :: "mtcp_config \<Rightarrow> mtcp_manager \<Rightarrow> bool" where
  "ack_inv cfg m \<longleftrightarrow> (\<forall>k. list_ok (ack_list (m_senders m k)) (ack_list_cnt (m_senders m k))
     {s \<in> live m. on_ack_list (sndvar (m_streams m s)) \<and> sender_of cfg s m = Some k})"

definition timewait_inv :: "mtcp_manager \<Rightarrow> bool" where
  "timewait_inv m \<longleftrightarrow> list_ok (m_timewait_list m) (m_timewait_list_cnt m) {s \<in> live m. on_timewait_list (m_streams m s)}"

definition timeout_inv :: "mtcp_config \<Rightarrow> mtcp_manager \<Rightarrow> bool" where
  "timeout_inv cfg m \<longleftrightarrow> list_ok (m_timeout_list m) (m_timeout_list_cnt m) {s \<in> live m. on_timeout_list (m_streams m s)}
     \<and> (c_tcp_timeout cfg > 0 \<or> m_timeout_list m = [])"

text \<open>The retransmission store has the lists 0 to 2999 of the next ticks and the list 3000 of the rest.
  A stream that waits there is not in the timewait list, which uses the same link.\<close>

definition rto_inv :: "mtcp_manager \<Rightarrow> bool" where
  "rto_inv m \<longleftrightarrow> (\<forall>i. distinct (rto_list (m_rto_store m) i)
       \<and> set (rto_list (m_rto_store m) i) = {s \<in> live m. on_rto_idx (m_streams m s) = int i})
     \<and> (\<forall>s \<in> live m. on_rto_idx (m_streams m s) \<le> RTO_HASH)
     \<and> (\<forall>s \<in> live m. on_rto_idx (m_streams m s) \<ge> 0 \<longrightarrow> \<not> on_timewait_list (m_streams m s))
     \<and> m_rto_list_cnt m = int (card {s \<in> live m. on_rto_idx (m_streams m s) \<ge> 0})"

definition engine_inv :: "mtcp_config \<Rightarrow> mtcp_manager \<Rightarrow> bool" where
  "engine_inv cfg m \<longleftrightarrow> table_inv m \<and> pools_inv m \<and> routes_inv cfg m \<and> control_inv cfg m \<and> send_inv cfg m
     \<and> ack_inv cfg m \<and> timewait_inv m \<and> timeout_inv cfg m \<and> rto_inv m"

section \<open>What each part depends on\<close>

lemma live_cong: "m_flow_table m' = m_flow_table m \<Longrightarrow> live m' = live m"
  by (simp add: live_def)

lemma sender_of_cong:
  "nif_out (sndvar (m_streams m' s)) = nif_out (sndvar (m_streams m s)) \<Longrightarrow> sender_of cfg s m' = sender_of cfg s m"
  by (simp add: sender_of_def GetSender_def)

lemma table_inv_cong:
  assumes "m_flow_table m' = m_flow_table m" "m_flow_cnt m' = m_flow_cnt m"
    and "\<And>x. flow_key (m_streams m' x) = flow_key (m_streams m x)"
    and "\<And>x. x \<in> live m \<Longrightarrow> on_hash_table (m_streams m' x) = on_hash_table (m_streams m x)"
  shows "table_inv m' = table_inv m"
  using assms by (simp add: table_inv_def live_cong [OF assms(1)] ht_repr_def)

lemma pools_inv_cong:
  assumes "m_flow_table m' = m_flow_table m" "m_flow_pool m' = m_flow_pool m" "m_rv_pool m' = m_rv_pool m"
    "m_sv_pool m' = m_sv_pool m"
    and "\<And>x. rv_chunk (m_streams m' x) = rv_chunk (m_streams m x)"
    and "\<And>x. sv_chunk (m_streams m' x) = sv_chunk (m_streams m x)"
  shows "pools_inv m' = pools_inv m"
  using assms by (simp add: pools_inv_def live_cong [OF assms(1)])

lemma routes_inv_cong:
  assumes "m_flow_table m' = m_flow_table m"
    and "\<And>x. nif_out (sndvar (m_streams m' x)) = nif_out (sndvar (m_streams m x))"
    and "\<And>x. s_daddr (m_streams m' x) = s_daddr (m_streams m x)"
  shows "routes_inv cfg m' = routes_inv cfg m"
  using assms by (simp add: routes_inv_def live_cong [OF assms(1)])

lemma control_inv_cong:
  assumes "m_flow_table m' = m_flow_table m"
    and "\<And>x. nif_out (sndvar (m_streams m' x)) = nif_out (sndvar (m_streams m x))"
    and "\<And>x. on_control_list (sndvar (m_streams m' x)) = on_control_list (sndvar (m_streams m x))"
    and "\<And>k. control_list (m_senders m' k) = control_list (m_senders m k)"
    and "\<And>k. control_list_cnt (m_senders m' k) = control_list_cnt (m_senders m k)"
  shows "control_inv cfg m' = control_inv cfg m"
  using assms by (simp add: control_inv_def live_cong [OF assms(1)] sender_of_cong [OF assms(2)])

lemma send_inv_cong:
  assumes "m_flow_table m' = m_flow_table m"
    and "\<And>x. nif_out (sndvar (m_streams m' x)) = nif_out (sndvar (m_streams m x))"
    and "\<And>x. on_send_list (sndvar (m_streams m' x)) = on_send_list (sndvar (m_streams m x))"
    and "\<And>k. send_list (m_senders m' k) = send_list (m_senders m k)"
    and "\<And>k. send_list_cnt (m_senders m' k) = send_list_cnt (m_senders m k)"
  shows "send_inv cfg m' = send_inv cfg m"
  using assms by (simp add: send_inv_def live_cong [OF assms(1)] sender_of_cong [OF assms(2)])

lemma ack_inv_cong:
  assumes "m_flow_table m' = m_flow_table m"
    and "\<And>x. nif_out (sndvar (m_streams m' x)) = nif_out (sndvar (m_streams m x))"
    and "\<And>x. on_ack_list (sndvar (m_streams m' x)) = on_ack_list (sndvar (m_streams m x))"
    and "\<And>k. ack_list (m_senders m' k) = ack_list (m_senders m k)"
    and "\<And>k. ack_list_cnt (m_senders m' k) = ack_list_cnt (m_senders m k)"
  shows "ack_inv cfg m' = ack_inv cfg m"
  using assms by (simp add: ack_inv_def live_cong [OF assms(1)] sender_of_cong [OF assms(2)])

lemma timewait_inv_cong:
  assumes "m_flow_table m' = m_flow_table m" "m_timewait_list m' = m_timewait_list m"
    "m_timewait_list_cnt m' = m_timewait_list_cnt m"
    and "\<And>x. on_timewait_list (m_streams m' x) = on_timewait_list (m_streams m x)"
  shows "timewait_inv m' = timewait_inv m"
  using assms by (simp add: timewait_inv_def live_cong [OF assms(1)])

lemma timeout_inv_cong:
  assumes "m_flow_table m' = m_flow_table m" "m_timeout_list m' = m_timeout_list m"
    "m_timeout_list_cnt m' = m_timeout_list_cnt m"
    and "\<And>x. on_timeout_list (m_streams m' x) = on_timeout_list (m_streams m x)"
  shows "timeout_inv cfg m' = timeout_inv cfg m"
  using assms by (simp add: timeout_inv_def live_cong [OF assms(1)])

lemma rto_inv_cong:
  assumes "m_flow_table m' = m_flow_table m" "rto_list (m_rto_store m') = rto_list (m_rto_store m)"
    "m_rto_list_cnt m' = m_rto_list_cnt m"
    and "\<And>x. on_rto_idx (m_streams m' x) = on_rto_idx (m_streams m x)"
    and "\<And>x. on_timewait_list (m_streams m' x) = on_timewait_list (m_streams m x)"
  shows "rto_inv m' = rto_inv m"
  using assms by (simp add: rto_inv_def live_cong [OF assms(1)])

lemmas inv_congs = table_inv_cong pools_inv_cong routes_inv_cong control_inv_cong send_inv_cong ack_inv_cong
  timewait_inv_cong timeout_inv_cong rto_inv_cong

lemma engine_inv_cong:
  assumes "\<And>x. skey (m_streams m' x) = skey (m_streams m x)" and "snd (core m') = snd (core m)"
  shows "engine_inv cfg m' = engine_inv cfg m"
  unfolding engine_inv_def
  by (subst inv_congs [of m' m]; use assms in \<open>simp add: skeys core_def\<close>)+

section \<open>The lists of the senders\<close>

lemma upd_stream_streams: "m_streams (upd_stream s f m) = (m_streams m)(s := f (m_streams m s))"
  by (simp add: upd_stream_def)

lemma live_upd [simp]: "live (upd_stream s f m) = live m" "live (upd_snd s g m) = live m" "live (upd_rcv s h m) = live m"
  "live (upd_sender k i m) = live m" "live (upd_rto j m) = live m"
  by (simp_all add: live_def upd_defs)

abbreviation live_inv :: "mtcp_config \<Rightarrow> nat \<Rightarrow> mtcp_manager \<Rightarrow> bool" where
  "live_inv cfg s m \<equiv> engine_inv cfg m \<and> s \<in> live m"

lemma senders_insert:
  assumes "\<And>k. list_ok (L k) (N k) {x \<in> A. F x \<and> S x = Some k}" and "s \<in> A" "\<not> F s" "S s = Some k"
    and "\<And>j. L' j = (if j = k then L j @ [s] else L j)" "\<And>j. N' j = (if j = k then N j + 1 else N j)"
    and "\<And>x. F' x = (x = s \<or> F x)"
  shows "list_ok (L' j) (N' j) {x \<in> A. F' x \<and> S x = Some j}"
proof (cases "j = k")
  case True
  have "{x \<in> A. F' x \<and> S x = Some j} = insert s {x \<in> A. F x \<and> S x = Some k}"
    using assms(2-4,7) True by auto
  moreover have "list_ok (L k @ [s]) (N k + 1) (insert s {x \<in> A. F x \<and> S x = Some k})"
    by (rule list_ok_insert [OF assms(1)]) (use assms(3) in simp)
  ultimately show ?thesis using True assms(5,6) [of k] by (simp only: if_True refl)
next
  case False
  then have "{x \<in> A. F' x \<and> S x = Some j} = {x \<in> A. F x \<and> S x = Some j}" using assms(4,7) by auto
  then show ?thesis using assms(1) [of j] assms(5,6) False by simp
qed

lemma senders_remove:
  assumes "\<And>k. list_ok (L k) (N k) {x \<in> A. F x \<and> S x = Some k}" and "s \<in> A" "F s" "S s = Some k"
    and "\<And>j. L' j = (if j = k then remove1 s (L j) else L j)" "\<And>j. N' j = (if j = k then N j - 1 else N j)"
    and "\<And>x. F' x = (x \<noteq> s \<and> F x)"
  shows "list_ok (L' j) (N' j) {x \<in> A. F' x \<and> S x = Some j}"
proof (cases "j = k")
  case True
  have "{x \<in> A. F' x \<and> S x = Some j} = {x \<in> A. F x \<and> S x = Some k} - {s}"
    using assms(2-4,7) True by auto
  moreover have "list_ok (remove1 s (L k)) (N k - 1) ({x \<in> A. F x \<and> S x = Some k} - {s})"
    by (rule list_ok_remove [OF assms(1)]) (use assms(2-4) in simp)
  ultimately show ?thesis using True assms(5,6) [of k] by (simp only: if_True refl)
next
  case False
  then have "{x \<in> A. F' x \<and> S x = Some j} = {x \<in> A. F x \<and> S x = Some j}"
    using assms(4) by (intro Collect_cong) (simp add: assms(7), metis option.inject)
  then show ?thesis using assms(1) [of j] assms(5,6) False by simp
qed

lemmas inv_frames = inv_congs [THEN iffD2]

text \<open>The state after an insertion into or a removal from the list of one kind.\<close>

lemma control_list_step:
  assumes inv: "live_inv cfg s m" and k: "sender_of cfg s m = Some k"
    and m': "m' = upd_sender k (\<lambda>sd. sd\<lparr>control_list := q, control_list_cnt := n\<rparr>) (upd_snd s (\<lambda>v. v\<lparr>on_control_list := b\<rparr>) m)"
    and q: "\<not> on_control_list (sndvar (m_streams m s)) \<and> b \<and> q = control_list (m_senders m k) @ [s]
        \<and> n = control_list_cnt (m_senders m k) + 1
      \<or> on_control_list (sndvar (m_streams m s)) \<and> \<not> b \<and> q = remove1 s (control_list (m_senders m k))
        \<and> n = control_list_cnt (m_senders m k) - 1"
  shows "live_inv cfg s m'"
proof -
  have inv1: "list_ok (control_list (m_senders m j)) (control_list_cnt (m_senders m j))
     {x \<in> live m. on_control_list (sndvar (m_streams m x)) \<and> sender_of cfg x m = Some j}" for j
    using inv by (simp add: engine_inv_def control_inv_def)
  have sender: "sender_of cfg x m' = sender_of cfg x m" for x by (rule sender_of_cong) (simp add: m' upd_defs)
  have l: "live m' = live m" by (simp add: m')
  from q have "control_inv cfg m'"
    unfolding control_inv_def sender l
  proof (elim disjE conjE, goal_cases)
    case 1
    with k inv show ?case by (intro allI senders_insert [where s = s and k = k, OF inv1]) (simp_all add: m' upd_defs)
  next
    case 2
    with k inv show ?case by (intro allI senders_remove [where s = s and k = k, OF inv1]) (simp_all add: m' upd_defs)
  qed
  moreover have "table_inv m' \<and> pools_inv m' \<and> routes_inv cfg m' \<and> send_inv cfg m' \<and> ack_inv cfg m' \<and> timewait_inv m'
      \<and> timeout_inv cfg m' \<and> rto_inv m'"
    by (intro conjI inv_frames [of m' m]) (use inv in \<open>simp_all add: engine_inv_def m' upd_defs flow_key_def\<close>)
  ultimately show ?thesis using inv by (simp add: engine_inv_def m')
qed

lemma send_list_step:
  assumes inv: "live_inv cfg s m" and k: "sender_of cfg s m = Some k"
    and m': "m' = upd_sender k (\<lambda>sd. sd\<lparr>send_list := q, send_list_cnt := n\<rparr>) (upd_snd s (\<lambda>v. v\<lparr>on_send_list := b\<rparr>) m)"
    and q: "\<not> on_send_list (sndvar (m_streams m s)) \<and> b \<and> q = send_list (m_senders m k) @ [s]
        \<and> n = send_list_cnt (m_senders m k) + 1
      \<or> on_send_list (sndvar (m_streams m s)) \<and> \<not> b \<and> q = remove1 s (send_list (m_senders m k))
        \<and> n = send_list_cnt (m_senders m k) - 1"
  shows "live_inv cfg s m'"
proof -
  have inv1: "list_ok (send_list (m_senders m j)) (send_list_cnt (m_senders m j))
     {x \<in> live m. on_send_list (sndvar (m_streams m x)) \<and> sender_of cfg x m = Some j}" for j
    using inv by (simp add: engine_inv_def send_inv_def)
  have sender: "sender_of cfg x m' = sender_of cfg x m" for x by (rule sender_of_cong) (simp add: m' upd_defs)
  have l: "live m' = live m" by (simp add: m')
  from q have "send_inv cfg m'"
    unfolding send_inv_def sender l
  proof (elim disjE conjE, goal_cases)
    case 1
    with k inv show ?case by (intro allI senders_insert [where s = s and k = k, OF inv1]) (simp_all add: m' upd_defs)
  next
    case 2
    with k inv show ?case by (intro allI senders_remove [where s = s and k = k, OF inv1]) (simp_all add: m' upd_defs)
  qed
  moreover have "table_inv m' \<and> pools_inv m' \<and> routes_inv cfg m' \<and> control_inv cfg m' \<and> ack_inv cfg m' \<and> timewait_inv m' \<and> timeout_inv cfg m' \<and> rto_inv m'"
    by (intro conjI inv_frames [of m' m]) (use inv in \<open>simp_all add: engine_inv_def m' upd_defs flow_key_def\<close>)
  ultimately show ?thesis using inv by (simp add: engine_inv_def m')
qed

lemma ack_list_step:
  assumes inv: "live_inv cfg s m" and k: "sender_of cfg s m = Some k"
    and m': "m' = upd_sender k (\<lambda>sd. sd\<lparr>ack_list := q, ack_list_cnt := n\<rparr>) (upd_snd s (\<lambda>v. v\<lparr>on_ack_list := b\<rparr>) m)"
    and q: "\<not> on_ack_list (sndvar (m_streams m s)) \<and> b \<and> q = ack_list (m_senders m k) @ [s]
        \<and> n = ack_list_cnt (m_senders m k) + 1
      \<or> on_ack_list (sndvar (m_streams m s)) \<and> \<not> b \<and> q = remove1 s (ack_list (m_senders m k))
        \<and> n = ack_list_cnt (m_senders m k) - 1"
  shows "live_inv cfg s m'"
proof -
  have inv1: "list_ok (ack_list (m_senders m j)) (ack_list_cnt (m_senders m j))
     {x \<in> live m. on_ack_list (sndvar (m_streams m x)) \<and> sender_of cfg x m = Some j}" for j
    using inv by (simp add: engine_inv_def ack_inv_def)
  have sender: "sender_of cfg x m' = sender_of cfg x m" for x by (rule sender_of_cong) (simp add: m' upd_defs)
  have l: "live m' = live m" by (simp add: m')
  from q have "ack_inv cfg m'"
    unfolding ack_inv_def sender l
  proof (elim disjE conjE, goal_cases)
    case 1
    with k inv show ?case by (intro allI senders_insert [where s = s and k = k, OF inv1]) (simp_all add: m' upd_defs)
  next
    case 2
    with k inv show ?case by (intro allI senders_remove [where s = s and k = k, OF inv1]) (simp_all add: m' upd_defs)
  qed
  moreover have "table_inv m' \<and> pools_inv m' \<and> routes_inv cfg m' \<and> control_inv cfg m' \<and> send_inv cfg m' \<and> timewait_inv m' \<and> timeout_inv cfg m' \<and> rto_inv m'"
    by (intro conjI inv_frames [of m' m]) (use inv in \<open>simp_all add: engine_inv_def m' upd_defs flow_key_def\<close>)
  ultimately show ?thesis using inv by (simp add: engine_inv_def m')
qed

lemma AddtoControlList_inv:
  assumes "live_inv cfg s m" shows "post (live_inv cfg s) (AddtoControlList cfg s m)"
proof (rule postI)
  fix m' assume "AddtoControlList cfg s m = Some m'"
  then show "live_inv cfg s m'"
    using assms control_list_step [OF assms, where m' = m' and b = True]
    by (auto simp: AddtoControlList_def Option.bind_eq_Some_conv tailq_insert_tail_Some upd_defs split: if_splits)
qed

lemma RemoveFromControlList_inv:
  assumes "live_inv cfg s m" shows "post (live_inv cfg s) (RemoveFromControlList cfg s m)"
proof (rule postI)
  fix m' assume "RemoveFromControlList cfg s m = Some m'"
  then show "live_inv cfg s m'"
    using assms control_list_step [OF assms, where m' = m' and b = False]
    by (auto simp: RemoveFromControlList_def Option.bind_eq_Some_conv tailq_remove_Some upd_defs split: if_splits)
qed

lemma AddtoSendList_inv:
  assumes "live_inv cfg s m" shows "post (live_inv cfg s) (AddtoSendList cfg s m)"
proof (rule postI)
  fix m' assume "AddtoSendList cfg s m = Some m'"
  then show "live_inv cfg s m'"
    using assms send_list_step [OF assms, where m' = m' and b = True]
    by (auto simp: AddtoSendList_def Option.bind_eq_Some_conv tailq_insert_tail_Some upd_defs split: if_splits)
qed

lemma RemoveFromSendList_inv:
  assumes "live_inv cfg s m" shows "post (live_inv cfg s) (RemoveFromSendList cfg s m)"
proof (rule postI)
  fix m' assume "RemoveFromSendList cfg s m = Some m'"
  then show "live_inv cfg s m'"
    using assms send_list_step [OF assms, where m' = m' and b = False]
    by (auto simp: RemoveFromSendList_def Option.bind_eq_Some_conv tailq_remove_Some upd_defs split: if_splits)
qed

lemma AddtoACKList_inv:
  assumes "live_inv cfg s m" shows "post (live_inv cfg s) (AddtoACKList cfg s m)"
proof (rule postI)
  fix m' assume "AddtoACKList cfg s m = Some m'"
  then show "live_inv cfg s m'"
    using assms ack_list_step [OF assms, where m' = m' and b = True]
    by (auto simp: AddtoACKList_def Option.bind_eq_Some_conv tailq_insert_tail_Some upd_defs split: if_splits)
qed

lemma RemoveFromACKList_inv:
  assumes "live_inv cfg s m" shows "post (live_inv cfg s) (RemoveFromACKList cfg s m)"
proof (rule postI)
  fix m' assume "RemoveFromACKList cfg s m = Some m'"
  then show "live_inv cfg s m'"
    using assms ack_list_step [OF assms, where m' = m' and b = False]
    by (auto simp: RemoveFromACKList_def Option.bind_eq_Some_conv tailq_remove_Some upd_defs split: if_splits)
qed

section \<open>The timer lists\<close>

lemma engine_invD:
  assumes "engine_inv cfg m"
  shows "table_inv m" "pools_inv m" "routes_inv cfg m" "control_inv cfg m" "send_inv cfg m" "ack_inv cfg m"
    "timewait_inv m" "timeout_inv cfg m" "rto_inv m" "finite (live m)"
  using assms by (simp_all add: engine_inv_def table_inv_def)

lemma rto_inv_insert:
  assumes inv: "rto_inv m" "finite (live m)" and s: "s \<in> live m" "on_rto_idx (m_streams m s) < 0"
    "\<not> on_timewait_list (m_streams m s)" "int i \<le> RTO_HASH"
    and ft: "m_flow_table m' = m_flow_table m"
    and l: "\<And>j. rto_list (m_rto_store m') j = (if j = i then rto_list (m_rto_store m) j @ [s] else rto_list (m_rto_store m) j)"
    and n: "m_rto_list_cnt m' = m_rto_list_cnt m + 1"
    and x: "\<And>x. on_rto_idx (m_streams m' x) = (if x = s then int i else on_rto_idx (m_streams m x))"
    and tw: "\<And>x. on_timewait_list (m_streams m' x) = on_timewait_list (m_streams m x)"
  shows "rto_inv m'"
proof -
  have live: "live m' = live m" using ft by (rule live_cong)
  have "{y \<in> live m. on_rto_idx (m_streams m' y) \<ge> 0} = insert s {y \<in> live m. on_rto_idx (m_streams m y) \<ge> 0}"
    using s(1) by (auto simp: x)
  then have "card {y \<in> live m. on_rto_idx (m_streams m' y) \<ge> 0} = Suc (card {y \<in> live m. on_rto_idx (m_streams m y) \<ge> 0})"
    using inv(2) s(2) by (simp add: card_insert_if)
  then show ?thesis using inv(1) s n tw unfolding rto_inv_def live by (auto simp: l x)
qed

lemma rto_inv_remove:
  assumes inv: "rto_inv m" "finite (live m)" and s: "s \<in> live m" "on_rto_idx (m_streams m s) = int i"
    and ft: "m_flow_table m' = m_flow_table m"
    and l: "\<And>j. rto_list (m_rto_store m') j = (if j = i then remove1 s (rto_list (m_rto_store m) j) else rto_list (m_rto_store m) j)"
    and n: "m_rto_list_cnt m' = m_rto_list_cnt m - 1"
    and x: "\<And>x. on_rto_idx (m_streams m' x) = (if x = s then - 1 else on_rto_idx (m_streams m x))"
    and tw: "\<And>x. on_timewait_list (m_streams m' x) = on_timewait_list (m_streams m x)"
  shows "rto_inv m'"
proof -
  have live: "live m' = live m" using ft by (rule live_cong)
  let ?A = "{y \<in> live m. on_rto_idx (m_streams m y) \<ge> 0}"
  have "{y \<in> live m. on_rto_idx (m_streams m' y) \<ge> 0} = ?A - {s}" by (auto simp: x)
  moreover have "s \<in> ?A" "finite ?A" using s inv(2) by simp_all
  then have "card ?A = Suc (card (?A - {s}))" by (intro card.remove)
  ultimately show ?thesis using inv(1) s n tw unfolding rto_inv_def live by (auto simp: l x)
qed

lemma RemoveFromRTOList_inv:
  assumes "live_inv cfg s m" shows "post (live_inv cfg s) (RemoveFromRTOList s m)"
proof (rule postI)
  fix m' assume m': "RemoveFromRTOList s m = Some m'"
  note D = engine_invD [OF conjunct1 [OF assms]]
  show "live_inv cfg s m'"
  proof (cases "on_rto_idx (m_streams m s) < 0")
    case False
    define i where "i = nat (on_rto_idx (m_streams m s))"
    have i: "on_rto_idx (m_streams m s) = int i" using False by (simp add: i_def)
    have eq: "m' = (upd_stream s (\<lambda>x. x\<lparr>on_rto_idx := - 1\<rparr>) (upd_rto (\<lambda>rs. rs\<lparr>rto_list := (rto_list rs)
        (i := remove1 s (rto_list (m_rto_store m) i))\<rparr>) m))\<lparr>m_rto_list_cnt := m_rto_list_cnt m - 1\<rparr>"
      using m' i by (auto simp: RemoveFromRTOList_def Option.bind_eq_Some_conv tailq_remove_Some upd_defs)
    have "rto_inv m'"
      by (rule rto_inv_remove [OF D(9,10) conjunct2 [OF assms] i]) (simp_all add: eq upd_defs)
    moreover have "table_inv m' \<and> pools_inv m' \<and> routes_inv cfg m' \<and> control_inv cfg m' \<and> send_inv cfg m'
        \<and> ack_inv cfg m' \<and> timewait_inv m' \<and> timeout_inv cfg m'"
      by (intro conjI inv_frames [of m' m]) (use assms in \<open>simp_all add: engine_inv_def eq upd_defs flow_key_def\<close>)
    ultimately show ?thesis using assms live_cong [of m' m] by (simp add: engine_inv_def eq upd_defs)
  qed (use assms m' in \<open>simp add: RemoveFromRTOList_def\<close>)
qed

lemma rto_offset_less: "int (rto_offset rs d) < RTO_HASH"
  by (simp add: rto_offset_def RTO_HASH_def unat_mod)

lemma rto_insert_inv:
  assumes "live_inv cfg s m" "on_rto_idx (m_streams m s) < 0" "\<not> on_timewait_list (m_streams m s)" "int i \<le> RTO_HASH"
  shows "post (\<lambda>m'. live_inv cfg s (m'\<lparr>m_rto_list_cnt := m_rto_list_cnt m' + 1\<rparr>)) (rto_insert i s m)"
proof (rule postI)
  fix m0 assume m0: "rto_insert i s m = Some m0"
  note D = engine_invD [OF conjunct1 [OF assms(1)]]
  define m' where "m' = m0\<lparr>m_rto_list_cnt := m_rto_list_cnt m0 + 1\<rparr>"
  have eq: "m' = (upd_rto (\<lambda>rs. rs\<lparr>rto_list := (rto_list rs)(i := rto_list (m_rto_store m) i @ [s])\<rparr>)
      (upd_stream s (\<lambda>x. x\<lparr>on_rto_idx := int i\<rparr>) m))\<lparr>m_rto_list_cnt := m_rto_list_cnt m + 1\<rparr>"
    using m0 by (auto simp: m'_def rto_insert_def Option.bind_eq_Some_conv tailq_insert_tail_Some upd_defs)
  have "rto_inv m'"
    by (rule rto_inv_insert [OF D(9,10) conjunct2 [OF assms(1)] assms(2-4)]) (simp_all add: eq upd_defs)
  moreover have "table_inv m' \<and> pools_inv m' \<and> routes_inv cfg m' \<and> control_inv cfg m' \<and> send_inv cfg m'
      \<and> ack_inv cfg m' \<and> timewait_inv m' \<and> timeout_inv cfg m'"
    by (intro conjI inv_frames [of m' m]) (use assms in \<open>simp_all add: engine_inv_def eq upd_defs flow_key_def\<close>)
  ultimately show "live_inv cfg s (m0\<lparr>m_rto_list_cnt := m_rto_list_cnt m0 + 1\<rparr>)"
    unfolding m'_def [symmetric] using assms live_cong [of m' m] by (simp add: engine_inv_def eq upd_defs)
qed

lemma upd_rto_clock_inv:
  assumes "live_inv cfg s m" and "rto_list (f (m_rto_store m)) = rto_list (m_rto_store m)"
  shows "live_inv cfg s (upd_rto f m)"
proof -
  have "table_inv (upd_rto f m) \<and> pools_inv (upd_rto f m) \<and> routes_inv cfg (upd_rto f m) \<and> control_inv cfg (upd_rto f m)
      \<and> send_inv cfg (upd_rto f m) \<and> ack_inv cfg (upd_rto f m) \<and> timewait_inv (upd_rto f m) \<and> timeout_inv cfg (upd_rto f m)
      \<and> rto_inv (upd_rto f m)"
    by (intro conjI inv_frames [of "upd_rto f m" m]) (use assms in \<open>simp_all add: engine_inv_def upd_defs\<close>)
  with assms show ?thesis by (simp add: engine_inv_def)
qed

lemma AddtoRTOList_inv:
  assumes "live_inv cfg s m" shows "post (live_inv cfg s) (AddtoRTOList s m)"
proof -
  define m1 where "m1 = (if m_rto_list_cnt m = 0
     then upd_rto (\<lambda>rs. rs\<lparr>rto_now_idx := 0, rto_now_ts := ts_rto (sndvar (m_streams m s))\<rparr>) m else m)"
  have inv: "live_inv cfg s m1" using assms upd_rto_clock_inv [OF assms] by (simp add: m1_def)
  show ?thesis
    unfolding AddtoRTOList_def Let_def m1_def [symmetric]
    by (rule post_if post_Some post_bindI [OF rto_insert_inv [OF inv]] | assumption | rule inv
        | (use rto_offset_less [of "m_rto_store m1"] in \<open>simp add: less_imp_le RTO_HASH_def; fail\<close>))+
qed

text \<open>The three ways in which a list with a flag per stream changes.\<close>

lemma flag_list_step:
  assumes ok: "list_ok l n {x \<in> A. F x}" and s: "s \<in> A" and F': "\<And>x. F' x = (if x = s then b else F x)"
    and q: "\<not> F s \<and> b \<and> q = l @ [s] \<and> n' = n + 1 \<or> F s \<and> \<not> b \<and> q = remove1 s l \<and> n' = n - 1
      \<or> F s \<and> b \<and> q = remove1 s l @ [s] \<and> n' = n"
  shows "list_ok q n' {x \<in> A. F' x}"
  using q
proof (elim disjE conjE)
  assume c: "\<not> F s" "b" "q = l @ [s]" "n' = n + 1"
  have "{x \<in> A. F' x} = insert s {x \<in> A. F x}" using s c F' by auto
  then show ?thesis using list_ok_insert [OF ok, of s] c by simp
next
  assume c: "F s" "\<not> b" "q = remove1 s l" "n' = n - 1"
  have "{x \<in> A. F' x} = {x \<in> A. F x} - {s}" using c F' by auto
  then show ?thesis using list_ok_remove [OF ok, of s] c s by simp
next
  assume c: "F s" "b" "q = remove1 s l @ [s]" "n' = n"
  have "{x \<in> A. F' x} = {x \<in> A. F x}" using c F' by auto
  then show ?thesis using list_ok_rotate [OF ok, of s] c s by simp
qed

lemma timewait_step:
  assumes inv: "live_inv cfg s m"
    and m': "m' = (upd_stream s (\<lambda>x. x\<lparr>on_timewait_list := b\<rparr>) m)\<lparr>m_timewait_list := q, m_timewait_list_cnt := n\<rparr>"
    and r: "b \<Longrightarrow> on_rto_idx (m_streams m s) < 0"
    and q: "\<not> on_timewait_list (m_streams m s) \<and> b \<and> q = m_timewait_list m @ [s] \<and> n = m_timewait_list_cnt m + 1
      \<or> on_timewait_list (m_streams m s) \<and> \<not> b \<and> q = remove1 s (m_timewait_list m) \<and> n = m_timewait_list_cnt m - 1
      \<or> on_timewait_list (m_streams m s) \<and> b \<and> q = remove1 s (m_timewait_list m) @ [s] \<and> n = m_timewait_list_cnt m"
  shows "live_inv cfg s m'"
proof -
  note D = engine_invD [OF conjunct1 [OF inv]]
  have live: "live m' = live m" by (rule live_cong) (simp add: m' upd_defs)
  have "list_ok q n {x \<in> live m. on_timewait_list (m_streams m' x)}"
    by (rule flag_list_step [OF D(7) [unfolded timewait_inv_def] _ _ q]) (use inv in \<open>simp_all add: m' upd_defs\<close>)
  then have "timewait_inv m'" unfolding timewait_inv_def live by (simp add: m')
  moreover have "on_rto_idx (m_streams m' x) = on_rto_idx (m_streams m x)" for x by (simp add: m' upd_defs)
  then have "rto_inv m'" using D(9) r unfolding rto_inv_def live by (simp add: m' upd_defs) (meson not_less)
  moreover have "table_inv m' \<and> pools_inv m' \<and> routes_inv cfg m' \<and> control_inv cfg m' \<and> send_inv cfg m'
      \<and> ack_inv cfg m' \<and> timeout_inv cfg m'"
    by (intro conjI inv_frames [of m' m]) (use inv in \<open>simp_all add: engine_inv_def m' upd_defs flow_key_def\<close>)
  ultimately show ?thesis using inv live by (simp add: engine_inv_def)
qed

lemma timeout_step:
  assumes inv: "live_inv cfg s m"
    and m': "m' = (upd_stream s (\<lambda>x. x\<lparr>on_timeout_list := b\<rparr>) m)\<lparr>m_timeout_list := q, m_timeout_list_cnt := n\<rparr>"
    and c: "b \<Longrightarrow> c_tcp_timeout cfg > 0"
    and q: "\<not> on_timeout_list (m_streams m s) \<and> b \<and> q = m_timeout_list m @ [s] \<and> n = m_timeout_list_cnt m + 1
      \<or> on_timeout_list (m_streams m s) \<and> \<not> b \<and> q = remove1 s (m_timeout_list m) \<and> n = m_timeout_list_cnt m - 1
      \<or> on_timeout_list (m_streams m s) \<and> b \<and> q = remove1 s (m_timeout_list m) @ [s] \<and> n = m_timeout_list_cnt m"
  shows "live_inv cfg s m'"
proof -
  note D = engine_invD [OF conjunct1 [OF inv]]
  have live: "live m' = live m" by (rule live_cong) (simp add: m' upd_defs)
  have "list_ok q n {x \<in> live m. on_timeout_list (m_streams m' x)}"
    by (rule flag_list_step [OF conjunct1 [OF D(8) [unfolded timeout_inv_def]] _ _ q])
      (use inv in \<open>simp_all add: m' upd_defs\<close>)
  then have "timeout_inv cfg m'" using D(8) c q unfolding timeout_inv_def live by (auto simp: m')
  moreover have "table_inv m' \<and> pools_inv m' \<and> routes_inv cfg m' \<and> control_inv cfg m' \<and> send_inv cfg m'
      \<and> ack_inv cfg m' \<and> timewait_inv m' \<and> rto_inv m'"
    by (intro conjI inv_frames [of m' m]) (use inv in \<open>simp_all add: engine_inv_def m' upd_defs flow_key_def\<close>)
  ultimately show ?thesis using inv live by (simp add: engine_inv_def)
qed

lemma timeout_flag:
  assumes "live_inv cfg s m" "on_timeout_list (m_streams m s)" shows "c_tcp_timeout cfg > 0"
proof -
  have "s \<in> set (m_timeout_list m)"
    using assms engine_invD(8) [of cfg m] by (auto simp: timeout_inv_def list_ok_def)
  then show ?thesis using engine_invD(8) [of cfg m] assms(1) by (auto simp: timeout_inv_def)
qed

lemma upd_stream_id: "f (m_streams m s) = m_streams m s \<Longrightarrow> upd_stream s f m = m"
  by (simp add: upd_stream_def)

lemma AddtoTimeoutList_inv:
  assumes "live_inv cfg s m" "c_tcp_timeout cfg > 0" shows "post (live_inv cfg s) (AddtoTimeoutList s m)"
  using assms timeout_step [OF assms(1) refl, where b = True]
  by (auto simp: AddtoTimeoutList_def post_def Option.bind_eq_Some_conv tailq_insert_tail_Some upd_defs)

lemma RemoveFromTimeoutList_inv:
  assumes "live_inv cfg s m" shows "post (live_inv cfg s) (RemoveFromTimeoutList s m)"
  using assms timeout_step [OF assms refl, where b = False]
  by (auto simp: RemoveFromTimeoutList_def post_def Option.bind_eq_Some_conv tailq_remove_Some upd_defs)

lemma UpdateTimeoutList_inv:
  assumes "live_inv cfg s m" shows "post (live_inv cfg s) (UpdateTimeoutList s m)"
proof (cases "on_timeout_list (m_streams m s)")
  case True
  then have "upd_stream s (\<lambda>x. x\<lparr>on_timeout_list := True\<rparr>) m = m" by (intro upd_stream_id) simp
  then show ?thesis
    using True timeout_flag [OF assms True]
      timeout_step [OF assms refl, where b = True and n = "m_timeout_list_cnt m"]
    by (auto simp: UpdateTimeoutList_def post_def Option.bind_eq_Some_conv tailq_remove_Some tailq_insert_tail_Some)
qed (use assms in \<open>simp add: UpdateTimeoutList_def\<close>)

lemma RemoveFromTimewaitList_inv:
  assumes "live_inv cfg s m" shows "post (live_inv cfg s) (RemoveFromTimewaitList s m)"
  using assms timewait_step [OF assms refl, where b = False]
  by (auto simp: RemoveFromTimewaitList_def post_def Option.bind_eq_Some_conv tailq_remove_Some upd_defs)

lemma timewait_not_rto:
  "live_inv cfg s m \<Longrightarrow> on_timewait_list (m_streams m s) \<Longrightarrow> on_rto_idx (m_streams m s) < 0"
  using engine_invD(9) [of cfg m] by (force simp: rto_inv_def)

lemma live_inv_cong:
  assumes "live_inv cfg s m" "\<And>x. skey (m_streams m' x) = skey (m_streams m x)" and "snd (core m') = snd (core m)"
  shows "live_inv cfg s m'"
  using assms(1) engine_inv_cong [OF assms(2,3), of cfg] assms(3) by (simp add: live_def core_def)

lemma upd_stream_inv:
  "live_inv cfg s m \<Longrightarrow> skey (f (m_streams m s)) = skey (m_streams m s) \<Longrightarrow> live_inv cfg s (upd_stream s f m)"
  by (erule live_inv_cong) (simp_all add: upd_stream_def core_def)

lemma RemoveFromRTOList_streams:
  "RemoveFromRTOList s m = Some m' \<Longrightarrow> \<exists>i<0. m_streams m' = (m_streams m)(s := (m_streams m s)\<lparr>on_rto_idx := i\<rparr>)"
  by (cases "on_rto_idx (m_streams m s) < 0")
    (auto simp: RemoveFromRTOList_def Option.bind_eq_Some_conv upd_defs Let_def
      intro: exI [of _ "on_rto_idx (m_streams m s)"] exI [of _ "- 1 :: int"])

lemma AddtoTimewaitList_inv:
  assumes "live_inv cfg s m" shows "post (live_inv cfg s) (AddtoTimewaitList cfg s ts m)"
proof -
  define m1 where "m1 = upd_rcv s (\<lambda>v. v\<lparr>ts_tw_expire := ts + word_of_int (c_tcp_timewait cfg)\<rparr>) m"
  have inv1: "live_inv cfg s m1"
    unfolding m1_def upd_unfold by (rule upd_stream_inv [OF assms]) (simp add: skeys)
  show ?thesis
  proof (cases "on_timewait_list (m_streams m1 s)")
    case True
    then have "upd_stream s (\<lambda>x. x\<lparr>on_timewait_list := True\<rparr>) m1 = m1" by (intro upd_stream_id) simp
    then show ?thesis
      unfolding AddtoTimewaitList_def Let_def m1_def [symmetric]
      using True timewait_not_rto [OF inv1 True]
        timewait_step [OF inv1 refl, where b = True and n = "m_timewait_list_cnt m1"]
      by (auto simp: post_def Option.bind_eq_Some_conv tailq_remove_Some tailq_insert_tail_Some)
  next
    case False
    have step: "post (live_inv cfg s) (do {
        let m = upd_stream s (\<lambda>x. x\<lparr>on_timewait_list := True\<rparr>) m2;
        q \<leftarrow> tailq_insert_tail (m_timewait_list m) s;
        Some (m\<lparr>m_timewait_list := q, m_timewait_list_cnt := m_timewait_list_cnt m + 1\<rparr>) })"
      if "live_inv cfg s m2" "on_rto_idx (m_streams m2 s) < 0" "\<not> on_timewait_list (m_streams m2 s)" for m2
      using that timewait_step [OF that(1) refl, where b = True]
      by (auto simp: post_def Option.bind_eq_Some_conv tailq_insert_tail_Some upd_defs)
    have "post (\<lambda>m2. live_inv cfg s m2 \<and> on_rto_idx (m_streams m2 s) < 0 \<and> \<not> on_timewait_list (m_streams m2 s))
      (if on_rto_idx (m_streams m1 s) \<ge> 0 then RemoveFromRTOList s m1 else Some m1)"
      using RemoveFromRTOList_inv [OF inv1] inv1 False
      by (auto simp: post_def dest!: RemoveFromRTOList_streams)
    note pre = this
    show ?thesis
      unfolding AddtoTimewaitList_def Let_def m1_def [symmetric] if_not_P [OF False]
      by (rule post_bindI [OF pre]) (elim conjE, rule step [unfolded Let_def], auto)
  qed
qed

section \<open>Destruction of a stream\<close>

lemma flag_off_id:
  "\<not> on_control_list (sndvar x) \<Longrightarrow> x\<lparr>sndvar := (sndvar x)\<lparr>on_control_list := False\<rparr>\<rparr> = x"
  "\<not> on_send_list (sndvar x) \<Longrightarrow> x\<lparr>sndvar := (sndvar x)\<lparr>on_send_list := False\<rparr>\<rparr> = x"
  "\<not> on_ack_list (sndvar x) \<Longrightarrow> x\<lparr>sndvar := (sndvar x)\<lparr>on_ack_list := False\<rparr>\<rparr> = x"
  "\<not> on_timewait_list x \<Longrightarrow> x\<lparr>on_timewait_list := False\<rparr> = x"
  "\<not> on_timeout_list x \<Longrightarrow> x\<lparr>on_timeout_list := False\<rparr> = x"
  by (rule tcp_stream.equality; simp; rule tcp_send_vars.equality; simp)+

lemma RemoveFromControlList_streams:
  "RemoveFromControlList cfg s m = Some m' \<Longrightarrow> m_streams m' = (m_streams m)(s := (m_streams m s)\<lparr>sndvar := (sndvar (m_streams m s))\<lparr>on_control_list := False\<rparr>\<rparr>)"
  by (cases "on_control_list (sndvar (m_streams m s))")
    (auto simp: RemoveFromControlList_def Option.bind_eq_Some_conv upd_defs flag_off_id)

lemma RemoveFromSendList_streams:
  "RemoveFromSendList cfg s m = Some m' \<Longrightarrow> m_streams m' = (m_streams m)(s := (m_streams m s)\<lparr>sndvar := (sndvar (m_streams m s))\<lparr>on_send_list := False\<rparr>\<rparr>)"
  by (cases "on_send_list (sndvar (m_streams m s))")
    (auto simp: RemoveFromSendList_def Option.bind_eq_Some_conv upd_defs flag_off_id)

lemma RemoveFromACKList_streams:
  "RemoveFromACKList cfg s m = Some m' \<Longrightarrow> m_streams m' = (m_streams m)(s := (m_streams m s)\<lparr>sndvar := (sndvar (m_streams m s))\<lparr>on_ack_list := False\<rparr>\<rparr>)"
  by (cases "on_ack_list (sndvar (m_streams m s))")
    (auto simp: RemoveFromACKList_def Option.bind_eq_Some_conv upd_defs flag_off_id)

lemma RemoveFromTimewaitList_streams:
  "RemoveFromTimewaitList s m = Some m' \<Longrightarrow> m_streams m' = (m_streams m)(s := (m_streams m s)\<lparr>on_timewait_list := False\<rparr>)"
  by (cases "on_timewait_list (m_streams m s)")
    (auto simp: RemoveFromTimewaitList_def Option.bind_eq_Some_conv upd_defs flag_off_id)

lemma RemoveFromTimeoutList_streams:
  "RemoveFromTimeoutList s m = Some m' \<Longrightarrow> m_streams m' = (m_streams m)(s := (m_streams m s)\<lparr>on_timeout_list := False\<rparr>)"
  by (cases "on_timeout_list (m_streams m s)")
    (auto simp: RemoveFromTimeoutList_def Option.bind_eq_Some_conv upd_defs flag_off_id)

lemmas Remove_streams = RemoveFromControlList_streams RemoveFromSendList_streams RemoveFromACKList_streams RemoveFromTimewaitList_streams RemoveFromTimeoutList_streams

text \<open>A stream that is on no list.\<close>

definition unlisted :: "tcp_stream \<Rightarrow> bool" where
  "unlisted x \<longleftrightarrow> \<not> on_control_list (sndvar x) \<and> \<not> on_send_list (sndvar x) \<and> \<not> on_ack_list (sndvar x)
     \<and> \<not> on_timewait_list x \<and> \<not> on_timeout_list x \<and> on_rto_idx x < 0"

lemma live_ran:
  assumes "ht_repr (m_flow_table m) (m_streams m) M" shows "live m = ran M"
proof
  show "live m \<subseteq> ran M" by (auto simp: live_def intro: ranI ht_reprD(3) [OF assms])
  show "ran M \<subseteq> live m" by (auto simp: live_def ran_def dest: ht_reprD(5) [OF assms])
qed

lemma table_inv_drop:
  assumes inv: "table_inv m" and s: "s \<in> live m" and ht: "StreamHTRemove (m_flow_table m) (m_streams m) s = Some ht"
    and m': "m_flow_table m' = ht" "m_flow_cnt m' = m_flow_cnt m - 1" "\<And>x. x \<noteq> s \<Longrightarrow> m_streams m' x = m_streams m x"
  shows "table_inv m'" and "live m' = live m - {s}"
proof -
  from inv obtain M where M: "ht_repr (m_flow_table m) (m_streams m) M" and fin: "finite (live m)"
    and cnt: "m_flow_cnt m = of_nat (card (live m))" and on: "\<forall>x \<in> live m. on_hash_table (m_streams m x)"
    by (auto simp: table_inv_def)
  let ?k = "flow_key (m_streams m s)"
  from s M have k: "M ?k = Some s" by (auto simp: live_def dest: ht_reprD(3))
  with ht_repr_remove [OF M k] ht have M': "ht_repr ht (m_streams m) (M(?k := None))" by auto
  have ran: "ran (M(?k := None)) = ran M - {s}"
  proof (rule set_eqI)
    fix x
    have "x \<in> ran (M(?k := None)) \<longleftrightarrow> (\<exists>a. a \<noteq> ?k \<and> M a = Some x)" by (auto simp: ran_def)
    also have "\<dots> \<longleftrightarrow> x \<in> ran M \<and> x \<noteq> s" using k ht_reprD(4) [OF M, of _ x] unfolding ran_def mem_Collect_eq by (metis option.inject)
    finally show "x \<in> ran (M(?k := None)) \<longleftrightarrow> x \<in> ran M - {s}" by simp
  qed
  have M'': "ht_repr (m_flow_table m') (m_streams m') (M(?k := None))"
    unfolding m'(1) by (rule ht_repr_frame [OF M']) (use m'(3) ran in auto)
  show live: "live m' = live m - {s}" using live_ran [OF M''] live_ran [OF M] ran by simp
  have "card (live m) = Suc (card (live m - {s}))" using fin s by (intro card.remove)
  then show "table_inv m'" unfolding table_inv_def live using M'' fin cnt on m' by auto
qed

lemma pools_inv_drop:
  assumes inv: "pools_inv m" and s: "s \<in> live m" and live: "live m' = live m - {s}"
    and free: "MPFreeChunk (m_flow_pool m) s = Some (m_flow_pool m')"
      "MPFreeChunk (m_rv_pool m) (rv_chunk (m_streams m s)) = Some (m_rv_pool m')"
      "MPFreeChunk (m_sv_pool m) (sv_chunk (m_streams m s)) = Some (m_sv_pool m')"
    and m': "\<And>x. x \<noteq> s \<Longrightarrow> m_streams m' x = m_streams m x"
  shows "pools_inv m'"
proof -
  have img: "(\<lambda>x. f (m_streams m' x)) ` (live m - {s}) = (\<lambda>x. f (m_streams m x)) ` live m - {f (m_streams m s)}"
    if "inj_on (\<lambda>x. f (m_streams m x)) (live m)" for f :: "tcp_stream \<Rightarrow> nat"
    using that s m' by (auto simp: inj_on_def)
  have inj: "inj_on (\<lambda>x. f (m_streams m' x)) (live m - {s})"
    if "inj_on (\<lambda>x. f (m_streams m x)) (live m)" for f :: "tcp_stream \<Rightarrow> nat"
    using that m' by (auto simp: inj_on_def)
  from inv have o: "pool.owns (m_flow_pool m) (live m)"
    "pool.owns (m_rv_pool m) ((\<lambda>s. rv_chunk (m_streams m s)) ` live m)"
    "pool.owns (m_sv_pool m) ((\<lambda>s. sv_chunk (m_streams m s)) ` live m)"
    and i: "inj_on (\<lambda>s. rv_chunk (m_streams m s)) (live m)" "inj_on (\<lambda>s. sv_chunk (m_streams m s)) (live m)"
    by (simp_all add: pools_inv_def)
  show ?thesis
    unfolding pools_inv_def live img [OF i(1)] img [OF i(2)]
    using pool.dealloc_owns [OF o(1) s] pool.dealloc_owns [OF o(2) imageI [OF s]]
      pool.dealloc_owns [OF o(3) imageI [OF s]] free inj [OF i(1)] inj [OF i(2)] by auto
qed

lemma engine_inv_drop:
  assumes inv: "live_inv cfg s m" and un: "unlisted (m_streams m s)"
    and ht: "StreamHTRemove (m_flow_table m) (m_streams m) s = Some (m_flow_table m')" "m_flow_cnt m' = m_flow_cnt m - 1"
    and free: "MPFreeChunk (m_flow_pool m) s = Some (m_flow_pool m')"
      "MPFreeChunk (m_rv_pool m) (rv_chunk (m_streams m s)) = Some (m_rv_pool m')"
      "MPFreeChunk (m_sv_pool m) (sv_chunk (m_streams m s)) = Some (m_sv_pool m')"
    and st: "\<And>x. x \<noteq> s \<Longrightarrow> m_streams m' x = m_streams m x"
    and same: "m_senders m' = m_senders m" "m_rto_store m' = m_rto_store m" "m_timewait_list m' = m_timewait_list m"
      "m_timeout_list m' = m_timeout_list m" "m_rto_list_cnt m' = m_rto_list_cnt m"
      "m_timewait_list_cnt m' = m_timewait_list_cnt m" "m_timeout_list_cnt m' = m_timeout_list_cnt m"
  shows "engine_inv cfg m' \<and> live m' = live m - {s}"
proof -
  note D = engine_invD [OF conjunct1 [OF inv]]
  have t: "table_inv m'" by (rule table_inv_drop(1) [OF D(1) conjunct2 [OF inv] ht(1) refl ht(2)]) (rule st)
  have l: "live m' = live m - {s}" by (rule table_inv_drop(2) [OF D(1) conjunct2 [OF inv] ht(1) refl ht(2)]) (rule st)
  have sender: "sender_of cfg x m' = sender_of cfg x m" if "x \<noteq> s" for x
    by (rule sender_of_cong) (simp add: st [OF that])
  have A: "{x \<in> live m'. F (m_streams m' x) \<and> sender_of cfg x m' = k}
      = {x \<in> live m. F (m_streams m x) \<and> sender_of cfg x m = k}" if "\<not> F (m_streams m s)" for F k
  proof (rule Collect_cong)
    show "x \<in> live m' \<and> F (m_streams m' x) \<and> sender_of cfg x m' = k
      \<longleftrightarrow> x \<in> live m \<and> F (m_streams m x) \<and> sender_of cfg x m = k" for x
      by (cases "x = s") (use that st sender l in auto)
  qed
  have B: "{x \<in> live m'. F (m_streams m' x)} = {x \<in> live m. F (m_streams m x)}" if "\<not> F (m_streams m s)" for F
  proof (rule Collect_cong)
    show "x \<in> live m' \<and> F (m_streams m' x) \<longleftrightarrow> x \<in> live m \<and> F (m_streams m x)" for x
      by (cases "x = s") (use that st l in auto)
  qed
  from un have u: "\<not> on_control_list (sndvar (m_streams m s))" "\<not> on_send_list (sndvar (m_streams m s))"
    "\<not> on_ack_list (sndvar (m_streams m s))" "\<not> on_timewait_list (m_streams m s)" "\<not> on_timeout_list (m_streams m s)"
    "\<not> on_rto_idx (m_streams m s) \<ge> 0" "\<And>i. \<not> on_rto_idx (m_streams m s) = int i"
    by (auto simp: unlisted_def)
  have "pools_inv m'" by (rule pools_inv_drop [OF D(2) conjunct2 [OF inv] l free st])
  moreover have "routes_inv cfg m'" using D(3) st unfolding routes_inv_def l by simp
  moreover have "control_inv cfg m'" using D(4) A [of "\<lambda>x. on_control_list (sndvar x)", OF u(1)] unfolding control_inv_def same by simp
  moreover have "send_inv cfg m'" using D(5) A [of "\<lambda>x. on_send_list (sndvar x)", OF u(2)] unfolding send_inv_def same by simp
  moreover have "ack_inv cfg m'" using D(6) A [of "\<lambda>x. on_ack_list (sndvar x)", OF u(3)] unfolding ack_inv_def same by simp
  moreover have "timewait_inv m'" using D(7) B [of on_timewait_list, OF u(4)] unfolding timewait_inv_def same by simp
  moreover have "timeout_inv cfg m'" using D(8) B [of on_timeout_list, OF u(5)] unfolding timeout_inv_def same by simp
  moreover have "rto_inv m'"
    using D(9) B [of "\<lambda>x. on_rto_idx x \<ge> 0", OF u(6)] B [of "\<lambda>x. on_rto_idx x = int i" for i, OF u(7)] st unfolding rto_inv_def same by (simp add: l)
  ultimately show ?thesis using t l by (simp add: engine_inv_def)
qed

text \<open>Each removal clears its flag and leaves the others.\<close>

definition cleared :: "nat \<Rightarrow> mtcp_manager \<Rightarrow> (tcp_stream \<Rightarrow> bool) \<Rightarrow> mtcp_manager \<Rightarrow> bool" where
  "cleared s m F m' \<longleftrightarrow> live m' = live m \<and> F (m_streams m' s) \<and>
     (on_control_list (sndvar (m_streams m' s)) \<longrightarrow> on_control_list (sndvar (m_streams m s))) \<and>
     (on_send_list (sndvar (m_streams m' s)) \<longrightarrow> on_send_list (sndvar (m_streams m s))) \<and>
     (on_ack_list (sndvar (m_streams m' s)) \<longrightarrow> on_ack_list (sndvar (m_streams m s))) \<and>
     (on_timewait_list (m_streams m' s) \<longrightarrow> on_timewait_list (m_streams m s)) \<and>
     (on_rto_idx (m_streams m' s) \<ge> 0 \<longrightarrow> on_rto_idx (m_streams m s) \<ge> 0)"

lemma list_ops_live:
  "RemoveFromControlList cfg s m = Some m' \<Longrightarrow> live m' = live m"
  "RemoveFromSendList cfg s m = Some m' \<Longrightarrow> live m' = live m"
  "RemoveFromACKList cfg s m = Some m' \<Longrightarrow> live m' = live m"
  "RemoveFromRTOList s m = Some m' \<Longrightarrow> live m' = live m"
  "RemoveFromTimewaitList s m = Some m' \<Longrightarrow> live m' = live m"
  "RemoveFromTimeoutList s m = Some m' \<Longrightarrow> live m' = live m"
  unfolding RemoveFromControlList_def RemoveFromSendList_def RemoveFromACKList_def RemoveFromRTOList_def
    RemoveFromTimewaitList_def RemoveFromTimeoutList_def Let_def
  by (auto simp: Option.bind_eq_Some_conv live_def upd_defs split: if_splits)

lemma clear_control: "post (cleared s m (\<lambda>x. \<not> on_control_list (sndvar x))) (RemoveFromControlList cfg s m)"
  by (auto simp: post_def cleared_def dest: list_ops_live RemoveFromControlList_streams)

lemma clear_send: "post (cleared s m (\<lambda>x. \<not> on_send_list (sndvar x))) (RemoveFromSendList cfg s m)"
  by (auto simp: post_def cleared_def dest: list_ops_live RemoveFromSendList_streams)

lemma clear_ack: "post (cleared s m (\<lambda>x. \<not> on_ack_list (sndvar x))) (RemoveFromACKList cfg s m)"
  by (auto simp: post_def cleared_def dest: list_ops_live RemoveFromACKList_streams)

lemma clear_rto: "post (cleared s m (\<lambda>x. on_rto_idx x < 0)) (if on_rto_idx (m_streams m s) \<ge> 0 then RemoveFromRTOList s m else Some m)"
  by (auto simp: post_def cleared_def dest: list_ops_live RemoveFromRTOList_streams)

lemma clear_timewait:
  "post (cleared s m (\<lambda>x. \<not> on_timewait_list x)) (if on_timewait_list (m_streams m s) then RemoveFromTimewaitList s m else Some m)"
  by (auto simp: post_def cleared_def dest: list_ops_live RemoveFromTimewaitList_streams)

lemma clear_timeout:
  assumes "live_inv cfg s m"
  shows "post (cleared s m (\<lambda>x. \<not> on_timeout_list x)) (if c_tcp_timeout cfg > 0 then RemoveFromTimeoutList s m else Some m)"
  using timeout_flag [OF assms]
  by (auto simp: post_def cleared_def dest: list_ops_live RemoveFromTimeoutList_streams)

lemma removals:
  assumes "live_inv cfg s m"
  shows "post (\<lambda>m'. live_inv cfg s m' \<and> cleared s m (\<lambda>x. \<not> on_control_list (sndvar x)) m') (RemoveFromControlList cfg s m)"
    and "post (\<lambda>m'. live_inv cfg s m' \<and> cleared s m (\<lambda>x. \<not> on_send_list (sndvar x)) m') (RemoveFromSendList cfg s m)"
    and "post (\<lambda>m'. live_inv cfg s m' \<and> cleared s m (\<lambda>x. \<not> on_ack_list (sndvar x)) m') (RemoveFromACKList cfg s m)"
    and "post (\<lambda>m'. live_inv cfg s m' \<and> cleared s m (\<lambda>x. on_rto_idx x < 0) m')
      (if on_rto_idx (m_streams m s) \<ge> 0 then RemoveFromRTOList s m else Some m)"
    and "post (\<lambda>m'. live_inv cfg s m' \<and> cleared s m (\<lambda>x. \<not> on_timewait_list x) m')
      (if on_timewait_list (m_streams m s) then RemoveFromTimewaitList s m else Some m)"
    and "post (\<lambda>m'. live_inv cfg s m' \<and> cleared s m (\<lambda>x. \<not> on_timeout_list x) m')
      (if c_tcp_timeout cfg > 0 then RemoveFromTimeoutList s m else Some m)"
  by (rule post_conj clear_control clear_send clear_ack clear_rto clear_timewait clear_timeout [OF assms]
      RemoveFromControlList_inv RemoveFromSendList_inv RemoveFromACKList_inv post_if RemoveFromRTOList_inv
      RemoveFromTimewaitList_inv RemoveFromTimeoutList_inv post_Some assms)+

lemma free_bound_addr_quiet: "core m1 = core m \<Longrightarrow> quiet m (free_bound_addr cfg addr m1)"
  unfolding free_bound_addr_def Let_def
  by (rule quiet_intros | rule quiet_bind_any | (simp; fail))+

lemma engine_inv_core:
  assumes "core m' = core m" shows "engine_inv cfg m' = engine_inv cfg m" "live m' = live m"
proof -
  show "engine_inv cfg m' = engine_inv cfg m"
    by (rule engine_inv_cong) (simp_all add: core_streams [OF assms] assms)
  show "live m' = live m" using assms by (simp add: live_def core_def)
qed

lemma engine_inv_quiet:
  "quiet m x \<Longrightarrow> engine_inv cfg m \<and> live m = A \<Longrightarrow> post (\<lambda>m'. engine_inv cfg m' \<and> live m' = A) x"
  unfolding quiet_def by (erule post_weaken) (metis engine_inv_core)

lemma unlisted_write:
  assumes "live_inv cfg s m \<and> live m = A \<and> unlisted (m_streams m s)"
    and "skey (f (m_streams m s)) = skey (m_streams m s)" "core m = core m1"
  shows "live_inv cfg s (upd_stream s f m1) \<and> live (upd_stream s f m1) = A \<and> unlisted (m_streams (upd_stream s f m1) s)"
proof -
  have "live_inv cfg s m1 \<and> live m1 = A \<and> m_streams m1 = m_streams m"
    using assms(1) engine_inv_core [OF assms(3)] core_streams [OF assms(3)] by auto
  then show ?thesis using assms upd_stream_inv [where m = m1 and f = f] by (auto simp: unlisted_def skeys)
qed

text \<open>Giving back the buffers, and then the stream.\<close>

lemma destroy_buffers:
  assumes "live_inv cfg s m \<and> live m = A \<and> unlisted (m_streams m s)"
  shows "post (\<lambda>m. live_inv cfg s m \<and> live m = A \<and> unlisted (m_streams m s)) (case sndbuf (sndvar (m_streams m s)) of
      Some b \<Rightarrow> do { sbm \<leftarrow> SBFree (m_rbm_snd m) (Some b); Some (upd_snd s (\<lambda>v. v\<lparr>sndbuf := None\<rparr>) (m\<lparr>m_rbm_snd := sbm\<rparr>)) }
    | None \<Rightarrow> Some m)"
    and "post (\<lambda>m. live_inv cfg s m \<and> live m = A \<and> unlisted (m_streams m s)) (case rcvbuf (rcvvar (m_streams m s)) of
      Some b \<Rightarrow> do { rbm \<leftarrow> RBFree (m_rbm_rcv m) b; Some (upd_rcv s (\<lambda>v. v\<lparr>rcvbuf := None\<rparr>) (m\<lparr>m_rbm_rcv := rbm\<rparr>)) }
    | None \<Rightarrow> Some m)"
  unfolding upd_unfold
  by (rule post_case_option post_bind_any post_Some unlisted_write [OF assms] | rule assms | (simp add: skeys; fail))+

lemma DestroyTCPStream_inv:
  assumes "live_inv cfg s m"
  shows "post (\<lambda>m'. engine_inv cfg m' \<and> live m' = live m - {s}) (DestroyTCPStream cfg s m)"
proof -
  have drop: "post (\<lambda>m'. engine_inv cfg m' \<and> live m' = live m - {s}) (do {
       ht \<leftarrow> StreamHTRemove (m_flow_table m1) (m_streams m1) s;
       let m = upd_stream s (\<lambda>x. x\<lparr>on_hash_table := False\<rparr>) (m1\<lparr>m_flow_table := ht\<rparr>);
       let m = m\<lparr>m_flow_cnt := m_flow_cnt m - 1\<rparr>;
       rp \<leftarrow> MPFreeChunk (m_rv_pool m) (rv_chunk (m_streams m s));
       vp \<leftarrow> MPFreeChunk (m_sv_pool m) (sv_chunk (m_streams m s));
       fp \<leftarrow> MPFreeChunk (m_flow_pool m) s;
       let m = m\<lparr>m_rv_pool := rp, m_sv_pool := vp, m_flow_pool := fp\<rparr>;
       if b then free_bound_addr cfg addr m else Some m })"
    if "live_inv cfg s m1 \<and> live m1 = live m \<and> unlisted (m_streams m1 s)" for m1 b addr
  proof -
    have *: "engine_inv cfg m' \<and> live m' = live m - {s}" if "StreamHTRemove (m_flow_table m1) (m_streams m1) s = Some (m_flow_table m')"
      "m_flow_cnt m' = m_flow_cnt m1 - 1" "MPFreeChunk (m_flow_pool m1) s = Some (m_flow_pool m')"
      "MPFreeChunk (m_rv_pool m1) (rv_chunk (m_streams m1 s)) = Some (m_rv_pool m')"
      "MPFreeChunk (m_sv_pool m1) (sv_chunk (m_streams m1 s)) = Some (m_sv_pool m')"
      "\<And>x. x \<noteq> s \<Longrightarrow> m_streams m' x = m_streams m1 x" "m_senders m' = m_senders m1" "m_rto_store m' = m_rto_store m1"
      "m_timewait_list m' = m_timewait_list m1" "m_timeout_list m' = m_timeout_list m1" "m_rto_list_cnt m' = m_rto_list_cnt m1"
      "m_timewait_list_cnt m' = m_timewait_list_cnt m1" "m_timeout_list_cnt m' = m_timeout_list_cnt m1" for m'
      using engine_inv_drop [OF _ _ that] \<open>live_inv cfg s m1 \<and> live m1 = live m \<and> unlisted (m_streams m1 s)\<close> by auto
    show ?thesis
      unfolding Let_def
      by (rule post_bind_any post_if post_Some engine_inv_quiet [OF free_bound_addr_quiet [OF refl]] *
          | (simp add: upd_stream_def; fail))+
  qed
  show ?thesis
    unfolding DestroyTCPStream_def Let_def
    by (rule post_bindI, rule removals, rule assms, elim conjE,
        rule post_bindI, rule removals, rule conjI, assumption, assumption, elim conjE,
        rule post_bindI, rule removals, rule conjI, assumption, assumption, elim conjE,
        rule post_bindI, rule removals, rule conjI, assumption, assumption, elim conjE,
        rule post_bindI, rule removals, rule conjI, assumption, assumption, elim conjE,
        rule post_bindI, rule removals, rule conjI, assumption, assumption, elim conjE)
      (rule post_if, simp, rule post_bindI [OF destroy_buffers(1)],
        fastforce simp: cleared_def unlisted_def, rule post_bindI [OF destroy_buffers(2)], assumption,
        rule drop [unfolded Let_def], assumption)
qed

section \<open>Every handler of a stream keeps the invariant\<close>

lemma route_inv:
  assumes "live_inv cfg s m"
  shows "live_inv cfg s (upd_snd s (\<lambda>v. v\<lparr>nif_out := fst (GetOutputInterface cfg (s_daddr (m_streams m s)))\<rparr>) m)"
  unfolding upd_unfold using assms engine_invD(3) [of cfg m]
  by (intro upd_stream_inv) (simp_all add: skeys routes_inv_def)

interpretation eng: stream_step cfg "live_inv cfg" "engine_inv cfg" for cfg
proof (unfold_locales, goal_cases)
  case (2 s m m')
  then show ?case using engine_inv_core [of m' m] by metis
next
  case (8 m m')
  then show ?case using engine_inv_core [of m' m] by metis
next
  case (18 s m)
  then show ?case by (rule post_weaken [OF DestroyTCPStream_inv]) simp
qed (rule upd_stream_inv, assumption+, rule route_inv, assumption, rule AddtoACKList_inv, assumption,
    rule AddtoRTOList_inv, assumption, rule UpdateTimeoutList_inv, assumption, simp, rule AddtoControlList_inv, assumption,
    rule RemoveFromControlList_inv, assumption, rule AddtoSendList_inv, assumption, rule RemoveFromSendList_inv, assumption,
    rule RemoveFromRTOList_inv, assumption, rule AddtoTimewaitList_inv, assumption, rule RemoveFromTimewaitList_inv, assumption,
    rule AddtoTimeoutList_inv, assumption+, rule RemoveFromTimeoutList_inv, assumption)

end
