(* ===== verification/Stream_Sep.thy ===== *)
theory Stream_Sep
  imports Engine_Frame
begin

text \<open>
  Separation of the streams: a handler that works on one stream leaves the control blocks of all
  other streams as they are, and the addresses and ports of its own.
\<close>

definition apart :: "nat \<Rightarrow> (nat \<Rightarrow> tcp_stream) \<Rightarrow> u32 \<times> u16 \<times> u32 \<times> u16 \<Rightarrow> nat \<Rightarrow> mtcp_manager \<Rightarrow> bool" where
  "apart t \<sigma> K s m \<longleftrightarrow> s = t \<and> (\<forall>x. x \<noteq> t \<longrightarrow> m_streams m x = \<sigma> x) \<and> flow_key (m_streams m t) = K"

definition others :: "nat \<Rightarrow> (nat \<Rightarrow> tcp_stream) \<Rightarrow> mtcp_manager \<Rightarrow> bool" where
  "others t \<sigma> m \<longleftrightarrow> (\<forall>x. x \<noteq> t \<longrightarrow> m_streams m x = \<sigma> x)"

lemmas list_op_defs = AddtoControlList_def RemoveFromControlList_def AddtoSendList_def RemoveFromSendList_def
  AddtoACKList_def RemoveFromACKList_def AddtoRTOList_def RemoveFromRTOList_def AddtoTimewaitList_def
  RemoveFromTimewaitList_def AddtoTimeoutList_def RemoveFromTimeoutList_def UpdateTimeoutList_def

lemma list_ops_apart:
  assumes "apart t \<sigma> K s m"
  shows "post (apart t \<sigma> K s) (AddtoControlList cfg s m)" "post (apart t \<sigma> K s) (RemoveFromControlList cfg s m)"
    "post (apart t \<sigma> K s) (AddtoSendList cfg s m)" "post (apart t \<sigma> K s) (RemoveFromSendList cfg s m)"
    "post (apart t \<sigma> K s) (AddtoACKList cfg s m)" "post (apart t \<sigma> K s) (RemoveFromACKList cfg s m)"
    "post (apart t \<sigma> K s) (AddtoTimeoutList s m)" "post (apart t \<sigma> K s) (RemoveFromTimeoutList s m)"
    "post (apart t \<sigma> K s) (UpdateTimeoutList s m)"
  using assms unfolding list_op_defs
  by (auto simp: post_def apart_def upd_defs flow_key_def Option.bind_eq_Some_conv Let_def split: if_splits)

lemma timer_ops_apart:
  assumes "apart t \<sigma> K s m"
  shows "post (apart t \<sigma> K s) (AddtoRTOList s m)" "post (apart t \<sigma> K s) (RemoveFromRTOList s m)"
    "post (apart t \<sigma> K s) (AddtoTimewaitList cfg s ts m)" "post (apart t \<sigma> K s) (RemoveFromTimewaitList s m)"
  using assms unfolding list_op_defs rto_insert_def
  by (auto simp: post_def apart_def upd_defs flow_key_def Option.bind_eq_Some_conv Let_def split: if_splits)

lemma apart_upd:
  "apart t \<sigma> K s m \<Longrightarrow> flow_key (f (m_streams m s)) = flow_key (m_streams m s) \<Longrightarrow> apart t \<sigma> K s (upd_stream s f m)"
  "apart t \<sigma> K s m \<Longrightarrow> apart t \<sigma> K s (upd_snd s g m)"
  "apart t \<sigma> K s m \<Longrightarrow> apart t \<sigma> K s (upd_rcv s h m)"
  by (simp_all add: apart_def upd_defs flow_key_def)

lemma apart_streams: "m_streams m' = m_streams m \<Longrightarrow> apart t \<sigma> K s m \<Longrightarrow> apart t \<sigma> K s m'"
  by (simp add: apart_def)

lemma apart_others: "apart t \<sigma> K s m \<Longrightarrow> others t \<sigma> m"
  by (simp add: apart_def others_def)

lemma free_bound_addr_apart: "apart t \<sigma> K s m \<Longrightarrow> post (others t \<sigma>) (free_bound_addr cfg a m)"
  by (auto simp: post_def free_bound_addr_def Let_def apart_def others_def Option.bind_eq_Some_conv
      split: option.splits prod.splits if_splits)

lemma DestroyTCPStream_apart:
  assumes "apart t \<sigma> K s m" shows "post (others t \<sigma>) (DestroyTCPStream cfg s m)"
proof -
  have bind: "post (others t \<sigma>) (Option.bind x f)"
    if "post (apart t \<sigma> K s) x" "\<And>y. apart t \<sigma> K s y \<Longrightarrow> post (others t \<sigma>) (f y)" for x f
    using that by (rule post_bindI)
  have some: "post (others t \<sigma>) (Some m1)" "post (apart t \<sigma> K s) (Some m1)" if "apart t \<sigma> K s m1" for m1
    using that by (simp_all add: apart_others)
  show ?thesis unfolding DestroyTCPStream_def Let_def using assms
    by - (rule bind list_ops_apart timer_ops_apart post_if post_None post_case_option free_bound_addr_apart some
        | assumption | rule post_bind_any | (simp add: apart_def upd_defs flow_key_def; fail))+
qed

lemma apart_skey: "apart t \<sigma> K s m \<Longrightarrow> skey (f (m_streams m s)) = skey (m_streams m s) \<Longrightarrow> apart t \<sigma> K s (upd_stream s f m)"
  by (rule apart_upd) (simp_all add: skey_def)

interpretation sep: stream_step cfg "apart t \<sigma> K" "others t \<sigma>" for cfg t \<sigma> K
  by unfold_locales
    (rule apart_skey list_ops_apart timer_ops_apart DestroyTCPStream_apart apart_others | assumption
      | (simp add: apart_def others_def core_def upd_defs flow_key_def; fail))+

text \<open>A stream that starts out apart.\<close>

lemma apart_start: "apart s (m_streams m) (flow_key (m_streams m s)) s m"
  by (simp add: apart_def)

lemmas sep_segment = sep.process_on_stream_keeps [OF apart_start]
lemmas sep_control = sep.SendControlPacket_keeps [OF apart_start]
lemmas sep_rto = sep.HandleRTO_keeps [OF apart_start]

end
