(* ===== verification/Engine_Steps.thy ===== *)
theory Engine_Steps
  imports Engine_Inv Stream_Sep
begin

text \<open>
  The creation of streams and the input path keep the invariant of the stack: new connections,
  received segments and received frames. A segment changes one stream at most.
\<close>

section \<open>Creation of a stream\<close>

lemma table_inv_add:
  assumes inv: "table_inv m" and s: "s \<notin> live m"
    and new: "StreamHTSearch (m_flow_table m) (m_streams m) x = None"
    and ins: "StreamHTInsert (m_flow_table m) ((m_streams m)(s := x)) s = Some (r, m_flow_table m', st)"
    and cnt: "m_flow_cnt m' = m_flow_cnt m + 1"
    and st: "\<And>y. y \<noteq> s \<Longrightarrow> m_streams m' y = m_streams m y"
    and x: "flow_key (m_streams m' s) = flow_key x" "on_hash_table (m_streams m' s)"
  shows "table_inv m' \<and> live m' = insert s (live m)"
proof -
  from inv obtain M where M: "ht_repr (m_flow_table m) (m_streams m) M" and fin: "finite (live m)"
    and n: "m_flow_cnt m = of_nat (card (live m))" and on: "\<forall>x \<in> live m. on_hash_table (m_streams m x)"
    by (auto simp: table_inv_def)
  define st1 where "st1 = (m_streams m)(s := x)"
  have st1: "st1 s = x" "\<And>y. y \<noteq> s \<Longrightarrow> st1 y = m_streams m y" by (simp_all add: st1_def)
  have s': "s \<notin> ran M" using s live_ran [OF M] by simp
  have M1: "ht_repr (m_flow_table m) st1 M" by (rule ht_repr_frame [OF M]) (use s' st1 in metis)
  have k: "M (flow_key (st1 s)) = None" using new ht_repr_search [OF M, of x] st1 by simp
  from ht_repr_insert [OF M1 k s'] ins [folded st1_def]
  have "ht_repr (m_flow_table m') (st1(s := (st1 s)\<lparr>ht_idx := TCP_AR_CNT\<rparr>)) (M(flow_key (st1 s) \<mapsto> s))"
    by auto
  then have M2: "ht_repr (m_flow_table m') (m_streams m') (M(flow_key x \<mapsto> s))"
    unfolding st1(1) by (rule ht_repr_frame) (use st st1 x in \<open>auto simp: flow_key_def\<close>)
  have "ran (M(flow_key x \<mapsto> s)) = insert s (ran M)" using k st1 by simp
  then have live: "live m' = insert s (live m)" using live_ran [OF M2] live_ran [OF M] by simp
  moreover have "\<forall>y \<in> insert s (live m). on_hash_table (m_streams m' y)" using on st x(2) by (metis insert_iff)
  then have "table_inv m'" unfolding table_inv_def live using M2 fin n s cnt by (auto simp: card_insert_if)
  ultimately show ?thesis by simp
qed

lemma engine_inv_add:
  assumes inv: "engine_inv cfg m" and s: "s \<notin> live m"
    and new: "StreamHTSearch (m_flow_table m) (m_streams m) x = None"
    and ins: "StreamHTInsert (m_flow_table m) ((m_streams m)(s := x)) s = Some (r, m_flow_table m', st)"
    and cnt: "m_flow_cnt m' = m_flow_cnt m + 1"
    and st: "\<And>y. y \<noteq> s \<Longrightarrow> m_streams m' y = m_streams m y"
    and x: "flow_key (m_streams m' s) = flow_key x" "on_hash_table (m_streams m' s)" "unlisted (m_streams m' s)"
      "nif_out (sndvar (m_streams m' s)) = fst (GetOutputInterface cfg (s_daddr (m_streams m' s)))"
    and pools: "pool.owns (m_flow_pool m') (insert s (live m))"
      "rv_chunk (m_streams m' s) \<notin> (\<lambda>y. rv_chunk (m_streams m y)) ` live m"
      "pool.owns (m_rv_pool m') (insert (rv_chunk (m_streams m' s)) ((\<lambda>y. rv_chunk (m_streams m y)) ` live m))"
      "sv_chunk (m_streams m' s) \<notin> (\<lambda>y. sv_chunk (m_streams m y)) ` live m"
      "pool.owns (m_sv_pool m') (insert (sv_chunk (m_streams m' s)) ((\<lambda>y. sv_chunk (m_streams m y)) ` live m))"
    and same: "m_senders m' = m_senders m" "m_rto_store m' = m_rto_store m" "m_timewait_list m' = m_timewait_list m"
      "m_timeout_list m' = m_timeout_list m" "m_rto_list_cnt m' = m_rto_list_cnt m"
      "m_timewait_list_cnt m' = m_timewait_list_cnt m" "m_timeout_list_cnt m' = m_timeout_list_cnt m"
  shows "live_inv cfg s m' \<and> live m' = insert s (live m)"
proof -
  note D = engine_invD [OF inv]
  have t: "table_inv m' \<and> live m' = insert s (live m)"
    by (rule table_inv_add [OF D(1) s new ins cnt _ x(1,2)]) (rule st)
  then have l: "live m' = insert s (live m)" by simp
  have sender: "sender_of cfg y m' = sender_of cfg y m" if "y \<noteq> s" for y
    by (rule sender_of_cong) (simp add: st [OF that])
  have A: "{y \<in> live m'. F (m_streams m' y) \<and> sender_of cfg y m' = k}
      = {y \<in> live m. F (m_streams m y) \<and> sender_of cfg y m = k}" if "\<not> F (m_streams m' s)" for F k
  proof (rule Collect_cong)
    show "y \<in> live m' \<and> F (m_streams m' y) \<and> sender_of cfg y m' = k
      \<longleftrightarrow> y \<in> live m \<and> F (m_streams m y) \<and> sender_of cfg y m = k" for y
      by (cases "y = s") (use that st sender l s in auto)
  qed
  have B: "{y \<in> live m'. F (m_streams m' y)} = {y \<in> live m. F (m_streams m y)}" if "\<not> F (m_streams m' s)" for F
  proof (rule Collect_cong)
    show "y \<in> live m' \<and> F (m_streams m' y) \<longleftrightarrow> y \<in> live m \<and> F (m_streams m y)" for y
      by (cases "y = s") (use that st l s in auto)
  qed
  have C: "(\<forall>y \<in> live m'. F (m_streams m' y)) \<longleftrightarrow> F (m_streams m' s) \<and> (\<forall>y \<in> live m. F (m_streams m y))" for F
    unfolding l using st s by (metis insert_iff)
  have img: "(\<lambda>y. f (m_streams m' y)) ` insert s (live m) = insert (f (m_streams m' s)) ((\<lambda>y. f (m_streams m y)) ` live m)"
    for f :: "tcp_stream \<Rightarrow> nat"
    using st s by (auto simp: image_iff) metis+
  have inj: "inj_on (\<lambda>y. f (m_streams m' y)) (insert s (live m))"
    if "inj_on (\<lambda>y. f (m_streams m y)) (live m)" "f (m_streams m' s) \<notin> (\<lambda>y. f (m_streams m y)) ` live m" for f :: "tcp_stream \<Rightarrow> nat"
    using that st s unfolding inj_on_def by (metis imageI insert_iff)
  from x(3) have u: "\<not> on_control_list (sndvar (m_streams m' s))" "\<not> on_send_list (sndvar (m_streams m' s))"
    "\<not> on_ack_list (sndvar (m_streams m' s))" "\<not> on_timewait_list (m_streams m' s)" "\<not> on_timeout_list (m_streams m' s)"
    "\<not> on_rto_idx (m_streams m' s) \<ge> 0" "\<And>i. \<not> on_rto_idx (m_streams m' s) = int i"
    by (auto simp: unlisted_def)
  have "pools_inv m'"
    unfolding pools_inv_def l img using D(2) pools inj by (simp add: pools_inv_def)
  moreover have "routes_inv cfg m'" using D(3) x(4) C [of "\<lambda>x. nif_out (sndvar x) = fst (GetOutputInterface cfg (s_daddr x))"]
    unfolding routes_inv_def by simp
  moreover have "control_inv cfg m'"
    using D(4) A [of "\<lambda>x. on_control_list (sndvar x)", OF u(1)] unfolding control_inv_def same by simp
  moreover have "send_inv cfg m'"
    using D(5) A [of "\<lambda>x. on_send_list (sndvar x)", OF u(2)] unfolding send_inv_def same by simp
  moreover have "ack_inv cfg m'"
    using D(6) A [of "\<lambda>x. on_ack_list (sndvar x)", OF u(3)] unfolding ack_inv_def same by simp
  moreover have "timewait_inv m'" using D(7) B [of on_timewait_list, OF u(4)] unfolding timewait_inv_def same by simp
  moreover have "timeout_inv cfg m'" using D(8) B [of on_timeout_list, OF u(5)] unfolding timeout_inv_def same by simp
  moreover have "rto_inv m'"
    using D(9) B [of "\<lambda>x. on_rto_idx x \<ge> 0", OF u(6)] B [of "\<lambda>x. on_rto_idx x = int i" for i, OF u(7)] u(6)
      C [of "\<lambda>x. on_rto_idx x \<le> RTO_HASH"] C [of "\<lambda>x. on_rto_idx x \<ge> 0 \<longrightarrow> \<not> on_timewait_list x"]
    unfolding rto_inv_def same by (simp add: RTO_HASH_def)
  ultimately show ?thesis using t by (simp add: engine_inv_def)
qed

lemma engine_inv_pools:
  assumes "engine_inv cfg m" "pool.owns fp (live m)" "pool.owns rp ((\<lambda>s. rv_chunk (m_streams m s)) ` live m)"
    "pool.owns vp ((\<lambda>s. sv_chunk (m_streams m s)) ` live m)"
  shows "engine_inv cfg (m\<lparr>m_flow_pool := fp, m_rv_pool := rp, m_sv_pool := vp\<rparr>)" (is "engine_inv cfg ?m")
proof -
  have "live ?m = live m" by (rule live_cong) simp
  then have "pools_inv ?m" using assms by (simp add: pools_inv_def engine_inv_def)
  moreover have "table_inv ?m \<and> routes_inv cfg ?m \<and> control_inv cfg ?m \<and> send_inv cfg ?m \<and> ack_inv cfg ?m
      \<and> timewait_inv ?m \<and> timeout_inv cfg ?m \<and> rto_inv ?m"
    by (intro conjI inv_frames [of ?m m]) (use assms in \<open>simp_all add: engine_inv_def\<close>)
  ultimately show ?thesis by (simp add: engine_inv_def)
qed

text \<open>What a chunk allocation does to the ownership, as a case distinction.\<close>

lemma alloc_cases:
  assumes "pool.owns p L" "MPAllocateChunk p = Some (c, p')"
  obtains s where "c = Some s" "s \<notin> L" "pool.owns p' (insert s L)" | "c = None" "p' = p"
  using pool.alloc_owns [OF assms(1)] assms(2) by auto

lemma free_again:
  assumes "pool.owns p (insert s L)" "s \<notin> L" "MPFreeChunk p s = Some p'" shows "pool.owns p' L"
  using pool.dealloc_owns [OF assms(1), of s] assms(2,3) by auto

lemma pools_swap: "m\<lparr>m_rv_pool := a, m_flow_pool := b\<rparr> = m\<lparr>m_flow_pool := b, m_rv_pool := a\<rparr>"
  by simp

definition created :: "mtcp_config \<Rightarrow> mtcp_manager \<Rightarrow> nat option \<times> mtcp_manager \<Rightarrow> bool" where
  "created cfg m r \<longleftrightarrow> (case r of (None, m') \<Rightarrow> engine_inv cfg m' \<and> live m' = live m \<and> m_streams m' = m_streams m
     | (Some s, m') \<Rightarrow> live_inv cfg s m' \<and> s \<notin> live m \<and> live m' = insert s (live m) \<and> others s (m_streams m) m')"

lemma created_fail:
  assumes "engine_inv cfg m" "pool.owns fp (live m)" "pool.owns rp ((\<lambda>s. rv_chunk (m_streams m s)) ` live m)"
    "pool.owns vp ((\<lambda>s. sv_chunk (m_streams m s)) ` live m)"
  shows "created cfg m (None, m\<lparr>m_flow_pool := fp, m_rv_pool := rp, m_sv_pool := vp\<rparr>)"
  using engine_inv_pools [OF assms] by (simp add: created_def live_def)

lemma created_add:
  assumes inv: "engine_inv cfg m"
    and new: "StreamHTSearch (m_flow_table m) (m_streams m)
      (zero_stream\<lparr>s_saddr := saddr, s_sport := sport, s_daddr := daddr, s_dport := dport\<rparr>) = None"
    and s: "s \<notin> live m" "pool.owns fp (insert s (live m))"
    and rv: "r \<notin> (\<lambda>s. rv_chunk (m_streams m s)) ` live m" "pool.owns rp (insert r ((\<lambda>s. rv_chunk (m_streams m s)) ` live m))"
    and sv: "v \<notin> (\<lambda>s. sv_chunk (m_streams m s)) ` live m" "pool.owns vp (insert v ((\<lambda>s. sv_chunk (m_streams m s)) ` live m))"
    and ins: "StreamHTInsert (m_flow_table m) ((m_streams m)(s := x)) s = Some (ret, ht, streams)"
    and x: "flow_key x = (saddr, sport, daddr, dport)" "unlisted (x\<lparr>on_rto_idx := - 1\<rparr>)" "rv_chunk x = r" "sv_chunk x = v"
    and m': "m' = upd_stream s (init_stream cfg socket type (fst (GetOutputInterface cfg daddr)) e i)
      ((set_sock_obj socket ob (m\<lparr>m_flow_pool := fp, m_rv_pool := rp, m_sv_pool := vp, m_g_id := g, m_flow_table := ht,
        m_flow_cnt := m_flow_cnt m + 1, m_streams := streams(s := (streams s)\<lparr>on_hash_table := True\<rparr>)\<rparr>))\<lparr>env_rand_n := n\<rparr>)"
  shows "created cfg m (Some s, m')"
proof -
  have search: "StreamHTSearch (m_flow_table m) (m_streams m) x = None"
    using new engine_invD(1) [OF inv] x(1) by (auto simp: table_inv_def ht_repr_search flow_key_def)
  have st: "streams = (m_streams m)(s := x\<lparr>ht_idx := TCP_AR_CNT\<rparr>)"
    using ins by (auto simp: StreamHTInsert_def Let_def Option.bind_eq_Some_conv split: if_splits)
  have "live_inv cfg s m' \<and> live m' = insert s (live m)"
    by (rule engine_inv_add [OF inv s(1) search, of ret m' streams])
      (use ins x s rv sv in \<open>simp_all add: m' upd_stream_def set_sock_obj_def init_stream_def st flow_key_def unlisted_def
        split: option.split\<close>)
  moreover have "others s (m_streams m) m'"
    by (auto simp: m' st upd_stream_def set_sock_obj_def others_def split: option.split)
  ultimately show ?thesis using s(1) by (simp add: created_def)
qed

lemma CreateTCPStream_inv:
  assumes inv: "engine_inv cfg m"
    and new: "StreamHTSearch (m_flow_table m) (m_streams m)
      (zero_stream\<lparr>s_saddr := saddr, s_sport := sport, s_daddr := daddr, s_dport := dport\<rparr>) = None"
  shows "post (created cfg m) (CreateTCPStream cfg socket type saddr sport daddr dport m)"
proof -
  have own: "pool.owns (m_flow_pool m) (live m)" "pool.owns (m_rv_pool m) ((\<lambda>s. rv_chunk (m_streams m s)) ` live m)"
    "pool.owns (m_sv_pool m) ((\<lambda>s. sv_chunk (m_streams m s)) ` live m)"
    using engine_invD(2) [OF inv] by (simp_all add: pools_inv_def)
  note fail = created_fail [OF inv] and add = created_add [OF inv new]
  show ?thesis
  proof (rule postI)
    fix res assume eq: "CreateTCPStream cfg socket type saddr sport daddr dport m = Some res"
    then obtain c fp where a1: "MPAllocateChunk (m_flow_pool m) = Some (c, fp)"
      by (auto simp: CreateTCPStream_def Option.bind_eq_Some_conv)
    from own(1) a1 show "created cfg m res"
    proof (cases rule: alloc_cases)
      case (1 s)
      from eq a1 1 obtain rc rp where a2: "MPAllocateChunk (m_rv_pool m) = Some (rc, rp)"
        by (auto simp: CreateTCPStream_def Option.bind_eq_Some_conv)
      from own(2) a2 show ?thesis
      proof (cases rule: alloc_cases)
        case r: (1 r)
        from eq a1 a2 1 r obtain vc vp where a3: "MPAllocateChunk (m_sv_pool m) = Some (vc, vp)"
          by (auto simp: CreateTCPStream_def Option.bind_eq_Some_conv)
        from own(3) a3 show ?thesis
        proof (cases rule: alloc_cases)
          case v: (1 v)
          define x where "x = zero_stream\<lparr>rv_chunk := r, sv_chunk := v, s_id := ucast (m_g_id m), s_saddr := saddr,
            s_sport := sport, s_daddr := daddr, s_dport := dport\<rparr>"
          have x: "flow_key x = (saddr, sport, daddr, dport)" "unlisted (x\<lparr>on_rto_idx := - 1\<rparr>)" "rv_chunk x = r"
            "sv_chunk x = v"
            by (simp_all add: x_def flow_key_def unlisted_def zero_stream_def zero_send_vars_def)
          from eq a1 a2 a3 1 r v obtain ht streams where ins: "StreamHTInsert (m_flow_table m) ((m_streams m)(s := x)) s = Some (0, ht, streams)"
            by (auto simp: CreateTCPStream_def Option.bind_eq_Some_conv upd_stream_def x_def StreamHTInsert_def Let_def
                split: if_splits prod.splits)
          then show ?thesis using eq a1 a2 a3 1 r v
            by (auto simp: CreateTCPStream_def upd_stream_def x_def [symmetric] next_rand_def set_sock_obj_def Let_def
                split: prod.splits option.splits intro!: add [OF 1(2,3) r(2,3) v(2,3) ins x])
        next
          case v: 2
          then show ?thesis using eq a1 a2 a3 1 r fail [OF free_again [OF 1(3,2)] free_again [OF r(3,2)] own(3)]
            by (auto simp: CreateTCPStream_def Option.bind_eq_Some_conv pools_swap)
        qed
      next
        case r: 2
        then show ?thesis using eq a1 a2 1 fail [OF free_again [OF 1(3,2)] own(2,3)]
          by (auto simp: CreateTCPStream_def Option.bind_eq_Some_conv)
      qed
    next
      case 2
      then show ?thesis using eq a1 fail [OF own] by (simp add: CreateTCPStream_def)
    qed
  qed
qed

section \<open>Received frames\<close>

text \<open>A new stream or none, with nothing else changed in the streams.\<close>

definition opened :: "mtcp_config \<Rightarrow> mtcp_manager \<Rightarrow> nat option \<times> mtcp_manager \<Rightarrow> bool" where
  "opened cfg m r \<longleftrightarrow> (case r of (None, m') \<Rightarrow> engine_inv cfg m' \<and> m_streams m' = m_streams m
     | (Some s, m') \<Rightarrow> live_inv cfg s m' \<and> s \<notin> live m \<and> others s (m_streams m) m')"

lemma created_opened: "created cfg m r \<Longrightarrow> opened cfg m r"
  by (auto simp: created_def opened_def split: prod.splits option.splits)

lemma opened_bind:
  assumes "post (opened cfg m) x"
    and "\<And>m'. engine_inv cfg m' \<Longrightarrow> m_streams m' = m_streams m \<Longrightarrow> post R (f None m')"
    and "\<And>s m'. live_inv cfg s m' \<Longrightarrow> s \<notin> live m \<Longrightarrow> others s (m_streams m) m' \<Longrightarrow> post R (f (Some s) m')"
  shows "post R (Option.bind x (\<lambda>(so, m). f so m))"
proof (cases x)
  case (Some r)
  obtain so m' where r: "r = (so, m')" by (cases r)
  show ?thesis using assms Some r by (cases so) (simp_all add: opened_def)
qed simp

lemma HandlePassiveOpen_inv:
  assumes "engine_inv cfg m" and "StreamHTSearch (m_flow_table m) (m_streams m)
      (zero_stream\<lparr>s_saddr := da, s_sport := th_dest h, s_daddr := sa, s_dport := th_source h\<rparr>) = None"
  shows "post (opened cfg m) (HandlePassiveOpen cfg ts sa da h seg seq wnd m)"
  unfolding HandlePassiveOpen_def Let_def
proof (rule opened_bind [OF post_weaken [OF CreateTCPStream_inv [OF assms] created_opened]], assumption, goal_cases)
  case (2 s m')
  define m1 where "m1 = upd_snd s (\<lambda>v. v\<lparr>cwnd := 1\<rparr>) (upd_stream s (\<lambda>x. x\<lparr>rcv_nxt := irs (rcvvar x)\<rparr>)
    (upd_snd s (\<lambda>v. v\<lparr>peer_wnd := ucast wnd\<rparr>) (upd_rcv s (\<lambda>v. v\<lparr>irs := seq\<rparr>) m')))"
  have "live_inv cfg s m1" using 2(1) by (simp add: m1_def skeys)
  moreover have "apart s (m_streams m) (flow_key (m_streams m' s)) s m1"
    using 2(3) by (simp add: m1_def apart_def others_def upd_defs flow_key_def)
  ultimately have "post (\<lambda>m2. live_inv cfg s m2 \<and> apart s (m_streams m) (flow_key (m_streams m' s)) s m2)
      (parse_options s ts h seg m1)"
    by (intro post_conj eng.parse_options_keeps sep.parse_options_keeps)
  then show ?case unfolding option.case m1_def [symmetric]
    by (rule post_bindI) (use 2(2) in \<open>auto simp: opened_def apart_others\<close>)
qed (simp add: opened_def)

lemma send_rst_rejects:
  assumes "engine_inv cfg m'" "m_streams m' = m_streams m"
  shows "post (opened cfg m) (Option.bind (send_rst cfg sa da h seq ack fl ts m') (\<lambda>m. Some (None, m)))"
proof -
  have "post (\<lambda>m1. engine_inv cfg m1 \<and> core m1 = core m') (send_rst cfg sa da h seq ack fl ts m')"
    using assms(1) send_rst_quiet [OF refl, of m'] by (intro post_conj eng.quietQ(1)) (simp_all add: quiet_def)
  then show ?thesis by (rule post_bindI) (use assms(2) in \<open>auto simp: opened_def dest: core_streams\<close>)
qed

lemma CreateNewFlowHTEntry_inv:
  assumes "engine_inv cfg m" and "StreamHTSearch (m_flow_table m) (m_streams m)
      (zero_stream\<lparr>s_saddr := da, s_sport := th_dest h, s_daddr := sa, s_dport := th_source h\<rparr>) = None"
  shows "post (opened cfg m) (CreateNewFlowHTEntry cfg ts sa da h seg seq ack len wnd m)"
proof -
  have open1: "post (opened cfg m) (Option.bind (HandlePassiveOpen cfg ts sa da h seg seq wnd m)
      (\<lambda>(so, m). case so of None \<Rightarrow> Option.bind (send_rst cfg sa da h 0 n fl ts m) (\<lambda>m. Some (None, m))
        | Some s \<Rightarrow> Some (Some s, m)))" for n fl
    by (rule opened_bind [OF HandlePassiveOpen_inv [OF assms]]) (auto simp: send_rst_rejects opened_def)
  show ?thesis unfolding CreateNewFlowHTEntry_def
    by (rule post_if post_bind_any [of "FilterSYNPacket _ _ _ _"] open1 send_rst_rejects [OF assms(1) refl])+
      (use assms(1) in \<open>auto simp: opened_def send_rst_rejects\<close>)
qed

lemma found_live:
  assumes "engine_inv cfg m" "StreamHTSearch (m_flow_table m) (m_streams m) k = Some s"
  shows "s \<in> live m"
proof -
  from assms(1) obtain M where M: "ht_repr (m_flow_table m) (m_streams m) M"
    by (auto simp: engine_inv_def table_inv_def)
  then show ?thesis using ht_repr_search [OF M, of k] assms(2) live_ran [OF M] by (auto intro: ranI)
qed

text \<open>A segment changes one stream at most: the one it is addressed to, or a new one.\<close>

definition touched :: "mtcp_config \<Rightarrow> mtcp_manager \<Rightarrow> nat option \<Rightarrow> int \<times> mtcp_manager \<Rightarrow> bool" where
  "touched cfg m so r \<longleftrightarrow> engine_inv cfg (snd r) \<and> (\<forall>x \<in> live m. so \<noteq> Some x \<longrightarrow> m_streams (snd r) x = m_streams m x)"

lemma ProcessTCPPacket_touched:
  assumes inv: "engine_inv cfg m" and h: "read_tcphdr seg = Some h"
  shows "post (touched cfg m (StreamHTSearch (m_flow_table m) (m_streams m)
      (zero_stream\<lparr>s_saddr := da, s_sport := th_dest h, s_daddr := sa, s_dport := th_source h\<rparr>)))
    (ProcessTCPPacket cfg ts nif ihl sa da len seg m)" (is "post (touched cfg m ?so) _")
proof -
  have run: "post (touched cfg m ?so) (Option.bind (process_on_stream cfg ts s sa da h seg pl m1) (\<lambda>m. Some (1, m)))"
    if "live_inv cfg s m1" "others s (m_streams m) m1" "?so = Some s \<or> s \<notin> live m" for s m1 pl
    by (rule post_bindI [OF post_conj [OF eng.process_on_stream_keeps [OF that(1)] sep_segment]])
      (use that(2,3) in \<open>auto simp: touched_def others_def\<close>)
  have start: "post (touched cfg m ?so) (Option.bind (case ?so of Some s \<Rightarrow> Some (Some s, m)
        | None \<Rightarrow> CreateNewFlowHTEntry cfg ts sa da h seg sq ak pl wnd m)
      (\<lambda>(so, m). case so of None \<Rightarrow> Some (1, m)
        | Some s \<Rightarrow> Option.bind (process_on_stream cfg ts s sa da h seg pl m) (\<lambda>m. Some (1, m))))" for sq ak pl wnd
  proof (cases ?so)
    case None
    show ?thesis unfolding None option.case
      by (rule opened_bind [OF CreateNewFlowHTEntry_inv [OF inv None]]) (use run in \<open>auto simp: touched_def None\<close>)
  next
    case (Some s)
    then show ?thesis using run [where s = s and ?m1.0 = m and pl = pl] found_live [OF inv Some] inv by (simp add: others_def)
  qed
  have same: "post (touched cfg m ?so) (Some (r, m))" for r using inv by (simp add: touched_def)
  show ?thesis unfolding ProcessTCPPacket_def Let_def h Option.bind.simps
    by (rule post_if start same | rule post_bind_any)+
qed

lemma ProcessTCPPacket_inv:
  assumes "engine_inv cfg m"
  shows "post (\<lambda>(r, m'). engine_inv cfg m') (ProcessTCPPacket cfg ts nif ihl sa da len seg m)"
proof (cases "read_tcphdr seg")
  case (Some h)
  show ?thesis by (rule post_weaken [OF ProcessTCPPacket_touched [OF assms Some]]) (auto simp: touched_def)
qed (simp add: ProcessTCPPacket_def)

lemma ProcessIPv4Packet_inv:
  assumes "engine_inv cfg m"
  shows "post (\<lambda>(r, m'). engine_inv cfg m') (ProcessIPv4Packet cfg ts nif pkt m)"
  unfolding ProcessIPv4Packet_def Let_def
  by (rule post_if ProcessTCPPacket_inv [OF assms] eng.quietQ(2) [OF ProcessICMPPacket_quiet [OF refl] assms]
      eng.someQ(2) assms | rule post_bind_any)+

lemma ProcessPacket_inv:
  assumes "engine_inv cfg m"
  shows "post (\<lambda>(r, m'). engine_inv cfg m') (ProcessPacket cfg nif ts pkt m)"
  unfolding ProcessPacket_def Let_def
  by (rule post_if ProcessIPv4Packet_inv post_bindI [OF eng.quietQ(1) [OF ProcessARPPacket_quiet [OF refl] assms]]
      eng.someQ(2) assms | rule post_bind_any | assumption)+

lemma process_frames_inv: "engine_inv cfg m \<Longrightarrow> post (engine_inv cfg) (process_frames cfg ts fs m)"
proof (induction fs arbitrary: m)
  case (Cons f fs)
  obtain nif pkt where f: "f = (nif, pkt)" by (cases f)
  have "post (engine_inv cfg) (case pkt of Some p \<Rightarrow> do { (r, m) \<leftarrow> ProcessPacket cfg nif ts p m; Some m } | None \<Rightarrow> Some m)"
    using Cons.prems by (auto split: option.split intro!: post_bind2 [OF ProcessPacket_inv])
  then show ?case unfolding f process_frames.simps by (rule post_bindI) (rule Cons.IH)
qed simp

end
