(* ===== verification/Api_Steps.thy ===== *)
theory Api_Steps
  imports Api_Data Engine_Steps
begin

text \<open>
  What the calls of the application do to the state of the stack. Calls on pipes, epoll objects,
  listeners and unconnected sockets leave its core alone; the others work on the stream behind the
  socket only, in fields that the lists and the table do not depend on, and \<open>mtcp_connect\<close> adds a
  stream.
\<close>

section \<open>Calls that leave the core alone\<close>

lemma quiet_Let [quiet_intros]:
  "quiet m (f x) \<Longrightarrow> quiet m (Let x f)" "quiet2 m (g x) \<Longrightarrow> quiet2 m (Let x g)"
  by (simp_all add: Let_def)

lemma core_upd [simp]:
  "core (upd_socket k f m) = core m" "core (upd_pipe p g m) = core m" "core (snd (next_alloc m)) = core m"
  by (simp_all add: upd_socket_def upd_pipe_def next_alloc_def)

lemma next_alloc_core: "next_alloc m = (b, m') \<Longrightarrow> core m' = core m"
  by (auto simp: next_alloc_def)

lemma with_manager_quiet [quiet_intros]:
  "core m1 = core m \<Longrightarrow> (\<And>c. quiet2 m (f c m1)) \<Longrightarrow> quiet2 m (with_manager mctx f m1)"
  "core m1 = core m \<Longrightarrow> (\<And>k. quiet2 m (g k m1)) \<Longrightarrow> quiet2 m (with_socket cfg sockid g m1)"
  "(\<And>c. quiet2 m (h c m1)) \<Longrightarrow> quiet2 m (raw_manager mctx h m1)"
  by (auto simp: with_manager_def with_socket_def raw_manager_def quiet2_def split: sum.split option.split)

lemma AllocateSocket_loop_quiet:
  "AllocateSocket_loop m1 = Some r \<Longrightarrow> core m1 = core m \<Longrightarrow> core (snd r) = core m"
proof (induction rule: AllocateSocket_loop.raw_induct [rotated, consumes 1, case_names step])
  case (step f m1 r)
  then show ?case by (auto split: list.splits if_splits)
qed

lemma AllocateSocket_quiet [quiet_ops]: "core m1 = core m \<Longrightarrow> quiet2 m (AllocateSocket ty m1)"
  unfolding AllocateSocket_def quiet2_def post_def
  using AllocateSocket_loop_quiet [of m1 _ m]
  by (fastforce simp: Option.bind_eq_Some_conv split: option.splits)

lemma FreeSocket_quiet [quiet_ops]: "core m1 = core m \<Longrightarrow> quiet m (FreeSocket k m1)"
  unfolding FreeSocket_def by (rule quiet_intros | rule quiet_bind_any | (simp; fail))+

lemma ep_add_event_quiet [quiet_ops]: "core m1 = core m \<Longrightarrow> quiet m (ep_add_event e qt k ev m1)"
  unfolding ep_add_event_def prod.case
  by (rule quiet_intros | rule quiet_bind_any | (simp; fail))+

lemma RaiseEventToPair_quiet [quiet_ops]: "core m1 = core m \<Longrightarrow> quiet m (RaiseEventToPair k ev m1)"
  unfolding RaiseEventToPair_def
  by (rule quiet_ops quiet_intros | rule quiet_bind_any | (simp; fail))+

lemma free_pair_quiet [quiet_ops]: "core m1 = core m \<Longrightarrow> quiet2 m (free_pair k0 k1 m1)"
  unfolding free_pair_def by (rule quiet_ops quiet_intros | (simp; fail))+

lemma mtcp_pipe_quiet [quiet_ops]: "core m1 = core m \<Longrightarrow> quiet2 m (mtcp_pipe buf mctx m1)"
  unfolding mtcp_pipe_def next_alloc_def prod.case
  by (rule quiet_ops quiet_intros | rule quiet_bind_any | (simp; fail))+

lemma PipeRead_quiet [quiet_ops]: "core m1 = core m \<Longrightarrow> quiet2 m (PipeRead cfg mctx k len m1)"
  unfolding PipeRead_def with_pipe_def PipeRead_wait_def PipeRead_copy_def
  by (rule quiet_ops quiet_intros | rule quiet_bind_any | (simp; fail))+

lemma PipeWrite_quiet [quiet_ops]: "core m1 = core m \<Longrightarrow> quiet2 m (PipeWrite cfg mctx k buf len m1)"
  unfolding PipeWrite_def with_pipe_def PipeWrite_wait_def PipeWrite_copy_def
  by (rule quiet_ops quiet_intros | rule quiet_bind_any | (simp; fail))+

lemma RaisePendingPipeEvents_quiet [quiet_ops]:
  "core m1 = core m \<Longrightarrow> quiet2 m (RaisePendingPipeEvents cfg epid k m1)"
  unfolding RaisePendingPipeEvents_def Let_def
  by (rule quiet_ops quiet_intros | rule quiet_bind_any | (simp; fail))+

lemma quiet_case_enums [quiet_intros]:
  "quiet2 m a \<Longrightarrow> quiet2 m b \<Longrightarrow> quiet2 m c \<Longrightarrow>
     quiet2 m (case p of PIPE_CLOSED \<Rightarrow> a | PIPE_ACTIVE \<Rightarrow> b | PIPE_CLOSE_WAIT \<Rightarrow> c)"
  by (simp split: pipe_state.split)

lemma PipeClose_quiet [quiet_ops]: "core m1 = core m \<Longrightarrow> quiet2 m (PipeClose cfg mctx k m1)"
  unfolding PipeClose_def
  by (rule quiet_ops quiet_intros | rule quiet_bind_any | (simp; fail))+

lemma next_event_queue_core: "next_event_queue n m1 = (q, m2) \<Longrightarrow> core m2 = core m1"
  by (auto simp: next_event_queue_def next_alloc_def split: if_splits)

lemma drop_socket_quiet [quiet_ops]: "core m1 = core m \<Longrightarrow> quiet2 m (drop_socket k m1)"
  unfolding drop_socket_def by (rule quiet_ops quiet_intros | (simp; fail))+

lemma mtcp_epoll_create_quiet [quiet_ops]: "core m1 = core m \<Longrightarrow> quiet2 m (mtcp_epoll_create mctx n m1)"
  unfolding mtcp_epoll_create_def next_alloc_def prod.case
  by (rule quiet_ops quiet_intros | rule quiet_bind_any | (simp; fail)
      | (auto dest!: next_event_queue_core split: if_splits; fail))+

lemma mtcp_epoll_create1_quiet [quiet_ops]: "core m1 = core m \<Longrightarrow> quiet2 m (mtcp_epoll_create1 cfg mctx fl m1)"
  unfolding mtcp_epoll_create1_def
  by (rule quiet_ops quiet_intros | rule quiet_bind_any | (simp; fail))+

lemma CloseEpollSocket_quiet [quiet_ops]: "core m1 = core m \<Longrightarrow> quiet2 m (CloseEpollSocket mctx k m1)"
  unfolding CloseEpollSocket_def
  by (rule quiet_ops quiet_intros | rule quiet_bind_any | (simp; fail))+

lemma RaisePendingStreamEvents_quiet [quiet_ops]:
  "core m1 = core m \<Longrightarrow> quiet2 m (RaisePendingStreamEvents e k m1)"
  unfolding RaisePendingStreamEvents_def Let_def
  by (rule quiet_ops quiet_intros | rule quiet_bind_any | (simp; fail))+

lemma register_events_quiet [quiet_ops]:
  "core m1 = core m \<Longrightarrow> quiet2 m (register_events cfg epid e sockid k ev m1)"
  unfolding register_events_def Let_def
  by (rule quiet_ops quiet_intros | (simp; fail))+

lemma mtcp_epoll_ctl_quiet [quiet_ops]:
  "core m1 = core m \<Longrightarrow> quiet2 m (mtcp_epoll_ctl cfg mctx epid op sockid ev m1)"
  unfolding mtcp_epoll_ctl_def
  by (cases op; cases ev; simp only: prod.case epoll_op.case option.case;
      (rule quiet_ops quiet_intros | rule quiet_bind_any | (simp; fail))+)

lemma fetch_queues_quiet: "fetch_queues e k m1 = Some (evs, m2) \<Longrightarrow> core m2 = core m1"
  unfolding fetch_queues_def Let_def
  by (clarsimp simp: Option.bind_eq_Some_conv simp del: fetch_events.simps)

lemma epoll_wait_loop_quiet:
  "epoll_wait_loop e k t m1 = Some r \<Longrightarrow> core (snd r) = core m1"
proof (induction rule: epoll_wait_loop.raw_induct [rotated, consumes 1, case_names step])
  case (step f e k t m1 r)
  have rec: "post (\<lambda>r'. core (snd r') = core m1) (f e k t m2)" if "core m2 = core m1" for m2
    using step.IH that by (simp add: post_def)
  show ?case
    by (rule postD [OF _ step.hyps])
      (rule post_if post_bind_any post_case_prod rec | (simp; fail) | (rule fetch_queues_quiet, simp; fail)
        | (auto dest: fetch_queues_quiet; fail))+
qed

lemma epoll_wait_loop_quiet2 [quiet_ops]: "core m1 = core m \<Longrightarrow> quiet2 m (epoll_wait_loop e k t m1)"
  using epoll_wait_loop_quiet by (fastforce simp: quiet2_def post_def)

lemma mtcp_epoll_wait_quiet [quiet_ops]:
  "core m1 = core m \<Longrightarrow> quiet2 m (mtcp_epoll_wait cfg mctx epid ok k t m1)"
  unfolding mtcp_epoll_wait_def
  by (rule quiet_ops quiet_intros | rule quiet_bind_any | (simp; fail))+

lemma epoll_wait_resume_quiet [quiet_ops]: "core m1 = core m \<Longrightarrow> quiet2 m (epoll_wait_resume ek e k t m1)"
  unfolding epoll_wait_resume_def Let_def
  by (rule quiet_ops quiet_intros | (simp; fail))+

lemma socket_calls_quiet [quiet_ops]:
  "core m1 = core m \<Longrightarrow> quiet2 m (mtcp_getsockname cfg mctx k n m1)"
  "core m1 = core m \<Longrightarrow> quiet2 m (mtcp_getpeername cfg mctx k n m1)"
  "core m1 = core m \<Longrightarrow> quiet2 m (mtcp_getsockopt cfg mctx k so err m1)"
  "core m1 = core m \<Longrightarrow> quiet2 m (mtcp_setsockopt cfg mctx k m1)"
  "core m1 = core m \<Longrightarrow> quiet2 m (mtcp_setsock_nonblock cfg mctx k m1)"
  "core m1 = core m \<Longrightarrow> quiet2 m (mtcp_socket mctx inet ty m1)"
  "core m1 = core m \<Longrightarrow> quiet2 m (mtcp_bind cfg mctx k addr m1)"
  "core m1 = core m \<Longrightarrow> quiet2 m (CloseListeningSocket mctx j m1)"
  "core m1 = core m \<Longrightarrow> quiet2 m (connect_poll st m1)"
  unfolding mtcp_getsockname_def mtcp_getpeername_def mtcp_getsockopt_def mtcp_setsockopt_def
    mtcp_setsock_nonblock_def mtcp_socket_def mtcp_bind_def CloseListeningSocket_def connect_poll_def
  by (rule quiet_ops quiet_intros | rule quiet_bind_any | (simp; fail))+

lemma mtcp_socket_ioctl_quiet [quiet_ops]:
  "core m1 = core m \<Longrightarrow> quiet2 m (mtcp_socket_ioctl cfg mctx k req arg m1)"
  unfolding mtcp_socket_ioctl_def
  by (cases req; simp only: ioctl_request.case)
    (rule quiet_ops quiet_intros | rule quiet_bind_any | (simp; fail))+

lemma ListenerHTInsert_quiet [quiet_ops]: "core m1 = core m \<Longrightarrow> quiet2 m (ListenerHTInsert l m1)"
  unfolding ListenerHTInsert_def
  by (rule quiet_intros | rule quiet_bind_any | (simp; fail))+

lemma mtcp_listen_quiet [quiet_ops]: "core m1 = core m \<Longrightarrow> quiet2 m (mtcp_listen cfg mctx k backlog m1)"
  unfolding mtcp_listen_def next_alloc_def prod.case
  by (rule quiet_ops quiet_intros | rule quiet_bind_any | (simp; fail) | (auto split: if_splits; fail))+

lemma mtcp_init_rss_quiet [quiet_ops]:
  "core m1 = core m \<Longrightarrow> quiet2 m (mtcp_init_rss cfg mctx sa n da dp m1)"
  unfolding mtcp_init_rss_def next_alloc_def prod.case
  by (cases "GetMTCPManager mctx m1"; simp only: sum.case)
    (rule quiet_ops quiet_intros | rule quiet_bind_any | (simp; fail) | (auto split: if_splits; fail))+

lemma connect_address_quiet [quiet_ops]: "core m1 = core m \<Longrightarrow> quiet2 m (connect_address cfg c k da m1)"
  unfolding connect_address_def Let_def
  by (rule quiet_ops quiet_intros | rule quiet_bind_any
      | (auto simp: Option.bind_eq_Some_conv split: if_splits option.splits; fail))+

section \<open>Calls on the stream of a socket\<close>

lemma with_post:
  "R (Fail (Some EINVAL), m) \<Longrightarrow> R (Fail (Some EPERM), m) \<Longrightarrow> (\<And>c. post R (f c m)) \<Longrightarrow> post R (with_manager mctx f m)"
  "R (Fail (Some EBADF), m) \<Longrightarrow> post R (g (nat sockid) m) \<Longrightarrow> post R (with_socket cfg sockid g m)"
  by (auto simp: with_manager_def with_socket_def GetMTCPManager_def split: sum.split option.split)

lemma post_case_api:
  "(\<And>x. r = Ret x \<Longrightarrow> post R (f x)) \<Longrightarrow> (\<And>e. r = Fail e \<Longrightarrow> post R (g e)) \<Longrightarrow> (r = Wait \<Longrightarrow> post R w) \<Longrightarrow>
     post R (case r of Ret x \<Rightarrow> f x | Fail e \<Rightarrow> g e | Wait \<Rightarrow> w)"
  by (cases r) simp_all

lemma post_case_sum:
  "(\<And>x. r = Inl x \<Longrightarrow> post R (f x)) \<Longrightarrow> (\<And>x. r = Inr x \<Longrightarrow> post R (g x)) \<Longrightarrow>
     post R (case r of Inl x \<Rightarrow> f x | Inr x \<Rightarrow> g x)"
  by (cases r) simp_all

context stream_step
begin

lemma next_alloc_P: "next_alloc m = (b, m') \<Longrightarrow> P s m \<Longrightarrow> P s m'"
  by (erule other [OF _ next_alloc_core])

lemma api_P [simp]:
  "P s m \<Longrightarrow> P s (m\<lparr>m_ackq := q, m_wakeup_flag := b\<rparr>)" "P s m \<Longrightarrow> P s (m\<lparr>m_sendq := q, m_wakeup_flag := b\<rparr>)"
  "P s m \<Longrightarrow> P s (m\<lparr>m_closeq := q, m_wakeup_flag := b\<rparr>)" "P s m \<Longrightarrow> P s (m\<lparr>m_resetq := q, m_wakeup_flag := b\<rparr>)"
  "P s m \<Longrightarrow> P s (m\<lparr>m_destroyq := q, m_wakeup_flag := b\<rparr>)" "P s m \<Longrightarrow> P s (m\<lparr>m_rbm_rcv := rbm\<rparr>)"
  "P s m \<Longrightarrow> P s (m\<lparr>m_rbm_snd := sbm\<rparr>)" "P s m \<Longrightarrow> P s (upd_socket k f m)"
  "P s m \<Longrightarrow> P s (m\<lparr>m_listeners := ls\<rparr>)"
  by (erule other, simp)+

lemma advertise_window_keeps: "P s m \<Longrightarrow> kp s (advertise_window s m)"
  unfolding advertise_window_def Let_def
  by (rule stepP someP | rule post_bind_any | (simp add: skeys; fail))+

lemma CopyToUser_keeps: "P s m \<Longrightarrow> kp2 s (CopyToUser s len m)"
  unfolding CopyToUser_def Let_def
  by (rule stepP bindP [where s = s] someP advertise_window_keeps | rule post_bind_any | (simp; fail))+

lemma readv_loop_keeps: "P s m \<Longrightarrow> kp2 s (readv_loop s lens acc m)"
  by (induction lens arbitrary: acc m)
    (auto intro!: bindP(2) [where s = s, OF CopyToUser_keeps] split: api.split)

lemma CopyFromUser_keeps: "P s m \<Longrightarrow> kp2 s (CopyFromUser s buf len m)"
  unfolding CopyFromUser_def Let_def
  by (rule stepP someP bindP(2) [where s = s] | (drule (1) next_alloc_P; fail) | rule post_bind_any
      | (simp add: skeys next_alloc_P; fail))+

lemma writev_loop_keeps: "P s m \<Longrightarrow> kp2 s (writev_loop s iov n m)"
proof (induction iov arbitrary: n m)
  case (Cons buf iov)
  then show ?case unfolding writev_loop.simps
    by - (rule stepP post_case_api someP bindP(2) [where s = s, OF CopyFromUser_keeps] Cons.IH
        | assumption | rule post_bind_any)+
qed simp

lemma after_write_keeps: "P s m \<Longrightarrow> kp s (after_write k s b m)"
  unfolding after_write_def Let_def
  by (rule stepP bindP [where s = s] someP quiets | rule post_bind_any | (simp add: skeys; fail))+

text \<open>\<open>P\<close> holds of the stream behind the socket, if there is one.\<close>

abbreviation owned :: "nat \<Rightarrow> mtcp_manager \<Rightarrow> bool" where
  "owned k m \<equiv> \<forall>s. so_obj (m_smap m k) = StreamObj s \<longrightarrow> P s m"

lemma owned_stream: "owned k m \<Longrightarrow> socket_stream (m_smap m k) = Some (Some s) \<Longrightarrow> P s m"
  by (auto simp: socket_stream_def split: socket_obj.splits)

lemma read_ready_stream: "read_ready k so m = Inr s \<Longrightarrow> so = Some s"
  by (auto simp: read_ready_def Let_def split: option.splits if_splits)

lemma read_ready_P:
  "read_ready k so m = Inr s \<Longrightarrow> socket_stream (m_smap m k) = Some so \<Longrightarrow> owned k m \<Longrightarrow> P s m"
  using read_ready_stream owned_stream by blast

lemma mtcp_recv_keeps:
  assumes Q: "Q m" and own: "owned (nat sockid) m"
  shows "kq2 (mtcp_recv cfg mctx sockid len flags m)"
proof -
  have body: "kq2 (do {
      (ret, m) \<leftarrow> (if flags = 0 then CopyToUser s n m else do { r \<leftarrow> PeekForUser s n m; Some (r, m) });
      ev \<leftarrow> event_remaining k s (g ret) m;
      m \<leftarrow> (if ev \<and> so_epoll (m_smap m k) \<noteq> 0 then mtcp_add_event USR_SHADOW_EVENT_QUEUE k MTCP_EPOLLIN m else Some m);
      Some (ret, m) })" if "P s m" for s k n and g :: "byte list api \<Rightarrow> int"
    by (rule toQ(2) [where s = s]) (rule that | rule stepP someP quiets bindP [where s = s] CopyToUser_keeps | assumption
      | rule post_bind_any)+
  show ?thesis
    unfolding mtcp_recv_def
    by (rule with_post post_if post_case_sum quietQ(2) [OF PipeRead_quiet [OF refl] Q]
      | (rule body, erule read_ready_P, assumption, rule own) | rule post_bind_any | (simp add: Q; fail))+
qed

lemma mtcp_readv_keeps:
  assumes Q: "Q m" and own: "owned (nat sockid) m"
  shows "kq2 (mtcp_readv cfg mctx sockid lens m)"
proof -
  have body: "kq2 (do {
      (data, m) \<leftarrow> readv_loop s lens [] m;
      ev \<leftarrow> event_remaining k s (int (length data)) m;
      m \<leftarrow> (if ev \<and> has_opt (so_epoll (m_smap m k)) MTCP_EPOLLIN \<and> \<not> has_opt (so_epoll (m_smap m k)) MTCP_EPOLLET
            then mtcp_add_event USR_SHADOW_EVENT_QUEUE k MTCP_EPOLLIN m else Some m);
      Some (Ret data, m) })" if "P s m" for s k
    by (rule toQ(2) [where s = s]) (rule that | rule stepP someP quiets bindP [where s = s] readv_loop_keeps | assumption
      | rule post_bind_any)+
  show ?thesis
    unfolding mtcp_readv_def
    by (rule with_post post_if post_case_sum
      | (rule body, erule read_ready_P, assumption, rule own) | rule post_bind_any | (simp add: Q; fail))+
qed

lemma mtcp_write_keeps:
  assumes Q: "Q m" and own: "owned (nat sockid) m"
  shows "kq2 (mtcp_write cfg mctx sockid buf m)"
proof -
  have body: "kq2 (do {
      (ret, m) \<leftarrow> CopyFromUser s buf n m;
      m \<leftarrow> after_write k s (b ret) m;
      Some (g ret m, m) })" if "P s m" for s k n and b :: "int api \<Rightarrow> bool" and g :: "int api \<Rightarrow> mtcp_manager \<Rightarrow> int api"
    by (rule toQ(2) [where s = s]) (rule that | rule someP bindP [where s = s] CopyFromUser_keeps after_write_keeps | assumption)+
  show ?thesis
    unfolding mtcp_write_def
    by (rule with_post post_if post_case_option quietQ(2) [OF PipeWrite_quiet [OF refl] Q]
      | (rule body, rule owned_stream [OF own], simp; fail) | rule post_bind_any | (simp add: Q; fail))+
qed

lemma mtcp_writev_keeps:
  assumes Q: "Q m" and own: "owned (nat sockid) m"
  shows "kq2 (mtcp_writev cfg mctx sockid iov m)"
proof -
  have body: "kq2 (do {
      (n, m) \<leftarrow> writev_loop s iov 0 m;
      m \<leftarrow> after_write k s (n > 0) m;
      Some (g n m, m) })" if "P s m" for s k and g :: "int \<Rightarrow> mtcp_manager \<Rightarrow> int api"
    by (rule toQ(2) [where s = s]) (rule that | rule someP bindP [where s = s] writev_loop_keeps after_write_keeps | assumption)+
  show ?thesis
    unfolding mtcp_writev_def
    by (rule with_post post_if post_case_option
      | (rule body, rule owned_stream [OF own], simp; fail) | rule post_bind_any | (simp add: Q; fail))+
qed

lemma accept_stream_keeps: "P s m \<Longrightarrow> kp2 s (accept_stream l s m)"
  unfolding accept_stream_def Let_def
  by (rule stepP someP quiets bindP [where s = s] quietP(2) [OF AllocateSocket_quiet [OF refl]]
      | rule post_bind_any | (simp add: skeys; fail))+

lemma accept_dequeue_keeps:
  assumes Q: "Q m" and head: "\<And>s q. StreamDequeue (l_acceptq (m_listeners m l)) = Some (Some s, q) \<Longrightarrow> P s m"
  shows "kq2 (accept_dequeue l m)"
proof -
  have "kq2 (accept_stream l s (m\<lparr>m_listeners := ls\<rparr>))"
    if "StreamDequeue (l_acceptq (m_listeners m l)) = Some (Some s, q)" for s q ls
    by (rule toQ(2) [where s = s], rule accept_stream_keeps, rule api_P(9), rule head, rule that)
  moreover have "Q (m\<lparr>m_listeners := ls\<rparr>)" for ls by (rule other_Q [OF Q]) simp
  ultimately show ?thesis
    unfolding accept_dequeue_def Let_def
    by - (rule stepP | rule post_bind_any | (simp; fail))+
qed

lemma mtcp_accept_keeps:
  assumes Q: "Q m"
    and head: "\<And>l s q. so_obj (m_smap m (nat sockid)) = ListenerObj l \<Longrightarrow>
      StreamDequeue (l_acceptq (m_listeners m l)) = Some (Some s, q) \<Longrightarrow> P s m"
  shows "kq2 (mtcp_accept cfg mctx sockid m)"
proof -
  have "kq2 (accept_dequeue l m)" if "socket_listener (m_smap m (nat sockid)) = Some (Some l)" for l
    using that by (intro accept_dequeue_keeps [OF Q] head) (auto simp: socket_listener_def split: socket_obj.splits)
  then show ?thesis
    unfolding mtcp_accept_def
    by - (rule with_post post_if | rule post_bind_any | (simp add: Q; fail))+
qed

lemma accept_resume_keeps:
  assumes Q: "Q m" and head: "\<And>s q. StreamDequeue (l_acceptq (m_listeners m l)) = Some (Some s, q) \<Longrightarrow> P s m"
  shows "kq2 (accept_resume l m)"
  using accept_dequeue_keeps [OF Q head, of l] Q by (simp add: accept_resume_def)

lemma enqueue_destroy_keeps: "P s m \<Longrightarrow> kp s (enqueue_destroy s m)"
  unfolding enqueue_destroy_def by (rule stepP | rule post_bind_any | (simp; fail))+

lemma CloseStreamSocket_keeps:
  assumes Q: "Q m" and own: "owned k m"
  shows "kq2 (CloseStreamSocket mctx k m)"
proof -
  have body: "kq2 (if s_closed (m_streams m s) then Some (Ret 0, m)
      else do {
        let m = upd_stream s (\<lambda>x. x\<lparr>s_closed := True, s_socket := None\<rparr>) m;
        let st = s_state (m_streams m s);
        if st = TCP_ST_CLOSED then do { m \<leftarrow> enqueue_destroy s m; Some (Ret 0, m) }
        else if st = TCP_ST_SYN_SENT then do { m \<leftarrow> enqueue_destroy s m; Some (Fail None, m) }
        else if st \<noteq> TCP_ST_ESTABLISHED \<and> st \<noteq> TCP_ST_CLOSE_WAIT then fail EBADF m
        else do {
          let m = upd_snd s (\<lambda>v. v\<lparr>on_closeq := True\<rparr>) m;
          (ret, q) \<leftarrow> StreamEnqueue (m_closeq m) s;
          let m = m\<lparr>m_closeq := q, m_wakeup_flag := True\<rparr>;
          if ret < 0 then fail EAGAIN m else Some (Ret 0, m)
        }
      })" if "P s m" for s
    unfolding Let_def
    by (rule toQ(2) [where s = s]) (rule post_if post_case_prod bindP(1) [where s = s] enqueue_destroy_keeps
      | rule post_bind_any | (simp add: that skeys; fail))+
  show ?thesis
    unfolding CloseStreamSocket_def
    by (rule with_post post_case_option | (rule body, rule owned_stream [OF own], simp; fail) | rule post_bind_any
      | (simp add: Q; fail))+
qed

lemma mtcp_close_keeps:
  assumes Q: "Q m" and own: "owned (nat sockid) m"
  shows "kq2 (mtcp_close cfg mctx sockid m)"
proof -
  have free: "kq2 (do { m \<leftarrow> FreeSocket k m; Some (r, m) })" if "Q m" for k m and r :: "int api"
    by (rule bindQ, rule quietQ(1) [OF FreeSocket_quiet [OF refl] that]) simp
  have close: "kq2 (case ty of
            MTCP_SOCK_STREAM \<Rightarrow> CloseStreamSocket mctx (nat sockid) m
          | MTCP_SOCK_LISTENER \<Rightarrow> CloseListeningSocket mctx (nat sockid) m
          | MTCP_SOCK_EPOLL \<Rightarrow> CloseEpollSocket mctx (nat sockid) m
          | MTCP_SOCK_PIPE \<Rightarrow> PipeClose cfg mctx sockid m
          | _ \<Rightarrow> fail EINVAL m)" for ty
    using Q CloseStreamSocket_keeps [OF Q own] quietQ(2) [OF socket_calls_quiet(8) [OF refl] Q]
      quietQ(2) [OF CloseEpollSocket_quiet [OF refl] Q] quietQ(2) [OF PipeClose_quiet [OF refl] Q]
    by (cases ty) simp_all
  show ?thesis
    unfolding mtcp_close_def
    by (rule with_post post_if post_bind2 [OF close] free | assumption | (simp add: Q; fail))+
qed

lemma mtcp_abort_keeps:
  assumes Q: "Q m" and own: "owned (nat sockid) m"
  shows "kq2 (mtcp_abort cfg mctx sockid m)"
proof -
  have body: "kq2 (do {
      m \<leftarrow> FreeSocket k m;
      let m = upd_stream s (\<lambda>x. x\<lparr>s_socket := None\<rparr>) m;
      let st = s_state (m_streams m s);
      if st = TCP_ST_CLOSED then Some (Fail None, m)
      else if st = TCP_ST_SYN_SENT \<or> st = TCP_ST_CLOSING \<or> st = TCP_ST_LAST_ACK \<or> st = TCP_ST_TIME_WAIT then do {
        m \<leftarrow> enqueue_destroy s (upd_stream s (\<lambda>x. x\<lparr>s_state := TCP_ST_CLOSED, close_reason := TCP_ACTIVE_CLOSE\<rparr>) m);
        Some (Ret 0, m)
      }
      else if on_resetq (sndvar (m_streams m s)) then fail ECONNRESET m
      else do {
        let m = upd_snd s (\<lambda>v. v\<lparr>on_resetq := True\<rparr>) m;
        (ret, q) \<leftarrow> StreamEnqueue (m_resetq m) s;
        let m = m\<lparr>m_resetq := q, m_wakeup_flag := True\<rparr>;
        if ret < 0 then fail EAGAIN m else Some (Ret 0, m)
      } })" if "P s m" for s k
    unfolding Let_def
    by (rule toQ(2) [where s = s], rule bindP(1) [where s = s, OF quietP(1) [OF FreeSocket_quiet [OF refl] that]])
      (rule post_if post_case_prod bindP(1) [where s = s] enqueue_destroy_keeps
      | rule post_bind_any | (simp add: skeys; fail))+
  show ?thesis
    unfolding mtcp_abort_def
    by (rule with_post post_if post_case_option | (rule body, rule owned_stream [OF own], simp; fail) | rule post_bind_any
      | (simp add: Q; fail))+
qed

end

section \<open>Connecting\<close>

text \<open>The four-tuple of the new stream must not be in use: neither \<open>mtcp_bind\<close> nor \<open>mtcp_connect\<close> checks an
  address that the application has bound.\<close>

definition unused_tuple :: "nat \<Rightarrow> sockaddr \<Rightarrow> mtcp_manager \<Rightarrow> bool" where
  "unused_tuple k daddr m \<longleftrightarrow> StreamHTSearch (m_flow_table m) (m_streams m)
     (zero_stream\<lparr>s_saddr := so_sin_addr (m_smap m k), s_sport := so_sin_port (m_smap m k),
       s_daddr := fst daddr, s_dport := snd daddr\<rparr>) = None"

abbreviation kept :: "mtcp_config \<Rightarrow> ('a \<times> mtcp_manager) option \<Rightarrow> bool" where
  "kept cfg x \<equiv> post (\<lambda>(r, m). engine_inv cfg m) x"

lemma connect_stream_inv:
  assumes "engine_inv cfg m" "unused_tuple k daddr m"
  shows "kept cfg (connect_stream cfg k dyn daddr m)"
  unfolding connect_stream_def Let_def
proof (rule opened_bind [OF post_weaken [OF CreateTCPStream_inv created_opened]],
    rule assms(1), rule assms(2) [unfolded unused_tuple_def], assumption, goal_cases)
  case (1 m')
  then show ?case by simp
next
  case (2 s m')
  let ?m1 = "upd_stream s (\<lambda>x. x\<lparr>s_state := TCP_ST_SYN_SENT\<rparr>) (upd_snd s (\<lambda>v. v\<lparr>cwnd := 1, ssthresh := ucast (mss v) * 10\<rparr>)
    (if dyn then upd_stream s (\<lambda>x. x\<lparr>is_bound_addr := True\<rparr>) m' else m'))"
  have "live_inv cfg s ?m1" using 2(1) by (simp add: skeys)
  then have "engine_inv cfg ?m1" by simp
  then have "engine_inv cfg m2" if "core m2 = core ?m1" for m2
    using that by (rule eng.other_Q)
  then show ?case unfolding option.case
    by - (rule post_bind_any post_case_prod post_if | (simp; fail))+
qed

lemma mtcp_connect_inv:
  assumes inv: "engine_inv cfg m"
    and new: "\<And>c k inet daddr b m1. addr = Some (inet, daddr) \<Longrightarrow> connect_address cfg c (nat sockid) daddr m = Some (Ret b, m1) \<Longrightarrow>
      unused_tuple (nat sockid) daddr m1"
  shows "kept cfg (mtcp_connect cfg mctx sockid addr m)"
proof -
  have address: "engine_inv cfg m1" if "connect_address cfg c k daddr m = Some (r, m1)" for c k daddr r m1
    using eng.quietQ(2) [OF connect_address_quiet [OF refl] inv, of cfg c k daddr] that by simp
  have *: "post R (Option.bind (connect_address cfg c k daddr m) (\<lambda>(r, m1). f r m1))"
    if "\<And>r m1. connect_address cfg c k daddr m = Some (r, m1) \<Longrightarrow> post R (f r m1)"
    for c k daddr R and f :: "bool api \<Rightarrow> mtcp_manager \<Rightarrow> (unit api \<times> mtcp_manager) option"
    by (rule post_bind_any) (auto intro: that)
  have stream: "kept cfg (connect_stream cfg (nat sockid) b daddr m1)"
    if "addr = Some a" "a = (inet, daddr)" "connect_address cfg c (nat sockid) daddr m = Some (r, m1)" "r = Ret b"
    for a inet daddr c r b m1
    using that by (intro connect_stream_inv address [of c "nat sockid" daddr r] new [of inet daddr c b]) simp_all
  show ?thesis
    unfolding mtcp_connect_def Let_def
    by (rule with_post post_if post_case_option post_case_prod * post_case_api post_None
        | (erule (3) stream) | rule post_bind_any | (simp add: inv address; fail))+
qed

end
