(* ===== verification/Engine_Output.thy ===== *)
theory Engine_Output
  imports Engine_Inv Stream_Sep "HOL-Library.Multiset"
begin

text \<open>
  The output keeps the invariant of the stack: the loops over the control, send and acknowledgement
  lists of a sender, which take a stream out of its list while they send its segments.
\<close>

section \<open>Membership\<close>

lemma list_ok_mset: "list_ok q n A \<Longrightarrow> mset q' = mset q \<Longrightarrow> list_ok q' n A"
  unfolding list_ok_def by (metis mset_eq_imp_distinct_iff mset_eq_length mset_eq_setD)

lemma control_member:
  "engine_inv cfg m \<Longrightarrow> s \<in> set (control_list (m_senders m k)) \<longleftrightarrow>
     s \<in> live m \<and> on_control_list (sndvar (m_streams m s)) \<and> sender_of cfg s m = Some k"
  and send_member:
  "engine_inv cfg m \<Longrightarrow> s \<in> set (send_list (m_senders m k)) \<longleftrightarrow>
     s \<in> live m \<and> on_send_list (sndvar (m_streams m s)) \<and> sender_of cfg s m = Some k"
  and ack_member:
  "engine_inv cfg m \<Longrightarrow> s \<in> set (ack_list (m_senders m k)) \<longleftrightarrow>
     s \<in> live m \<and> on_ack_list (sndvar (m_streams m s)) \<and> sender_of cfg s m = Some k"
  using engine_invD(4-6) [of cfg m]
  by (force simp: control_inv_def send_inv_def ack_inv_def dest: list_ok_set)+

text \<open>The order of a list does not matter.\<close>

lemma control_perm:
  assumes "engine_inv cfg m" "mset q = mset (control_list (m_senders m k))"
  shows "engine_inv cfg (upd_sender k (\<lambda>sd. sd\<lparr>control_list := q\<rparr>) m)" (is "engine_inv cfg ?m")
proof -
  have sender: "sender_of cfg x ?m = sender_of cfg x m" for x by (rule sender_of_cong) (simp add: upd_defs)
  have "control_inv cfg ?m"
    using engine_invD(4) [OF assms(1)] assms(2) unfolding control_inv_def sender live_upd
    by (auto simp: upd_defs intro: list_ok_mset)
  moreover have "table_inv ?m \<and> pools_inv ?m \<and> routes_inv cfg ?m \<and> send_inv cfg ?m \<and> ack_inv cfg ?m \<and> timewait_inv ?m
      \<and> timeout_inv cfg ?m \<and> rto_inv ?m"
    by (intro conjI inv_frames [of ?m m]) (use assms(1) in \<open>simp_all add: engine_inv_def upd_defs\<close>)
  ultimately show ?thesis by (simp add: engine_inv_def)
qed

lemma send_perm:
  assumes "engine_inv cfg m" "mset q = mset (send_list (m_senders m k))"
  shows "engine_inv cfg (upd_sender k (\<lambda>sd. sd\<lparr>send_list := q\<rparr>) m)" (is "engine_inv cfg ?m")
proof -
  have sender: "sender_of cfg x ?m = sender_of cfg x m" for x by (rule sender_of_cong) (simp add: upd_defs)
  have "send_inv cfg ?m"
    using engine_invD(5) [OF assms(1)] assms(2) unfolding send_inv_def sender live_upd
    by (auto simp: upd_defs intro: list_ok_mset)
  moreover have "table_inv ?m \<and> pools_inv ?m \<and> routes_inv cfg ?m \<and> control_inv cfg ?m \<and> ack_inv cfg ?m \<and> timewait_inv ?m
      \<and> timeout_inv cfg ?m \<and> rto_inv ?m"
    by (intro conjI inv_frames [of ?m m]) (use assms(1) in \<open>simp_all add: engine_inv_def upd_defs\<close>)
  ultimately show ?thesis by (simp add: engine_inv_def)
qed

lemma sender_fixed:
  assumes "live_inv cfg s m" "live_inv cfg s m'" "flow_key (m_streams m' s) = flow_key (m_streams m s)"
  shows "sender_of cfg s m' = sender_of cfg s m"
  using assms engine_invD(3) [of cfg m] engine_invD(3) [of cfg m']
  by (intro sender_of_cong) (simp add: routes_inv_def flow_key_def)

section \<open>The control list\<close>

lemma control_unlink:
  assumes inv: "engine_inv cfg m" and q: "tailq_remove (control_list (m_senders m k)) s = Some q"
  shows "on_control_list (sndvar (m_streams m s))" "sender_of cfg s m = Some k"
    "live_inv cfg s (upd_snd s (\<lambda>v. v\<lparr>on_control_list := False\<rparr>)
       (upd_sender k (\<lambda>sd. sd\<lparr>control_list := q, control_list_cnt := control_list_cnt sd - 1\<rparr>) m))" (is "live_inv cfg s ?m")
proof -
  have s: "s \<in> live m" and f: "on_control_list (sndvar (m_streams m s))" and k: "sender_of cfg s m = Some k"
    and q1: "q = remove1 s (control_list (m_senders m k))"
    using q control_member [OF inv] by (auto simp: tailq_remove_Some)
  show "on_control_list (sndvar (m_streams m s))" "sender_of cfg s m = Some k" by (fact f, fact k)
  show "live_inv cfg s ?m"
    by (rule control_list_step [where m = m and k = k and b = False, OF _ k]) (use inv s f q1 in \<open>simp_all add: upd_defs\<close>)
qed

text \<open>Updates of different fields commute.\<close>

lemma swap:
  "sd\<lparr>control_list_cnt := n, control_list := q\<rparr> = sd\<lparr>control_list := q, control_list_cnt := n\<rparr>"
  "v\<lparr>ack_cnt := c, is_wack := w, on_ack_list := b\<rparr> = v\<lparr>on_ack_list := b, ack_cnt := c, is_wack := w\<rparr>"
  by simp_all

lemma control_relink:
  assumes "live_inv cfg s m" "sender_of cfg s m = Some k" "s \<notin> set (control_list (m_senders m k))"
    and "mset q = add_mset s (mset (control_list (m_senders m k)))"
  shows "engine_inv cfg (upd_sender k (\<lambda>sd. sd\<lparr>control_list := q, control_list_cnt := control_list_cnt sd + 1\<rparr>)
    (upd_snd s (\<lambda>v. v\<lparr>on_control_list := True\<rparr>) m))" (is "engine_inv cfg ?m")
proof -
  let ?l = "control_list (m_senders m k)"
  define m1 where "m1 = upd_sender k (\<lambda>sd. sd\<lparr>control_list := ?l @ [s], control_list_cnt := control_list_cnt (m_senders m k) + 1\<rparr>)
    (upd_snd s (\<lambda>v. v\<lparr>on_control_list := True\<rparr>) m)"
  have "engine_inv cfg m1"
    using control_list_step [OF assms(1,2) m1_def] control_member [of cfg m s k] assms(1-3) by simp
  then have "engine_inv cfg (upd_sender k (\<lambda>sd. sd\<lparr>control_list := q\<rparr>) m1)"
    by (rule control_perm) (simp add: m1_def upd_defs assms(4))
  moreover have "upd_sender k (\<lambda>sd. sd\<lparr>control_list := q\<rparr>) m1 = ?m" by (simp add: m1_def upd_defs swap)
  ultimately show ?thesis by simp
qed

lemma control_turn_inv:
  assumes inv: "engine_inv cfg m"
  shows "post (\<lambda>(go, m'). engine_inv cfg m') (control_turn cfg k ts s m)"
  unfolding control_turn_def Let_def
proof (rule post_bind_any, goal_cases)
  case (1 q)
  let ?m1 = "upd_sender k (\<lambda>sd. sd\<lparr>control_list := q, control_list_cnt := control_list_cnt sd - 1\<rparr>) m"
  let ?m2 = "upd_snd s (\<lambda>v. v\<lparr>on_control_list := False\<rparr>) ?m1"
  note un = control_unlink [OF inv 1]
  have f: "on_control_list (sndvar (m_streams ?m1 s))" using un(1) by (simp add: upd_defs)
  have k2: "sender_of cfg s ?m2 = Some k" using un(2) by (subst sender_of_cong [of _ _ m]) (simp_all add: upd_defs)
  have "post (\<lambda>(r, m'). engine_inv cfg m' \<and> (r < 0 \<longrightarrow> s \<in> live m' \<and> sender_of cfg s m' = Some k))
      (SendControlPacket cfg s ts ?m2)"
  proof (rule post_weaken [OF post_conj [OF eng.SendControlPacket_keeps [OF un(3)] sep_control]], clarsimp, goal_cases)
    case (1 r m')
    then show ?case using sender_fixed [OF un(3), of m'] k2 by (simp add: apart_def)
  qed
  then show ?case
    unfolding if_P [OF f]
    by (rule post_bind2)
      (auto simp: post_def Option.bind_eq_Some_conv tailq_insert_head_Some tailq_insert_tail_Some intro!: control_relink)
qed

lemma control_loop_inv:
  "engine_inv cfg m \<Longrightarrow> post (\<lambda>(r, m'). engine_inv cfg m') (control_loop n cfg k ts l p c m)"
proof (induction n arbitrary: p c m)
  case 0
  then show ?case by (cases p) simp_all
next
  case (Suc n)
  then show ?case by (cases p) (auto simp: Let_def intro!: post_bind2 [OF control_turn_inv])
qed

section \<open>The acknowledgement list\<close>

text \<open>While the segments of one stream are sent, no stream comes or goes and the other streams rest.\<close>

definition sending where
  "sending cfg T t \<sigma> K s m \<longleftrightarrow> live_inv cfg s m \<and> apart t \<sigma> K s m \<and> m_flow_table m = T"

lemma table_fixed:
  "post (\<lambda>m'. m_flow_table m' = m_flow_table m) (AddtoACKList cfg s m)"
  "post (\<lambda>m'. m_flow_table m' = m_flow_table m) (AddtoControlList cfg s m)"
  "post (\<lambda>m'. m_flow_table m' = m_flow_table m) (AddtoRTOList s m)"
  "post (\<lambda>m'. m_flow_table m' = m_flow_table m) (UpdateTimeoutList s m)"
  unfolding list_op_defs rto_insert_def
  by (auto simp: post_def upd_defs Option.bind_eq_Some_conv Let_def split: if_splits)

lemma sending_post:
  assumes "sending cfg T t \<sigma> K s m" "post (live_inv cfg s) x" "post (apart t \<sigma> K s) x"
    "post (\<lambda>m'. m_flow_table m' = m_flow_table m) x"
  shows "post (sending cfg T t \<sigma> K s) x"
  using assms by (simp add: sending_def post_def)

lemma sendingD: "sending cfg T t \<sigma> K s m \<Longrightarrow> live_inv cfg s m" "sending cfg T t \<sigma> K s m \<Longrightarrow> apart t \<sigma> K s m"
  by (simp_all add: sending_def)

interpretation out: output_step cfg "sending cfg T t \<sigma> K" for cfg T t \<sigma> K
proof (unfold_locales, goal_cases)
  case (1 s m f)
  then have "live_inv cfg s m" "apart t \<sigma> K s m" by (simp_all add: sending_def)
  from eng.modify [where f = f, OF this(1) 1(2)] sep.modify [where f = f, OF this(2) 1(2)]
  show ?case using 1 by (simp add: sending_def) (simp add: upd_defs)
next
  case (2 s m m')
  have "live_inv cfg s m'" "apart t \<sigma> K s m'"
    by (rule eng.other [OF sendingD(1) [OF 2(1)] 2(2)], rule sep.other [OF sendingD(2) [OF 2(1)] 2(2)])
  then show ?case using 2 by (simp add: sending_def core_def)
next
  case (3 s m)
  from eng.route [OF sendingD(1) [OF 3]] sep.route [OF sendingD(2) [OF 3], of cfg]
  show ?case using 3 by (simp add: sending_def) (simp add: upd_defs)
next
  case (4 s m)
  then show ?case by (rule sending_post) (rule eng.ack sep.ack sendingD table_fixed | rule 4)+
next
  case (5 s m)
  then show ?case by (rule sending_post) (rule eng.arm sep.arm sendingD table_fixed | rule 5)+
next
  case (6 s m)
  then show ?case by (rule sending_post) (rule eng.touch sep.touch sendingD table_fixed | rule 6)+
qed

lemma ack_unlink:
  assumes inv: "sending cfg T t \<sigma> K s m"
  shows "post (sending cfg T t \<sigma> K s) (remove_ack k s (upd_snd s (\<lambda>v. v\<lparr>on_ack_list := False\<rparr>) m))"
  unfolding remove_ack_def
proof (rule post_bind_any, goal_cases)
  case (1 q)
  then have q: "s \<in> set (ack_list (m_senders m k))" "q = remove1 s (ack_list (m_senders m k))"
    by (auto simp: tailq_remove_Some upd_defs)
  have l: "live_inv cfg s m" using inv by (rule sendingD)
  note mem = ack_member [OF conjunct1 [OF l], THEN iffD1, OF q(1)]
  have "live_inv cfg s (upd_sender k (\<lambda>sd. sd\<lparr>ack_list := q, ack_list_cnt := ack_list_cnt (m_senders m k) - 1\<rparr>)
      (upd_snd s (\<lambda>v. v\<lparr>on_ack_list := False\<rparr>) m))"
    by (rule ack_list_step [OF l _ refl]) (use mem q in auto)
  then show ?case using inv by (simp add: sending_def apart_def upd_defs flow_key_def)
qed

lemma ack_turn_sending:
  assumes "sending cfg T t \<sigma> K s m" "on_ack_list (sndvar (m_streams m s))"
  shows "post (sending cfg T t \<sigma> K s) (ack_turn cfg k ts s m)"
proof -
  have ctl: "post (sending cfg T t \<sigma> K s) (AddtoControlList cfg s m1)" if "sending cfg T t \<sigma> K s m1" for m1
    using that by (rule sending_post) (rule eng.control sep.control sendingD table_fixed | rule that)+
  have clear: "upd_snd s (\<lambda>v. v\<lparr>on_ack_list := False, ack_cnt := 0, is_wack := False\<rparr>) m
      = upd_snd s (\<lambda>v. v\<lparr>on_ack_list := False\<rparr>) (upd_snd s (\<lambda>v. v\<lparr>ack_cnt := 0, is_wack := False\<rparr>) m)"
    by (simp add: upd_defs swap)
  show ?thesis
    unfolding ack_turn_def if_P [OF assms(2)] clear Let_def using assms(1)
    by - (rule out.stepP out.bindP [where s = s and cfg = cfg and T = T and t = t and \<sigma> = \<sigma> and K = K] out.send_acks_keeps out.SendTCPPacket_keeps ack_unlink ctl out.someP
        | assumption | (simp add: skeys; fail))+
qed

lemma sending_start: "live_inv cfg s m \<Longrightarrow> sending cfg (m_flow_table m) s (m_streams m) (flow_key (m_streams m s)) s m"
  by (simp add: sending_def apart_start)

lemma tailq_next_other: "distinct q \<Longrightarrow> tailq_next q x = Some y \<Longrightarrow> y \<noteq> x"
  by (induction q) (auto simp: tailq_first_def split: if_splits list.splits dest: tailq_next_in)

lemma ack_list_next:
  assumes "engine_inv cfg m" "sending cfg (m_flow_table m) s (m_streams m) K s m'"
    and "tailq_next (ack_list (m_senders m k)) s = Some y"
  shows "y \<in> set (ack_list (m_senders m' k))"
proof -
  have "distinct (ack_list (m_senders m k))" using engine_invD(6) [OF assms(1)] by (simp add: ack_inv_def list_ok_def)
  then have y: "y \<noteq> s" "y \<in> set (ack_list (m_senders m k))" using assms(3) by (auto dest: tailq_next_in tailq_next_other)
  have T: "m_flow_table m' = m_flow_table m" and "m_streams m' y = m_streams m y" "engine_inv cfg m'"
    using assms(2) y(1) by (simp_all add: sending_def apart_def)
  moreover have "live m' = live m" using T by (rule live_cong)
  ultimately show ?thesis using y(2) ack_member [OF assms(1), of y k] ack_member [of cfg m' y k] sender_of_cong [of m' y m cfg] by simp
qed

lemma ack_loop_inv:
  "engine_inv cfg m \<Longrightarrow> (\<And>s. p = Some s \<Longrightarrow> s \<in> set (ack_list (m_senders m k))) \<Longrightarrow>
   post (\<lambda>(r, m'). engine_inv cfg m') (ack_loop n cfg k ts l p c m)"
proof (induction n arbitrary: p c m)
  case 0
  then show ?case by (cases p) simp_all
next
  case (Suc n)
  show ?case
  proof (cases p)
    case (Some s)
    then have s: "s \<in> live m" "on_ack_list (sndvar (m_streams m s))" using Suc.prems ack_member by blast+
    then have start: "sending cfg (m_flow_table m) s (m_streams m) (flow_key (m_streams m s)) s m"
      using Suc.prems(1) by (simp add: sending_start)
    show ?thesis unfolding Some ack_loop.simps Let_def
      by (rule post_bindI [OF ack_turn_sending [OF start s(2)]])
        (auto simp: sending_def intro!: Suc.IH ack_list_next [OF Suc.prems(1)])
  qed (use Suc.prems in simp)
qed

section \<open>The send list\<close>

text \<open>The loop over the send list takes a stream out and keeps its flag and the counter until its
  segments are sent. With the stream back at the head of the list the state has the invariant.\<close>

definition relink :: "sender_id \<Rightarrow> nat \<Rightarrow> mtcp_manager \<Rightarrow> mtcp_manager" where
  "relink k t m = upd_sender k (\<lambda>sd. sd\<lparr>send_list := t # send_list sd\<rparr>) m"

lemma relink_fields [simp]:
  "m_streams (relink k t m) = m_streams m" "live (relink k t m) = live m" "m_timeout_list (relink k t m) = m_timeout_list m"
  "m_rto_store (relink k t m) = m_rto_store m" "m_rto_list_cnt (relink k t m) = m_rto_list_cnt m"
  "ack_list (m_senders (relink k t m) j) = ack_list (m_senders m j)"
  by (simp_all add: relink_def upd_defs live_def)

lemma relink_sender [simp]: "sender_of cfg s (relink k t m) = sender_of cfg s m"
  by (rule sender_of_cong) simp

lemma relink_upd:
  "upd_stream s f (relink k t m) = relink k t (upd_stream s f m)"
  "upd_snd s g (relink k t m) = relink k t (upd_snd s g m)"
  "upd_rto h (relink k t m) = relink k t (upd_rto h m)"
  "upd_sender j (\<lambda>sd. sd\<lparr>ack_list := q, ack_list_cnt := ack_list_cnt sd + 1\<rparr>) (relink k t m)
     = relink k t (upd_sender j (\<lambda>sd. sd\<lparr>ack_list := q, ack_list_cnt := ack_list_cnt sd + 1\<rparr>) m)"
  "(relink k t m)\<lparr>m_timeout_list := l\<rparr> = relink k t (m\<lparr>m_timeout_list := l\<rparr>)"
  "(relink k t m)\<lparr>m_rto_list_cnt := n\<rparr> = relink k t (m\<lparr>m_rto_list_cnt := n\<rparr>)"
  by (simp_all add: relink_def upd_defs fun_upd_twist) (auto simp: fun_eq_iff)

lemma relink_ops:
  "AddtoACKList cfg s (relink k t m) = map_option (relink k t) (AddtoACKList cfg s m)"
  "AddtoRTOList s (relink k t m) = map_option (relink k t) (AddtoRTOList s m)"
  "UpdateTimeoutList s (relink k t m) = map_option (relink k t) (UpdateTimeoutList s m)"
  unfolding AddtoACKList_def AddtoRTOList_def UpdateTimeoutList_def rto_insert_def
  by (auto simp: relink_upd Let_def split: Option.bind_splits)

definition hanging where
  "hanging cfg k t s m \<longleftrightarrow> s = t \<and> live_inv cfg t (relink k t m)"

lemma hanging_post:
  assumes "hanging cfg k t s m" "op (relink k t m) = map_option (relink k t) (op m)"
    and "live_inv cfg s (relink k t m) \<Longrightarrow> post (live_inv cfg s) (op (relink k t m))"
  shows "post (hanging cfg k t s) (op m)"
  using assms by (cases "op m") (simp_all add: hanging_def)

interpretation hang: output_step cfg "hanging cfg k t" for cfg k t
proof (unfold_locales, goal_cases)
  case (1 s m f)
  then show ?case using eng.modify [where cfg = cfg and s = t and m = "relink k t m" and f = f]
    by (simp add: hanging_def relink_upd)
next
  case (2 s m m')
  have "core (relink k t m') = core (relink k t m)" using 2(2) by (simp add: relink_def upd_defs core_def)
  then show ?case using 2(1) eng.other [where cfg = cfg and s = t and m = "relink k t m" and m' = "relink k t m'"] by (simp add: hanging_def)
next
  case (3 s m)
  then show ?case using eng.route [where cfg = cfg and s = t and m = "relink k t m"] by (simp add: hanging_def relink_upd)
next
  case (4 s m)
  then show ?case by (rule hanging_post [where op = "AddtoACKList cfg s", OF _ relink_ops(1) eng.ack])
next
  case (5 s m)
  then show ?case by (rule hanging_post [where op = "AddtoRTOList s", OF _ relink_ops(2) eng.arm])
next
  case (6 s m)
  then show ?case by (rule hanging_post [where op = "UpdateTimeoutList s", OF _ relink_ops(3) eng.touch])
qed

lemma send_hang:
  assumes inv: "engine_inv cfg m" and q: "tailq_remove (send_list (m_senders m k)) s = Some q"
  shows "on_send_list (sndvar (m_streams m s))" "hanging cfg k s s (upd_sender k (\<lambda>sd. sd\<lparr>send_list := q\<rparr>) m)"
proof -
  have s: "s \<in> set (send_list (m_senders m k))" "q = remove1 s (send_list (m_senders m k))"
    using q by (auto simp: tailq_remove_Some)
  then show "on_send_list (sndvar (m_streams m s))" using send_member [OF inv] by simp
  have "mset (s # q) = mset (send_list (m_senders m k))" using s by simp
  from send_perm [OF inv this]
  show "hanging cfg k s s (upd_sender k (\<lambda>sd. sd\<lparr>send_list := q\<rparr>) m)"
    using s(1) send_member [OF inv] by (simp add: hanging_def relink_def upd_defs live_def)
qed

lemma send_rehang:
  assumes "hanging cfg k s s m" "tailq_insert_tail (send_list (m_senders m k)) s = Some q"
  shows "engine_inv cfg (upd_sender k (\<lambda>sd. sd\<lparr>send_list := q\<rparr>) m)"
proof -
  have "engine_inv cfg (upd_sender k (\<lambda>sd. sd\<lparr>send_list := q\<rparr>) (relink k s m))"
    by (rule send_perm) (use assms in \<open>auto simp: hanging_def relink_def upd_defs tailq_insert_tail_Some\<close>)
  moreover have "upd_sender k (\<lambda>sd. sd\<lparr>send_list := q\<rparr>) (relink k s m) = upd_sender k (\<lambda>sd. sd\<lparr>send_list := q\<rparr>) m"
    by (simp add: relink_def upd_defs)
  ultimately show ?thesis by simp
qed

lemma send_unhang:
  assumes "hanging cfg k s s m"
  shows "live_inv cfg s (upd_sender k (\<lambda>sd. sd\<lparr>send_list_cnt := send_list_cnt sd - 1\<rparr>)
    (upd_snd s (\<lambda>v. v\<lparr>on_send_list := False\<rparr>) m))" (is "live_inv cfg s ?m")
proof -
  have l: "live_inv cfg s (relink k s m)" using assms by (simp add: hanging_def)
  have q: "send_list (m_senders (relink k s m) k) = s # send_list (m_senders m k)" by (simp add: relink_def upd_defs)
  then have mem: "on_send_list (sndvar (m_streams m s))" "sender_of cfg s (relink k s m) = Some k"
    using send_member [OF conjunct1 [OF l], of s k] by simp_all
  have "?m = upd_sender k (\<lambda>sd. sd\<lparr>send_list := send_list (m_senders m k), send_list_cnt := send_list_cnt (m_senders m k) - 1\<rparr>)
      (upd_snd s (\<lambda>v. v\<lparr>on_send_list := False\<rparr>) (relink k s m))"
    by (simp add: relink_def upd_defs)
  then show ?thesis
    by (rule send_list_step [OF l mem(2)]) (use mem in \<open>simp add: q, simp add: relink_def upd_defs\<close>)
qed

lemma data_sent_inv:
  assumes "hanging cfg k s s m"
  shows "post (\<lambda>(go, m'). engine_inv cfg m') (do {
     let m = upd_snd s (\<lambda>v. v\<lparr>on_send_list := False\<rparr>) m;
     let m = upd_sender k (\<lambda>sd. sd\<lparr>send_list_cnt := send_list_cnt sd - 1\<rparr>) m;
     let m = (if ack_cnt (sndvar (m_streams m s)) > 0 then upd_snd s (\<lambda>v. v\<lparr>ack_cnt := f (ack_cnt v)\<rparr>) m else m);
     m \<leftarrow> (if control_list_waiting (m_streams m s) \<and> \<not> on_ack_list (sndvar (m_streams m s))
            then AddtoControlList cfg s (upd_stream s (\<lambda>x. x\<lparr>control_list_waiting := False\<rparr>) m)
            else Some m);
     Some (True, m)
   })"
proof -
  define m1 where "m1 = upd_sender k (\<lambda>sd. sd\<lparr>send_list_cnt := send_list_cnt sd - 1\<rparr>)
    (upd_snd s (\<lambda>v. v\<lparr>on_send_list := False\<rparr>) m)"
  define m2 where "m2 = (if ack_cnt (sndvar (m_streams m1 s)) > 0 then upd_snd s (\<lambda>v. v\<lparr>ack_cnt := f (ack_cnt v)\<rparr>) m1 else m1)"
  have "live_inv cfg s m1" unfolding m1_def using assms by (rule send_unhang)
  then have "live_inv cfg s m2" by (simp add: m2_def skeys)
  then show ?thesis
    unfolding Let_def m1_def [symmetric] m2_def [symmetric]
    by - (rule eng.stepP eng.bindP(1) [where s = s and cfg = cfg] eng.control eng.someP eng.someQ | assumption | erule conjunct1
      | (simp add: skeys; fail))+
qed

lemma data_turn_inv:
  assumes inv: "engine_inv cfg m"
  shows "post (\<lambda>(go, m'). engine_inv cfg m') (data_turn cfg k ts s m)"
  unfolding data_turn_def
proof (rule post_bind_any, subst Let_def, goal_cases)
  case (1 q)
  let ?m1 = "upd_sender k (\<lambda>sd. sd\<lparr>send_list := q\<rparr>) m"
  note hang = send_hang [OF inv 1]
  have f: "on_send_list (sndvar (m_streams ?m1 s))" using hang(1) by (simp add: upd_defs)
  have fl: "post (\<lambda>(r, m'). hanging cfg k s s m') (FlushTCPSendingBuffer cfg s ts ?m1)"
    by (rule hang.FlushTCPSendingBuffer_keeps [OF hang(2)])
  have again: "post (\<lambda>(go, m'). engine_inv cfg m') (do {
      q \<leftarrow> tailq_insert_tail (send_list (m_senders m2 k)) s;
      Some (False, upd_sender k (\<lambda>sd. sd\<lparr>send_list := q\<rparr>) m2) })" if "hanging cfg k s s m2" for m2
    by (rule post_bind_any) (use send_rehang [OF that] in simp)
  show ?case
    unfolding if_P [OF f]
  proof (rule hang.bindP(2) [where cfg = cfg and k = k and t = s and s = s], goal_cases)
    case 1
    then show ?case by (cases "s_state (m_streams ?m1 s)") (use fl hang(2) in simp_all)
  qed (rule post_if again data_sent_inv | assumption)+
qed

lemma data_loop_inv:
  "engine_inv cfg m \<Longrightarrow> post (\<lambda>(r, m'). engine_inv cfg m') (data_loop n cfg k ts l p c m)"
proof (induction n arbitrary: p c m)
  case 0
  then show ?case by (cases p) simp_all
next
  case (Suc n)
  then show ?case by (cases p) (auto simp: Let_def intro!: post_bind2 [OF data_turn_inv])
qed

section \<open>All senders\<close>

lemma tailq_first_in: "tailq_first q = Some x \<Longrightarrow> x \<in> set q"
  by (auto simp: tailq_first_def split: list.splits)

lemma write_sender_inv:
  assumes "engine_inv cfg m" shows "post (engine_inv cfg) (write_sender cfg ts n k m)"
proof -
  have snd: "post (engine_inv cfg) (map_option snd x)" if "post (\<lambda>(r, m'). engine_inv cfg m') x" for x :: "(int \<times> mtcp_manager) option"
    using that by (cases x) auto
  show ?thesis unfolding write_sender_def WriteTCPControlList_def WriteTCPDataList_def WriteTCPACKList_def Let_def
    by (rule post_if eng.bindQ [where cfg = cfg] snd control_loop_inv data_loop_inv ack_loop_inv tailq_first_in eng.someQ assms
        | assumption)+
qed

lemma write_senders_inv: "engine_inv cfg m \<Longrightarrow> post (engine_inv cfg) (write_senders cfg ts n ks m)"
  by (induction ks arbitrary: m) (auto intro!: eng.bindQ [OF write_sender_inv])

lemma WritePacketsToChunks_inv: "engine_inv cfg m \<Longrightarrow> post (engine_inv cfg) (WritePacketsToChunks cfg ts m)"
  unfolding WritePacketsToChunks_def by (rule write_senders_inv)

end
