(* ===== verification/Engine_Timers.thy ===== *)
theory Engine_Timers
  imports Engine_Inv
begin

text \<open>
  The timers keep the invariant of the stack: the retransmission store with its clock, the expiry of
  the timewait state and of idle connections.
\<close>

section \<open>The retransmission store\<close>

lemma rto_member:
  "engine_inv cfg m \<Longrightarrow> s \<in> set (rto_list (m_rto_store m) i) \<longleftrightarrow> s \<in> live m \<and> on_rto_idx (m_streams m s) = int i"
  using engine_invD(9) [of cfg m] by (simp add: rto_inv_def)

text \<open>Taking a stream out of the list that is walked is what \<open>RemoveFromRTOList\<close> does.\<close>

lemma rto_unlink:
  assumes inv: "engine_inv cfg m" and q: "tailq_remove (rto_list (m_rto_store m) i) s = Some q"
  defines "m' \<equiv> upd_stream s (\<lambda>x. x\<lparr>on_rto_idx := - 1\<rparr>)
    ((upd_rto (\<lambda>rs. rs\<lparr>rto_list := (rto_list rs)(i := q)\<rparr>) m)\<lparr>m_rto_list_cnt := m_rto_list_cnt m - 1\<rparr>)"
  shows "live_inv cfg s m'" "on_rto_idx (m_streams m s) = int i" "\<not> on_timewait_list (m_streams m s)"
proof -
  have s: "s \<in> live m" and i: "on_rto_idx (m_streams m s) = int i"
    using q rto_member [OF inv] by (auto simp: tailq_remove_Some)
  have "RemoveFromRTOList s m = Some m'"
    using q by (simp add: RemoveFromRTOList_def i m'_def upd_defs)
  then show "live_inv cfg s m'" using RemoveFromRTOList_inv [where cfg = cfg and s = s and m = m] inv s by simp
  show "on_rto_idx (m_streams m s) = int i" by (fact i)
  show "\<not> on_timewait_list (m_streams m s)" using timewait_not_rto [where cfg = cfg and s = s and m = m] inv s i by auto
qed

lemma rtm_turn_inv:
  assumes inv: "engine_inv cfg m" shows "post (engine_inv cfg) (rtm_turn cfg ts i s m)"
  unfolding rtm_turn_def Let_def
proof (rule post_if, rule post_bind_any)
  fix q assume "tailq_remove (rto_list (m_rto_store m) i) s = Some q"
  from eng.HandleRTO_keeps [OF rto_unlink(1) [OF inv this]]
  show "post (engine_inv cfg) (Option.bind (HandleRTO cfg ts s (upd_stream s (\<lambda>x. x\<lparr>on_rto_idx := - 1\<rparr>)
      ((upd_rto (\<lambda>rs. rs\<lparr>rto_list := (rto_list rs)(i := q)\<rparr>) m)\<lparr>m_rto_list_cnt :=
        m_rto_list_cnt (upd_rto (\<lambda>rs. rs\<lparr>rto_list := (rto_list rs)(i := q)\<rparr>) m) - 1\<rparr>))) (\<lambda>(r, m). Some m))"
    by (auto simp: post_def upd_defs Option.bind_eq_Some_conv)
qed (simp add: inv)

lemma rtm_inner_inv:
  "engine_inv cfg m \<Longrightarrow> post (\<lambda>(x, r, m'). engine_inv cfg m') (rtm_inner r cfg ts i p m)"
proof (induction r arbitrary: p m)
  case 0
  then show ?case by (cases p) simp_all
next
  case (Suc r)
  then show ?case by (cases p) (auto simp: Let_def intro!: post_bindI [OF rtm_turn_inv])
qed

lemma rto_clock_inv:
  assumes "engine_inv cfg m" and "rto_list (f (m_rto_store m)) = rto_list (m_rto_store m)"
  shows "engine_inv cfg (upd_rto f m)"
proof -
  have "table_inv (upd_rto f m) \<and> pools_inv (upd_rto f m) \<and> routes_inv cfg (upd_rto f m) \<and> control_inv cfg (upd_rto f m)
      \<and> send_inv cfg (upd_rto f m) \<and> ack_inv cfg (upd_rto f m) \<and> timewait_inv (upd_rto f m) \<and> timeout_inv cfg (upd_rto f m)
      \<and> rto_inv (upd_rto f m)"
    by (intro conjI inv_frames [of "upd_rto f m" m]) (use assms in \<open>simp_all add: engine_inv_def upd_defs\<close>)
  with assms show ?thesis by (simp add: engine_inv_def)
qed

text \<open>Moving a stream to another list is a removal and an insertion.\<close>

lemma rto_move_inv:
  assumes inv: "engine_inv cfg m" and q: "tailq_remove (rto_list (m_rto_store m) i) s = Some q" and j: "int j \<le> RTO_HASH"
  shows "post (engine_inv cfg) (rto_insert j s (upd_rto (\<lambda>rs. rs\<lparr>rto_list := (rto_list rs)(i := q)\<rparr>) m))"
proof -
  let ?m0 = "upd_rto (\<lambda>rs. rs\<lparr>rto_list := (rto_list rs)(i := q)\<rparr>) m"
  let ?m1 = "upd_stream s (\<lambda>x. x\<lparr>on_rto_idx := - 1\<rparr>) (?m0\<lparr>m_rto_list_cnt := m_rto_list_cnt m - 1\<rparr>)"
  note un = rto_unlink [OF inv q]
  have "rto_insert j s ?m0 = map_option (\<lambda>m. m\<lparr>m_rto_list_cnt := m_rto_list_cnt m + 1\<rparr>) (rto_insert j s ?m1)"
    by (simp add: rto_insert_def upd_defs split: Option.bind_splits)
  moreover have "post (\<lambda>m'. live_inv cfg s (m'\<lparr>m_rto_list_cnt := m_rto_list_cnt m' + 1\<rparr>)) (rto_insert j s ?m1)"
    by (rule rto_insert_inv [OF un(1) _ _ j]) (use un(3) in \<open>simp_all add: upd_defs\<close>)
  ultimately show ?thesis by (auto simp: post_def)
qed

lemma rearrange_walk_inv: "engine_inv cfg m \<Longrightarrow> post (engine_inv cfg) (rearrange_walk ws m)"
proof (induction ws arbitrary: m)
  case (Cons w ws)
  have "post (engine_inv cfg) (Option.bind (tailq_remove (rto_list (m_rto_store m) (nat RTO_HASH)) w)
      (\<lambda>q. rto_insert (rto_offset rs d) w (upd_rto (\<lambda>rs. rs\<lparr>rto_list := (rto_list rs)(nat RTO_HASH := q)\<rparr>) m)))" for rs d
    by (rule post_bind_any, rule rto_move_inv [OF Cons.prems]) (auto intro: less_imp_le rto_offset_less)
  moreover have "m_rto_store (upd_rto (\<lambda>rs. rs\<lparr>rto_list := (rto_list rs)(nat RTO_HASH := q)\<rparr>) m)
     = (m_rto_store m)\<lparr>rto_list := (rto_list (m_rto_store m))(nat RTO_HASH := q)\<rparr>" for q by (simp add: upd_defs)
  moreover have "rto_offset ((m_rto_store m)\<lparr>rto_list := l\<rparr>) d = rto_offset (m_rto_store m) d" for l d by (simp add: rto_offset_def)
  ultimately show ?case
    unfolding rearrange_walk.simps Let_def
    by (intro eng.bindQ [where cfg = cfg] Cons.IH) (simp_all add: Cons.prems)
qed simp

lemma rtm_outer_inv: "engine_inv cfg m \<Longrightarrow> post (engine_inv cfg) (rtm_outer fuel r cfg ts m)"
proof (induction fuel arbitrary: r m)
  case (Suc fuel)
  let ?tick = "\<lambda>rs. rs\<lparr>rto_now_idx := (rto_now_idx rs + 1) mod 3000, rto_now_ts := rto_now_ts rs + 1\<rparr>"
  have tick: "engine_inv cfg (upd_rto ?tick m1)" if "engine_inv cfg m1" for m1
    by (rule rto_clock_inv [OF that]) simp
  have "post (engine_inv cfg) (do { m \<leftarrow> (if c then RearrangeRTOStore m1 else Some m1); rtm_outer fuel r cfg ts m })"
    if "engine_inv cfg m1" for c r m1
    by (rule eng.bindQ [where cfg = cfg]) (use that in \<open>auto simp: RearrangeRTOStore_def rearrange_walk_inv intro: Suc.IH\<close>)
  then show ?case using Suc.prems tick
    by (auto simp: Let_def intro!: post_bindI [OF rtm_inner_inv])
qed simp

lemma CheckRtmTimeout_inv: "engine_inv cfg m \<Longrightarrow> post (engine_inv cfg) (CheckRtmTimeout cfg ts n m)"
  by (simp add: CheckRtmTimeout_def rtm_outer_inv)

section \<open>Timewait and idle connections\<close>

lemma timewait_turn_inv:
  assumes inv: "engine_inv cfg m" shows "post (\<lambda>(go, m'). engine_inv cfg m') (timewait_turn cfg ts s m)"
proof -
  have "post (engine_inv cfg) (DestroyTCPStream cfg s (upd_stream s (\<lambda>x. x\<lparr>on_timewait_list := False, s_state := TCP_ST_CLOSED,
        close_reason := TCP_ACTIVE_CLOSE\<rparr>) (m\<lparr>m_timewait_list := q, m_timewait_list_cnt := m_timewait_list_cnt m - 1\<rparr>)))"
    (is "post _ (DestroyTCPStream cfg s ?m)") if q: "tailq_remove (m_timewait_list m) s = Some q" for q
  proof -
    have s: "s \<in> live m" "on_timewait_list (m_streams m s)"
      using q engine_invD(7) [OF inv] by (auto simp: tailq_remove_Some timewait_inv_def list_ok_def)
    define m1 where "m1 = (upd_stream s (\<lambda>x. x\<lparr>on_timewait_list := False\<rparr>) m)\<lparr>m_timewait_list := q,
      m_timewait_list_cnt := m_timewait_list_cnt m - 1\<rparr>"
    have "RemoveFromTimewaitList s m = Some m1" using q s(2) by (simp add: RemoveFromTimewaitList_def m1_def upd_defs)
    then have "live_inv cfg s m1" using RemoveFromTimewaitList_inv [where cfg = cfg and s = s and m = m] inv s by simp
    then have "live_inv cfg s (upd_stream s (\<lambda>x. x\<lparr>s_state := TCP_ST_CLOSED, close_reason := TCP_ACTIVE_CLOSE\<rparr>) m1)"
      by (simp add: skeys)
    moreover have "upd_stream s (\<lambda>x. x\<lparr>s_state := TCP_ST_CLOSED, close_reason := TCP_ACTIVE_CLOSE\<rparr>) m1 = ?m"
      by (simp add: m1_def upd_defs)
    ultimately show ?thesis using eng.destroy [where cfg = cfg and s = s and m = ?m] by simp
  qed
  then show ?thesis unfolding timewait_turn_def Let_def using inv
    by - (rule post_if post_bind_any [of "tailq_remove _ _"] eng.bindQ [where cfg = cfg] eng.someQ | assumption
      | (simp; fail))+
qed

lemma timewait_loop_inv: "engine_inv cfg m \<Longrightarrow> post (engine_inv cfg) (timewait_loop n cfg ts p m)"
proof (induction n arbitrary: p m)
  case 0
  then show ?case by (cases p) simp_all
next
  case (Suc n)
  then show ?case by (cases p) (auto simp: Let_def intro!: post_bind2 [OF timewait_turn_inv])
qed

lemma timeout_turn_inv:
  assumes inv: "engine_inv cfg m" shows "post (\<lambda>(go, m'). engine_inv cfg m') (timeout_turn cfg ts s m)"
proof -
  have "post (engine_inv cfg) (lose_stream cfg s TCP_TIMEDOUT ((upd_stream s (\<lambda>x. x\<lparr>on_timeout_list := False\<rparr>) m)
      \<lparr>m_timeout_list := q, m_timeout_list_cnt := m_timeout_list_cnt m - 1\<rparr>))"
    (is "post _ (lose_stream cfg s _ ?m)") if q: "tailq_remove (m_timeout_list m) s = Some q" for q
  proof -
    have s: "s \<in> live m" "on_timeout_list (m_streams m s)"
      using q engine_invD(8) [OF inv] by (auto simp: tailq_remove_Some timeout_inv_def list_ok_def)
    have "RemoveFromTimeoutList s m = Some ?m" using q s(2) by (simp add: RemoveFromTimeoutList_def upd_defs)
    then show ?thesis using RemoveFromTimeoutList_inv [where cfg = cfg and s = s and m = m] inv s by (simp add: eng.lose_stream_keeps)
  qed
  then show ?thesis unfolding timeout_turn_def Let_def using inv
    by (auto simp: upd_defs intro!: post_bind_any [of "tailq_remove _ _"] eng.bindQ [where cfg = cfg])
qed

lemma timeout_loop_inv: "engine_inv cfg m \<Longrightarrow> post (engine_inv cfg) (timeout_loop n cfg ts p m)"
proof (induction n arbitrary: p m)
  case 0
  then show ?case by (cases p) simp_all
next
  case (Suc n)
  then show ?case by (cases p) (auto simp: Let_def intro!: post_bind2 [OF timeout_turn_inv])
qed

lemma timers_inv:
  "engine_inv cfg m \<Longrightarrow> post (engine_inv cfg) (CheckTimewaitExpire cfg ts n m)"
  "engine_inv cfg m \<Longrightarrow> post (engine_inv cfg) (CheckConnectionTimeout cfg ts n m)"
  by (simp_all add: CheckTimewaitExpire_def CheckConnectionTimeout_def timewait_loop_inv timeout_loop_inv)

end
