(* ===== verification/Engine_Reach.thy ===== *)
theory Engine_Reach
  imports Sample Api_Steps Engine_Output Engine_Timers
begin

text \<open>
  The states that the stack can get into: those reached from a new manager by received frames, the
  timers, the output, what the main loop does with the queues of the application, the calls of the
  application themselves, and anything that does not concern the lists, the table and the pools. All
  of them have the invariant.
\<close>

section \<open>The new manager\<close>

lemma fresh_inv:
  assumes f: "m_flow_table m = (\<lambda>_. [])" "m_flow_cnt m = 0" "\<And>k. idle_sender (m_senders m k)"
    "pool_use (m_flow_pool m) {}" "pool_use (m_rv_pool m) {}" "pool_use (m_sv_pool m) {}"
    "m_timewait_list m = []" "m_timeout_list m = []" "\<And>i. rto_list (m_rto_store m) i = []"
    "m_rto_list_cnt m = 0" "m_timewait_list_cnt m = 0" "m_timeout_list_cnt m = 0"
  shows "engine_inv cfg m"
proof -
  have l: "live m = {}" by (simp add: live_def f(1))
  have "ht_repr (m_flow_table m) (m_streams m) (\<lambda>_. None)" by (simp add: ht_repr_def f(1))
  then have "table_inv m" by (auto simp: table_inv_def l f(2))
  moreover have "pools_inv m" by (simp add: pools_inv_def l pool_use_owns f(4-6))
  moreover have "control_inv cfg m" "send_inv cfg m" "ack_inv cfg m"
    using f(3) by (simp_all add: control_inv_def send_inv_def ack_inv_def idle_sender_def list_ok_def l)
  ultimately show ?thesis
    by (simp add: engine_inv_def routes_inv_def timewait_inv_def timeout_inv_def rto_inv_def list_ok_def l f(7-12))
qed

lemma InitializeMTCPManager_inv:
  "InitializeMTCPManager cfg sizes log_ok e = Some (Some m) \<Longrightarrow> engine_inv cfg m"
  by (rule fresh_inv) (erule InitializeMTCPManager_fresh)+

lemma sample_inv: "engine_inv cfg sample_manager"
  by (rule fresh_inv) (simp_all add: sample_manager_def idle_sender_def sample_pool_use)

section \<open>Reachable states\<close>

text \<open>The calls of the application. The stream behind a socket has to be in use still: the stack may
  destroy a stream whose socket the application has not closed (after a failed \<open>mtcp_connect\<close>, say), and
  then the pointer in the socket dangles. The calls on pipes and epoll objects and the calls that only look
  at a socket leave the core alone, and are covered by the last rule of \<open>engine_step\<close>.\<close>

definition live_socket :: "int \<Rightarrow> mtcp_manager \<Rightarrow> bool" where
  "live_socket sockid m \<longleftrightarrow> (\<forall>s. so_obj (m_smap m (nat sockid)) = StreamObj s \<longrightarrow> s \<in> live m)"

definition live_accept :: "nat \<Rightarrow> mtcp_manager \<Rightarrow> bool" where
  "live_accept l m \<longleftrightarrow> (\<forall>s q. StreamDequeue (l_acceptq (m_listeners m l)) = Some (Some s, q) \<longrightarrow> s \<in> live m)"

inductive api_step :: "mtcp_config \<Rightarrow> mtcp_manager \<Rightarrow> mtcp_manager \<Rightarrow> bool" for cfg where
  recv: "live_socket k m \<Longrightarrow> mtcp_recv cfg mctx k len flags m = Some (d, m') \<Longrightarrow> api_step cfg m m'"
| readv: "live_socket k m \<Longrightarrow> mtcp_readv cfg mctx k lens m = Some (d, m') \<Longrightarrow> api_step cfg m m'"
| put: "live_socket k m \<Longrightarrow> mtcp_write cfg mctx k buf m = Some (n, m') \<Longrightarrow> api_step cfg m m'"
| putv: "live_socket k m \<Longrightarrow> mtcp_writev cfg mctx k iov m = Some (n, m') \<Longrightarrow> api_step cfg m m'"
| close: "live_socket k m \<Longrightarrow> mtcp_close cfg mctx k m = Some (n, m') \<Longrightarrow> api_step cfg m m'"
| abort: "live_socket k m \<Longrightarrow> mtcp_abort cfg mctx k m = Some (n, m') \<Longrightarrow> api_step cfg m m'"
| accept: "(\<And>l. so_obj (m_smap m (nat k)) = ListenerObj l \<Longrightarrow> live_accept l m) \<Longrightarrow>
    mtcp_accept cfg mctx k m = Some (a, m') \<Longrightarrow> api_step cfg m m'"
| accept_again: "live_accept l m \<Longrightarrow> accept_resume l m = Some (a, m') \<Longrightarrow> api_step cfg m m'"
| connect: "(\<And>c inet daddr b m1. addr = Some (inet, daddr) \<Longrightarrow>
      connect_address cfg c (nat k) daddr m = Some (Ret b, m1) \<Longrightarrow> unused_tuple (nat k) daddr m1) \<Longrightarrow>
    mtcp_connect cfg mctx k addr m = Some (u, m') \<Longrightarrow> api_step cfg m m'"
| listen: "mtcp_listen cfg mctx k backlog m = Some (u, m') \<Longrightarrow> api_step cfg m m'"
| socket: "mtcp_socket mctx inet ty m = Some (n', m') \<Longrightarrow> api_step cfg m m'"
| bind_addr: "mtcp_bind cfg mctx k addr m = Some (u, m') \<Longrightarrow> api_step cfg m m'"
| init_rss: "mtcp_init_rss cfg mctx sa na da dp m = Some (u, m') \<Longrightarrow> api_step cfg m m'"
| pipes: "mtcp_pipe buf mctx m = Some (p, m') \<Longrightarrow> api_step cfg m m'"
| epoll_create: "mtcp_epoll_create mctx sz m = Some (n', m') \<Longrightarrow> api_step cfg m m'"
| epoll_ctl: "mtcp_epoll_ctl cfg mctx epid ope k ev m = Some (u, m') \<Longrightarrow> api_step cfg m m'"
| epoll_wait: "mtcp_epoll_wait cfg mctx epid ok maxevents t m = Some (evs, m') \<Longrightarrow> api_step cfg m m'"
| epoll_wake: "epoll_wait_resume ek e maxevents t m = Some (evs, m') \<Longrightarrow> api_step cfg m m'"

text \<open>The last rule is what is not the work of the stack's own lists: the clock, the driver, the other
  components and the remaining calls may change every part of the state but \<^const>\<open>core\<close>.\<close>

inductive engine_step :: "mtcp_config \<Rightarrow> mtcp_manager \<Rightarrow> mtcp_manager \<Rightarrow> bool" for cfg where
  frame: "ProcessPacket cfg nif ts pkt m = Some (r, m') \<Longrightarrow> engine_step cfg m m'"
| rtm: "CheckRtmTimeout cfg ts n m = Some m' \<Longrightarrow> engine_step cfg m m'"
| timewait: "CheckTimewaitExpire cfg ts n m = Some m' \<Longrightarrow> engine_step cfg m m'"
| timeout: "CheckConnectionTimeout cfg ts n m = Some m' \<Longrightarrow> engine_step cfg m m'"
| write_out: "WritePacketsToChunks cfg ts m = Some m' \<Longrightarrow> engine_step cfg m m'"
| events: "flush_manager_events ts m = Some m' \<Longrightarrow> engine_step cfg m m'"
| connect: "s \<in> live m \<Longrightarrow> AddtoControlList cfg s m = Some m' \<Longrightarrow> engine_step cfg m m'"
| send: "s \<in> live m \<Longrightarrow> AddtoSendList cfg s m = Some m' \<Longrightarrow> engine_step cfg m m'"
| ack: "s \<in> live m \<Longrightarrow> EnqueueACK cfg s opt m = Some m' \<Longrightarrow> engine_step cfg m m'"
| close: "s \<in> live m \<Longrightarrow> handle_close cfg s m = Some m' \<Longrightarrow> engine_step cfg m m'"
| reset: "s \<in> live m \<Longrightarrow> handle_reset cfg s m = Some m' \<Longrightarrow> engine_step cfg m m'"
| destroy: "s \<in> live m \<Longrightarrow> DestroyTCPStream cfg s m = Some m' \<Longrightarrow> engine_step cfg m m'"
| call: "api_step cfg m m' \<Longrightarrow> engine_step cfg m m'"
| elsewhere: "core m' = core m \<Longrightarrow> engine_step cfg m m'"

inductive reachable :: "mtcp_config \<Rightarrow> mtcp_manager \<Rightarrow> bool" for cfg where
  start: "InitializeMTCPManager cfg sizes log_ok e = Some (Some m) \<Longrightarrow> reachable cfg m"
| step: "reachable cfg m \<Longrightarrow> engine_step cfg m m' \<Longrightarrow> reachable cfg m'"

lemma flush_manager_events_quiet: "core m1 = core m \<Longrightarrow> quiet m (flush_manager_events ts m1)"
  unfolding flush_manager_events_def Let_def
  by (rule quiet_intros | rule quiet_bind_any | (simp; fail))+

lemma owned_live: "engine_inv cfg m \<Longrightarrow> live_socket k m \<Longrightarrow>
    \<forall>s. so_obj (m_smap m (nat k)) = StreamObj s \<longrightarrow> live_inv cfg s m"
  by (simp add: live_socket_def)

lemma quiet_inv: "quiet2 m (Some (r, m')) \<Longrightarrow> engine_inv cfg m \<Longrightarrow> engine_inv cfg m'"
  using eng.quietQ(2) [of m "Some (r, m')" cfg] by simp

lemma api_step_inv:
  assumes "api_step cfg m m'" "engine_inv cfg m" shows "engine_inv cfg m'"
  using assms
proof (induction rule: api_step.induct)
  case (recv k m mctx len flags d m')
  then show ?case
    using eng.mtcp_recv_keeps [OF _ owned_live, where cfg = cfg and m = m and mctx = mctx and len = len and flags = flags] by force
next
  case (readv k m mctx lens d m')
  then show ?case using eng.mtcp_readv_keeps [OF _ owned_live, where cfg = cfg and m = m and mctx = mctx and lens = lens] by force
next
  case (put k m mctx buf n m')
  then show ?case using eng.mtcp_write_keeps [OF _ owned_live, where cfg = cfg and m = m and mctx = mctx and buf = buf] by force
next
  case (putv k m mctx iov n m')
  then show ?case using eng.mtcp_writev_keeps [OF _ owned_live, where cfg = cfg and m = m and mctx = mctx and iov = iov] by force
next
  case (close k m mctx n m')
  then show ?case using eng.mtcp_close_keeps [OF _ owned_live, where cfg = cfg and m = m and mctx = mctx] by force
next
  case (abort k m mctx n m')
  then show ?case using eng.mtcp_abort_keeps [OF _ owned_live, where cfg = cfg and m = m and mctx = mctx] by force
next
  case (accept m k mctx a m')
  then have "kept cfg (mtcp_accept cfg mctx k m)"
    by (intro eng.mtcp_accept_keeps) (auto simp: live_accept_def)
  with accept show ?case by simp
next
  case (accept_again l m a m')
  then have "kept cfg (accept_resume l m)"
    by (intro eng.accept_resume_keeps) (auto simp: live_accept_def)
  with accept_again show ?case by simp
next
  case (connect addr k m mctx u m')
  then have "kept cfg (mtcp_connect cfg mctx k addr m)" by (intro mtcp_connect_inv) blast+
  with connect show ?case by simp
qed (erule quiet_inv [rotated], erule subst, rule quiet_ops, rule refl)+

lemma engine_step_inv: "engine_step cfg m m' \<Longrightarrow> engine_inv cfg m \<Longrightarrow> engine_inv cfg m'"
proof (induction rule: engine_step.induct)
  case (frame nif ts pkt m r m')
  then show ?case using ProcessPacket_inv [of cfg m nif ts pkt] by simp
next
  case (rtm ts n m m')
  then show ?case using CheckRtmTimeout_inv [of cfg m ts n] by simp
next
  case (timewait ts n m m')
  then show ?case using timers_inv(1) [of cfg m ts n] by simp
next
  case (timeout ts n m m')
  then show ?case using timers_inv(2) [of cfg m ts n] by simp
next
  case (write_out ts m m')
  then show ?case using WritePacketsToChunks_inv [of cfg m ts] by simp
next
  case (events ts m m')
  then show ?case using eng.quietQ(1) [OF flush_manager_events_quiet [OF refl], of cfg m ts] by simp
next
  case (connect s m m')
  then show ?case using eng.control(1) [where cfg = cfg and s = s and m = m] by simp
next
  case (send s m m')
  then show ?case using eng.send(1) [where cfg = cfg and s = s and m = m] by simp
next
  case (ack s m opt m')
  then show ?case using eng.EnqueueACK_keeps [where cfg = cfg and s = s and m = m and opt = opt] by simp
next
  case (close s m m')
  then show ?case using eng.handle_close_keeps [where cfg = cfg and s = s and m = m] by simp
next
  case (reset s m m')
  then show ?case using eng.handle_reset_keeps [where cfg = cfg and s = s and m = m] by simp
next
  case (destroy s m m')
  then show ?case using eng.destroy [where cfg = cfg and s = s and m = m] by simp
next
  case (elsewhere m' m)
  then show ?case by (metis eng.other_Q)
next
  case (call m m')
  then show ?case by (rule api_step_inv)
qed

lemma reachable_inv: "reachable cfg m \<Longrightarrow> engine_inv cfg m"
  by (induction rule: reachable.induct) (auto intro: InitializeMTCPManager_inv engine_step_inv)



end
