(* ===== verification/Engine_Props.thy ===== *)
theory Engine_Props
  imports Engine_Reach
begin

text \<open>
  What the invariant of the stack gives: the lists are never corrupted, and connections do not
  disturb each other.
\<close>

section \<open>A connection of the sample\<close>

definition sample_created where
  "sample_created = CreateTCPStream sample_cfg None 1 0x0100000a 0x5000 0x0200000a 0x1027 sample_manager"

definition sample_conn :: mtcp_manager where
  "sample_conn = snd (the sample_created)"

lemma sample_created:
  "map_option (\<lambda>(so, m). (so, nif_out (sndvar (m_streams m 0)), flow_key (m_streams m 0), io_ioctl m)) sample_created
    = Some (Some 0, 0, (0x0100000a, 0x5000, 0x0200000a, 0x1027), \<lambda>_ _. 0)"
proof -
  have "m_flow_pool sample_manager = sample_pool" "m_rv_pool sample_manager = sample_pool"
    "m_sv_pool sample_manager = sample_pool" "m_flow_table sample_manager = (\<lambda>_. [])"
    "io_ioctl sample_manager = (\<lambda>_ _. 0)"
    by (simp_all add: sample_manager_def)
  moreover obtain mp where "MPAllocateChunk sample_pool = Some (Some 0, mp)"
    by (simp add: MPAllocateChunk_def sample_pool_def)
  moreover have "GetOutputInterface sample_cfg 0x0200000a = (0, False)"
    by (simp add: GetOutputInterface_def sample_cfg_def)
  ultimately show ?thesis
    by (simp add: sample_created_def CreateTCPStream_def StreamHTInsert_def tailq_insert_tail_def HashFlow_bound Let_def
        case_prod_beta upd_defs set_sock_obj_def init_stream_def flow_key_def next_rand_def)
qed

lemma sample_created_conn: "sample_created = Some (Some 0, sample_conn)"
  and sample_conn_nif: "nif_out (sndvar (m_streams sample_conn 0)) = 0"
  and sample_conn_key: "flow_key (m_streams sample_conn 0) = (0x0100000a, 0x5000, 0x0200000a, 0x1027)"
  and sample_conn_ioctl: "io_ioctl sample_conn = (\<lambda>_ _. 0)"
proof -
  obtain b where b: "sample_created = Some (Some 0, b)" "nif_out (sndvar (m_streams b 0)) = 0"
    "flow_key (m_streams b 0) = (0x0100000a, 0x5000, 0x0200000a, 0x1027)" "io_ioctl b = (\<lambda>_ _. 0)"
    using sample_created by auto
  moreover have "sample_conn = b" unfolding sample_conn_def b by simp
  ultimately show "sample_created = Some (Some 0, sample_conn)" "nif_out (sndvar (m_streams sample_conn 0)) = 0"
    "flow_key (m_streams sample_conn 0) = (0x0100000a, 0x5000, 0x0200000a, 0x1027)" "io_ioctl sample_conn = (\<lambda>_ _. 0)"
    by (simp_all only:)
qed

lemma sample_conn_live: "live_inv sample_cfg 0 sample_conn"
  and sample_conn_only: "live sample_conn = {0}"
proof -
  have "StreamHTSearch (m_flow_table sample_manager) (m_streams sample_manager)
     (zero_stream\<lparr>s_saddr := 0x0100000a, s_sport := 0x5000, s_daddr := 0x0200000a, s_dport := 0x1027\<rparr>) = None"
    "live sample_manager = {}"
    by (simp_all add: StreamHTSearch_def sample_manager_def live_def)
  with CreateTCPStream_inv [OF sample_inv this(1), where cfg = sample_cfg and socket = None and type = 1]
  show "live_inv sample_cfg 0 sample_conn" "live sample_conn = {0}"
    using sample_created_conn by (simp_all add: sample_created_def created_def)
qed

lemma sample_conn_search:
  "StreamHTSearch (m_flow_table sample_conn) (m_streams sample_conn) k =
     (if flow_key k = (0x0100000a, 0x5000, 0x0200000a, 0x1027) then Some 0 else None)"
proof -
  obtain M where M: "ht_repr (m_flow_table sample_conn) (m_streams sample_conn) M"
    using sample_conn_live by (auto simp: engine_inv_def table_inv_def)
  have r: "ran M = {0}" using live_ran [OF M] sample_conn_only by simp
  then have "0 \<in> ran M" by simp
  then obtain k0 where k0: "M k0 = Some 0" by (auto simp: ran_def)
  have key: "k1 = (0x0100000a, 0x5000, 0x0200000a, 0x1027)" if "M k1 = Some x" for k1 x
    using ht_reprD(4) [OF M that] ranI [of M, OF that] r sample_conn_key by simp
  show ?thesis using ht_repr_search [OF M, of k] key [OF k0] k0 key [of "flow_key k"] by (cases "M (flow_key k)") auto
qed

lemma sample_conn_sender: "sender_of sample_cfg 0 sample_conn = Some (NSender 0)"
  by (simp add: sender_of_def GetSender_def sample_conn_nif arr_at_def sample_cfg_def)

section \<open>The lists are never corrupted\<close>

lemma tailq_ops_safe:
  assumes inv: "live_inv cfg s m" and k: "sender_of cfg s m = Some k"
  shows "AddtoControlList cfg s m \<noteq> None" "RemoveFromControlList cfg s m \<noteq> None"
    "AddtoSendList cfg s m \<noteq> None" "RemoveFromSendList cfg s m \<noteq> None"
    "AddtoACKList cfg s m \<noteq> None" "RemoveFromACKList cfg s m \<noteq> None"
proof -
  have inv1: "engine_inv cfg m" and s: "s \<in> live m" using inv by simp_all
  note mem = control_member [OF inv1, of s k] send_member [OF inv1, of s k] ack_member [OF inv1, of s k]
  show "AddtoControlList cfg s m \<noteq> None" "RemoveFromControlList cfg s m \<noteq> None"
    "AddtoSendList cfg s m \<noteq> None" "RemoveFromSendList cfg s m \<noteq> None"
    "AddtoACKList cfg s m \<noteq> None" "RemoveFromACKList cfg s m \<noteq> None"
    unfolding list_op_defs using mem s k
    by (auto simp: tailq_insert_tail_def tailq_remove_def upd_defs)
qed

lemma timer_ops_safe:
  assumes inv: "live_inv cfg s m"
  shows "AddtoRTOList s m \<noteq> None" "RemoveFromRTOList s m \<noteq> None" "AddtoTimewaitList cfg s ts m \<noteq> None"
    "RemoveFromTimewaitList s m \<noteq> None" "AddtoTimeoutList s m \<noteq> None" "RemoveFromTimeoutList s m \<noteq> None"
    "UpdateTimeoutList s m \<noteq> None"
proof -
  have inv1: "engine_inv cfg m" and s: "s \<in> live m" using inv by simp_all
  note mem = rto_member [OF inv1, of s]
  have tw: "s \<in> set (m_timewait_list m) \<longleftrightarrow> on_timewait_list (m_streams m s)" "distinct (m_timewait_list m)"
    using engine_invD(7) [OF inv1] s by (auto simp: timewait_inv_def list_ok_def)
  have to: "s \<in> set (m_timeout_list m) \<longleftrightarrow> on_timeout_list (m_streams m s)" "distinct (m_timeout_list m)"
    using engine_invD(8) [OF inv1] s by (auto simp: timeout_inv_def list_ok_def)
  show "AddtoRTOList s m \<noteq> None" "RemoveFromRTOList s m \<noteq> None" "AddtoTimewaitList cfg s ts m \<noteq> None"
    "RemoveFromTimewaitList s m \<noteq> None" "AddtoTimeoutList s m \<noteq> None" "RemoveFromTimeoutList s m \<noteq> None"
    "UpdateTimeoutList s m \<noteq> None"
    unfolding list_op_defs rto_insert_def using mem tw to s
    by (auto simp: tailq_insert_tail_def tailq_remove_def upd_defs Let_def)
qed

text \<open>C8. With the invariant, no operation on a list of the stack corrupts it: for a connection in use
  that has a sender, every insertion finds the stream unlinked and every removal finds it linked, in all
  three lists of its sender, in the retransmission store and in the timewait and timeout lists. (An
  insertion of a linked element or a removal of an unlinked one is \<^const>\<open>None\<close>.)\<close>

theorem list_operations_safe:
  assumes "engine_inv cfg m" and "s \<in> live m" and "sender_of cfg s m \<noteq> None"
  shows "AddtoControlList cfg s m \<noteq> None \<and> RemoveFromControlList cfg s m \<noteq> None
    \<and> AddtoSendList cfg s m \<noteq> None \<and> RemoveFromSendList cfg s m \<noteq> None
    \<and> AddtoACKList cfg s m \<noteq> None \<and> RemoveFromACKList cfg s m \<noteq> None
    \<and> AddtoRTOList s m \<noteq> None \<and> RemoveFromRTOList s m \<noteq> None
    \<and> AddtoTimewaitList cfg s ts m \<noteq> None \<and> RemoveFromTimewaitList s m \<noteq> None
    \<and> AddtoTimeoutList s m \<noteq> None \<and> RemoveFromTimeoutList s m \<noteq> None \<and> UpdateTimeoutList s m \<noteq> None"
proof -
  obtain k where k: "sender_of cfg s m = Some k" using assms(3) by auto
  show ?thesis using tailq_ops_safe [OF conjI [OF assms(1,2)] k] timer_ops_safe [OF conjI [OF assms(1,2)]] by blast
qed

theorem list_operations_safe_witness:
  "engine_inv sample_cfg sample_conn \<and> 0 \<in> live sample_conn \<and> sender_of sample_cfg 0 sample_conn \<noteq> None
    \<and> AddtoControlList sample_cfg 0 sample_conn \<noteq> None \<and> AddtoRTOList 0 sample_conn \<noteq> None"
  using list_operations_safe [of sample_cfg sample_conn 0 0] sample_conn_live sample_conn_sender by simp

section \<open>Connections do not disturb each other\<close>

text \<open>A segment that resets a connection nobody has, sent to the sample.\<close>

definition sample_rst :: "byte list" where
  "sample_rst = [0, 22, 0, 80, 0, 0, 0, 1, 0, 0, 0, 0, 80, 4, 0, 0, 0, 0, 0, 0]"

text \<open>C4. A received TCP segment changes at most the control block of the connection that its addresses
  and ports name, or of a new one: every other connection in use is left exactly as it was, its state,
  buffers, sequence numbers, timers and list flags included.\<close>

theorem ProcessTCPPacket_separation:
  assumes "engine_inv cfg m" and "read_tcphdr seg = Some h"
    and "ProcessTCPPacket cfg ts nif ihl saddr daddr ip_len seg m = Some (r, m')"
    and "x \<in> live m" and "StreamHTSearch (m_flow_table m) (m_streams m)
      (zero_stream\<lparr>s_saddr := daddr, s_sport := th_dest h, s_daddr := saddr, s_dport := th_source h\<rparr>) \<noteq> Some x"
  shows "m_streams m' x = m_streams m x"
  using ProcessTCPPacket_touched [OF assms(1,2), of saddr daddr ts nif ihl ip_len] assms(3-5)
  by (auto simp: touched_def)

lemma sample_rst_header:
  "\<exists>h. read_tcphdr sample_rst = Some h \<and> th_rst h \<and> \<not> th_syn h \<and> th_doff h = 5 \<and> th_source h = 0x1600 \<and> th_dest h = 0x5000"
  by (simp add: read_tcphdr_def sample_rst_def TCP_HEADER_LEN_def has_flag_def flag_consts le16_def be16_def)

theorem ProcessTCPPacket_separation_witness:
  "engine_inv sample_cfg sample_conn \<and> 0 \<in> live sample_conn
    \<and> (\<exists>m'. ProcessTCPPacket sample_cfg 0 0 5 0x0300000a 0x0100000a 40 sample_rst sample_conn = Some (1, m')
        \<and> m_streams m' 0 = m_streams sample_conn 0)"
proof -
  obtain h where h: "read_tcphdr sample_rst = Some h" "th_rst h" "\<not> th_syn h" "th_doff h = 5"
    "th_source h = 0x1600" "th_dest h = 0x5000" using sample_rst_header by blast
  let ?k = "zero_stream\<lparr>s_saddr := 0x0100000a, s_sport := th_dest h, s_daddr := 0x0300000a, s_dport := th_source h\<rparr>"
  have k: "StreamHTSearch (m_flow_table sample_conn) (m_streams sample_conn) ?k = None"
    by (simp add: sample_conn_search flow_key_def h)
  have p: "ProcessTCPPacket sample_cfg 0 0 5 0x0300000a 0x0100000a 40 sample_rst sample_conn = Some (1, sample_conn)"
    using h k by (simp add: ProcessTCPPacket_def sample_conn_ioctl CreateNewFlowHTEntry_def)
  show ?thesis
    using ProcessTCPPacket_separation [OF _ h(1) p, of 0] k sample_conn_live p by simp
qed

end
