(* ===== verification/Event_Frame.thy ===== *)
theory Event_Frame
  imports Api_Base
begin

text \<open>
  What adding an event does to the state: it fills a queue of the epoll object and marks the event
  as pending in its socket, and it never fails on well-formed queues.
\<close>

text \<open>The queues of the epoll object are well-formed; an event that is added leaves everything but the queues
  and the pending events of its socket as it is.\<close>

definition ep_ok :: "mtcp_epoll \<Rightarrow> bool" where
  "ep_ok ep \<longleftrightarrow> (\<forall>qt. eq_inv (ep_queue qt ep))"

definition events_ok :: "mtcp_manager \<Rightarrow> bool" where
  "events_ok m \<longleftrightarrow> (\<forall>e. m_ep m = Some e \<longrightarrow> ep_ok (m_eps m e))"

definition event_frame :: "mtcp_manager \<Rightarrow> mtcp_manager \<Rightarrow> bool" where
  "event_frame m m' \<longleftrightarrow> (\<exists>eps sm. m' = m\<lparr>m_eps := eps, m_smap := sm\<rparr>
     \<and> (\<forall>k. \<exists>ev. sm k = (m_smap m k)\<lparr>so_events := ev\<rparr>)) \<and> (events_ok m \<longrightarrow> events_ok m')"

lemma event_frame_refl: "event_frame m m"
proof -
  have "m = m\<lparr>m_eps := m_eps m, m_smap := m_smap m\<rparr>" by simp
  moreover have "\<forall>k. \<exists>ev. m_smap m k = (m_smap m k)\<lparr>so_events := ev\<rparr>"
  proof
    fix k show "\<exists>ev. m_smap m k = (m_smap m k)\<lparr>so_events := ev\<rparr>"
      by (rule exI [of _ "so_events (m_smap m k)"]) simp
  qed
  ultimately show ?thesis unfolding event_frame_def by blast
qed

lemma event_frame_trans:
  assumes "event_frame m m1" "event_frame m1 m2" shows "event_frame m m2"
proof -
  obtain eps1 sm1 where 1: "m1 = m\<lparr>m_eps := eps1, m_smap := sm1\<rparr>" "\<forall>k. \<exists>ev. sm1 k = (m_smap m k)\<lparr>so_events := ev\<rparr>"
    using assms(1) unfolding event_frame_def by blast
  obtain eps2 sm2 where 2: "m2 = m1\<lparr>m_eps := eps2, m_smap := sm2\<rparr>" "\<forall>k. \<exists>ev. sm2 k = (m_smap m1 k)\<lparr>so_events := ev\<rparr>"
    using assms(2) unfolding event_frame_def by blast
  have "\<exists>ev. sm2 k = (m_smap m k)\<lparr>so_events := ev\<rparr>" for k
  proof -
    obtain ev1 ev2 where "sm1 k = (m_smap m k)\<lparr>so_events := ev1\<rparr>" "sm2 k = (m_smap m1 k)\<lparr>so_events := ev2\<rparr>"
      using 1 2 by blast
    then show ?thesis using 1(1) by (intro exI [of _ ev2]) simp
  qed
  moreover have "m2 = m\<lparr>m_eps := eps2, m_smap := sm2\<rparr>" using 1 2 by simp
  ultimately show ?thesis using assms unfolding event_frame_def by blast
qed

lemma eq_push_total: "eq_inv q \<Longrightarrow> \<exists>r q'. eq_push q e = Some (r, q') \<and> eq_inv q'"
  using ev_q.enq_total by blast

lemma ep_set_queue_ok: "ep_ok ep \<Longrightarrow> eq_inv q \<Longrightarrow> ep_ok (ep_set_queue qt q ep)"
  unfolding ep_ok_def by (cases qt) (auto simp: ep_set_queue_def ep_queue_def split: event_queue_type.splits)

lemma AddEpollEvent_total:
  assumes "ep_ok ep"
  shows "\<exists>r ep' ev'. AddEpollEvent (Some ep) qt (Some so) ev = Some (r, Some ep', Some (so\<lparr>so_events := ev'\<rparr>)) \<and> ep_ok ep'"
proof -
  have st: "ep_ok (e\<lparr>ep_stat := st\<rparr>) = ep_ok e" for e st
    by (auto simp: ep_ok_def ep_queue_def split: event_queue_type.splits)
  let ?ep1 = "ep\<lparr>ep_stat := (ep_stat ep)\<lparr>st_issued := st_issued (ep_stat ep) + 1\<rparr>\<rparr>"
  let ?item = "\<lparr>ei_ev = \<lparr>ev_events = ev, ev_data = so_ep_data so\<rparr>, ei_sockid = so_id so\<rparr>"
  have ep1: "ep_ok ?ep1" using assms by (simp add: st)
  then have "eq_inv (ep_queue qt ?ep1)" by (simp add: ep_ok_def)
  from eq_push_total [OF this, of ?item] obtain r q where q: "eq_push (ep_queue qt ?ep1) ?item = Some (r, q)" "eq_inv q"
    by blast
  note add = AddEpollEvent_def [of "Some ep" qt "Some so" ev, unfolded prod.case option.case Let_def q(1)]
  consider "ev = 0" | "ev \<noteq> 0" "so_events so AND ev \<noteq> 0" | "ev \<noteq> 0" "so_events so AND ev = 0" "r < 0"
    | "ev \<noteq> 0" "so_events so AND ev = 0" "\<not> r < 0" by blast
  then show ?thesis
  proof cases
    case 1
    with assms show ?thesis unfolding add
      by - (rule exI [of _ "- 1"], rule exI [of _ ep], rule exI [of _ "so_events so"], simp)
  next
    case 2
    with ep1 show ?thesis unfolding add
      by - (rule exI [of _ 0], rule exI [of _ ?ep1], rule exI [of _ "so_events so"], simp)
  next
    case 3
    with ep1 show ?thesis unfolding add
      by - (rule exI [of _ "- 1"], rule exI [of _ ?ep1], rule exI [of _ "so_events so"], simp)
  next
    case 4
    with ep_set_queue_ok [OF ep1 q(2), of qt] show ?thesis unfolding add
      by - (rule exI [of _ 0], rule exI, rule exI [of _ "so_events so OR ev"], simp, rule conjI, rule refl, simp add: st)
  qed
qed

lemma event_frameI:
  assumes "ep_ok (m_eps m e) \<Longrightarrow> ep_ok ep"
  shows "event_frame m (m\<lparr>m_eps := (m_eps m)(e := ep), m_smap := (m_smap m)(k := (m_smap m k)\<lparr>so_events := ev\<rparr>)\<rparr>)"
proof -
  have "\<exists>ev'. ((m_smap m)(k := (m_smap m k)\<lparr>so_events := ev\<rparr>)) j = (m_smap m j)\<lparr>so_events := ev'\<rparr>" for j
    by (rule exI [of _ "if j = k then ev else so_events (m_smap m j)"]) simp
  then have "\<exists>eps sm. m\<lparr>m_eps := (m_eps m)(e := ep), m_smap := (m_smap m)(k := (m_smap m k)\<lparr>so_events := ev\<rparr>)\<rparr>
      = m\<lparr>m_eps := eps, m_smap := sm\<rparr> \<and> (\<forall>k. \<exists>ev. sm k = (m_smap m k)\<lparr>so_events := ev\<rparr>)" by blast
  then show ?thesis unfolding event_frame_def events_ok_def using assms by auto
qed

lemma mtcp_add_event_total:
  assumes "events_ok m"
  shows "\<exists>m'. mtcp_add_event qt k ev m = Some m' \<and> event_frame m m'"
proof (cases "m_ep m")
  case None
  then show ?thesis by (simp add: mtcp_add_event_def AddEpollEvent_def event_frame_refl)
next
  case (Some e)
  with assms have "ep_ok (m_eps m e)" by (simp add: events_ok_def)
  from AddEpollEvent_total [OF this] obtain r ep' ev' where
    "AddEpollEvent (Some (m_eps m e)) qt (Some (m_smap m k)) ev = Some (r, Some ep', Some ((m_smap m k)\<lparr>so_events := ev'\<rparr>))"
    "ep_ok ep'" by blast
  then show ?thesis using event_frameI [of m e ep'] by (simp add: mtcp_add_event_def Some)
qed

lemma ep_add_event_total:
  assumes "ep_ok (m_eps m e)"
  shows "\<exists>m'. ep_add_event e qt k ev m = Some m' \<and> event_frame m m' \<and> ep_ok (m_eps m' e)"
proof -
  from AddEpollEvent_total [OF assms] obtain r ep' ev' where
    "AddEpollEvent (Some (m_eps m e)) qt (Some (m_smap m k)) ev = Some (r, Some ep', Some ((m_smap m k)\<lparr>so_events := ev'\<rparr>))"
    "ep_ok ep'" by blast
  then show ?thesis using event_frameI [of m e ep'] by (simp add: ep_add_event_def)
qed

text \<open>The consequences that a caller uses.\<close>

lemma event_frameD:
  assumes "event_frame m m'"
  shows "m_pipes m' = m_pipes m" "m_streams m' = m_streams m" "m_listeners m' = m_listeners m" "m_ep m' = m_ep m"
    "so_socktype (m_smap m' k) = so_socktype (m_smap m k)" "so_obj (m_smap m' k) = so_obj (m_smap m k)"
    "so_opts (m_smap m' k) = so_opts (m_smap m k)" "so_epoll (m_smap m' k) = so_epoll (m_smap m k)"
    "so_id (m_smap m' k) = so_id (m_smap m k)" "m_free_smap m' = m_free_smap m"
    "GetMTCPManager mctx m' = GetMTCPManager mctx m" "events_ok m \<Longrightarrow> events_ok m'"
proof -
  obtain eps sm where m': "m' = m\<lparr>m_eps := eps, m_smap := sm\<rparr>" "\<forall>k. \<exists>ev. sm k = (m_smap m k)\<lparr>so_events := ev\<rparr>"
    using assms unfolding event_frame_def by blast
  obtain ev where "sm k = (m_smap m k)\<lparr>so_events := ev\<rparr>" using m' by blast
  with m' assms show "m_pipes m' = m_pipes m" "m_streams m' = m_streams m" "m_listeners m' = m_listeners m" "m_ep m' = m_ep m"
    "so_socktype (m_smap m' k) = so_socktype (m_smap m k)" "so_obj (m_smap m' k) = so_obj (m_smap m k)"
    "so_opts (m_smap m' k) = so_opts (m_smap m k)" "so_epoll (m_smap m' k) = so_epoll (m_smap m k)"
    "so_id (m_smap m' k) = so_id (m_smap m k)" "m_free_smap m' = m_free_smap m"
    "GetMTCPManager mctx m' = GetMTCPManager mctx m" "events_ok m \<Longrightarrow> events_ok m'"
    by (simp_all add: GetMTCPManager_def event_frame_def split: option.split)
qed

end
