(* ===== verification/Epoll_Props.thy ===== *)
theory Epoll_Props
  imports Epoll Event_Frame Sample
begin

text \<open>
  Waiting for events: the two loops over the circular queues deliver what a plain list of events would
  give, and the jump back to the label is taken at most once, so that the call always returns or goes
  to sleep with both queues empty.
\<close>

text \<open>The specification: events are taken from the front of a list while there is room for the result,
  the invalid ones are dropped, and each one is no longer pending in its socket. The last component
  is what is left.\<close>

fun deliver ::
    "int \<Rightarrow> (nat \<Rightarrow> socket_map) \<Rightarrow> mtcp_epoll_event_int list \<Rightarrow> mtcp_epoll_event list \<Rightarrow>
     (nat \<Rightarrow> socket_map) \<times> mtcp_epoll_event list \<times> mtcp_epoll_event_int list" where
  "deliver n smap [] out = (smap, out, [])"
| "deliver n smap (e # es) out =
     (if int (length out) < n then
        deliver n (smap(ei_sockid e := (smap (ei_sockid e))\<lparr>so_events := so_events (smap (ei_sockid e)) AND NOT (ev_events (ei_ev e))\<rparr>))
          es (if event_valid (smap (ei_sockid e)) (ev_events (ei_ev e)) then out @ [ei_ev e] else out)
      else (smap, out, e # es))"

lemma fetch_events_deliver:
  assumes "eq_inv q" "eq_items q = es"
  shows "\<exists>st' q'. fetch_events (length es) n smap st q out =
      Some (fst (deliver n smap es out), st', q', fst (snd (deliver n smap es out)))
    \<and> eq_inv q' \<and> eq_items q' = snd (snd (deliver n smap es out))"
  using assms
proof (induction es arbitrary: smap st q out)
  case (Cons e es)
  show ?case
  proof (cases "int (length out) < n")
    case True
    note adv = eq_advance_item [OF Cons.prems]
    show ?thesis using True adv(1) Cons.IH [OF adv(2,4)] by (simp add: Let_def)
  next
    case False
    with Cons.prems show ?thesis by simp
  qed
qed simp

lemma deliver_nothing:
  "deliver n smap es out = (sm, [], rest) \<Longrightarrow> 0 < n \<Longrightarrow> rest = []"
proof (induction es arbitrary: smap out)
  case (Cons e es)
  then show ?case by (cases "out = []") (auto split: if_splits)
qed simp

lemma deliver_extends: "deliver n smap es out = (sm, out', rest) \<Longrightarrow> \<exists>xs. out' = out @ xs"
  by (induction es arbitrary: smap out) (fastforce split: if_splits)+

lemma deliver_bound:
  "deliver n smap es out = (sm, out', rest) \<Longrightarrow> int (length out) \<le> n \<Longrightarrow> int (length out') \<le> n"
  by (induction es arbitrary: smap out) (auto split: if_splits)

text \<open>What a call of \<open>mtcp_epoll_wait\<close> takes from the two queues of the object \<open>e\<close>, in this order: the new
  socket map, the events, and what is left in each queue.\<close>

definition epoll_deliver ::
    "int \<Rightarrow> nat \<Rightarrow> mtcp_manager \<Rightarrow>
     (nat \<Rightarrow> socket_map) \<times> mtcp_epoll_event list \<times> mtcp_epoll_event_int list \<times> mtcp_epoll_event_int list" where
  "epoll_deliver n e m =
     (let (sm1, out1, rest1) = deliver n (m_smap m) (eq_items (usr_queue (m_eps m e))) [];
          (sm2, out2, rest2) = deliver n sm1 (eq_items (usr_shadow_queue (m_eps m e))) out1
      in (sm2, out2, rest1, rest2))"

lemma ep_ok_queues: "ep_ok ep \<longleftrightarrow> eq_inv (usr_queue ep) \<and> eq_inv (usr_shadow_queue ep) \<and> eq_inv (mtcp_queue ep)"
  unfolding ep_ok_def ep_queue_def by (metis event_queue_type.exhaust event_queue_type.simps(7-9))

lemma fetch_queues_deliver:
  assumes ok: "ep_ok (m_eps m e)" and d: "epoll_deliver n e m = (sm, out, r1, r2)"
  shows "\<exists>m'. fetch_queues e n m = Some (out, m') \<and> m_smap m' = sm \<and> ep_ok (m_eps m' e)
    \<and> eq_items (usr_queue (m_eps m' e)) = r1 \<and> eq_items (usr_shadow_queue (m_eps m' e)) = r2"
proof -
  let ?ep = "m_eps m e"
  obtain sm1 out1 where d1: "deliver n (m_smap m) (eq_items (usr_queue ?ep)) [] = (sm1, out1, r1)"
    and d2: "deliver n sm1 (eq_items (usr_shadow_queue ?ep)) out1 = (sm, out, r2)"
    using d by (auto simp: epoll_deliver_def Let_def split: prod.splits)
  have q: "eq_inv (usr_queue ?ep)" "eq_inv (usr_shadow_queue ?ep)" "eq_inv (mtcp_queue ?ep)" using ok by (simp_all add: ep_ok_queues)
  obtain st1 q1 where f1: "fetch_events (nat (eq_num_events (usr_queue ?ep))) n (m_smap m) (ep_stat ?ep) (usr_queue ?ep) [] =
      Some (sm1, st1, q1, out1)" "eq_inv q1" "eq_items q1 = r1"
    using fetch_events_deliver [OF q(1) refl, of n "m_smap m" "ep_stat ?ep" "[]"] d1 by auto
  obtain st2 q2 where f2: "fetch_events (nat (eq_num_events (usr_shadow_queue ?ep))) n sm1 st1 (usr_shadow_queue ?ep) out1 =
      Some (sm, st2, q2, out)" "eq_inv q2" "eq_items q2 = r2"
    using fetch_events_deliver [OF q(2) refl, of n sm1 st1 out1] d2 by auto
  show ?thesis using f1 f2 q by (simp add: fetch_queues_def Let_def ep_ok_queues)
qed

lemma eq_items_empty: "eq_inv q \<Longrightarrow> eq_items q = [] \<Longrightarrow> eq_num_events q = 0"
  using length_eq_items [of q] by (simp add: eq_inv_def)

lemma epoll_wait_loop_deliver:
  assumes ok: "ep_ok (m_eps m e)" and n: "0 < n" and d: "epoll_deliver n e m = (sm, out, r1, r2)"
  shows "\<exists>m'. epoll_wait_loop e n t m = Some (if out = [] \<and> t \<noteq> 0 then Wait else Ret out, m')
    \<and> m_smap m' = sm \<and> ep_ok (m_eps m' e)
    \<and> eq_items (usr_queue (m_eps m' e)) = r1 \<and> eq_items (usr_shadow_queue (m_eps m' e)) = r2"
proof -
  let ?asleep = "\<lambda>m. m\<lparr>m_eps := (m_eps m)(e := (m_eps m e)\<lparr>ep_waiting := True,
             ep_stat := (ep_stat (m_eps m e))\<lparr>st_waits := st_waits (ep_stat (m_eps m e)) + 1\<rparr>\<rparr>)\<rparr>"
  have sleep: "epoll_wait_loop e n t m = Some (Wait, ?asleep m)"
    if "ep_ok (m_eps m e)" "eq_items (usr_queue (m_eps m e)) = []" "eq_items (usr_shadow_queue (m_eps m e)) = []" "t \<noteq> 0" for m
    using that by (simp add: epoll_wait_loop.simps eq_items_empty ep_ok_queues)
  obtain m' where f: "fetch_queues e n m = Some (out, m')" "m_smap m' = sm" "ep_ok (m_eps m' e)"
    "eq_items (usr_queue (m_eps m' e)) = r1" "eq_items (usr_shadow_queue (m_eps m' e)) = r2"
    using fetch_queues_deliver [OF ok d] by blast
  have left: "r1 = [] \<and> r2 = []" if "out = []"
  proof -
    obtain sm1 out1 where d1: "deliver n (m_smap m) (eq_items (usr_queue (m_eps m e))) [] = (sm1, out1, r1)"
      and d2: "deliver n sm1 (eq_items (usr_shadow_queue (m_eps m e))) out1 = (sm, out, r2)"
      using d by (auto simp: epoll_deliver_def Let_def split: prod.splits)
    have "out1 = []" using deliver_extends [OF d2] that by simp
    then show ?thesis using deliver_nothing [OF _ n] d1 d2 that by blast
  qed
  show ?thesis
  proof (cases "eq_items (usr_queue (m_eps m e)) = [] \<and> eq_items (usr_shadow_queue (m_eps m e)) = [] \<and> t \<noteq> 0")
    case True
    then have "sm = m_smap m" "out = []" "r1 = []" "r2 = []" using d by (simp_all add: epoll_deliver_def)
    with True sleep [OF ok] ok show ?thesis by (simp add: ep_ok_queues)
  next
    case False
    then have first: "epoll_wait_loop e n t m = (if out = [] \<and> t \<noteq> 0 then epoll_wait_loop e n t m' else Some (Ret out, m'))"
      using f(1) ok by (subst epoll_wait_loop.simps) (auto simp: eq_items_def)
    show ?thesis
    proof (cases "out = [] \<and> t \<noteq> 0")
      case True
      with sleep [OF f(3)] f left first show ?thesis by (simp add: ep_ok_queues)
    next
      case False
      with f first show ?thesis by auto
    qed
  qed
qed

lemma epoll_deliver_bound: "epoll_deliver n e m = (sm, out, r1, r2) \<Longrightarrow> 0 < n \<Longrightarrow> int (length out) \<le> n"
  by (auto simp: epoll_deliver_def Let_def dest!: deliver_bound split: prod.splits)

text \<open>C11. Waiting for events delivers exactly the events that a plain list would give: first those of
  the user queue and then those of the shadow queue, in order, without the ones whose socket is unused, no
  longer registered or no longer has them pending, and no more than the caller has room for; what
  does not fit stays in the queues. The call returns unless there is nothing to deliver and time is
  left, and then it sleeps with both queues empty: the jump back to the label never loops.\<close>

theorem mtcp_epoll_wait_delivers:
  assumes "GetMTCPManager mctx m = Inr c" and "0 \<le> epid" and "epid < c_max_concurrency cfg"
    and "so_socktype (m_smap m (nat epid)) = MTCP_SOCK_EPOLL" and "so_obj (m_smap m (nat epid)) = EpollObj e"
    and "ep_ok (m_eps m e)" and "0 < maxevents" and "epoll_deliver maxevents e m = (sm, out, r1, r2)"
  shows "\<exists>m'. mtcp_epoll_wait cfg mctx epid True maxevents timeout m
      = Some (if out = [] \<and> timeout \<noteq> 0 then Wait else Ret out, m')
    \<and> m_smap m' = sm \<and> eq_items (usr_queue (m_eps m' e)) = r1 \<and> eq_items (usr_shadow_queue (m_eps m' e)) = r2
    \<and> int (length out) \<le> maxevents"
proof -
  let ?m = "m\<lparr>m_eps := (m_eps m)(e := (m_eps m e)\<lparr>ep_stat := (ep_stat (m_eps m e))\<lparr>st_calls := st_calls (ep_stat (m_eps m e)) + 1\<rparr>\<rparr>)\<rparr>"
  have ok: "ep_ok (m_eps ?m e)" using assms(6) by (simp add: ep_ok_queues)
  have d: "epoll_deliver maxevents e ?m = (sm, out, r1, r2)" using assms(8) by (simp add: epoll_deliver_def)
  have "mtcp_epoll_wait cfg mctx epid True maxevents timeout m = epoll_wait_loop e maxevents timeout ?m"
    using assms(1-5,7) by (simp add: mtcp_epoll_wait_def with_manager_def with_socket_def socket_ep_def Let_def)
  with epoll_wait_loop_deliver [OF ok assms(7) d, of timeout] epoll_deliver_bound [OF assms(8,7)] show ?thesis by auto
qed

text \<open>A listening socket with a pending event, and a socket that waits for it.\<close>

definition sample_waiting :: mtcp_manager where
  "sample_waiting = sample_manager\<lparr>
     m_smap := sample_smap(0 := (sample_smap 0)\<lparr>so_events := MTCP_EPOLLIN\<rparr>,
       1 := (unused_socket 1)\<lparr>so_socktype := MTCP_SOCK_EPOLL, so_obj := EpollObj 0\<rparr>),
     m_eps := (\<lambda>_. sample_epoll\<lparr>usr_queue := sample_events\<lparr>eq_events := (eq_events sample_events)[0 :=
       \<lparr>ei_ev = \<lparr>ev_events = MTCP_EPOLLIN, ev_data = 7\<rparr>, ei_sockid = 0\<rparr>], eq_end := 1, eq_num_events := 1\<rparr>\<rparr>)\<rparr>"

theorem mtcp_epoll_wait_delivers_witness:
  "\<exists>m'. mtcp_epoll_wait sample_cfg (Some \<lparr>cx_cpu = 0, cx_num_cpus = 1, cx_num_queues = 1, cx_endian = True\<rparr>) 1 True 4 (- 1) sample_waiting
      = Some (Ret [\<lparr>ev_events = MTCP_EPOLLIN, ev_data = 7\<rparr>], m') \<and> eq_items (usr_queue (m_eps m' 0)) = []"
proof -
  let ?c = "\<lparr>cx_cpu = 0, cx_num_cpus = 1, cx_num_queues = 1, cx_endian = True\<rparr>"
  let ?ev = "\<lparr>ev_events = MTCP_EPOLLIN, ev_data = 7\<rparr>"
  have smap: "m_smap sample_waiting 0 = (sample_smap 0)\<lparr>so_events := MTCP_EPOLLIN\<rparr>"
    "m_smap sample_waiting 1 = (unused_socket 1)\<lparr>so_socktype := MTCP_SOCK_EPOLL, so_obj := EpollObj 0\<rparr>"
    by (simp_all add: sample_waiting_def)
  have q: "eq_items (usr_queue (m_eps sample_waiting 0)) = [\<lparr>ei_ev = ?ev, ei_sockid = 0\<rparr>]"
    "eq_items (usr_shadow_queue (m_eps sample_waiting 0)) = []" "ep_ok (m_eps sample_waiting 0)"
    by (simp_all add: sample_waiting_def sample_epoll_def sample_events_def eq_items_def ring_slice_def ep_ok_queues eq_inv_def)
  have v: "event_valid (m_smap sample_waiting 0) MTCP_EPOLLIN"
    by (simp add: event_valid_def smap sample_smap_def MTCP_EPOLLIN_def)
  obtain sm where d: "epoll_deliver 4 0 sample_waiting = (sm, [?ev], [], [])"
    by (simp add: epoll_deliver_def q v)
  have g: "GetMTCPManager (Some ?c) sample_waiting = Inr ?c"
    by (simp add: GetMTCPManager_def sample_waiting_def sample_manager_def)
  show ?thesis
    using mtcp_epoll_wait_delivers [OF g _ _ _ _ q(3) _ d, of 1 sample_cfg "- 1"] smap(2)
    by (auto simp: sample_cfg_def)
qed

end
