(* ===== verification/Socket_Props.thy ===== *)
theory Socket_Props
  imports Engine_Reach Event_Frame
begin

text \<open>
  The socket map: its free list holds exactly the unused sockets, each once, so that a socket number
  is never handed out while it is in use. Allocation ends exactly when some free socket has no pending
  events.
\<close>

section \<open>Allocation\<close>

lemma AllocateSocket_loop_skip:
  assumes "m_free_smap m = xs @ k # ys" "\<forall>x \<in> set xs. so_events (m_smap m x) \<noteq> 0" "so_events (m_smap m k) = 0"
  shows "AllocateSocket_loop m = Some (Some k, m\<lparr>m_free_smap := ys @ xs\<rparr>)"
  using assms
proof (induction xs arbitrary: m ys)
  case Nil
  then show ?case by (simp add: AllocateSocket_loop.simps)
next
  case (Cons x xs)
  have "AllocateSocket_loop (m\<lparr>m_free_smap := xs @ k # (ys @ [x])\<rparr>)
      = Some (Some k, m\<lparr>m_free_smap := xs @ k # (ys @ [x]), m_free_smap := (ys @ [x]) @ xs\<rparr>)"
    by (rule Cons.IH) (use Cons.prems in simp_all)
  then show ?case using Cons.prems by (subst AllocateSocket_loop.simps) simp
qed

lemma AllocateSocket_loop_ends:
  "AllocateSocket_loop m = Some r \<Longrightarrow> m_free_smap m = [] \<or> (\<exists>k \<in> set (m_free_smap m). so_events (m_smap m k) = 0)"
proof (induction rule: AllocateSocket_loop.raw_induct [rotated, consumes 1, case_names step])
  case (step f m r)
  show ?case
  proof (cases "m_free_smap m")
    case (Cons k rest)
    with step show ?thesis by (cases "so_events (m_smap m k) = 0") fastforce+
  qed simp
qed

lemma free_socket_split:
  assumes "\<exists>k \<in> set l. P k"
  obtains xs k ys where "l = xs @ k # ys" "P k" "\<forall>x \<in> set xs. \<not> P x"
  using split_list_first_prop [OF assms] by blast

definition fresh_socket :: "socket_type \<Rightarrow> socket_map \<Rightarrow> socket_map" where
  "fresh_socket ty so = so\<lparr>so_socktype := ty, so_opts := 0, so_obj := NoObj, so_epoll := 0, so_events := 0,
     so_sin_addr := 0, so_sin_port := 0, so_ep_data := 0\<rparr>"

lemma AllocateSocket_cases:
  assumes "AllocateSocket ty m = Some (r, m')"
  shows "(r = None \<and> m_free_smap m = [] \<and> m' = m)
    \<or> (\<exists>k xs ys. r = Some k \<and> m_free_smap m = xs @ k # ys
        \<and> m' = m\<lparr>m_free_smap := ys @ xs, m_smap := (m_smap m)(k := fresh_socket ty (m_smap m k))\<rparr>)"
proof -
  obtain r1 m1 where l: "AllocateSocket_loop m = Some (r1, m1)"
    using assms by (cases "AllocateSocket_loop m") (auto simp: AllocateSocket_def)
  from AllocateSocket_loop_ends [OF l] show ?thesis
  proof
    assume "m_free_smap m = []"
    then show ?thesis using assms by (simp add: AllocateSocket_def AllocateSocket_loop.simps)
  next
    assume "\<exists>k \<in> set (m_free_smap m). so_events (m_smap m k) = 0"
    then obtain xs k ys where s: "m_free_smap m = xs @ k # ys" "so_events (m_smap m k) = 0"
      "\<forall>x \<in> set xs. \<not> so_events (m_smap m x) = 0" by (rule free_socket_split)
    show ?thesis using assms s AllocateSocket_loop_skip [OF s(1) _ s(2)]
      by (intro disjI2 exI [of _ k] exI [of _ xs] exI [of _ ys]) (auto simp: AllocateSocket_def fresh_socket_def)
  qed
qed

text \<open>C19. Allocating a socket ends if and only if the free list is empty or holds a socket without
  pending events: the loop moves sockets with pending events to the end of the list and tries again,
  for ever when all of them have some.\<close>

theorem AllocateSocket_terminates:
  "(\<exists>r. AllocateSocket ty m = Some r) \<longleftrightarrow>
     m_free_smap m = [] \<or> list_ex (\<lambda>k. so_events (m_smap m k) = 0) (m_free_smap m)"
proof
  assume "\<exists>r. AllocateSocket ty m = Some r"
  then obtain r where "AllocateSocket_loop m = Some r"
    by (cases "AllocateSocket_loop m") (auto simp: AllocateSocket_def)
  then show "m_free_smap m = [] \<or> list_ex (\<lambda>k. so_events (m_smap m k) = 0) (m_free_smap m)"
    unfolding list_ex_iff by (rule AllocateSocket_loop_ends)
next
  assume "m_free_smap m = [] \<or> list_ex (\<lambda>k. so_events (m_smap m k) = 0) (m_free_smap m)"
  then show "\<exists>r. AllocateSocket ty m = Some r" unfolding list_ex_iff
  proof
    assume "m_free_smap m = []"
    then show ?thesis by (simp add: AllocateSocket_def AllocateSocket_loop.simps)
  next
    assume "\<exists>k \<in> set (m_free_smap m). so_events (m_smap m k) = 0"
    then obtain xs k ys where s: "m_free_smap m = xs @ k # ys" "so_events (m_smap m k) = 0"
      "\<forall>x \<in> set xs. \<not> so_events (m_smap m x) = 0" by (rule free_socket_split)
    then show ?thesis using AllocateSocket_loop_skip [OF s(1) _ s(2)] by (simp add: AllocateSocket_def)
  qed
qed

section \<open>The invariant\<close>

definition smap_inv :: "mtcp_config \<Rightarrow> mtcp_manager \<Rightarrow> bool" where
  "smap_inv cfg m \<longleftrightarrow> distinct (m_free_smap m)
     \<and> (\<forall>k. k \<in> set (m_free_smap m) \<longleftrightarrow> int k < c_max_concurrency cfg \<and> so_socktype (m_smap m k) = MTCP_SOCK_UNUSED)
     \<and> (\<forall>k. int k < c_max_concurrency cfg \<longrightarrow> so_id (m_smap m k) = k)"

lemma smap_inv_cong:
  assumes "smap_inv cfg m" "m_free_smap m' = m_free_smap m"
    "\<And>k. so_id (m_smap m' k) = so_id (m_smap m k)"
    "\<And>k. so_socktype (m_smap m' k) = MTCP_SOCK_UNUSED \<longleftrightarrow> so_socktype (m_smap m k) = MTCP_SOCK_UNUSED"
  shows "smap_inv cfg m'"
  using assms by (simp add: smap_inv_def)

text \<open>Updates of other parts of the state.\<close>

lemma smap_inv_other [simp]:
  "smap_inv cfg (m\<lparr>m_eps := a1\<rparr>) = smap_inv cfg m" "smap_inv cfg (m\<lparr>m_pipes := a2\<rparr>) = smap_inv cfg m"
  "smap_inv cfg (m\<lparr>m_pipes_next := a3\<rparr>) = smap_inv cfg m" "smap_inv cfg (m\<lparr>env_alloc_n := a4\<rparr>) = smap_inv cfg m"
  "smap_inv cfg (m\<lparr>m_eps_next := a5\<rparr>) = smap_inv cfg m" "smap_inv cfg (m\<lparr>m_ep := a6\<rparr>) = smap_inv cfg m"
  "smap_inv cfg (m\<lparr>m_listeners := a7\<rparr>) = smap_inv cfg m" "smap_inv cfg (m\<lparr>m_listeners_next := a8\<rparr>) = smap_inv cfg m"
  "smap_inv cfg (m\<lparr>m_lt_table := a9\<rparr>) = smap_inv cfg m" "smap_inv cfg (m\<lparr>m_ap := b1\<rparr>) = smap_inv cfg m"
  "smap_inv cfg (m\<lparr>m_aps := b2\<rparr>) = smap_inv cfg m" "smap_inv cfg (m\<lparr>m_streams := b3\<rparr>) = smap_inv cfg m"
  "smap_inv cfg (m\<lparr>m_ackq := b4\<rparr>) = smap_inv cfg m" "smap_inv cfg (m\<lparr>m_sendq := b5\<rparr>) = smap_inv cfg m"
  "smap_inv cfg (m\<lparr>m_closeq := b6\<rparr>) = smap_inv cfg m" "smap_inv cfg (m\<lparr>m_resetq := b7\<rparr>) = smap_inv cfg m"
  "smap_inv cfg (m\<lparr>m_destroyq := b8\<rparr>) = smap_inv cfg m" "smap_inv cfg (m\<lparr>m_connectq := b9\<rparr>) = smap_inv cfg m"
  "smap_inv cfg (m\<lparr>m_rbm_rcv := c1\<rparr>) = smap_inv cfg m" "smap_inv cfg (m\<lparr>m_rbm_snd := c2\<rparr>) = smap_inv cfg m"
  "smap_inv cfg (m\<lparr>m_wakeup_flag := c3\<rparr>) = smap_inv cfg m" "smap_inv cfg (m\<lparr>m_ctx_interrupt := c4\<rparr>) = smap_inv cfg m"
  "smap_inv cfg (m\<lparr>m_flow_pool := c5\<rparr>) = smap_inv cfg m" "smap_inv cfg (m\<lparr>m_rv_pool := c6\<rparr>) = smap_inv cfg m"
  "smap_inv cfg (m\<lparr>m_sv_pool := c7\<rparr>) = smap_inv cfg m" "smap_inv cfg (m\<lparr>m_flow_table := c8\<rparr>) = smap_inv cfg m"
  "smap_inv cfg (m\<lparr>m_g_id := c9\<rparr>) = smap_inv cfg m" "smap_inv cfg (m\<lparr>m_flow_cnt := d1\<rparr>) = smap_inv cfg m"
  "smap_inv cfg (m\<lparr>env_rand_n := d2\<rparr>) = smap_inv cfg m"
  "smap_inv cfg (upd_stream s f m) = smap_inv cfg m" "smap_inv cfg (upd_snd s g m) = smap_inv cfg m"
  "smap_inv cfg (upd_rcv s h m) = smap_inv cfg m" "smap_inv cfg (upd_pipe p i m) = smap_inv cfg m"
  by (simp_all add: smap_inv_def upd_defs upd_pipe_def)

lemma smap_inv_upd [simp]:
  assumes "so_id (f (m_smap m k)) = so_id (m_smap m k)"
    "(so_socktype (f (m_smap m k)) = MTCP_SOCK_UNUSED) = (so_socktype (m_smap m k) = MTCP_SOCK_UNUSED)"
  shows "smap_inv cfg (upd_socket k f m) = smap_inv cfg m"
  using assms by (auto simp: smap_inv_def upd_socket_def)

lemma event_smap_inv:
  "smap_inv cfg m \<Longrightarrow> event_frame m m' \<Longrightarrow> smap_inv cfg m'"
  by (erule smap_inv_cong) (simp_all add: event_frameD)

text \<open>Allocation takes a socket out of the free list and freeing puts it back.\<close>

lemma smap_inv_take:
  assumes inv: "smap_inv cfg m" and ty: "ty \<noteq> MTCP_SOCK_UNUSED" and l: "m_free_smap m = xs @ k # ys"
  shows "smap_inv cfg (m\<lparr>m_free_smap := ys @ xs, m_smap := (m_smap m)(k := fresh_socket ty (m_smap m k))\<rparr>)"
proof -
  let ?m = "m\<lparr>m_free_smap := ys @ xs, m_smap := (m_smap m)(k := fresh_socket ty (m_smap m k))\<rparr>"
  have "distinct (m_free_smap ?m)" and k: "k \<notin> set (ys @ xs)" using inv l by (auto simp: smap_inv_def)
  moreover have "j \<in> set (m_free_smap ?m) \<longleftrightarrow> int j < c_max_concurrency cfg \<and> so_socktype (m_smap ?m j) = MTCP_SOCK_UNUSED" for j
  proof (cases "j = k")
    case True
    with k ty show ?thesis by (simp add: fresh_socket_def)
  next
    case False
    moreover have "j \<in> set (m_free_smap m) \<longleftrightarrow> int j < c_max_concurrency cfg \<and> so_socktype (m_smap m j) = MTCP_SOCK_UNUSED"
      using inv by (simp add: smap_inv_def)
    ultimately show ?thesis using l by auto
  qed
  moreover have "so_id (m_smap ?m j) = j" if "int j < c_max_concurrency cfg" for j
    using inv that by (simp add: smap_inv_def fresh_socket_def)
  ultimately show ?thesis by (simp only: smap_inv_def) blast
qed

lemma AllocateSocket_smap_inv:
  assumes inv: "smap_inv cfg m" and ty: "ty \<noteq> MTCP_SOCK_UNUSED"
  shows "post (\<lambda>(r, m'). smap_inv cfg m' \<and> (\<forall>k. r = Some k \<longrightarrow> int k < c_max_concurrency cfg
    \<and> so_socktype (m_smap m k) = MTCP_SOCK_UNUSED \<and> m_smap m' = (m_smap m)(k := fresh_socket ty (m_smap m k)))) (AllocateSocket ty m)"
proof (rule postI)
  fix y assume y: "AllocateSocket ty m = Some y"
  have "int k < c_max_concurrency cfg \<and> so_socktype (m_smap m k) = MTCP_SOCK_UNUSED" if "m_free_smap m = xs @ k # ys" for xs k ys
  proof -
    have "k \<in> set (m_free_smap m)" using that by simp
    with inv show ?thesis by (simp only: smap_inv_def)
  qed
  with AllocateSocket_cases [of ty m "fst y" "snd y"] smap_inv_take [OF inv ty] inv y
  show "case y of (r, m') \<Rightarrow> smap_inv cfg m' \<and> (\<forall>k. r = Some k \<longrightarrow> int k < c_max_concurrency cfg
    \<and> so_socktype (m_smap m k) = MTCP_SOCK_UNUSED \<and> m_smap m' = (m_smap m)(k := fresh_socket ty (m_smap m k)))"
    by (cases y) auto
qed

lemma FreeSocket_smap_inv:
  "smap_inv cfg m \<Longrightarrow> int k < c_max_concurrency cfg \<Longrightarrow> post (smap_inv cfg) (FreeSocket k m)"
  by (auto simp: FreeSocket_def smap_inv_def tailq_insert_tail_def)

section \<open>The calls keep it\<close>

lemma AddEpollEvent_socket:
  assumes "AddEpollEvent epo qt (Some so) ev = Some (r, ep', so')"
  shows "\<exists>ev'. so' = Some (so\<lparr>so_events := ev'\<rparr>)"
proof -
  have "\<exists>ev'. so = so\<lparr>so_events := ev'\<rparr>" by (rule exI [of _ "so_events so"]) simp
  with assms show ?thesis
    by (auto simp: AddEpollEvent_def Let_def Option.bind_eq_Some_conv split: option.splits if_splits)
qed

abbreviation keepS :: "mtcp_config \<Rightarrow> mtcp_manager option \<Rightarrow> bool" where
  "keepS cfg x \<equiv> post (smap_inv cfg) x"

abbreviation keepS2 :: "mtcp_config \<Rightarrow> ('a \<times> mtcp_manager) option \<Rightarrow> bool" where
  "keepS2 cfg x \<equiv> post (\<lambda>(r, m). smap_inv cfg m) x"

lemma smap_inv_events:
  "smap_inv cfg m \<Longrightarrow> smap_inv cfg (m\<lparr>m_eps := eps, m_smap := (m_smap m)(k := (m_smap m k)\<lparr>so_events := ev\<rparr>)\<rparr>)"
  by (erule smap_inv_cong) simp_all

lemma add_event_sockets: "smap_inv cfg m \<Longrightarrow> keepS cfg (mtcp_add_event qt k ev m)"
  "smap_inv cfg m \<Longrightarrow> keepS cfg (ep_add_event e qt k ev m)"
  unfolding mtcp_add_event_def ep_add_event_def prod.case
  by (rule post_bind_any post_case_prod post_case_option
      | (auto dest!: AddEpollEvent_socket intro: smap_inv_events; fail))+

lemma bindS:
  "keepS cfg x \<Longrightarrow> (\<And>y. smap_inv cfg y \<Longrightarrow> post R (f y)) \<Longrightarrow> post R (Option.bind x f)"
  "keepS2 cfg x2 \<Longrightarrow> (\<And>r y. smap_inv cfg y \<Longrightarrow> post R (g r y)) \<Longrightarrow> post R (Option.bind x2 (\<lambda>(r, y). g r y))"
  by (erule post_bindI post_bind2; blast)+

lemma someS:
  "smap_inv cfg m \<Longrightarrow> keepS cfg (Some m)" "smap_inv cfg m \<Longrightarrow> keepS2 cfg (Some (r, m))"
  by simp_all

lemmas stepS = post_if post_case_option post_case_prod post_case_api post_case_sum post_Let post_None with_post someS

text \<open>Allocation, with what the caller learns about the new socket.\<close>

lemma allocS:
  assumes "smap_inv cfg m" "ty \<noteq> MTCP_SOCK_UNUSED"
    and "\<And>m'. smap_inv cfg m' \<Longrightarrow> post R (f (None, m'))"
    and "\<And>k m'. smap_inv cfg m' \<Longrightarrow> int k < c_max_concurrency cfg \<Longrightarrow> post R (f (Some k, m'))"
  shows "post R (Option.bind (AllocateSocket ty m) f)"
proof (cases "AllocateSocket ty m")
  case (Some y)
  with AllocateSocket_smap_inv [OF assms(1,2)] assms(3,4) show ?thesis
    by (cases y; cases "fst y") auto
qed simp

lemma rawS: "(\<And>c. post R (f c m)) \<Longrightarrow> post R (raw_manager mctx f m)"
  by (simp add: raw_manager_def split: option.split)

lemma freeS:
  "smap_inv cfg m \<Longrightarrow> int k < c_max_concurrency cfg \<Longrightarrow> int k1 < c_max_concurrency cfg \<Longrightarrow> keepS2 cfg (free_pair k k1 m)"
  "smap_inv cfg m \<Longrightarrow> int k < c_max_concurrency cfg \<Longrightarrow> keepS2 cfg (drop_socket k m)"
  unfolding free_pair_def drop_socket_def by (rule bindS FreeSocket_smap_inv stepS | assumption)+

lemma mtcp_pipe_sockets: "smap_inv cfg m \<Longrightarrow> keepS2 cfg (mtcp_pipe buf mctx m)"
  unfolding mtcp_pipe_def next_alloc_def Let_def prod.case
  by (rule rawS allocS stepS freeS bindS FreeSocket_smap_inv | (simp; fail) | simp only: option.case prod.case)+

lemma next_event_queue_smap: "next_event_queue n m = (q, m') \<Longrightarrow> smap_inv cfg m' = smap_inv cfg m"
  by (auto simp: next_event_queue_def next_alloc_def split: if_splits)

lemma mtcp_epoll_create_sockets: "smap_inv cfg m \<Longrightarrow> keepS2 cfg (mtcp_epoll_create mctx n m)"
  unfolding mtcp_epoll_create_def next_alloc_def
  by (rule rawS allocS stepS freeS | (simp; fail) | simp only: option.case prod.case
      | (auto simp: next_event_queue_smap split: if_splits; fail))+

lemma RaiseEventToPair_sockets: "smap_inv cfg m \<Longrightarrow> keepS cfg (RaiseEventToPair k ev m)"
  unfolding RaiseEventToPair_def
  by (rule stepS add_event_sockets | rule post_bind_any | (simp; fail))+

lemma Pipe_sockets:
  "smap_inv cfg m \<Longrightarrow> keepS2 cfg (PipeRead cfg mctx k len m)"
  "smap_inv cfg m \<Longrightarrow> keepS2 cfg (PipeWrite cfg mctx k buf len m)"
  unfolding PipeRead_def PipeRead_wait_def PipeRead_copy_def PipeWrite_def PipeWrite_wait_def PipeWrite_copy_def with_pipe_def
  by (rule stepS add_event_sockets RaiseEventToPair_sockets | rule bindS | rule post_bind_any | (simp; fail))+

lemma PipeClose_sockets: "smap_inv cfg m \<Longrightarrow> keepS2 cfg (PipeClose cfg mctx k m)"
  unfolding PipeClose_def
  by (rule stepS RaiseEventToPair_sockets | rule bindS | rule post_bind_any | (simp; fail)
      | (simp split: pipe_state.split, intro conjI impI))+

lemma RaisePending_sockets:
  "smap_inv cfg m \<Longrightarrow> keepS2 cfg (RaisePendingPipeEvents cfg epid k m)"
  "smap_inv cfg m \<Longrightarrow> keepS2 cfg (RaisePendingStreamEvents e j m)"
  unfolding RaisePendingPipeEvents_def RaisePendingStreamEvents_def Let_def
  by (rule stepS add_event_sockets | rule bindS | rule post_bind_any | (simp; fail))+

lemma register_events_sockets: "smap_inv cfg m \<Longrightarrow> keepS2 cfg (register_events cfg epid e sockid k ev m)"
  unfolding register_events_def Let_def
  by (rule stepS RaisePending_sockets | rule bindS | (simp; fail))+

lemma mtcp_epoll_ctl_sockets: "smap_inv cfg m \<Longrightarrow> keepS2 cfg (mtcp_epoll_ctl cfg mctx epid ope sockid ev m)"
  unfolding mtcp_epoll_ctl_def
  by (cases ope; cases ev; simp only: prod.case epoll_op.case option.case;
      (rule stepS register_events_sockets | rule post_bind_any | (simp; fail))+)

lemma fetch_events_keys:
  "fetch_events n maxevents smap st q evs = Some (smap', st', q', evs') \<Longrightarrow>
     (\<forall>k. so_id (smap' k) = so_id (smap k) \<and> so_socktype (smap' k) = so_socktype (smap k))"
proof (induction n arbitrary: smap st q evs)
  case (Suc n)
  then show ?case by (fastforce simp: Let_def Option.bind_eq_Some_conv split: if_splits)
qed simp

lemma fetch_queues_sockets: "smap_inv cfg m \<Longrightarrow> fetch_queues e k m = Some (evs, m') \<Longrightarrow> smap_inv cfg m'"
  unfolding fetch_queues_def Let_def
  by (erule smap_inv_cong) (auto simp: Option.bind_eq_Some_conv dest!: fetch_events_keys)

lemma epoll_wait_loop_sockets:
  "epoll_wait_loop e k t m = Some r \<Longrightarrow> smap_inv cfg m \<Longrightarrow> case r of (x, m') \<Rightarrow> smap_inv cfg m'"
proof (induction rule: epoll_wait_loop.raw_induct [rotated, consumes 1, case_names step])
  case (step f e k t m r)
  have rec: "keepS2 cfg (f e k t m2)" if "smap_inv cfg m2" for m2
    using step.IH [OF _ that] unfolding post_def by blast
  show ?case
    by (rule postD [OF _ step.hyps(1)])
      (rule stepS rec | rule post_bind_any | (use step.prems in \<open>simp; fail\<close>)
        | (use step.prems fetch_queues_sockets in \<open>blast; fail\<close>))+
qed

lemma epoll_wait_sockets:
  "smap_inv cfg m \<Longrightarrow> keepS2 cfg (mtcp_epoll_wait cfg mctx epid ok k t m)"
  "smap_inv cfg m \<Longrightarrow> keepS2 cfg (epoll_wait_resume ek e k t m)"
  unfolding mtcp_epoll_wait_def epoll_wait_resume_def Let_def
  by (rule stepS | rule post_bind_any | (rule postI, erule epoll_wait_loop_sockets) | (simp; fail))+

lemma socket_calls_sockets:
  "smap_inv cfg m \<Longrightarrow> keepS2 cfg (mtcp_socket mctx inet ty m)"
  "smap_inv cfg m \<Longrightarrow> keepS2 cfg (mtcp_bind cfg mctx k addr m)"
  "smap_inv cfg m \<Longrightarrow> keepS2 cfg (mtcp_init_rss cfg mctx sa n da dp m)"
  "smap_inv cfg m \<Longrightarrow> keepS2 cfg (CloseListeningSocket mctx j m)"
  "smap_inv cfg m \<Longrightarrow> keepS2 cfg (CloseEpollSocket mctx j m)"
  unfolding mtcp_socket_def mtcp_bind_def mtcp_init_rss_def CloseListeningSocket_def CloseEpollSocket_def next_alloc_def
  by (rule allocS | rule stepS | rule post_bind_any | (simp; fail) | (auto split: if_splits; fail))+

lemma mtcp_listen_sockets: "smap_inv cfg m \<Longrightarrow> keepS2 cfg (mtcp_listen cfg mctx k backlog m)"
  unfolding mtcp_listen_def next_alloc_def ListenerHTInsert_def
  by (rule stepS | rule bindS | rule post_bind_any | (simp; fail) | (auto split: if_splits; fail))+

lemma advertise_window_sockets: "smap_inv cfg m \<Longrightarrow> keepS cfg (advertise_window s m)"
  unfolding advertise_window_def by (rule stepS | rule post_bind_any | (simp; fail))+

lemma CopyToUser_sockets: "smap_inv cfg m \<Longrightarrow> keepS2 cfg (CopyToUser s len m)"
  unfolding CopyToUser_def Let_def
  by (rule stepS advertise_window_sockets | rule bindS | rule post_bind_any | (simp; fail))+

lemma readv_loop_sockets: "smap_inv cfg m \<Longrightarrow> keepS2 cfg (readv_loop s lens acc m)"
proof (induction lens arbitrary: acc m)
  case (Cons n lens)
  then show ?case unfolding readv_loop.simps
    by - (rule stepS CopyToUser_sockets Cons.IH | assumption | rule bindS)+
qed simp

lemma CopyFromUser_sockets: "smap_inv cfg m \<Longrightarrow> keepS2 cfg (CopyFromUser s buf len m)"
  unfolding CopyFromUser_def next_alloc_def Let_def prod.case
  by (rule stepS | rule bindS | rule post_bind_any | (simp; fail))+

lemma writev_loop_sockets: "smap_inv cfg m \<Longrightarrow> keepS2 cfg (writev_loop s iov n m)"
proof (induction iov arbitrary: n m)
  case (Cons buf iov)
  then show ?case unfolding writev_loop.simps
    by - (rule stepS CopyFromUser_sockets Cons.IH | assumption | rule bindS | rule post_bind_any)+
qed simp

lemma after_write_sockets: "smap_inv cfg m \<Longrightarrow> keepS cfg (after_write k s b m)"
  unfolding after_write_def Let_def
  by (rule stepS add_event_sockets | rule bindS | rule post_bind_any | (simp; fail))+

lemma transfer_sockets:
  "smap_inv cfg m \<Longrightarrow> keepS2 cfg (mtcp_recv cfg mctx k len flags m)"
  "smap_inv cfg m \<Longrightarrow> keepS2 cfg (mtcp_readv cfg mctx k lens m)"
  "smap_inv cfg m \<Longrightarrow> keepS2 cfg (mtcp_write cfg mctx k buf m)"
  "smap_inv cfg m \<Longrightarrow> keepS2 cfg (mtcp_writev cfg mctx k iov m)"
  unfolding mtcp_recv_def mtcp_readv_def mtcp_write_def mtcp_writev_def Let_def
  by (rule stepS Pipe_sockets add_event_sockets CopyToUser_sockets readv_loop_sockets CopyFromUser_sockets
      writev_loop_sockets after_write_sockets | rule bindS | rule post_bind_any | (simp; fail))+

lemma accept_stream_sockets: "smap_inv cfg m \<Longrightarrow> keepS2 cfg (accept_stream l s m)"
  unfolding accept_stream_def Let_def
  by (rule allocS | rule stepS add_event_sockets | rule bindS | rule post_bind_any | (simp; fail)
      | simp only: option.case prod.case)+

lemma accept_sockets:
  "smap_inv cfg m \<Longrightarrow> keepS2 cfg (accept_dequeue l m)"
  "smap_inv cfg m \<Longrightarrow> keepS2 cfg (accept_resume l m)"
  "smap_inv cfg m \<Longrightarrow> keepS2 cfg (mtcp_accept cfg mctx k m)"
  unfolding accept_resume_def mtcp_accept_def accept_dequeue_def Let_def
  by (rule stepS accept_stream_sockets | rule post_bind_any | (simp; fail))+

lemma enqueue_destroy_sockets: "smap_inv cfg m \<Longrightarrow> keepS cfg (enqueue_destroy s m)"
  unfolding enqueue_destroy_def by (rule stepS | rule post_bind_any | (simp; fail))+

lemma CloseStreamSocket_sockets: "smap_inv cfg m \<Longrightarrow> keepS2 cfg (CloseStreamSocket mctx k m)"
  unfolding CloseStreamSocket_def Let_def
  by (rule stepS enqueue_destroy_sockets | rule bindS | rule post_bind_any | (simp; fail))+

lemma with_socketS:
  "R (Fail (Some EBADF), m) \<Longrightarrow> (int (nat sockid) < c_max_concurrency cfg \<Longrightarrow> post R (g (nat sockid) m)) \<Longrightarrow>
     post R (with_socket cfg sockid g m)"
  by (auto simp: with_socket_def)

lemma close_case_sockets:
  assumes "smap_inv cfg m"
  shows "keepS2 cfg (case ty of
            MTCP_SOCK_STREAM \<Rightarrow> CloseStreamSocket mctx k m
          | MTCP_SOCK_LISTENER \<Rightarrow> CloseListeningSocket mctx k m
          | MTCP_SOCK_EPOLL \<Rightarrow> CloseEpollSocket mctx k m
          | MTCP_SOCK_PIPE \<Rightarrow> PipeClose cfg mctx sockid m
          | _ \<Rightarrow> fail EINVAL m)"
  using assms by (cases ty) (simp_all add: CloseStreamSocket_sockets socket_calls_sockets PipeClose_sockets)

lemma closing_sockets:
  "smap_inv cfg m \<Longrightarrow> keepS2 cfg (mtcp_close cfg mctx k m)"
  "smap_inv cfg m \<Longrightarrow> keepS2 cfg (mtcp_abort cfg mctx k m)"
  unfolding mtcp_close_def mtcp_abort_def Let_def
  by (rule with_socketS | rule stepS close_case_sockets FreeSocket_smap_inv enqueue_destroy_sockets | assumption
      | rule bindS | rule post_bind_any | (simp; fail))+

lemma CreateTCPStream_sockets: "smap_inv cfg m \<Longrightarrow> keepS2 cfg (CreateTCPStream c so ty sa sp da dp m)"
proof -
  have obj: "smap_inv cfg (set_sock_obj so ob m) = smap_inv cfg m" for ob m
    by (auto simp: set_sock_obj_def smap_inv_def split: option.split)
  show "smap_inv cfg m \<Longrightarrow> ?thesis"
    unfolding CreateTCPStream_def next_rand_def Let_def
    by (rule stepS | rule post_bind_any | (simp add: obj; fail))+
qed

lemma connect_sockets: "smap_inv cfg m \<Longrightarrow> keepS2 cfg (mtcp_connect c mctx k addr m)"
proof -
  have fetch: "post (\<lambda>(r, sa, m1). smap_inv cfg m1) (case m_ap m of
       Some ap \<Rightarrow> do { (ret, sa, apo) \<leftarrow> FetchAddressPerCore (Some ap) saddr; Some (ret, sa, m\<lparr>m_ap := apo\<rparr>) }
     | None \<Rightarrow> do { (ret, sa, apo) \<leftarrow> FetchAddress (m_aps m nif) cpu nq en da saddr; Some (ret, sa, m\<lparr>m_aps := (m_aps m)(nif := apo)\<rparr>) })"
    if "smap_inv cfg m" for m saddr nif cpu nq en da
    using that by - (rule stepS | rule post_bind_any | (simp; fail))+
  have 1: "keepS2 cfg (connect_address c x j da m)" if inv: "smap_inv cfg m" for x j da m
    unfolding connect_address_def Let_def
    by (rule post_if someS inv | rule post_bindI [OF fetch [OF inv]] | rule post_bind_any | (auto simp: inv; fail))+
  have 2: "keepS2 cfg (connect_stream c j b da m)" if "smap_inv cfg m" for j b da m
    using that unfolding connect_stream_def Let_def
    by - (rule stepS CreateTCPStream_sockets | rule bindS | rule post_bind_any | (simp; fail))+
  show "smap_inv cfg m \<Longrightarrow> ?thesis"
    unfolding mtcp_connect_def Let_def
    by (rule stepS 1 2 | rule bindS | rule post_bind_any | (simp; fail))+
qed

lemmas api_sockets = transfer_sockets closing_sockets accept_sockets connect_sockets mtcp_listen_sockets socket_calls_sockets
  mtcp_pipe_sockets mtcp_epoll_create_sockets mtcp_epoll_ctl_sockets epoll_wait_sockets

lemma resultS: "keepS2 cfg x \<Longrightarrow> x = Some (r, m') \<Longrightarrow> smap_inv cfg m'"
  by simp

lemma sample_smap_inv: "smap_inv sample_cfg sample_manager"
  by (auto simp: smap_inv_def sample_manager_def sample_cfg_def sample_smap_def unused_socket_def)



end
