(* ===== verification/Api_Props.thy ===== *)
theory Api_Props
  imports Socket_Props Recv_Stream
begin

text \<open>
  What the transfer calls of the application do on a connected socket: a write appends to the send buffer
  what fits and hands the stream to the stack, a read takes from the front of what has been received.
  A call touches no stream but the one behind its socket.
\<close>

section \<open>A connected socket\<close>

definition connected :: "mtcp_config \<Rightarrow> mtcp_context option \<Rightarrow> int \<Rightarrow> nat \<Rightarrow> mtcp_manager \<Rightarrow> bool" where
  "connected cfg mctx k s m \<longleftrightarrow> (\<exists>c. GetMTCPManager mctx m = Inr c) \<and> 0 \<le> k \<and> k < c_max_concurrency cfg
     \<and> so_socktype (m_smap m (nat k)) = MTCP_SOCK_STREAM \<and> so_obj (m_smap m (nat k)) = StreamObj s \<and> events_ok m"

lemma int_of_size_small: "n < 2 ^ 31 \<Longrightarrow> int_of_size n = int n"
  unfolding int_of_size_def by (subst sint_small) (simp_all add: unat_of_nat take_bit_eq_mod)

section \<open>Writing\<close>

lemma SBPut_count:
  assumes inv: "sb_inv b" and len: "0 < n" "n \<le> length data" "n \<le> sb_cap b - length (sb_bytes b)" "n < 2 ^ 31"
  shows "\<exists>b'. SBPut b data (word_of_int (int n)) = Some (word_of_nat n, b') \<and> sb_inv b' \<and> sb_cap b' = sb_cap b
     \<and> sb_bytes b' = sb_bytes b @ take n data"
proof -
  have u: "unat (word_of_int (int n) :: u64) = n" using len(4) by (simp add: unat_of_nat take_bit_eq_mod)
  with len(1) have "(word_of_int (int n) :: u64) \<noteq> 0" by force
  with SBPut_ok [OF inv, of "word_of_int (int n)" data] u len show ?thesis by (auto simp: min_def)
qed

lemma CopyFromUser_ok:
  assumes b: "sndbuf (sndvar (m_streams m s)) = Some b" and inv: "sb_inv b"
    and wnd: "snd_wnd (sndvar (m_streams m s)) = sb_size b - sb_len b" and cap: "sb_cap b < 2 ^ 31"
    and buf: "length buf < 2 ^ 31" and n: "n = min (length buf) (sb_cap b - length (sb_bytes b))" and pos: "0 < n"
  shows "\<exists>b'. CopyFromUser s buf (int (length buf)) m = Some (Ret (int n),
      upd_snd s (\<lambda>v. v\<lparr>sndbuf := Some b', snd_wnd := sb_size b' - sb_len b'\<rparr>) m)
    \<and> sb_inv b' \<and> sb_cap b' = sb_cap b \<and> sb_bytes b' = sb_bytes b @ take n buf"
proof -
  have room: "unat (sb_size b - sb_len b) = sb_cap b - length (sb_bytes b)"
    using sb_len_le [OF inv] by (simp add: sb_cap_def length_sb_bytes [OF inv] unat_sub word_le_nat_alt)
  then have "sint (sb_size b - sb_len b) = int (sb_cap b - length (sb_bytes b))"
    using cap by (subst sint_small) simp_all
  then have sndlen: "min (sint (snd_wnd (sndvar (m_streams m s)))) (int (length buf)) = int n"
    by (simp add: wnd n min.commute)
  have small: "n < 2 ^ 31" "n \<le> length buf" "n \<le> sb_cap b - length (sb_bytes b)" using buf n by simp_all
  obtain b' where b': "SBPut b buf (word_of_int (int n)) = Some (word_of_nat n, b')" "sb_inv b'" "sb_cap b' = sb_cap b"
    "sb_bytes b' = sb_bytes b @ take n buf"
    using SBPut_count [OF inv pos small(2,3,1)] by blast
  have ret: "sint (ucast (word_of_nat n :: u64) :: u32) = int n"
    using small(1) by (subst sint_small) (simp_all add: unat_of_nat unsigned_ucast_eq take_bit_eq_mod)
  show ?thesis
    using b' pos ret by (auto simp: CopyFromUser_def sndlen b Let_def)
qed

lemma after_write_ok:
  assumes ev: "events_ok m" and q: "click_inv (m_sendq m)" and room: "length (click_items (m_sendq m)) < click_cap (m_sendq m)"
  shows "\<exists>m'. after_write k s True m = Some m' \<and> (\<forall>t. sndbuf (sndvar (m_streams m' t)) = sndbuf (sndvar (m_streams m t)))
    \<and> (\<forall>t. snd_wnd (sndvar (m_streams m' t)) = snd_wnd (sndvar (m_streams m t)))
    \<and> (on_sendq (sndvar (m_streams m s)) \<or> on_send_list (sndvar (m_streams m s)) \<or> click_items (m_sendq m') = click_items (m_sendq m) @ [s])"
proof -
  let ?busy = "on_sendq (sndvar (m_streams m s)) \<or> on_send_list (sndvar (m_streams m s))"
  let ?c = "\<lambda>m. snd_wnd (sndvar (m_streams m s)) > 0 \<and> has_opt (so_epoll (m_smap m k)) MTCP_EPOLLOUT
         \<and> \<not> has_opt (so_epoll (m_smap m k)) MTCP_EPOLLET"
  have add: "\<exists>m'. (if ?c m then mtcp_add_event USR_SHADOW_EVENT_QUEUE k MTCP_EPOLLOUT m else Some m) = Some m' \<and> event_frame m m'"
    if "events_ok m" for m
    using mtcp_add_event_total [OF that] event_frame_refl by simp
  have keep: "m_sendq m' = m_sendq m" if "event_frame m m'" for m m'
    using that by (auto simp: event_frame_def)
  obtain q' where q': "StreamEnqueue (m_sendq m) s = Some (0, q')" "click_items q' = click_items (m_sendq m) @ [s]"
    using stream_q.enq_room [OF q room] by blast
  show ?thesis
  proof (cases ?busy)
    case True
    with add [OF ev] keep show ?thesis
      by (auto simp: after_write_def event_frameD(2))
  next
    case False
    let ?m1 = "(upd_snd s (\<lambda>v. v\<lparr>on_sendq := True\<rparr>) m)\<lparr>m_sendq := q', m_wakeup_flag := True\<rparr>"
    have "events_ok ?m1" using ev by (simp add: events_ok_def upd_defs)
    from add [OF this] obtain m' where m': "(if ?c ?m1 then mtcp_add_event USR_SHADOW_EVENT_QUEUE k MTCP_EPOLLOUT ?m1 else Some ?m1) = Some m'"
      "event_frame ?m1 m'" by blast
    have "after_write k s True m = Some m'"
      using False m'(1) q'(1) unfolding after_write_def Let_def upd_defs by (simp split del: if_split)
    moreover have "m_sendq m' = q'" using keep [OF m'(2)] by simp
    ultimately show ?thesis
      using q'(2) event_frameD(2) [OF m'(2)] by (auto simp: upd_defs)
  qed
qed

text \<open>C13. \<open>mtcp_write\<close> on a connected socket takes as many bytes as the send buffer has room for, returns
  their number, and appends exactly these bytes to the bytes waiting to be sent; the send window
  becomes the room that is left. The stream is then in the queue of streams with data to send,
  if it was not already on its way there.\<close>

theorem mtcp_write_appends:
  assumes "connected cfg mctx k s m" and "may_write (s_state (m_streams m s))"
    and "sndbuf (sndvar (m_streams m s)) = Some b" and "sb_inv b" and "sb_cap b < 2 ^ 31"
    and "snd_wnd (sndvar (m_streams m s)) = sb_size b - sb_len b"
    and "buf \<noteq> []" and "length buf < 2 ^ 31" and "n = min (length buf) (sb_cap b - length (sb_bytes b))" and "0 < n"
    and "click_inv (m_sendq m)" and "length (click_items (m_sendq m)) < click_cap (m_sendq m)"
  shows "\<exists>m' b'. mtcp_write cfg mctx k buf m = Some (Ret (int n), m')
    \<and> sndbuf (sndvar (m_streams m' s)) = Some b' \<and> sb_bytes b' = sb_bytes b @ take n buf \<and> sb_inv b'
    \<and> snd_wnd (sndvar (m_streams m' s)) = sb_size b' - sb_len b'
    \<and> (on_sendq (sndvar (m_streams m s)) \<or> on_send_list (sndvar (m_streams m s))
        \<or> click_items (m_sendq m') = click_items (m_sendq m) @ [s])"
proof -
  obtain b' where b': "CopyFromUser s buf (int (length buf)) m = Some (Ret (int n),
      upd_snd s (\<lambda>v. v\<lparr>sndbuf := Some b', snd_wnd := sb_size b' - sb_len b'\<rparr>) m)"
    "sb_inv b'" "sb_bytes b' = sb_bytes b @ take n buf"
    using CopyFromUser_ok [OF assms(3,4,6,5,8,9,10)] by blast
  let ?m1 = "upd_snd s (\<lambda>v. v\<lparr>sndbuf := Some b', snd_wnd := sb_size b' - sb_len b'\<rparr>) m"
  have "events_ok ?m1" "m_sendq ?m1 = m_sendq m" using assms(1) by (simp_all add: connected_def events_ok_def upd_defs)
  with after_write_ok [of ?m1 "nat k" s] assms(11,12) obtain m' where m': "after_write (nat k) s True ?m1 = Some m'"
    "sndbuf (sndvar (m_streams m' s)) = Some b'" "snd_wnd (sndvar (m_streams m' s)) = sb_size b' - sb_len b'"
    "on_sendq (sndvar (m_streams m s)) \<or> on_send_list (sndvar (m_streams m s)) \<or> click_items (m_sendq m') = click_items (m_sendq m) @ [s]"
    by (auto simp: upd_defs)
  have "mtcp_write cfg mctx k buf m = Some (Ret (int n), m')"
    using assms(1,2,7,8,10) b'(1) m'(1)
    by (auto simp: mtcp_write_def connected_def with_manager_def with_socket_def socket_stream_def int_of_size_small)
  with b' m' show ?thesis by blast
qed

section \<open>Reading\<close>

lemma min_words:
  assumes "0 \<le> a" "a < 2 ^ 31" "0 \<le> b" "b < 2 ^ 31"
  shows "min (word_of_int a) (word_of_int b) = (word_of_int (min a b) :: u64)" "unat (word_of_int a :: u64) = nat a"
proof -
  have u: "uint (word_of_int x :: u64) = x" if "0 \<le> x" "x < 2 ^ 31" for x
    using that by (simp add: uint_word_of_int take_bit_eq_mod)
  show "min (word_of_int a) (word_of_int b) = (word_of_int (min a b) :: u64)"
    using assms u [of a] u [of b] by (simp add: min_def word_le_def)
  show "unat (word_of_int a :: u64) = nat a" using u [of a] assms by (simp add: unat_eq_nat_uint)
qed

lemma advertise_window_total:
  assumes "click_inv (m_ackq m)"
  shows "\<exists>m'. advertise_window s m = Some m' \<and> (\<forall>t. rcvvar (m_streams m' t) = rcvvar (m_streams m t))
    \<and> (\<forall>t. s_state (m_streams m' t) = s_state (m_streams m t)) \<and> m_rbm_rcv m' = m_rbm_rcv m
    \<and> (events_ok m \<longrightarrow> events_ok m')"
  using stream_q.enq_total [OF assms, of s] by (auto simp: advertise_window_def Let_def upd_defs events_ok_def)

lemma rx_merged:
  assumes "rx_inv (b, rbm)" shows "0 \<le> rb_merged_len b" "rb_merged_len b < 2 ^ 31" "length (rb_ready b) = nat (rb_merged_len b)"
proof -
  have inv: "rb_inv b" using assms by (simp add: rx_inv_def)
  show "0 \<le> rb_merged_len b" by (rule rb_merged_prefix(1) [OF inv])
  show len: "length (rb_ready b) = nat (rb_merged_len b)" by (rule rb_ready_nth(1) [OF inv])
  have "length (rb_data b) \<le> nat (int RB_MAX)" using inv by (auto simp: rb_inv_def rb_layout_def)
  moreover have "length (rb_ready b) \<le> length (rb_data b)" by (simp add: rb_ready_def)
  ultimately show "rb_merged_len b < 2 ^ 31" using len by simp
qed

lemma CopyToUser_ok:
  assumes b: "rcvbuf (rcvvar (m_streams m s)) = Some b" and inv: "rx_inv (b, m_rbm_rcv m)"
    and len: "0 < len" "len < 2 ^ 31" and n: "n = min len (length (rb_ready b))" "0 < n" and q: "click_inv (m_ackq m)"
  shows "\<exists>m' b'. CopyToUser s (int len) m = Some (Ret (take n (rb_ready b)), m')
    \<and> rcvbuf (rcvvar (m_streams m' s)) = Some b' \<and> rx_inv (b', m_rbm_rcv m')
    \<and> rb_head_seq b' = rb_head_seq b + word_of_nat n \<and> (\<forall>i. rb_map b' i = rb_map b (i + n))
    \<and> rcv_wnd (rcvvar (m_streams m' s)) = word_of_int (rb_size b' - rb_merged_len b')
    \<and> s_state (m_streams m' s) = s_state (m_streams m s) \<and> (events_ok m \<longrightarrow> events_ok m')"
proof -
  note rx = rx_merged [OF inv]
  have c: "min (rb_merged_len b) (int len) = int n" using n(1) rx by (auto simp: min_def)
  have w: "min (word_of_int (rb_merged_len b)) (word_of_int (int len)) = (word_of_int (int n) :: u64)"
    "unat (word_of_int (int n) :: u64) = n" "unat (word_of_int (int len) :: u64) = len"
    using min_words(1) [of "rb_merged_len b" "int len"] min_words(2) [of "int n" 0] min_words(2) [of "int len" 0] rx len c n(1)
    by (simp_all del: of_nat_min)
  obtain b' rbm' where r: "rx_read (b, m_rbm_rcv m) (word_of_int (int len)) = Some (take n (rb_ready b), b', rbm')"
    "rx_inv (b', rbm')" "rb_head_seq b' = rb_head_seq b + word_of_nat n" "\<forall>i. rb_map b' i = rb_map b (i + n)"
    using rx.read_law [OF inv, of n "word_of_int (int len)"] n w(3) by force
  then obtain r where rd: "read_at (rb_data b) (rb_head b) n = Some (take n (rb_ready b))"
    "RBRemove (m_rbm_rcv m) b (word_of_int (int n)) AT_APP = Some (r, b', rbm')"
    by (auto simp: rx_read_def Let_def w [simplified] Option.bind_eq_Some_conv)
  let ?m1 = "upd_rcv s (\<lambda>v. v\<lparr>rcvbuf := Some b', rcv_wnd := word_of_int (rb_size b' - rb_merged_len b')\<rparr>) (m\<lparr>m_rbm_rcv := rbm'\<rparr>)"
  have "click_inv (m_ackq ?m1)" using q by (simp add: upd_defs)
  from advertise_window_total [OF this, of s] obtain m' where m': "advertise_window s ?m1 = Some m'"
    "rcvvar (m_streams m' s) = rcvvar (m_streams ?m1 s)" "s_state (m_streams m' s) = s_state (m_streams ?m1 s)"
    "m_rbm_rcv m' = m_rbm_rcv ?m1" "events_ok ?m1 \<longrightarrow> events_ok m'" by blast
  have "CopyToUser s (int len) m = Some (Ret (take n (rb_ready b)), m')"
    using n(2) rd m'(1) by (simp add: CopyToUser_def b c Let_def)
  then show ?thesis using m' r by (auto simp: upd_defs events_ok_def)
qed

text \<open>C12. \<open>mtcp_read\<close> on a connected socket with data returns the first bytes of the data received in
  order, as many as are asked for and available, and removes exactly these from the receive buffer:
  afterwards every offset holds what was that much further before, and the window that the stack
  advertises is the free part of the buffer. No byte is lost, repeated or reordered.\<close>

theorem mtcp_read_takes:
  assumes "connected cfg mctx k s m"
    and "TCP_ST_ESTABLISHED \<le> s_state (m_streams m s)" and "s_state (m_streams m s) \<le> TCP_ST_CLOSE_WAIT"
    and "rcvbuf (rcvvar (m_streams m s)) = Some b" and "rx_inv (b, m_rbm_rcv m)" and "click_inv (m_ackq m)"
    and "0 < len" and "len < 2 ^ 31" and "n = min len (length (rb_ready b))" and "0 < n"
  shows "\<exists>m' b'. mtcp_read cfg mctx k len m = Some (Ret (take n (rb_ready b)), m')
    \<and> rcvbuf (rcvvar (m_streams m' s)) = Some b' \<and> rx_inv (b', m_rbm_rcv m')
    \<and> rb_head_seq b' = rb_head_seq b + word_of_nat n \<and> (\<forall>i. rb_map b' i = rb_map b (i + n))
    \<and> rcv_wnd (rcvvar (m_streams m' s)) = word_of_int (rb_size b' - rb_merged_len b')"
proof -
  obtain m1 b' where c: "CopyToUser s (int len) m = Some (Ret (take n (rb_ready b)), m1)"
    "rcvbuf (rcvvar (m_streams m1 s)) = Some b'" "rx_inv (b', m_rbm_rcv m1)"
    "rb_head_seq b' = rb_head_seq b + word_of_nat n" "\<forall>i. rb_map b' i = rb_map b (i + n)"
    "rcv_wnd (rcvvar (m_streams m1 s)) = word_of_int (rb_size b' - rb_merged_len b')" "events_ok m1"
    using CopyToUser_ok [OF assms(4,5,7-10,6)] assms(1) by (auto simp: connected_def)
  have data: "rb_merged_len b \<noteq> 0" using assms(9,10) rx_merged [OF assms(5)] by auto
  have ready: "read_ready (nat k) (Some s) m = Inr s"
    using assms(2-4) data by (simp add: read_ready_def Let_def)
  have "event_remaining (nat k) s (int (length (take n (rb_ready b)))) m1 \<noteq> None"
    using c(2) by (auto simp: event_remaining_def)
  then obtain ev where ev: "event_remaining (nat k) s (int (length (take n (rb_ready b)))) m1 = Some ev" by blast
  obtain m2 where m2: "(if ev \<and> so_epoll (m_smap m1 (nat k)) \<noteq> 0 then mtcp_add_event USR_SHADOW_EVENT_QUEUE (nat k) MTCP_EPOLLIN m1
     else Some m1) = Some m2" "event_frame m1 m2"
    using mtcp_add_event_total [OF c(7)] event_frame_refl by (metis (full_types))
  have "mtcp_read cfg mctx k len m = Some (Ret (take n (rb_ready b)), m2)"
  proof -
    obtain cx where cx: "GetMTCPManager mctx m = Inr cx" using assms(1) by (auto simp: connected_def)
    show ?thesis
      using assms(1,8) c(1) ready ev m2(1)
      by (simp add: mtcp_read_def mtcp_recv_def connected_def with_manager_def with_socket_def cx socket_stream_def int_of_size_small
          split del: if_split)
  qed
  moreover have "m_rbm_rcv m2 = m_rbm_rcv m1" using m2(2) by (auto simp: event_frame_def)
  ultimately show ?thesis using c event_frameD(2) [OF m2(2)] by auto
qed

section \<open>Separation\<close>

text \<open>C14. A call of the application on a socket changes at most the stream behind that socket: reading,
  writing, closing and aborting leave the control block of every other connection exactly as it was.\<close>

theorem api_call_separation:
  assumes "so_obj (m_smap m (nat k)) = StreamObj s" and "t \<noteq> s"
    and "(\<exists>d. mtcp_recv cfg mctx k len flags m = Some (d, m')) \<or> (\<exists>d. mtcp_readv cfg mctx k lens m = Some (d, m'))
      \<or> (\<exists>n. mtcp_write cfg mctx k buf m = Some (n, m')) \<or> (\<exists>n. mtcp_writev cfg mctx k iov m = Some (n, m'))
      \<or> (\<exists>n. mtcp_close cfg mctx k m = Some (n, m')) \<or> (\<exists>n. mtcp_abort cfg mctx k m = Some (n, m'))"
  shows "m_streams m' t = m_streams m t"
proof -
  let ?K = "flow_key (m_streams m s)"
  have q: "others s (m_streams m) m" by (simp add: others_def)
  have own: "\<forall>s'. so_obj (m_smap m (nat k)) = StreamObj s' \<longrightarrow> apart s (m_streams m) ?K s' m"
    using assms(1) apart_start by auto
  have "others s (m_streams m) m'"
    using assms(3) sep.mtcp_recv_keeps [OF q own, of cfg mctx len flags] sep.mtcp_readv_keeps [OF q own, of cfg mctx lens]
      sep.mtcp_write_keeps [OF q own, of cfg mctx buf] sep.mtcp_writev_keeps [OF q own, of cfg mctx iov]
      sep.mtcp_close_keeps [OF q own, of cfg mctx] sep.mtcp_abort_keeps [OF q own, of cfg mctx]
    by auto
  with assms(2) show ?thesis by (simp add: others_def)
qed

section \<open>Example\<close>

text \<open>A connection behind socket 1 with an empty send buffer and three bytes received.\<close>

abbreviation sample_ctx :: mtcp_context where
  "sample_ctx \<equiv> \<lparr>cx_cpu = 0, cx_num_cpus = 1, cx_num_queues = 1, cx_endian = True\<rparr>"

definition sample_established :: tcp_stream where
  "sample_established = zero_stream\<lparr>s_state := TCP_ST_ESTABLISHED, s_socket := Some 1,
     sndvar := zero_send_vars\<lparr>sndbuf := Some sb_example, snd_wnd := 64\<rparr>,
     rcvvar := zero_recv_vars\<lparr>rcvbuf := Some (fst rx_ex2)\<rparr>\<rparr>"

definition sample_connected :: mtcp_manager where
  "sample_connected = sample_manager\<lparr>m_streams := (m_streams sample_manager)(0 := sample_established),
     m_rbm_rcv := snd rx_ex2, m_free_smap := [2, 3],
     m_smap := sample_smap(1 := (unused_socket 1)\<lparr>so_socktype := MTCP_SOCK_STREAM, so_obj := StreamObj 0\<rparr>)\<rparr>"

lemma rx_ex2_inv: "rx_inv rx_ex2"
proof -
  have 0: "rx_inv rx_ex0" using rx_ex_inv by (auto simp: rx_inv_def)
  obtain s1 where s1: "rx_put rx_ex0 [2] 0 = Some s1" "rx_inv s1" "rb_head_seq (fst s1) = rb_head_seq (fst rx_ex0)"
    "nat (rb_size (fst s1)) = nat (rb_size (fst rx_ex0))"
    using rx.put_fits [OF 0 rx_ex_steps(2), of "[2]" 0] rx_ex_inv by (auto simp: seq_off_def)
  then have 1: "rx_inv rx_ex1" "rb_head_seq (fst rx_ex1) = 0xFFFFFFFE" "nat (rb_size (fst rx_ex1)) = 8"
    using rx_ex_steps(1) rx_ex_inv by simp_all
  obtain s2 where "rx_put rx_ex1 [0, 1] 0xFFFFFFFE = Some s2" "rx_inv s2"
    using rx.put_fits [OF 1(1) rx_ex_steps(4), of "[0, 1]" "0xFFFFFFFE"] 1 by (auto simp: seq_off_def)
  then show ?thesis using rx_ex_steps(3) by simp
qed

lemma sample_connected_ok:
  "connected sample_cfg (Some sample_ctx) 1 0 sample_connected" "m_streams sample_connected 0 = sample_established"
  "click_inv (m_sendq sample_connected)" "click_items (m_sendq sample_connected) = []" "click_cap (m_sendq sample_connected) = 4"
  "click_inv (m_ackq sample_connected)" "m_rbm_rcv sample_connected = snd rx_ex2"
  unfolding sample_connected_def sample_manager_def sample_queue_def connected_def events_ok_def ep_ok_def ep_queue_def sample_epoll_def
  by (simp_all add: GetMTCPManager_def sample_cfg_def sample_events_def eq_inv_def click_inv_def click_items_def click_window_def
      click_count_def click_cap_def ring_dist_def split: event_queue_type.split)

theorem mtcp_write_appends_witness:
  "\<exists>m' b'. mtcp_write sample_cfg (Some sample_ctx) 1 [5, 6] sample_connected = Some (Ret 2, m')
     \<and> sndbuf (sndvar (m_streams m' 0)) = Some b' \<and> sb_bytes b' = [5, 6] \<and> click_items (m_sendq m') = [0]"
proof -
  let ?v = "sndvar (m_streams sample_connected 0)"
  have v: "may_write (s_state (m_streams sample_connected 0))" "sndbuf ?v = Some sb_example"
    "snd_wnd ?v = sb_size sb_example - sb_len sb_example" "\<not> on_sendq ?v" "\<not> on_send_list ?v"
    by (simp_all add: sample_connected_ok sample_established_def zero_send_vars_def may_write_def sb_example_def)
  have c: "sb_cap sb_example < 2 ^ 31" "length [5, 6 :: byte] < 2 ^ 31"
    "(2 :: nat) = min (length [5, 6 :: byte]) (sb_cap sb_example - length (sb_bytes sb_example))"
    "length (click_items (m_sendq sample_connected)) < click_cap (m_sendq sample_connected)"
    by (simp_all add: sb_example_inv sample_connected_ok)
  obtain m' b' where "mtcp_write sample_cfg (Some sample_ctx) 1 [5, 6] sample_connected = Some (Ret (int 2), m')"
    "sndbuf (sndvar (m_streams m' 0)) = Some b'" "sb_bytes b' = sb_bytes sb_example @ take 2 [5, 6]"
    "click_items (m_sendq m') = click_items (m_sendq sample_connected) @ [0]"
    using mtcp_write_appends [OF sample_connected_ok(1) v(1,2) sb_example_inv(1) c(1) v(3) _ c(2,3) _ sample_connected_ok(3) c(4)] v(4,5)
    by auto
  then show ?thesis by (auto simp: sb_example_inv sample_connected_ok)
qed

theorem mtcp_read_takes_witness:
  "\<exists>m' b'. mtcp_read sample_cfg (Some sample_ctx) 1 2 sample_connected = Some (Ret (take 2 (rb_ready (fst rx_ex2))), m')
     \<and> rcvbuf (rcvvar (m_streams m' 0)) = Some b' \<and> rb_head_seq b' = rb_head_seq (fst rx_ex2) + 2"
proof -
  have len: "length (rb_ready (fst rx_ex2)) = 3"
    using rx_merged(3) [of "fst rx_ex2" "snd rx_ex2"] rx_ex2_inv rx_ex_steps(6) by simp
  then show ?thesis
    using mtcp_read_takes [OF sample_connected_ok(1) _ _ _ _ sample_connected_ok(6), of "fst rx_ex2" 2 2] rx_ex2_inv
    by (force simp: sample_connected_ok sample_established_def zero_recv_vars_def less_eq_tcp_state_def)
qed

theorem api_call_separation_witness:
  "\<exists>m'. mtcp_close sample_cfg (Some sample_ctx) 1 sample_connected = Some (Ret 0, m')
     \<and> m_streams m' 1 = m_streams sample_connected 1 \<and> s_closed (m_streams m' 0)"
proof -
  have smap: "m_smap sample_connected 1 = (unused_socket 1)\<lparr>so_socktype := MTCP_SOCK_STREAM, so_obj := StreamObj 0\<rparr>"
    "m_free_smap sample_connected = [2, 3]" by (simp_all add: sample_connected_def)
  have g: "GetMTCPManager (Some sample_ctx) m = Inr sample_ctx" if "\<not> m_ctx_done m" "\<not> m_ctx_exit m" for m
    using that by (simp add: GetMTCPManager_def)
  have f: "\<not> m_ctx_done sample_connected" "\<not> m_ctx_exit sample_connected" "m_closeq sample_connected = sample_queue"
    by (simp_all add: sample_connected_def sample_manager_def)
  have st: "s_state sample_established = TCP_ST_ESTABLISHED" "\<not> s_closed sample_established"
    by (simp_all add: sample_established_def zero_stream_def)
  obtain q where q: "StreamEnqueue sample_queue (0 :: nat) = Some (0, q)"
    by (simp add: StreamEnqueue_def sample_queue_def NextIndex_def Let_def)
  have "\<exists>m'. mtcp_close sample_cfg (Some sample_ctx) 1 sample_connected = Some (Ret 0, m') \<and> s_closed (m_streams m' 0)"
    by (simp add: mtcp_close_def CloseStreamSocket_def with_manager_def with_socket_def g f smap smap(1) [unfolded One_nat_def]
        socket_stream_def Let_def sample_connected_ok(2) st upd_defs q FreeSocket_def tailq_insert_tail_def sample_cfg_def)
  then obtain m' where m': "mtcp_close sample_cfg (Some sample_ctx) 1 sample_connected = Some (Ret 0, m')" "s_closed (m_streams m' 0)"
    by blast
  with api_call_separation [of sample_connected 1 0 1 sample_cfg "Some sample_ctx" 0 0 m' "[]" "[]" "[]"] smap(1)
  show ?thesis by auto
qed

end
