(* ===== verification/Pipe_Props.thy ===== *)
theory Pipe_Props
  imports Socket_Props
begin

text \<open>
  A pipe is a stream of bytes: what the reads of a pipe return is what the writes accepted, in order
  and without loss. The calls may be interleaved in any way and on either end.
\<close>

section \<open>Transfers\<close>

text \<open>The pipe \<open>p\<close> is open and the socket numbers in \<open>E\<close> are ends of it.\<close>

definition pipe_conn :: "mtcp_config \<Rightarrow> mtcp_context option \<Rightarrow> nat \<Rightarrow> int set \<Rightarrow> mtcp_manager \<Rightarrow> bool" where
  "pipe_conn cfg mctx p E m \<longleftrightarrow> (\<exists>c. GetMTCPManager mctx m = Inr c) \<and> events_ok m
     \<and> pipe_inv (m_pipes m p) \<and> pp_state (m_pipes m p) = PIPE_ACTIVE
     \<and> (\<forall>k \<in> E. 0 \<le> k \<and> k < c_max_concurrency cfg \<and> so_socktype (m_smap m (nat k)) = MTCP_SOCK_PIPE
          \<and> so_obj (m_smap m (nat k)) = PipeObj p)"

lemma pipe_conn_frame:
  "pipe_conn cfg mctx p E m \<Longrightarrow> event_frame m m' \<Longrightarrow> pipe_conn cfg mctx p E m'"
  by (simp add: pipe_conn_def event_frameD)

lemma GetMTCPManager_pipe [simp]: "GetMTCPManager mctx (upd_pipe p f m) = GetMTCPManager mctx m"
  by (simp add: GetMTCPManager_def upd_pipe_def split: option.split)

lemma pipe_conn_upd:
  "pipe_conn cfg mctx p E m \<Longrightarrow> pipe_inv pp \<Longrightarrow> pp_state pp = PIPE_ACTIVE \<Longrightarrow>
     pipe_conn cfg mctx p E (upd_pipe p (\<lambda>_. pp) m)"
  by (simp add: pipe_conn_def) (simp add: upd_pipe_def events_ok_def)

lemma RaiseEventToPair_total:
  assumes "events_ok m" "so_obj (m_smap m k) = PipeObj p"
  shows "\<exists>m'. RaiseEventToPair k ev m = Some m' \<and> event_frame m m'"
  using mtcp_add_event_total [OF assms(1)] assms(2) event_frame_refl
  by (simp add: RaiseEventToPair_def socket_pp_def Let_def)

text \<open>An event that is added or not, by a condition.\<close>

lemma add_if_total:
  assumes "events_ok m"
  shows "\<exists>m'. (if b then mtcp_add_event qt k ev m else Some m) = Some m' \<and> event_frame m m'"
  using mtcp_add_event_total [OF assms] event_frame_refl by simp

lemma notify_total:
  assumes "events_ok m" "so_obj (m_smap m k) = PipeObj p"
  shows "\<exists>m'. (if b then RaiseEventToPair k ev m else Some m) = Some m' \<and> event_frame m m'"
  using RaiseEventToPair_total [OF assms] event_frame_refl by simp

lemma pipe_conn_end:
  assumes "pipe_conn cfg mctx p E m" "k \<in> E"
  shows "with_pipe cfg mctx k f m = f (nat k) p m" "events_ok m" "so_obj (m_smap m (nat k)) = PipeObj p"
    "pipe_inv (m_pipes m p)" "pp_state (m_pipes m p) = PIPE_ACTIVE"
  using assms by (auto simp: pipe_conn_def with_pipe_def with_manager_def GetSocket_def socket_pp_def)

definition got :: "byte list api \<Rightarrow> byte list" where
  "got r = (case r of Ret d \<Rightarrow> d | _ \<Rightarrow> [])"

definition took :: "byte list \<Rightarrow> int api \<Rightarrow> byte list" where
  "took buf r = (case r of Ret n \<Rightarrow> take (nat n) buf | _ \<Rightarrow> [])"

lemma PipeRead_copy_ok:
  assumes conn: "pipe_conn cfg mctx p E m" "k \<in> E" and len: "0 < len"
  shows "\<exists>r m'. PipeRead_copy (nat k) p len m = Some (r, m') \<and> pipe_conn cfg mctx p E m'
    \<and> pipe_bytes (m_pipes m p) = got r @ pipe_bytes (m_pipes m' p)"
proof -
  let ?pp = "m_pipes m p" and ?r = "min len (pp_buf_len (m_pipes m p))"
  note e = pipe_conn_end [OF conn]
  show ?thesis
  proof (cases "?r \<le> 0")
    case True
    with conn e(5) show ?thesis by (simp add: PipeRead_copy_def Let_def got_def)
  next
    case False
    then have "0 \<le> ?r" "?r \<le> pp_buf_len ?pp" by linarith+
    from pipe_copy_out_ok [OF e(4) this] obtain pp' where pp':
      "pipe_copy_out ?r ?pp = Some (take (nat ?r) (pipe_bytes ?pp), pp')" "pipe_inv pp'"
      "pipe_bytes pp' = drop (nat ?r) (pipe_bytes ?pp)" "pp_state pp' = pp_state ?pp" by blast
    let ?m1 = "upd_pipe p (\<lambda>_. pp') m"
    have c1: "pipe_conn cfg mctx p E ?m1" using pipe_conn_upd [OF conn(1) pp'(2)] pp'(4) e(5) by simp
    note e1 = pipe_conn_end [OF c1 conn(2)]
    obtain m2 where m2: "(if pp_buf_len ?pp = pp_buf_size ?pp then RaiseEventToPair (nat k) MTCP_EPOLLOUT ?m1 else Some ?m1) = Some m2"
      "event_frame ?m1 m2" using notify_total [OF e1(2,3)] by blast
    obtain m3 where m3: "(if has_opt (so_epoll (m_smap m2 (nat k))) MTCP_EPOLLIN \<and> \<not> has_opt (so_epoll (m_smap m2 (nat k))) MTCP_EPOLLET
       then mtcp_add_event USR_SHADOW_EVENT_QUEUE (nat k) MTCP_EPOLLIN m2 else Some m2) = Some m3" "event_frame m2 m3"
      using add_if_total [OF event_frameD(12) [OF m2(2) e1(2)]] by blast
    define m4 where "m4 = (if pp_buf_len pp' > 0 then m3 else m2)"
    have m4: "event_frame ?m1 m4"
      using m2(2) event_frame_trans [OF m2(2) m3(2)] by (simp add: m4_def)
    have "PipeRead_copy (nat k) p len m = Some (Ret (take (nat ?r) (pipe_bytes ?pp)), m4)"
      unfolding PipeRead_copy_def Let_def using False e(5) pp'(1,4) m2(1) m3(1)
      by (cases "pp_buf_len pp' > 0") (simp_all add: m4_def split del: if_split)
    moreover have "m_pipes m4 p = pp'" using event_frameD(1) [OF m4] by (simp add: upd_pipe_def)
    ultimately show ?thesis
      using pipe_conn_frame [OF c1 m4] pp'(3) by (auto simp: got_def)
  qed
qed

lemma PipeWrite_copy_ok:
  assumes conn: "pipe_conn cfg mctx p E m" "k \<in> E" and len: "0 < len" "len = int (length buf)"
  shows "\<exists>r m'. PipeWrite_copy (nat k) p buf len m = Some (r, m') \<and> pipe_conn cfg mctx p E m'
    \<and> pipe_bytes (m_pipes m' p) = pipe_bytes (m_pipes m p) @ took buf r"
proof -
  let ?pp = "m_pipes m p" and ?w = "min len (pp_buf_size (m_pipes m p) - pp_buf_len (m_pipes m p))"
  note e = pipe_conn_end [OF conn]
  show ?thesis
  proof (cases "?w \<le> 0")
    case True
    with conn show ?thesis by (simp add: PipeWrite_copy_def Let_def took_def)
  next
    case False
    then have "0 \<le> ?w" "?w \<le> pp_buf_size ?pp - pp_buf_len ?pp" "?w \<le> int (length buf)" using len by linarith+
    from pipe_copy_in_ok [OF e(4) this] obtain pp' where pp':
      "pipe_copy_in buf ?w ?pp = Some pp'" "pipe_inv pp'"
      "pipe_bytes pp' = pipe_bytes ?pp @ take (nat ?w) buf" "pp_state pp' = pp_state ?pp" by blast
    let ?m1 = "upd_pipe p (\<lambda>_. pp') m"
    have c1: "pipe_conn cfg mctx p E ?m1" using pipe_conn_upd [OF conn(1) pp'(2)] pp'(4) e(5) by simp
    note e1 = pipe_conn_end [OF c1 conn(2)]
    obtain m2 where m2: "(if pp_buf_len ?pp = 0 then RaiseEventToPair (nat k) MTCP_EPOLLIN ?m1 else Some ?m1) = Some m2"
      "event_frame ?m1 m2" using notify_total [OF e1(2,3)] by blast
    obtain m3 where m3: "(if pp_buf_len pp' < pp_buf_size pp' \<and> has_opt (so_epoll (m_smap m2 (nat k))) MTCP_EPOLLOUT
         \<and> \<not> has_opt (so_epoll (m_smap m2 (nat k))) MTCP_EPOLLET
       then mtcp_add_event USR_SHADOW_EVENT_QUEUE (nat k) MTCP_EPOLLOUT m2 else Some m2) = Some m3" "event_frame m2 m3"
      using add_if_total [OF event_frameD(12) [OF m2(2) e1(2)]] by blast
    have m4: "event_frame ?m1 m3" by (rule event_frame_trans [OF m2(2) m3(2)])
    have "PipeWrite_copy (nat k) p buf len m = Some (Ret ?w, m3)"
      unfolding PipeWrite_copy_def Let_def using False pp'(1) m2(1) m3(1) by (simp split del: if_split)
    moreover have "m_pipes m3 p = pp'" using event_frameD(1) [OF m4] by (simp add: upd_pipe_def)
    ultimately show ?thesis
      using pipe_conn_frame [OF c1 m4] pp'(3) by (auto simp: took_def)
  qed
qed

lemma PipeRead_ok:
  assumes conn: "pipe_conn cfg mctx p E m" "k \<in> E"
  shows "\<exists>r m'. PipeRead cfg mctx k len m = Some (r, m') \<and> pipe_conn cfg mctx p E m'
    \<and> pipe_bytes (m_pipes m p) = got r @ pipe_bytes (m_pipes m' p)"
  using conn PipeRead_copy_ok [OF conn, of len] pipe_conn_end(5) [OF conn]
  by (auto simp: PipeRead_def pipe_conn_end(1) [OF conn] Let_def PipeRead_wait_def got_def)

lemma PipeWrite_ok:
  assumes conn: "pipe_conn cfg mctx p E m" "k \<in> E" and len: "len = int (length buf)"
  shows "\<exists>r m'. PipeWrite cfg mctx k buf len m = Some (r, m') \<and> pipe_conn cfg mctx p E m'
    \<and> pipe_bytes (m_pipes m' p) = pipe_bytes (m_pipes m p) @ took buf r"
  using conn PipeWrite_copy_ok [OF conn _ len] pipe_conn_end(5) [OF conn]
  by (auto simp: PipeWrite_def pipe_conn_end(1) [OF conn] Let_def PipeWrite_wait_def took_def)

section \<open>A stream of bytes\<close>

text \<open>A sequence of calls, each with the socket number it is made on; the bytes that were accepted and
  the bytes that were delivered.\<close>

datatype pipe_op = PWrite int "byte list" | PRead int int

fun op_end :: "pipe_op \<Rightarrow> int" where
  "op_end (PWrite k buf) = k"
| "op_end (PRead k len) = k"

fun pipe_run ::
    "mtcp_config \<Rightarrow> mtcp_context option \<Rightarrow> pipe_op list \<Rightarrow> mtcp_manager \<Rightarrow> (byte list \<times> byte list \<times> mtcp_manager) option" where
  "pipe_run cfg mctx [] m = Some ([], [], m)"
| "pipe_run cfg mctx (PWrite k buf # ops) m = do {
     (r, m) \<leftarrow> PipeWrite cfg mctx k buf (int (length buf)) m;
     (ws, ds, m) \<leftarrow> pipe_run cfg mctx ops m;
     Some (took buf r @ ws, ds, m)
   }"
| "pipe_run cfg mctx (PRead k len # ops) m = do {
     (r, m) \<leftarrow> PipeRead cfg mctx k len m;
     (ws, ds, m) \<leftarrow> pipe_run cfg mctx ops m;
     Some (ws, got r @ ds, m)
   }"

lemma pipe_run_ok:
  assumes "pipe_conn cfg mctx p E m" "\<forall>a \<in> set ops. op_end a \<in> E"
  shows "\<exists>ws ds m'. pipe_run cfg mctx ops m = Some (ws, ds, m') \<and> pipe_conn cfg mctx p E m'
    \<and> pipe_bytes (m_pipes m p) @ ws = ds @ pipe_bytes (m_pipes m' p)"
  using assms
proof (induction ops arbitrary: m)
  case (Cons a ops)
  show ?case
  proof (cases a)
    case (PWrite k buf)
    from PipeWrite_ok [OF Cons.prems(1) _ refl, of k buf] Cons.prems(2) PWrite obtain r m1 where 1:
      "PipeWrite cfg mctx k buf (int (length buf)) m = Some (r, m1)" "pipe_conn cfg mctx p E m1"
      "pipe_bytes (m_pipes m1 p) = pipe_bytes (m_pipes m p) @ took buf r" by auto
    from Cons.IH [OF 1(2)] Cons.prems(2) 1 PWrite show ?thesis by auto
  next
    case (PRead k len)
    from PipeRead_ok [OF Cons.prems(1), of k len] Cons.prems(2) PRead obtain r m1 where 1:
      "PipeRead cfg mctx k len m = Some (r, m1)" "pipe_conn cfg mctx p E m1"
      "pipe_bytes (m_pipes m p) = got r @ pipe_bytes (m_pipes m1 p)" by auto
    from Cons.IH [OF 1(2)] Cons.prems(2) 1 PRead show ?thesis by auto
  qed
qed simp

text \<open>A new pipe is open, empty, and its two ends are different sockets.\<close>

lemma AllocateSocket_new:
  assumes "AllocateSocket ty m = Some (Some k, m')" "smap_inv cfg m" "ty \<noteq> MTCP_SOCK_UNUSED"
  shows "smap_inv cfg m' \<and> int k < c_max_concurrency cfg \<and> so_socktype (m_smap m k) = MTCP_SOCK_UNUSED
    \<and> (\<exists>l. m' = m\<lparr>m_free_smap := l, m_smap := (m_smap m)(k := fresh_socket ty (m_smap m k))\<rparr>)"
  using postD [OF AllocateSocket_smap_inv [OF assms(2,3)] assms(1)] AllocateSocket_cases [OF assms(1)] by auto

lemma mtcp_pipe_result:
  assumes pipe: "mtcp_pipe buf mctx m = Some (Ret (a, b), m')" and inv: "smap_inv cfg m"
  shows "a \<noteq> b \<and> int a < c_max_concurrency cfg \<and> int b < c_max_concurrency cfg
    \<and> so_socktype (m_smap m' a) = MTCP_SOCK_PIPE \<and> so_socktype (m_smap m' b) = MTCP_SOCK_PIPE
    \<and> so_obj (m_smap m' a) = PipeObj (m_pipes_next m) \<and> so_obj (m_smap m' b) = PipeObj (m_pipes_next m)
    \<and> m_pipes m' (m_pipes_next m) = new_pipe a b buf \<and> m_ep m' = m_ep m \<and> m_eps m' = m_eps m
    \<and> m_ctx_done m' = m_ctx_done m \<and> m_ctx_exit m' = m_ctx_exit m"
proof -
  obtain c where c: "mctx = Some c" "0 \<le> cx_cpu c" "cx_cpu c < cx_num_cpus c"
    using pipe by (auto simp: mtcp_pipe_def raw_manager_def split: option.splits if_splits)
  obtain r0 m0 where 0: "AllocateSocket MTCP_SOCK_PIPE m = Some (r0, m0)"
    using pipe by (cases "AllocateSocket MTCP_SOCK_PIPE m") (auto simp: mtcp_pipe_def raw_manager_def c)
  then obtain k0 where k0: "r0 = Some k0"
    using pipe by (cases r0) (simp_all add: mtcp_pipe_def raw_manager_def c)
  note a0 = AllocateSocket_new [OF 0 [unfolded k0] inv]
  obtain r1 m1 where 1: "AllocateSocket MTCP_SOCK_PIPE m0 = Some (r1, m1)"
    using pipe by (cases "AllocateSocket MTCP_SOCK_PIPE m0") (auto simp: mtcp_pipe_def raw_manager_def c 0 k0)
  then obtain k1 where k1: "r1 = Some k1"
    using pipe by (cases r1) (auto simp: mtcp_pipe_def raw_manager_def c 0 k0 Option.bind_eq_Some_conv)
  have i0: "smap_inv cfg m0" using a0 by simp
  note a1 = AllocateSocket_new [OF 1 [unfolded k1] i0]
  have ids: "so_id (m_smap m k0) = k0" "so_id (m_smap m k1) = k1"
    using inv a0 a1 by (simp_all add: smap_inv_def)
  have ne: "k0 \<noteq> k1" using a0 a1 by (auto simp: fresh_socket_def)
  from pipe a0 a1 ne ids show ?thesis
    by (auto simp: mtcp_pipe_def raw_manager_def c 0 k0 1 k1 next_alloc_def Let_def free_pair_def upd_socket_def fresh_socket_def
        Option.bind_eq_Some_conv split: if_splits)
qed

lemma new_pipe_inv:
  "int (length buf) = PIPE_BUF_SIZE \<Longrightarrow> pipe_inv (new_pipe a b buf) \<and> pipe_bytes (new_pipe a b buf) = []
     \<and> pp_state (new_pipe a b buf) = PIPE_ACTIVE"
  by (simp add: new_pipe_def pipe_inv_def pipe_bytes_def PIPE_BUF_SIZE_def)

lemma mtcp_pipe_conn:
  assumes pipe: "mtcp_pipe buf mctx m = Some (Ret (a, b), m')" and inv: "smap_inv cfg m" and ev: "events_ok m"
    and mctx: "GetMTCPManager mctx m = Inr c" and buf: "int (length buf) = PIPE_BUF_SIZE"
  shows "pipe_conn cfg mctx (m_pipes_next m) {int a, int b} m' \<and> pipe_bytes (m_pipes m' (m_pipes_next m)) = []"
  using mtcp_pipe_result [OF pipe inv] new_pipe_inv [OF buf, of a b] ev mctx
  by (auto simp: pipe_conn_def events_ok_def GetMTCPManager_def split: option.splits if_splits)

text \<open>C10. A pipe is a stream of bytes. After \<open>mtcp_pipe\<close> has returned two socket numbers, any sequence of
  reads and writes on them, interleaved in any order and of any length, runs without an error of the
  memory accesses, and the bytes that the reads return followed by the bytes still in the ring are
  exactly the bytes that the writes accepted, in order.\<close>

theorem Pipe_stream:
  assumes "mtcp_pipe buf mctx m = Some (Ret (a, b), m1)" and "int (length buf) = PIPE_BUF_SIZE"
    and "smap_inv cfg m" and "events_ok m" and "GetMTCPManager mctx m = Inr c"
    and "\<forall>x \<in> set ops. op_end x \<in> {int a, int b}"
  shows "\<exists>ws ds m2. pipe_run cfg mctx ops m1 = Some (ws, ds, m2)
    \<and> ws = ds @ pipe_bytes (m_pipes m2 (m_pipes_next m)) \<and> pipe_inv (m_pipes m2 (m_pipes_next m))"
proof -
  note conn = mtcp_pipe_conn [OF assms(1,3-5,2)]
  from pipe_run_ok [OF _ assms(6)] conn show ?thesis by (force simp: pipe_conn_def)
qed

theorem Pipe_stream_witness:
  "\<exists>m1 ws ds m2. mtcp_pipe (replicate 10240 0) (Some \<lparr>cx_cpu = 0, cx_num_cpus = 1, cx_num_queues = 1, cx_endian = True\<rparr>) sample_manager
      = Some (Ret (1, 2), m1)
    \<and> pipe_run sample_cfg (Some \<lparr>cx_cpu = 0, cx_num_cpus = 1, cx_num_queues = 1, cx_endian = True\<rparr>)
        [PWrite 1 [7, 8, 9], PRead 2 2, PWrite 2 [5], PRead 1 10] m1 = Some (ws, ds, m2)
    \<and> ws = ds @ pipe_bytes (m_pipes m2 0)"
proof -
  let ?c = "\<lparr>cx_cpu = 0, cx_num_cpus = 1, cx_num_queues = 1, cx_endian = True\<rparr>"
  let ?ops = "[PWrite 1 [7, 8, 9], PRead 2 2, PWrite 2 [5], PRead 1 10]"
  note inv = sample_smap_inv
  have g: "GetMTCPManager (Some ?c) sample_manager = Inr ?c"
    by (simp add: GetMTCPManager_def sample_manager_def)
  have ev: "events_ok sample_manager"
    by (simp add: events_ok_def ep_ok_def ep_queue_def sample_manager_def sample_epoll_def sample_events_def eq_inv_def
        split: event_queue_type.split)
  obtain m1 where m1: "mtcp_pipe (replicate 10240 0) (Some ?c) sample_manager = Some (Ret (1, 2), m1)"
    by (simp add: mtcp_pipe_def raw_manager_def AllocateSocket_def AllocateSocket_loop.simps sample_manager_def
        sample_smap_def unused_socket_def next_alloc_def upd_socket_def)
  have "m_pipes_next sample_manager = 0" by (simp add: sample_manager_def)
  with Pipe_stream [OF m1 _ inv ev g, of ?ops] m1 show ?thesis by (auto simp: PIPE_BUF_SIZE_def)
qed

end
