(* ===== verification/Api_Errors.thy ===== *)
theory Api_Errors
  imports Api_Props Pipe_Props
begin

text \<open>
  Errors of the closing paths that the model shows: a listener that is freed but can still be found, a reader
  of a pipe that sleeps for ever, and a closed pipe that takes the connection away from an unrelated
  socket.
\<close>

section \<open>Listeners\<close>

text \<open>C35. Closing a listening socket frees the listener but leaves it in the hash table of listeners.
  If it is the first of its bucket, the next look-up of a port of that bucket reads the freed memory;
  every segment for a new connection and every \<open>mtcp_listen\<close> does such a look-up.\<close>

theorem mtcp_close_listener_dangles:
  assumes "GetMTCPManager mctx m = Inr c" and "0 \<le> k" and "k < c_max_concurrency cfg"
    and "so_socktype (m_smap m (nat k)) = MTCP_SOCK_LISTENER" and "so_obj (m_smap m (nat k)) = ListenerObj l"
    and "m_lt_table m (HashListener port) = l # rest" and "smap_inv cfg m"
  shows "\<exists>m'. mtcp_close cfg mctx k m = Some (Ret 0, m') \<and> ListenerHTSearch m' port = None"
proof -
  have free: "nat k \<notin> set (m_free_smap m)" using assms(4,7) by (simp add: smap_inv_def)
  have "\<exists>m'. mtcp_close cfg mctx k m = Some (Ret 0, m') \<and> m_lt_table m' = m_lt_table m \<and> l_socket (m_listeners m' l) = None"
    using assms(1-5) free
    by (simp add: mtcp_close_def CloseListeningSocket_def with_manager_def with_socket_def socket_listener_def upd_socket_def
        FreeSocket_def tailq_insert_tail_def)
  then show ?thesis
    using assms(6) by (auto simp: ListenerHTSearch_def EqualListener_def listener_port_def)
qed

theorem mtcp_close_listener_dangles_witness:
  "\<exists>m'. mtcp_close sample_cfg (Some sample_ctx) 0 sample_manager = Some (Ret 0, m') \<and> ListenerHTSearch m' 0x5000 = None"
proof -
  note inv = sample_smap_inv
  have g: "GetMTCPManager (Some sample_ctx) sample_manager = Inr sample_ctx"
    by (simp add: GetMTCPManager_def sample_manager_def)
  have s: "so_socktype (m_smap sample_manager (nat 0)) = MTCP_SOCK_LISTENER" "so_obj (m_smap sample_manager (nat 0)) = ListenerObj 0"
    "m_lt_table sample_manager (HashListener 0x5000) = [0]" by (simp_all add: sample_manager_def sample_smap_def)
  show ?thesis
    by (rule mtcp_close_listener_dangles [OF g _ _ s inv]) (simp_all add: sample_cfg_def)
qed

section \<open>Pipes\<close>

text \<open>C36. A reader that sleeps in \<open>PipeRead\<close> is not released when the other end of the pipe is closed.
  The close signals it, but the loop it sleeps in looks only at the length of the data and goes back
  to sleep, and no later write can fill the pipe: they all fail with EPIPE. A read that starts after
  the close returns 0, the end of the stream.\<close>

theorem PipeRead_sleeper_hangs:
  assumes "pipe_conn cfg mctx p {k, j} m" and "nat k \<noteq> nat j" and "pp_buf_len (m_pipes m p) = 0"
    and "\<not> has_opt (so_opts (m_smap m (nat k))) MTCP_NONBLOCK" and "0 < len"
    and "pp_socket0 (m_pipes m p) = nat k" and "pp_socket1 (m_pipes m p) = nat j"
  shows "PipeRead cfg mctx k len m = Some (Wait, m)
    \<and> (\<exists>m'. PipeClose cfg mctx j m = Some (Ret 0, m') \<and> PipeRead_wait (nat k) p len m' = Some (Wait, m')
        \<and> (\<forall>buf n. PipeWrite cfg mctx k buf n m' = fail EPIPE m') \<and> PipeRead cfg mctx k len m' = Some (Ret [], m'))"
proof -
  note ek = pipe_conn_end [OF assms(1), of k] and ej = pipe_conn_end [OF assms(1), of j]
  let ?m1 = "upd_pipe p (\<lambda>x. x\<lparr>pp_state := PIPE_CLOSE_WAIT\<rparr>) m"
  have sleep: "PipeRead cfg mctx k len m = Some (Wait, m)"
    using assms(3-5) ek(2-5) by (simp add: PipeRead_def pipe_conn_end(1) [OF assms(1)] PipeRead_wait_def Let_def)
  have raise: "RaiseEventToPair (nat j) MTCP_EPOLLIN ?m1 = Some ?m1"
    using assms(2,4,6,7) ej(2-5) by (simp add: RaiseEventToPair_def socket_pp_def upd_pipe_def Let_def)
  have conn: "so_socktype (m_smap m (nat j)) = MTCP_SOCK_PIPE" "0 \<le> j" "j < c_max_concurrency cfg"
    "so_socktype (m_smap m (nat k)) = MTCP_SOCK_PIPE" "0 \<le> k" "k < c_max_concurrency cfg"
    and g: "\<exists>c. GetMTCPManager mctx m = Inr c" using assms(1) by (auto simp: pipe_conn_def)
  have close: "PipeClose cfg mctx j m = Some (Ret 0, ?m1)"
    using g conn ej(2-5) raise by (auto simp: PipeClose_def with_manager_def GetSocket_def socket_pp_def)
  have m1: "with_pipe cfg mctx k f ?m1 = f (nat k) p ?m1" for f :: "nat \<Rightarrow> nat \<Rightarrow> mtcp_manager \<Rightarrow> ('a api \<times> mtcp_manager) option"
    using g conn ek(3) by (auto simp: with_pipe_def with_manager_def GetSocket_def socket_pp_def upd_pipe_def GetMTCPManager_def
        split: option.splits if_splits)
  have p1: "m_pipes ?m1 p = (m_pipes m p)\<lparr>pp_state := PIPE_CLOSE_WAIT\<rparr>" "m_smap ?m1 = m_smap m" by (simp_all add: upd_pipe_def)
  show ?thesis
    using sleep close assms(3,4)
    by (auto simp: m1 p1 PipeRead_wait_def PipeWrite_def PipeRead_def Let_def)
qed

text \<open>A new pipe with the ends 1 and 2.\<close>

definition sample_piped :: mtcp_manager where
  "sample_piped = sample_manager\<lparr>m_free_smap := [3],
     m_smap := sample_smap(1 := (unused_socket 1)\<lparr>so_socktype := MTCP_SOCK_PIPE, so_obj := PipeObj 0\<rparr>,
       2 := (unused_socket 2)\<lparr>so_socktype := MTCP_SOCK_PIPE, so_obj := PipeObj 0\<rparr>),
     m_pipes := (\<lambda>_. new_pipe 1 2 (replicate 10240 0))\<rparr>"

lemma sample_piped_fields:
  "m_smap sample_piped 1 = (unused_socket 1)\<lparr>so_socktype := MTCP_SOCK_PIPE, so_obj := PipeObj 0\<rparr>"
  "m_smap sample_piped 2 = (unused_socket 2)\<lparr>so_socktype := MTCP_SOCK_PIPE, so_obj := PipeObj 0\<rparr>"
  "m_pipes sample_piped 0 = new_pipe 1 2 (replicate 10240 0)" "events_ok sample_piped"
  "GetMTCPManager (Some sample_ctx) sample_piped = Inr sample_ctx"
  by (simp_all add: sample_piped_def events_ok_def ep_ok_def ep_queue_def sample_manager_def sample_epoll_def sample_events_def eq_inv_def
      GetMTCPManager_def split: event_queue_type.split)

lemma sample_piped_conn: "pipe_conn sample_cfg (Some sample_ctx) 0 {1, 2} sample_piped"
  using new_pipe_inv [of "replicate 10240 0" 1 2] sample_piped_fields
  by (simp add: pipe_conn_def PIPE_BUF_SIZE_def sample_cfg_def)

theorem PipeRead_sleeper_hangs_witness:
  "PipeRead sample_cfg (Some sample_ctx) 1 5 sample_piped = Some (Wait, sample_piped)
    \<and> (\<exists>m'. PipeClose sample_cfg (Some sample_ctx) 2 sample_piped = Some (Ret 0, m') \<and> PipeRead_wait 1 0 5 m' = Some (Wait, m'))"
proof -
  have f: "pp_buf_len (m_pipes sample_piped 0) = 0" "\<not> has_opt (so_opts (m_smap sample_piped (nat 1))) MTCP_NONBLOCK"
    "pp_socket0 (m_pipes sample_piped 0) = nat 1" "pp_socket1 (m_pipes sample_piped 0) = nat 2"
    using sample_piped_fields(1)
    by (simp_all add: sample_piped_fields(3) new_pipe_def has_opt_def unused_socket_def)
  from PipeRead_sleeper_hangs [OF sample_piped_conn _ f(1,2) _ f(3,4), of 5] show ?thesis by auto
qed

text \<open>C37. When the second end of a pipe is closed, the pointers of both sockets are cleared, also that of
  the end that was closed first. If this socket number has been given to a connection in the
  meantime, the connection loses its stream: the socket is still in use, but it has no stream any more.\<close>

theorem PipeClose_clears_reused_socket:
  assumes "GetMTCPManager mctx m = Inr c" and "0 \<le> k" and "k < c_max_concurrency cfg"
    and "so_socktype (m_smap m (nat k)) = MTCP_SOCK_PIPE" and "so_obj (m_smap m (nat k)) = PipeObj p"
    and "pp_state (m_pipes m p) = PIPE_CLOSE_WAIT" and "pp_socket0 (m_pipes m p) = j" and "pp_socket1 (m_pipes m p) = nat k"
    and "j \<noteq> nat k" and "so_socktype (m_smap m j) = MTCP_SOCK_STREAM" and "so_obj (m_smap m j) = StreamObj s"
    and "smap_inv cfg m"
  shows "\<exists>m'. mtcp_close cfg mctx k m = Some (Ret 0, m') \<and> so_socktype (m_smap m' j) = MTCP_SOCK_STREAM
    \<and> so_obj (m_smap m' j) = NoObj"
proof -
  have free: "nat k \<notin> set (m_free_smap m)" using assms(4,12) by (simp add: smap_inv_def)
  show ?thesis
    using assms(1-11) free
    by (simp add: mtcp_close_def PipeClose_def with_manager_def with_socket_def GetSocket_def socket_pp_def upd_socket_def Let_def
        FreeSocket_def tailq_insert_tail_def)
qed

text \<open>The pipe after its end 1 was closed and the number 1 was given to a connection.\<close>

definition sample_reused :: mtcp_manager where
  "sample_reused = sample_piped\<lparr>m_smap := (m_smap sample_piped)(1 := (unused_socket 1)\<lparr>so_socktype := MTCP_SOCK_STREAM,
       so_obj := StreamObj 0\<rparr>),
     m_pipes := (\<lambda>_. (new_pipe 1 2 (replicate 10240 0))\<lparr>pp_state := PIPE_CLOSE_WAIT\<rparr>)\<rparr>"

theorem PipeClose_clears_reused_socket_witness:
  "\<exists>m'. mtcp_close sample_cfg (Some sample_ctx) 2 sample_reused = Some (Ret 0, m')
     \<and> so_socktype (m_smap m' 1) = MTCP_SOCK_STREAM \<and> so_obj (m_smap m' 1) = NoObj"
proof -
  have inv: "smap_inv sample_cfg sample_reused"
    by (auto simp: smap_inv_def sample_reused_def sample_piped_def sample_manager_def sample_cfg_def sample_smap_def unused_socket_def)
  have g: "GetMTCPManager (Some sample_ctx) sample_reused = Inr sample_ctx"
    by (simp add: GetMTCPManager_def sample_reused_def sample_piped_def sample_manager_def)
  have s: "so_socktype (m_smap sample_reused (nat 2)) = MTCP_SOCK_PIPE" "so_obj (m_smap sample_reused (nat 2)) = PipeObj 0"
    "pp_state (m_pipes sample_reused 0) = PIPE_CLOSE_WAIT" "pp_socket0 (m_pipes sample_reused 0) = 1"
    "pp_socket1 (m_pipes sample_reused 0) = nat 2" "(1 :: nat) \<noteq> nat 2"
    "so_socktype (m_smap sample_reused 1) = MTCP_SOCK_STREAM" "so_obj (m_smap sample_reused 1) = StreamObj 0"
    using sample_piped_fields(2) by (simp_all add: sample_reused_def new_pipe_def)
  show ?thesis
    by (rule PipeClose_clears_reused_socket [OF g _ _ s inv]) (simp_all add: sample_cfg_def)
qed

end
