(* ===== verification/Tcp_Machine.thy ===== *)
theory Tcp_Machine
  imports Engine_Props
begin

text \<open>
  The state machine of a connection. Every change of state that a received segment causes is one of
  the arcs listed here, under the conditions on the segment that belong to it.
\<close>

section \<open>The arcs\<close>

text \<open>The segment acknowledges our SYN, as a stream in SYN_SENT tests it; it acknowledges our FIN.\<close>

definition acks_syn :: "tcphdr \<Rightarrow> tcp_stream \<Rightarrow> bool" where
  "acks_syn h x \<longleftrightarrow> th_ack h \<and> TCP_SEQ_GT (th_ack_seq h) (iss (sndvar x)) \<and> TCP_SEQ_LEQ (th_ack_seq h) (snd_nxt x)"

definition acks_fin :: "tcphdr \<Rightarrow> tcp_stream \<Rightarrow> bool" where
  "acks_fin h x \<longleftrightarrow> th_ack h \<and> is_fin_sent (sndvar x) \<and> th_ack_seq h = fss (sndvar x) + 1"

text \<open>From the stream \<open>x\<close> to the state \<open>z\<close> by a segment with the header \<open>h\<close>. The arcs to CLOSED without a
  reset are those of a receive buffer that cannot be allocated and of an accept queue that is full.\<close>

definition segment_arc :: "tcphdr \<Rightarrow> tcp_stream \<Rightarrow> tcp_state \<Rightarrow> bool" where
  "segment_arc h x z \<longleftrightarrow> z = s_state x \<or>
     (case s_state x of
        TCP_ST_CLOSED \<Rightarrow> False
      | TCP_ST_LISTEN \<Rightarrow> z = TCP_ST_SYN_RCVD \<and> th_syn h
      | TCP_ST_SYN_SENT \<Rightarrow>
          z = TCP_ST_ESTABLISHED \<and> th_syn h \<and> \<not> th_rst h \<and> acks_syn h x
          \<or> z = TCP_ST_SYN_RCVD \<and> th_syn h \<and> \<not> th_rst h \<and> \<not> th_ack h
          \<or> z = TCP_ST_CLOSE_WAIT \<and> th_rst h \<and> acks_syn h x
      | TCP_ST_SYN_RCVD \<Rightarrow>
          z = TCP_ST_CLOSED \<and> th_rst h \<and> th_ack_seq h = snd_nxt x
          \<or> (z = TCP_ST_ESTABLISHED \<or> z = TCP_ST_CLOSED \<or> z = TCP_ST_CLOSE_WAIT \<and> th_fin h)
            \<and> \<not> th_rst h \<and> th_ack h \<and> th_ack_seq h = iss (sndvar x) + 1
      | TCP_ST_ESTABLISHED \<Rightarrow> z = TCP_ST_CLOSE_WAIT \<and> (th_rst h \<or> th_fin h) \<or> z = TCP_ST_CLOSED \<and> \<not> th_rst h
      | TCP_ST_CLOSE_WAIT \<Rightarrow> False
      | TCP_ST_FIN_WAIT_1 \<Rightarrow>
          z = TCP_ST_FIN_WAIT_2 \<and> acks_fin h x \<or> z = TCP_ST_CLOSING \<and> th_fin h
          \<or> z = TCP_ST_TIME_WAIT \<and> th_fin h \<and> acks_fin h x \<or> z = TCP_ST_CLOSED
      | TCP_ST_FIN_WAIT_2 \<Rightarrow> z = TCP_ST_TIME_WAIT \<and> th_fin h \<or> z = TCP_ST_CLOSED
      | TCP_ST_CLOSING \<Rightarrow> z = TCP_ST_TIME_WAIT \<and> acks_fin h x \<or> z = TCP_ST_CLOSED \<and> th_rst h
      | TCP_ST_LAST_ACK \<Rightarrow> z = TCP_ST_CLOSED \<and> (th_rst h \<or> acks_fin h x)
      | TCP_ST_TIME_WAIT \<Rightarrow> z = TCP_ST_CLOSED \<and> th_rst h)"

section \<open>What keeps the state\<close>

text \<open>The stream \<open>s\<close> is in the state \<open>z\<close>, with the sequence numbers of its SYN and FIN in \<open>\<kappa>\<close>.\<close>

definition tkey where
  "tkey v = (iss v, is_fin_sent v, fss v)"

definition at :: "nat \<Rightarrow> tcp_state \<Rightarrow> u32 \<times> bool \<times> u32 \<Rightarrow> mtcp_manager \<Rightarrow> bool" where
  "at s z \<kappa> m \<longleftrightarrow> s_state (m_streams m s) = z \<and> tkey (sndvar (m_streams m s)) = \<kappa>"

lemma at_upd [simp]:
  "s_state (f (m_streams m s)) = s_state (m_streams m s) \<Longrightarrow> tkey (sndvar (f (m_streams m s))) = tkey (sndvar (m_streams m s)) \<Longrightarrow>
     at s z \<kappa> (upd_stream s f m) = at s z \<kappa> m"
  "tkey (g (sndvar (m_streams m s))) = tkey (sndvar (m_streams m s)) \<Longrightarrow> at s z \<kappa> (upd_snd s g m) = at s z \<kappa> m"
  "at s z \<kappa> (upd_rcv s h m) = at s z \<kappa> m"
  by (simp_all add: at_def upd_defs)

lemma at_set: "at s z \<kappa> m \<Longrightarrow> (\<And>x. s_state (f x) = z' \<and> sndvar (f x) = sndvar x) \<Longrightarrow> at s z' \<kappa> (upd_stream s f m)"
  by (simp add: at_def)

lemma at_core: "at s z \<kappa> m \<Longrightarrow> core m' = core m \<Longrightarrow> at s z \<kappa> m'"
  by (simp add: at_def core_def)

lemma at_fields [simp]:
  "at s z \<kappa> (m\<lparr>env_alloc_n := c\<rparr>) = at s z \<kappa> m" "at s z \<kappa> (m\<lparr>m_rbm_rcv := a\<rparr>) = at s z \<kappa> m"
  "at s z \<kappa> (m\<lparr>m_listeners := b\<rparr>) = at s z \<kappa> m"
  by (simp_all add: at_def)

lemma at_some: "at s z \<kappa> m \<Longrightarrow> post (at s z \<kappa>) (Some m)" "at s z \<kappa> m \<Longrightarrow> post (\<lambda>(r, m). at s z \<kappa> m) (Some (r, m))"
  by simp_all

lemma at_bind:
  "post (at s z \<kappa>) x \<Longrightarrow> (\<And>y. at s z \<kappa> y \<Longrightarrow> post R (f y)) \<Longrightarrow> post R (Option.bind x f)"
  "post (\<lambda>(r, m). at s z \<kappa> m) x2 \<Longrightarrow> (\<And>r y. at s z \<kappa> y \<Longrightarrow> post R (g r y)) \<Longrightarrow> post R (Option.bind x2 (\<lambda>(r, y). g r y))"
  by (erule post_bindI post_bind2; blast)+

lemma at_quiet: "quiet m x \<Longrightarrow> at s z \<kappa> m \<Longrightarrow> post (at s z \<kappa>) x"
  unfolding quiet_def by (erule post_weaken) (rule at_core)

lemmas at_raise = at_quiet [OF Raise_quiet(1) [OF refl]] at_quiet [OF Raise_quiet(2) [OF refl]]
  at_quiet [OF Raise_quiet(3) [OF refl]] at_quiet [OF Raise_quiet(4) [OF refl]] at_quiet [OF send_rst_quiet [OF refl]]
  at_quiet [OF mtcp_add_event_quiet [OF refl]]

lemma at_lists:
  assumes "at s z \<kappa> m"
  shows "post (at s z \<kappa>) (AddtoControlList cfg s m)" "post (at s z \<kappa>) (RemoveFromControlList cfg s m)"
    "post (at s z \<kappa>) (AddtoSendList cfg s m)" "post (at s z \<kappa>) (RemoveFromSendList cfg s m)"
    "post (at s z \<kappa>) (AddtoACKList cfg s m)" "post (at s z \<kappa>) (RemoveFromACKList cfg s m)"
    "post (at s z \<kappa>) (AddtoTimeoutList s m)" "post (at s z \<kappa>) (RemoveFromTimeoutList s m)"
    "post (at s z \<kappa>) (UpdateTimeoutList s m)"
  using assms unfolding list_op_defs
  by (auto simp: post_def at_def tkey_def upd_defs Option.bind_eq_Some_conv Let_def split: if_splits)

lemma at_timers:
  assumes "at s z \<kappa> m"
  shows "post (at s z \<kappa>) (AddtoRTOList s m)" "post (at s z \<kappa>) (RemoveFromRTOList s m)"
    "post (at s z \<kappa>) (AddtoTimewaitList cfg s ts m)" "post (at s z \<kappa>) (RemoveFromTimewaitList s m)"
  using assms unfolding list_op_defs rto_insert_def
  by (auto simp: post_def at_def tkey_def upd_defs Option.bind_eq_Some_conv Let_def split: if_splits)

lemmas at_steps = post_if post_case_option post_case_prod post_Let post_None

lemma at_EnqueueACK: "at s z \<kappa> m \<Longrightarrow> post (at s z \<kappa>) (EnqueueACK cfg s opt m)"
  unfolding EnqueueACK_def Let_def by (rule at_lists) (auto simp: tkey_def split: ack_opt.split)

lemma at_UpdateRetransmissionTimer: "at s z \<kappa> m \<Longrightarrow> post (at s z \<kappa>) (UpdateRetransmissionTimer s ts m)"
  unfolding UpdateRetransmissionTimer_def Let_def
  by (rule at_steps at_bind [where s = s] at_timers at_some | (simp add: tkey_def; fail))+

lemma at_destroy: "at s z \<kappa> m \<Longrightarrow> post (\<lambda>m'. s_state (m_streams m' s) = z) (DestroyTCPStream cfg s m)"
proof -
  have free: "post (\<lambda>m'. s_state (m_streams m' s) = z) (free_bound_addr cfg a m1)" if "s_state (m_streams m1 s) = z" for a m1
    using that by (auto simp: post_def free_bound_addr_def Let_def Option.bind_eq_Some_conv split: option.splits prod.splits if_splits)
  show "at s z \<kappa> m \<Longrightarrow> post (\<lambda>m'. s_state (m_streams m' s) = z) (DestroyTCPStream cfg s m)"
    unfolding DestroyTCPStream_def Let_def
    by (rule at_bind(1) [where s = s and z = z and \<kappa> = \<kappa>] at_lists at_timers at_steps at_some free | assumption
        | rule post_bind_any | (simp add: at_def upd_defs tkey_def; fail))+
qed

lemma at_parse_options: "at s z \<kappa> m \<Longrightarrow> post (at s z \<kappa>) (parse_options s ts h seg m)"
proof -
  have loop: "case r of Some st' \<Rightarrow> s_state st' = s_state st \<and> tkey (sndvar st') = tkey (sndvar st) | None \<Rightarrow> True"
    if "ParseTCPOptions_loop ts buf len i st = Some r" for buf len i st r
    using that by (induction rule: ParseTCPOptions_loop.raw_induct [rotated, consumes 1])
      (fastforce simp: Let_def tkey_def split: if_splits option.splits)
  show "at s z \<kappa> m \<Longrightarrow> post (at s z \<kappa>) (parse_options s ts h seg m)"
    unfolding parse_options_def ParseTCPOptions_def using loop
    by (fastforce simp: post_def at_def Option.bind_eq_Some_conv)
qed

lemma at_HandleActiveOpen: "at s z \<kappa> m \<Longrightarrow> post (at s z \<kappa>) (HandleActiveOpen s ts h seg seq ack wnd m)"
  unfolding HandleActiveOpen_def Let_def
  by (rule at_bind [where s = s] at_parse_options at_UpdateRetransmissionTimer | (simp add: tkey_def; fail))+

lemma at_ValidateSequence: "at s z \<kappa> m \<Longrightarrow> post (\<lambda>(r, m). at s z \<kappa> m) (ValidateSequence cfg s ts h seg seq len m)"
  unfolding ValidateSequence_def paws_check_def Let_def
  by (rule at_steps at_bind [where s = s and z = z and \<kappa> = \<kappa>] at_EnqueueACK at_lists at_timers at_some | rule post_bind_any | (simp; fail))+

lemma at_ack:
  assumes "at s z \<kappa> m"
  shows "post (at s z \<kappa>) (ack_window s seq ack cw m)" "post (at s z \<kappa>) (ack_loss cfg s ack dup m)"
    "post (at s z \<kappa>) (ack_recover cfg s ack m)" "ack_dup s ack re len m = (d, m') \<Longrightarrow> at s z \<kappa> m'"
proof -
  show "post (at s z \<kappa>) (ack_window s seq ack cw m)"
    unfolding ack_window_def Let_def using assms by - (rule at_steps at_raise at_some | (simp add: tkey_def; fail))+
  show "post (at s z \<kappa>) (ack_loss cfg s ack dup m)"
    unfolding ack_loss_def Let_def using assms
    by - (rule at_steps at_lists at_some | (simp add: tkey_def; fail))+
  show "post (at s z \<kappa>) (ack_recover cfg s ack m)"
    unfolding ack_recover_def Let_def using assms by - (rule at_steps at_lists at_some | (simp; fail))+
  show "ack_dup s ack re len m = (d, m') \<Longrightarrow> at s z \<kappa> m'"
    using assms by (auto simp: ack_dup_def Let_def split: if_splits)
qed

lemma at_ack_new: "at s z \<kappa> m \<Longrightarrow> post (at s z \<kappa>) (ack_new s ts ack len m)"
proof -
  have cw: "ack_cwnd k v = Some v' \<Longrightarrow> tkey v' = tkey v" for k v v'
    by (auto simp: ack_cwnd_def Let_def tkey_def Option.bind_eq_Some_conv split: if_splits)
  have rtt: "s_state (EstimateRTT k x) = s_state x" "sndvar (EstimateRTT k x) = sndvar x" for k x
    by (simp_all add: EstimateRTT_def Let_def)
  show "at s z \<kappa> m \<Longrightarrow> post (at s z \<kappa>) (ack_new s ts ack len m)"
    unfolding ack_new_def Let_def
    by (rule at_steps at_bind [where s = s and z = z and \<kappa> = \<kappa>] at_UpdateRetransmissionTimer at_raise at_some | rule post_bind_any
        | (simp add: rtt; fail) | (simp add: tkey_def rtt; fail) | (simp add: cw; fail))+
qed

lemma at_process_ack_if: "at s z \<kappa> m \<Longrightarrow> post (at s z \<kappa>) (process_ack_if cfg s ts h seq ack wnd len m)"
  unfolding process_ack_if_def ProcessACK_def Let_def
  by (rule at_steps at_bind [where s = s and z = z and \<kappa> = \<kappa>] at_ack(1-3) at_ack_new at_some
      | rule post_bind_any | assumption | erule (1) at_ack(4) [rotated])+

text \<open>Payload that finds no memory for the receive buffer closes the connection.\<close>

lemma at_payload_ack:
  assumes "at s z \<kappa> m" shows "post (\<lambda>m'. at s z \<kappa> m' \<or> at s TCP_ST_CLOSED \<kappa> m') (payload_ack cfg s pl seq len m)"
proof -
  have here: "post (\<lambda>(r, m'). at s z \<kappa> m' \<or> at s TCP_ST_CLOSED \<kappa> m') x" if "post (\<lambda>(r, m'). at s z \<kappa> m') x" for x
    using that by (auto simp: post_def)
  have closed: "post (\<lambda>(r, m'). at s z \<kappa> m' \<or> at s TCP_ST_CLOSED \<kappa> m')
      (do { m \<leftarrow> RaiseErrorEvent s (upd_stream s (\<lambda>x. x\<lparr>s_state := TCP_ST_CLOSED, close_reason := TCP_NO_MEM\<rparr>) m1); Some (- 1 :: int, m) })"
    if "at s z \<kappa> m1" for m1
  proof -
    have "at s TCP_ST_CLOSED \<kappa> (upd_stream s (\<lambda>x. x\<lparr>s_state := TCP_ST_CLOSED, close_reason := TCP_NO_MEM\<rparr>) m1)"
      by (rule at_set [OF that]) simp
    from at_raise(4) [OF this] show ?thesis by (rule at_bind(1)) simp
  qed
  have "post (\<lambda>(r, m'). at s z \<kappa> m' \<or> at s TCP_ST_CLOSED \<kappa> m') (ProcessTCPPayload s pl seq len m)"
    unfolding ProcessTCPPayload_def Let_def next_alloc_def prod.case using assms
    by - (rule closed at_steps at_bind(2) [where s = s and z = z and \<kappa> = \<kappa>] at_bind(1) [where s = s and z = z and \<kappa> = \<kappa>] at_raise(1)
        at_some here [OF at_some(2)] | rule post_bind_any | assumption | (simp; fail))+
  then have "post (\<lambda>m'. at s z \<kappa> m' \<or> at s TCP_ST_CLOSED \<kappa> m')
      (do { (r, m) \<leftarrow> ProcessTCPPayload s pl seq len m;
            EnqueueACK cfg s (if r \<noteq> 0 then ACK_OPT_AGGREGATE else ACK_OPT_NOW) m })"
    by (rule post_bind2) (use at_EnqueueACK in \<open>fastforce simp: post_def\<close>)
  then show ?thesis unfolding payload_ack_def using assms by simp
qed

section \<open>The handlers\<close>

text \<open>The stream ends in one of the states \<open>S\<close>.\<close>

abbreviation ends where
  "ends s S x \<equiv> post (\<lambda>m'. s_state (m_streams m' s) \<in> S) x"

lemma ends_at: "post (at s z \<kappa>) x \<Longrightarrow> z \<in> S \<Longrightarrow> ends s S x"
  by (auto simp: post_def at_def)

lemma ends_some: "at s z \<kappa> m \<Longrightarrow> z \<in> S \<Longrightarrow> ends s S (Some m)"
  by (auto simp: at_def)

lemma ends_destroy: "at s z \<kappa> m \<Longrightarrow> z \<in> S \<Longrightarrow> ends s S (DestroyTCPStream cfg s m)"
  using at_destroy [of s z \<kappa> m cfg] by (auto simp: post_def)

lemma ends_payload:
  assumes "at s z \<kappa> m" "\<And>m' z'. at s z' \<kappa> m' \<Longrightarrow> z' = z \<or> z' = TCP_ST_CLOSED \<Longrightarrow> ends s S (f m')"
  shows "ends s S (Option.bind (payload_ack cfg s pl seq len m) f)"
  by (rule post_bindI [OF at_payload_ack [OF assms(1)]]) (use assms(2) in blast)

lemmas ends_lists = at_lists [THEN ends_at] at_timers [THEN ends_at] at_raise [THEN ends_at] at_EnqueueACK [THEN ends_at]
  at_process_ack_if [THEN ends_at]

lemma LISTEN_ends:
  "at s z \<kappa> m \<Longrightarrow> ends s ({z} \<union> (if th_syn h then {TCP_ST_SYN_RCVD} else {})) (Handle_TCP_ST_LISTEN cfg s h m)"
  unfolding Handle_TCP_ST_LISTEN_def Let_def
  by (rule at_steps ends_lists(1) [where z = TCP_ST_SYN_RCVD and \<kappa> = \<kappa>] ends_some at_set | assumption | (simp; fail))+

lemma ESTABLISHED_ends:
  assumes "at s TCP_ST_ESTABLISHED \<kappa> m"
  shows "ends s ({TCP_ST_ESTABLISHED, TCP_ST_CLOSED} \<union> (if th_fin h then {TCP_ST_CLOSE_WAIT} else {}))
    (Handle_TCP_ST_ESTABLISHED cfg ts s h seq ack pl len wnd m)" (is "ends s ?S _")
proof -
  have fin: "ends s ?S (do { m \<leftarrow> AddtoControlList cfg s (upd_stream s (\<lambda>x. x\<lparr>s_state := TCP_ST_CLOSE_WAIT, rcv_nxt := rcv_nxt x + 1\<rparr>) m1);
      RaiseReadEvent s m })" if "at s z \<kappa> m1" "th_fin h" for m1 z
  proof -
    have "at s TCP_ST_CLOSE_WAIT \<kappa> (upd_stream s (\<lambda>x. x\<lparr>s_state := TCP_ST_CLOSE_WAIT, rcv_nxt := rcv_nxt x + 1\<rparr>) m1)"
      by (rule at_set [OF that(1)]) simp
    then show ?thesis by - (rule at_bind(1) at_lists(1) ends_lists | assumption | (simp add: that(2); fail))+
  qed
  have rest: "ends s ?S (do {
        m \<leftarrow> (if th_ack h then process_ack_if cfg s ts h seq ack wnd len m1 else Some m1);
        if th_fin h then
          (if seq + word_of_int len = rcv_nxt (m_streams m s) then do {
             m \<leftarrow> AddtoControlList cfg s (upd_stream s (\<lambda>x. x\<lparr>s_state := TCP_ST_CLOSE_WAIT, rcv_nxt := rcv_nxt x + 1\<rparr>) m);
             RaiseReadEvent s m
           } else EnqueueACK cfg s ACK_OPT_NOW m)
        else Some m
      })" if "at s z \<kappa> m1" "z = TCP_ST_ESTABLISHED \<or> z = TCP_ST_CLOSED" for m1 z
    using that(1)
    by - (rule at_bind(1) [where s = s and z = z and \<kappa> = \<kappa>] at_steps at_process_ack_if at_some fin ends_lists ends_some
      | assumption | (use that(2) in auto; fail))+
  show ?thesis unfolding Handle_TCP_ST_ESTABLISHED_def Let_def
    by (rule at_steps ends_payload [OF assms] rest ends_lists(1) [where z = TCP_ST_ESTABLISHED and \<kappa> = \<kappa>] | assumption
      | (simp add: assms; fail))+
qed

lemma FIN_WAIT_2_ends:
  assumes "at s TCP_ST_FIN_WAIT_2 \<kappa> m"
  shows "ends s ({TCP_ST_FIN_WAIT_2, TCP_ST_CLOSED} \<union> (if th_fin h then {TCP_ST_TIME_WAIT} else {}))
    (Handle_TCP_ST_FIN_WAIT_2 cfg ts s h seq ack pl len wnd m)"
  unfolding Handle_TCP_ST_FIN_WAIT_2_def Let_def
  by (rule at_steps at_bind(1) [where s = s and z = TCP_ST_FIN_WAIT_2 and \<kappa> = \<kappa>, OF at_process_ack_if [OF assms]] ends_payload
      at_bind(1) [where s = s and z = TCP_ST_TIME_WAIT and \<kappa> = \<kappa>, OF at_timers(3)] ends_lists(1) [where z = TCP_ST_TIME_WAIT] at_set ends_some
      | assumption | rule assms | (simp; fail) | (auto; fail))+

lemma CLOSING_ends:
  assumes "at s TCP_ST_CLOSING \<kappa> m"
  shows "ends s ({TCP_ST_CLOSING} \<union> (if th_ack h \<and> fst (snd \<kappa>) \<and> ack = snd (snd \<kappa>) + 1 then {TCP_ST_TIME_WAIT} else {}))
    (Handle_TCP_ST_CLOSING cfg ts s h seq ack len wnd m)" (is "ends s ?S _")
proof -
  have set: "at s TCP_ST_TIME_WAIT \<kappa> (upd_stream s (\<lambda>x. x\<lparr>s_state := TCP_ST_TIME_WAIT\<rparr>) m1)" if "at s z \<kappa> m1" for z m1
    by (rule at_set [OF that]) simp
  show ?thesis
    unfolding Handle_TCP_ST_CLOSING_def Let_def
    by (rule at_steps at_bind(1) [where s = s and z = TCP_ST_CLOSING and \<kappa> = \<kappa>] at_process_ack_if at_UpdateRetransmissionTimer
        ends_lists(12) [OF set] ends_some | assumption | rule assms | (simp add: tkey_def; fail)
        | (auto simp: at_def tkey_def; fail))+
qed

lemma LAST_ACK_ends:
  assumes "at s TCP_ST_LAST_ACK \<kappa> m"
  shows "ends s ({TCP_ST_LAST_ACK} \<union> (if th_ack h \<and> fst (snd \<kappa>) \<and> ack = snd (snd \<kappa>) + 1 then {TCP_ST_CLOSED} else {}))
    (Handle_TCP_ST_LAST_ACK cfg ts s h seq ack len wnd m)" (is "ends s ?S _")
proof -
  have set: "at s TCP_ST_CLOSED \<kappa> (upd_stream s (\<lambda>x. x\<lparr>s_state := TCP_ST_CLOSED, close_reason := TCP_PASSIVE_CLOSE\<rparr>) m1)"
    if "at s z \<kappa> m1" for z m1
    by (rule at_set [OF that]) simp
  show ?thesis
    unfolding Handle_TCP_ST_LAST_ACK_def Let_def
    by (rule at_steps at_bind(1) [where s = s and z = TCP_ST_LAST_ACK and \<kappa> = \<kappa>] at_process_ack_if at_UpdateRetransmissionTimer
        ends_destroy [OF set] ends_lists(1) ends_some | assumption | rule assms | (simp add: tkey_def; fail)
        | (auto simp: at_def tkey_def; fail))+
qed

text \<open>The end of the handler of FIN_WAIT_1, once the FIN is in order, and its middle, where our FIN is acknowledged.\<close>

lemma FIN_WAIT_1_fin:
  assumes z: "at s z \<kappa> m" "z = TCP_ST_FIN_WAIT_1 \<or> (F \<and> z = TCP_ST_FIN_WAIT_2) \<or> z = TCP_ST_CLOSED"
    and S: "TCP_ST_CLOSED \<in> S" "TCP_ST_CLOSING \<in> S" "F \<Longrightarrow> TCP_ST_TIME_WAIT \<in> S"
  shows "ends s S (do {
          m \<leftarrow> (if s_state (m_streams m s) = TCP_ST_FIN_WAIT_1
                 then Some (upd_stream s (\<lambda>x. x\<lparr>s_state := TCP_ST_CLOSING\<rparr>) m)
                 else if s_state (m_streams m s) = TCP_ST_FIN_WAIT_2
                 then AddtoTimewaitList cfg s ts (upd_stream s (\<lambda>x. x\<lparr>s_state := TCP_ST_TIME_WAIT\<rparr>) m)
                 else Some m);
          AddtoControlList cfg s m })"
proof -
  have set: "at s TCP_ST_CLOSING \<kappa> (upd_stream s (\<lambda>x. x\<lparr>s_state := TCP_ST_CLOSING\<rparr>) m)"
    "at s TCP_ST_TIME_WAIT \<kappa> (upd_stream s (\<lambda>x. x\<lparr>s_state := TCP_ST_TIME_WAIT\<rparr>) m)"
    by (rule at_set [OF z(1)]; simp)+
  have "post (\<lambda>m'. \<exists>z'. at s z' \<kappa> m' \<and> z' \<in> S) (if s_state (m_streams m s) = TCP_ST_FIN_WAIT_1
                 then Some (upd_stream s (\<lambda>x. x\<lparr>s_state := TCP_ST_CLOSING\<rparr>) m)
                 else if s_state (m_streams m s) = TCP_ST_FIN_WAIT_2
                 then AddtoTimewaitList cfg s ts (upd_stream s (\<lambda>x. x\<lparr>s_state := TCP_ST_TIME_WAIT\<rparr>) m)
                 else Some m)"
    using z S set at_timers(3) [OF set(2), of cfg ts] by (auto simp: post_def at_def)
  then show ?thesis by (rule post_bindI) (elim exE conjE, erule (1) ends_lists(1))
qed

lemma FIN_WAIT_1_ack:
  assumes "at s TCP_ST_FIN_WAIT_1 \<kappa> m1" "at s TCP_ST_FIN_WAIT_1 \<kappa> m2"
    and "\<And>m z. at s z \<kappa> m \<Longrightarrow> z = TCP_ST_FIN_WAIT_1 \<or> (fst (snd \<kappa>) \<and> ack = snd (snd \<kappa>) + 1) \<and> z = TCP_ST_FIN_WAIT_2 \<Longrightarrow> ends s S (f m)"
  shows "ends s S (do {
        m \<leftarrow> (if is_fin_sent (sndvar (m_streams m1 s)) \<and> ack = fss (sndvar (m_streams m1 s)) + 1 then do {
               m \<leftarrow> RemoveFromRTOList s m2;
               Some (upd_stream s (\<lambda>x. x\<lparr>s_state := TCP_ST_FIN_WAIT_2\<rparr>) m)
             } else Some m1);
        f m })"
proof (cases "is_fin_sent (sndvar (m_streams m1 s)) \<and> ack = fss (sndvar (m_streams m1 s)) + 1")
  case True
  then have F: "fst (snd \<kappa>) \<and> ack = snd (snd \<kappa>) + 1" using assms(1) by (auto simp: at_def tkey_def)
  have set: "at s TCP_ST_FIN_WAIT_2 \<kappa> (upd_stream s (\<lambda>x. x\<lparr>s_state := TCP_ST_FIN_WAIT_2\<rparr>) m)"
    if "at s TCP_ST_FIN_WAIT_1 \<kappa> m" for m by (rule at_set [OF that]) simp
  show ?thesis using True F
    by (simp, intro at_bind(1) [OF at_timers(2) [OF assms(2)]]) (auto intro!: assms(3) set)
next
  case False
  then show ?thesis using assms(3) [OF assms(1)] by auto
qed

lemma FIN_WAIT_1_ends:
  assumes at: "at s TCP_ST_FIN_WAIT_1 \<kappa> m" and F_def: "F \<longleftrightarrow> th_ack h \<and> fst (snd \<kappa>) \<and> ack = snd (snd \<kappa>) + 1"
    and S: "TCP_ST_FIN_WAIT_1 \<in> S" "TCP_ST_CLOSED \<in> S" "F \<Longrightarrow> TCP_ST_FIN_WAIT_2 \<in> S" "th_fin h \<Longrightarrow> TCP_ST_CLOSING \<in> S"
      "F \<Longrightarrow> th_fin h \<Longrightarrow> TCP_ST_TIME_WAIT \<in> S"
  shows "ends s S (Handle_TCP_ST_FIN_WAIT_1 cfg ts s h seq ack pl len wnd m)"
proof -
  have at': "at s z \<kappa> (upd_stream s (\<lambda>x. x\<lparr>rcv_nxt := rcv_nxt x + 1\<rparr>) m1)" if "at s z \<kappa> m1" for z m1
    using that by simp
  have stop: "ends s S (Some m1)" if "at s z' \<kappa> m1" "z' = z \<or> z' = TCP_ST_CLOSED" "z = TCP_ST_FIN_WAIT_1 \<or> (F \<and> z = TCP_ST_FIN_WAIT_2)"
    for z z' m1
    using that S by (auto simp: at_def)
  show ?thesis
    unfolding Handle_TCP_ST_FIN_WAIT_1_def Let_def
  proof (rule post_if, goal_cases)
    case 1
    show ?case by (rule ends_lists(1) [OF at S(1)])
  next
    case 2
    show ?case
    proof (rule post_if, rule at_bind(1) [OF at_process_ack_if [OF at]], goal_cases)
      case (1 m1)
      show ?case
      proof (rule FIN_WAIT_1_ack [OF 1(2)], goal_cases)
        case 1
        show ?case using \<open>at s TCP_ST_FIN_WAIT_1 \<kappa> m1\<close> by (simp add: tkey_def)
      next
        case (2 m2 z)
        then have z: "z = TCP_ST_FIN_WAIT_1 \<or> (F \<and> z = TCP_ST_FIN_WAIT_2)" using \<open>th_ack h\<close> by (auto simp: F_def)
        show ?case
          by (rule ends_payload [OF 2(1)], rule post_if, rule FIN_WAIT_1_fin [OF at', where F = F])
            (assumption | rule stop [OF _ _ z] | (use z S in auto; fail))+
      qed
    next
      case 2
      show ?case by (rule ends_some [OF at S(1)])
    qed
  qed
qed

lemma SYN_SENT_ends:
  assumes at: "at s TCP_ST_SYN_SENT \<kappa> m"
    and ok_def: "ok \<longleftrightarrow> th_ack h \<and> TCP_SEQ_GT ack (iss (sndvar (m_streams m s))) \<and> TCP_SEQ_LEQ ack (snd_nxt (m_streams m s))"
    and S: "TCP_ST_SYN_SENT \<in> S" "th_syn h \<Longrightarrow> \<not> th_rst h \<Longrightarrow> ok \<Longrightarrow> TCP_ST_ESTABLISHED \<in> S"
      "th_syn h \<Longrightarrow> \<not> th_rst h \<Longrightarrow> \<not> th_ack h \<Longrightarrow> TCP_ST_SYN_RCVD \<in> S" "th_rst h \<Longrightarrow> ok \<Longrightarrow> TCP_ST_CLOSE_WAIT \<in> S"
  shows "ends s S (Handle_TCP_ST_SYN_SENT cfg ts s sa da h seg seq ack len wnd m)"
proof (cases "th_ack h \<and> (TCP_SEQ_LEQ ack (iss (sndvar (m_streams m s))) \<or> TCP_SEQ_GT ack (snd_nxt (m_streams m s)))")
  case True
  then show ?thesis
    unfolding Handle_TCP_ST_SYN_SENT_def
    using ends_at [OF at_raise(5) [OF at] S(1)] ends_some [OF at S(1)] by simp
next
  case False
  then have ok: "ok" if "th_ack h"
    using that by (auto simp: ok_def TCP_SEQ_LEQ_def TCP_SEQ_GT_def)
  define m1 where "m1 = (if th_ack h then upd_snd s (\<lambda>v. v\<lparr>snd_una := snd_una v + 1\<rparr>) m else m)"
  have m1: "at s TCP_ST_SYN_SENT \<kappa> m1" using at by (simp add: m1_def tkey_def)
  have set: "at s z' \<kappa> (upd_stream s (\<lambda>x. x\<lparr>s_state := z', close_reason := TCP_RESET\<rparr>) m2)"
    "at s z' \<kappa> (upd_stream s (\<lambda>x. x\<lparr>s_state := z'\<rparr>) m2)"
    "at s z' \<kappa> (upd_stream s (\<lambda>x. x\<lparr>s_state := z', snd_nxt := iss (sndvar x)\<rparr>) m2)"
    if "at s z \<kappa> m2" for z z' m2
    by (rule at_set [OF that]; simp)+
  show ?thesis
    unfolding Handle_TCP_ST_SYN_SENT_def Let_def m1_def [symmetric] if_not_P [OF False]
    using m1
    by - (rule at_steps set(1) set(3)
      at_bind(1) [where s = s and z = TCP_ST_SYN_SENT and \<kappa> = \<kappa>, OF at_HandleActiveOpen]
      at_bind(1) [where s = s and z = TCP_ST_SYN_SENT and \<kappa> = \<kappa>, OF at_timers(2)]
      at_bind(1) [where s = s and z = TCP_ST_ESTABLISHED and \<kappa> = \<kappa>]
      ends_at [OF at_raise(4), where z = TCP_ST_CLOSE_WAIT and \<kappa> = \<kappa>] ends_destroy [where z = TCP_ST_CLOSE_WAIT and \<kappa> = \<kappa>]
      ends_lists(1) [where z = TCP_ST_SYN_RCVD and \<kappa> = \<kappa>] ends_lists(7) [where z = TCP_ST_ESTABLISHED and \<kappa> = \<kappa>]
      ends_some [where z = TCP_ST_ESTABLISHED and \<kappa> = \<kappa>] ends_some [where z = TCP_ST_SYN_SENT and \<kappa> = \<kappa>]
      ends_destroy [where z = TCP_ST_ESTABLISHED and \<kappa> = \<kappa>] at_raise at_lists
      | rule set(2) | assumption | (simp add: tkey_def; fail) | (simp add: S ok; fail))+
qed

lemma SYN_RCVD_at:
  assumes "at s TCP_ST_SYN_RCVD \<kappa> m"
  shows "post (\<lambda>m'. \<exists>z. at s z \<kappa> m' \<and> (z = TCP_ST_SYN_RCVD
      \<or> (z = TCP_ST_ESTABLISHED \<or> z = TCP_ST_CLOSED) \<and> th_ack h \<and> ack = fst \<kappa> + 1))
    (Handle_TCP_ST_SYN_RCVD cfg s h ack m)" (is "post ?R _")
proof -
  have set: "at s z' \<kappa> (upd_stream s (\<lambda>x. x\<lparr>close_reason := TCP_NOT_ACCEPTED, s_state := z'\<rparr>) m2)"
    "at s z' \<kappa> (upd_stream s (\<lambda>x. x\<lparr>s_state := z'\<rparr>) m2)" if "at s z \<kappa> m2" for z z' m2
    by (rule at_set [OF that]; simp)+
  have stop: "post ?R x" if "post (at s z \<kappa>) x" "z = TCP_ST_SYN_RCVD \<or> (z = TCP_ST_ESTABLISHED \<or> z = TCP_ST_CLOSED) \<and> th_ack h \<and> ack = fst \<kappa> + 1"
    for z x using that by (auto simp: post_def)
  have event: "post ?R (case l_socket (m_listeners m1 l) of
              Some k \<Rightarrow> (if so_epoll (m_smap m1 k) AND MTCP_EPOLLIN \<noteq> 0
                         then mtcp_add_event MTCP_EVENT_QUEUE k MTCP_EPOLLIN m1 else Some m1)
            | None \<Rightarrow> Some m1)"
    if "at s z \<kappa> m1" "(z = TCP_ST_ESTABLISHED \<or> z = TCP_ST_CLOSED) \<and> th_ack h \<and> ack = fst \<kappa> + 1" for z m1 l
    by (rule stop [where z = z], rule at_steps, rule at_some(1) [OF that(1)], rule at_steps, rule at_raise(6) [OF that(1)], rule at_some(1) [OF that(1)])
      (use that(2) in simp)
  have timeout: "post ?R (do {
           m \<leftarrow> (if c_tcp_timeout cfg > 0 then AddtoTimeoutList s m1 else Some m1);
           (case l_socket (m_listeners m l) of
              Some k \<Rightarrow> (if so_epoll (m_smap m k) AND MTCP_EPOLLIN \<noteq> 0
                         then mtcp_add_event MTCP_EVENT_QUEUE k MTCP_EPOLLIN m else Some m)
            | None \<Rightarrow> Some m) })"
    if "at s z \<kappa> m1" "(z = TCP_ST_ESTABLISHED \<or> z = TCP_ST_CLOSED) \<and> th_ack h \<and> ack = fst \<kappa> + 1" for z m1 l
    by (rule at_bind(1) [where s = s and z = z and \<kappa> = \<kappa>], rule at_steps, rule at_lists(7) [OF that(1)], rule at_some(1) [OF that(1)])
      (erule event [OF _ that(2)])
  have full: "post ?R (do {
           m \<leftarrow> (if ret < (0 :: int)
                  then AddtoControlList cfg s (upd_stream s (\<lambda>x. x\<lparr>close_reason := TCP_NOT_ACCEPTED, s_state := TCP_ST_CLOSED\<rparr>) m1)
                  else Some m1);
           m \<leftarrow> (if c_tcp_timeout cfg > 0 then AddtoTimeoutList s m else Some m);
           (case l_socket (m_listeners m l) of
              Some k \<Rightarrow> (if so_epoll (m_smap m k) AND MTCP_EPOLLIN \<noteq> 0
                         then mtcp_add_event MTCP_EVENT_QUEUE k MTCP_EPOLLIN m else Some m)
            | None \<Rightarrow> Some m) })" if "at s TCP_ST_ESTABLISHED \<kappa> m1" "th_ack h \<and> ack = fst \<kappa> + 1" for ret m1 l
  proof (cases "ret < 0")
    case True
    show ?thesis unfolding if_P [OF True]
      by (rule at_bind(1) [OF at_lists(1) [OF set(1) [OF that(1)]]], erule timeout) (use that(2) in simp)
  next
    case False
    show ?thesis unfolding if_not_P [OF False] Option.bind.bind_lunit by (rule timeout [OF that(1)]) (use that(2) in simp)
  qed
  show ?thesis
    unfolding Handle_TCP_ST_SYN_RCVD_def Let_def
    using assms
    by - (rule post_if stop [OF at_some(1)] stop [OF at_lists(1)] full set(2) post_case_prod
        at_bind(1) [where s = s and z = TCP_ST_SYN_RCVD and \<kappa> = \<kappa>, OF at_timers(2)]
      | assumption | rule post_bind_any | (simp add: tkey_def; fail) | (simp add: at_def tkey_def; fail) | (auto simp: at_def tkey_def; fail))+
qed

lemma ProcessRST_ends:
  assumes at: "at s z \<kappa> m" and z: "TCP_ST_SYN_SENT < z"
    and S: "z \<in> S" "z = TCP_ST_SYN_RCVD \<Longrightarrow> ack = snd_nxt (m_streams m s) \<Longrightarrow> TCP_ST_CLOSED \<in> S"
      "z \<in> {TCP_ST_FIN_WAIT_1, TCP_ST_FIN_WAIT_2, TCP_ST_LAST_ACK, TCP_ST_CLOSING, TCP_ST_TIME_WAIT} \<Longrightarrow> TCP_ST_CLOSED \<in> S"
      "z = TCP_ST_ESTABLISHED \<or> z = TCP_ST_CLOSE_WAIT \<Longrightarrow> TCP_ST_CLOSE_WAIT \<in> S"
  shows "post (\<lambda>(r, m'). r \<and> s_state (m_streams m' s) \<in> S) (ProcessRST cfg s ack m)"
proof -
  have set: "at s z' \<kappa> (upd_stream s (\<lambda>x. x\<lparr>s_state := z', close_reason := r\<rparr>) m)" for z' r
    by (rule at_set [OF at]) simp
  have destroyed: "post (\<lambda>(r, m'). r \<and> s_state (m_streams m' s) \<in> S)
      (do { m \<leftarrow> DestroyTCPStream cfg s (upd_stream s (\<lambda>x. x\<lparr>s_state := TCP_ST_CLOSED, close_reason := r\<rparr>) m); Some (True, m) })"
    if "TCP_ST_CLOSED \<in> S" for r
    by (rule post_bindI [OF at_destroy [OF set]]) (use that in simp)
  have closed: "post (\<lambda>(r, m'). r \<and> s_state (m_streams m' s) \<in> S)
      (do { m \<leftarrow> RaiseCloseEvent s (upd_stream s (\<lambda>x. x\<lparr>s_state := TCP_ST_CLOSE_WAIT, close_reason := TCP_RESET\<rparr>) m); Some (True, m) })"
    if "TCP_ST_CLOSE_WAIT \<in> S"
    by (rule post_bindI [OF at_raise(3) [OF set]]) (use that in \<open>simp add: at_def\<close>)
  have m: "s_state (m_streams m s) = z" using at by (simp add: at_def)
  show ?thesis
    unfolding ProcessRST_def Let_def m using z S
    by (cases z) (auto intro!: destroyed closed simp: m less_eq_tcp_state_def less_tcp_state_def)
qed

lemma dispatch_ends:
  assumes at: "at s (s_state x) (tkey (sndvar x)) m" and nxt: "snd_nxt (m_streams m s) = snd_nxt x \<or> TCP_ST_SYN_RCVD < s_state x"
    and rst: "th_rst h \<Longrightarrow> s_state x \<le> TCP_ST_SYN_SENT"
  shows "ends s {z. segment_arc h x z} (dispatch_state cfg ts s sa da h seg len m)" (is "ends s ?S _")
proof -
  let ?\<kappa> = "tkey (sndvar x)"
  have m: "s_state (m_streams m s) = s_state x" "iss (sndvar (m_streams m s)) = iss (sndvar x)"
    using at by (simp_all add: at_def tkey_def)
  have stay: "s_state x \<in> ?S" by (simp add: segment_arc_def)
  have mono: "ends s ?S y" if "ends s T y" "T \<subseteq> ?S" for T y using that by (auto simp: post_def)
  show ?thesis
  proof (cases "s_state x")
    case TCP_ST_SYN_RCVD
    have est: "ends s ?S (if b then Handle_TCP_ST_ESTABLISHED cfg ts s h (th_seq h) (th_ack_seq h) pl len (th_window h) m1 else Some m1)"
      if "at s z ?\<kappa> m1" "z = TCP_ST_SYN_RCVD \<or> (z = TCP_ST_ESTABLISHED \<or> z = TCP_ST_CLOSED) \<and> th_ack h \<and> th_ack_seq h = fst ?\<kappa> + 1"
        "b \<Longrightarrow> z = TCP_ST_ESTABLISHED" for z m1 b pl
    proof (cases b)
      case True
      with that(1,3) have "at s TCP_ST_ESTABLISHED ?\<kappa> m1" by simp
      from ESTABLISHED_ends [OF this] show ?thesis unfolding if_P [OF True]
        by (rule mono) (use that True TCP_ST_SYN_RCVD rst in \<open>auto simp: segment_arc_def tkey_def less_eq_tcp_state_def\<close>)
    next
      case False
      have "z \<in> ?S" using that(2) TCP_ST_SYN_RCVD rst by (auto simp: segment_arc_def tkey_def less_eq_tcp_state_def)
      from ends_some [OF that(1) this] False show ?thesis by simp
    qed
    have "ends s ?S (Handle_TCP_ST_LISTEN cfg s h m)" by (rule mono [OF LISTEN_ends [OF at]]) (use stay TCP_ST_SYN_RCVD in auto)
    then show ?thesis
      unfolding dispatch_state_def Let_def m TCP_ST_SYN_RCVD tcp_state.case using at TCP_ST_SYN_RCVD
      by - (rule post_if, assumption, rule post_bindI [OF SYN_RCVD_at], simp, elim exE conjE, rule est, assumption, assumption,
        simp add: at_def)
  next
    case TCP_ST_LISTEN
    from LISTEN_ends [OF at, of h cfg] show ?thesis
      unfolding dispatch_state_def Let_def m TCP_ST_LISTEN tcp_state.case
      by (rule mono) (use TCP_ST_LISTEN in \<open>auto simp: segment_arc_def\<close>)
  next
    case TCP_ST_SYN_SENT
    with nxt have n: "snd_nxt (m_streams m s) = snd_nxt x" by (auto simp: less_tcp_state_def)
    show ?thesis
      unfolding dispatch_state_def Let_def m TCP_ST_SYN_SENT tcp_state.case
      by (rule SYN_SENT_ends [OF at [unfolded TCP_ST_SYN_SENT] refl])
        (use TCP_ST_SYN_SENT m n in \<open>auto simp: segment_arc_def acks_syn_def\<close>)
  next
    case TCP_ST_ESTABLISHED
    from ESTABLISHED_ends [OF at [unfolded TCP_ST_ESTABLISHED]] show ?thesis
      unfolding dispatch_state_def Let_def m TCP_ST_ESTABLISHED tcp_state.case
      by (rule mono) (use TCP_ST_ESTABLISHED rst in \<open>auto simp: segment_arc_def less_eq_tcp_state_def\<close>)
  next
    case TCP_ST_CLOSE_WAIT
    show ?thesis
      unfolding dispatch_state_def Let_def m TCP_ST_CLOSE_WAIT tcp_state.case Handle_TCP_ST_CLOSE_WAIT_def
      by (rule post_if ends_lists(1) ends_at [OF at_process_ack_if] at stay)+
  next
    case TCP_ST_FIN_WAIT_1
    show ?thesis
      unfolding dispatch_state_def Let_def m TCP_ST_FIN_WAIT_1 tcp_state.case
      by (rule FIN_WAIT_1_ends [OF at [unfolded TCP_ST_FIN_WAIT_1] refl])
        (use TCP_ST_FIN_WAIT_1 in \<open>auto simp: segment_arc_def acks_fin_def tkey_def\<close>)
  next
    case TCP_ST_FIN_WAIT_2
    from FIN_WAIT_2_ends [OF at [unfolded TCP_ST_FIN_WAIT_2]] show ?thesis
      unfolding dispatch_state_def Let_def m TCP_ST_FIN_WAIT_2 tcp_state.case
      by (rule mono) (use TCP_ST_FIN_WAIT_2 in \<open>auto simp: segment_arc_def\<close>)
  next
    case TCP_ST_CLOSING
    from CLOSING_ends [OF at [unfolded TCP_ST_CLOSING]] show ?thesis
      unfolding dispatch_state_def Let_def m TCP_ST_CLOSING tcp_state.case
      by (rule mono) (use TCP_ST_CLOSING in \<open>auto simp: segment_arc_def acks_fin_def tkey_def\<close>)
  next
    case TCP_ST_LAST_ACK
    from LAST_ACK_ends [OF at [unfolded TCP_ST_LAST_ACK]] show ?thesis
      unfolding dispatch_state_def Let_def m TCP_ST_LAST_ACK tcp_state.case
      by (rule mono) (use TCP_ST_LAST_ACK in \<open>auto simp: segment_arc_def acks_fin_def tkey_def\<close>)
  next
    case TCP_ST_TIME_WAIT
    show ?thesis
      unfolding dispatch_state_def Let_def m TCP_ST_TIME_WAIT tcp_state.case
      by (rule post_if ends_lists(1) at_bind(1) [where s = s and z = "s_state x" and \<kappa> = ?\<kappa>] at_timers at_some at stay | assumption)+
  next
    case TCP_ST_CLOSED
    show ?thesis
      unfolding dispatch_state_def Let_def m TCP_ST_CLOSED tcp_state.case by (rule ends_some [OF at stay])
  qed
qed

lemma UpdateTimeoutList_nxt: "post (\<lambda>m'. snd_nxt (m_streams m' s) = snd_nxt (m_streams m s)) (UpdateTimeoutList s m)"
  by (auto simp: post_def UpdateTimeoutList_def upd_defs Let_def Option.bind_eq_Some_conv split: if_splits)

lemma process_on_stream_arc:
  "post (\<lambda>m'. segment_arc h (m_streams m s) (s_state (m_streams m' s))) (process_on_stream cfg ts s sa da h seg len m)"
proof -
  let ?x = "m_streams m s"
  let ?S = "{z. segment_arc h ?x z}" and ?\<kappa> = "tkey (sndvar ?x)"
  let ?at = "at s (s_state ?x) ?\<kappa>"
  let ?nxt = "\<lambda>m'. snd_nxt (m_streams m' s) = snd_nxt ?x \<or> TCP_ST_SYN_RCVD < s_state ?x"
  have here: "?at m" by (simp add: at_def)
  have stay: "s_state ?x \<in> ?S" by (simp add: segment_arc_def)
  have valid: "post (\<lambda>(r, m'). ?at m' \<and> ?nxt m') (if s_state ?x > TCP_ST_SYN_RCVD
      then ValidateSequence cfg s ts h seg (th_seq h) len m else Some (True, m))"
    using here at_ValidateSequence [OF here, of cfg ts h seg "th_seq h" len] by (auto simp: post_def)
  have touch: "post (\<lambda>m'. ?at m' \<and> ?nxt m') (UpdateTimeoutList s m1)" if "?at m1 \<and> ?nxt m1" for m1
    using that at_lists(9) [of s "s_state ?x" ?\<kappa> m1] UpdateTimeoutList_nxt [of s m1] by (auto simp: post_def)
  have reset: "post (\<lambda>(r, m'). (r \<longrightarrow> s_state (m_streams m' s) \<in> ?S) \<and> (\<not> r \<longrightarrow> ?at m' \<and> ?nxt m' \<and> (th_rst h \<longrightarrow> s_state ?x \<le> TCP_ST_SYN_SENT)))
      (if th_rst h then
         if s_state (m_streams (upd_stream s (\<lambda>x. x\<lparr>have_reset := True\<rparr>) m1) s) > TCP_ST_SYN_SENT
         then ProcessRST cfg s (th_ack_seq h) (upd_stream s (\<lambda>x. x\<lparr>have_reset := True\<rparr>) m1)
         else Some (False, upd_stream s (\<lambda>x. x\<lparr>have_reset := True\<rparr>) m1)
       else Some (False, m1))" if "?at m1 \<and> ?nxt m1" for m1
  proof -
    let ?m = "upd_stream s (\<lambda>x. x\<lparr>have_reset := True\<rparr>) m1"
    have m1: "?at ?m" "?nxt ?m" "s_state (m_streams ?m s) = s_state ?x" using that by (simp_all add: at_def)
    have "post (\<lambda>(r, m'). r \<and> s_state (m_streams m' s) \<in> ?S) (ProcessRST cfg s (th_ack_seq h) ?m)"
      if "th_rst h" "TCP_ST_SYN_SENT < s_state ?x"
      by (rule ProcessRST_ends [OF m1(1) that(2) stay]) (use that(1) m1(2) in \<open>auto simp: segment_arc_def less_tcp_state_def\<close>)
    then show ?thesis using that m1 by (auto simp: post_def)
  qed
  show ?thesis
    unfolding process_on_stream_def Let_def
    by (rule post_bind2 [OF valid] post_if post_bindI [OF touch] post_bind2 [OF reset]
        dispatch_ends [unfolded mem_Collect_eq] | rule post_bind_any | (simp add: segment_arc_def at_def tkey_def; fail) | (auto simp: at_def upd_defs tkey_def; fail) | (elim conjE, simp; fail))+
qed


text \<open>The first SYN for a connection that has just been created.\<close>

definition sample_syn :: "byte list" where
  "sample_syn = [39, 16, 0, 80, 0, 0, 0, 1, 0, 0, 0, 0, 80, 2, 0, 0, 0, 0, 0, 0]"

lemma sample_syn_header:
  "\<exists>h. read_tcphdr sample_syn = Some h \<and> th_syn h \<and> \<not> th_rst h \<and> th_doff h = 5 \<and> th_source h = 0x1027 \<and> th_dest h = 0x5000"
  by (simp add: read_tcphdr_def sample_syn_def TCP_HEADER_LEN_def has_flag_def flag_consts le16_def be16_def)

lemma sample_conn_state: "s_state (m_streams sample_conn 0) = TCP_ST_LISTEN"
  and sample_conn_timeout: "\<not> on_timeout_list (m_streams sample_conn 0)"
proof -
  have "m_flow_pool sample_manager = sample_pool" "m_rv_pool sample_manager = sample_pool"
    "m_sv_pool sample_manager = sample_pool" "m_flow_table sample_manager = (\<lambda>_. [])"
    by (simp_all add: sample_manager_def)
  moreover obtain mp where "MPAllocateChunk sample_pool = Some (Some 0, mp)"
    by (simp add: MPAllocateChunk_def sample_pool_def)
  ultimately have "map_option (\<lambda>(so, m). (s_state (m_streams m 0), on_timeout_list (m_streams m 0))) sample_created
    = Some (TCP_ST_LISTEN, False)"
    by (simp add: sample_created_def CreateTCPStream_def StreamHTInsert_def tailq_insert_tail_def HashFlow_bound Let_def
        case_prod_beta upd_defs set_sock_obj_def init_stream_def zero_stream_def next_rand_def)
  then show "s_state (m_streams sample_conn 0) = TCP_ST_LISTEN" "\<not> on_timeout_list (m_streams sample_conn 0)"
    unfolding sample_created_conn by simp_all
qed


end
