(* ===== verification/Accept_Props.thy ===== *)
theory Accept_Props
  imports Socket_Props Engine_Props
begin

text \<open>
  Passive connections: a handshake that completes is put into the accept queue of its listener, and
  the application gets the connections in the order in which their handshakes completed.
\<close>

section \<open>Accepting\<close>

text \<open>The socket \<open>k\<close> listens with the listener \<open>l\<close>.\<close>

definition listening :: "mtcp_config \<Rightarrow> mtcp_context option \<Rightarrow> int \<Rightarrow> nat \<Rightarrow> mtcp_manager \<Rightarrow> bool" where
  "listening cfg mctx k l m \<longleftrightarrow> (\<exists>c. GetMTCPManager mctx m = Inr c) \<and> 0 \<le> k \<and> k < c_max_concurrency cfg
     \<and> so_socktype (m_smap m (nat k)) = MTCP_SOCK_LISTENER \<and> so_obj (m_smap m (nat k)) = ListenerObj l
     \<and> l_socket (m_listeners m l) = Some (nat k) \<and> click_inv (l_acceptq (m_listeners m l)) \<and> events_ok m \<and> smap_inv cfg m"

definition accept_items :: "nat \<Rightarrow> mtcp_manager \<Rightarrow> nat list" where
  "accept_items l m = click_items (l_acceptq (m_listeners m l))"

text \<open>The free sockets have no pending events.\<close>

definition free_quiet :: "mtcp_manager \<Rightarrow> bool" where
  "free_quiet m \<longleftrightarrow> (\<forall>j \<in> set (m_free_smap m). so_events (m_smap m j) = 0)"

lemma mtcp_add_event_smap: "mtcp_add_event qt k ev m = Some m' \<Longrightarrow> j \<noteq> k \<Longrightarrow> m_smap m' j = m_smap m j"
  by (cases "m_ep m"; cases "AddEpollEvent (map_option (m_eps m) (m_ep m)) qt (Some (m_smap m k)) ev")
    (auto simp: mtcp_add_event_def split: option.splits)

text \<open>An event for the listening socket leaves all that matters here as it is.\<close>

lemma listener_event:
  assumes "listening cfg mctx k l m" "free_quiet m"
  shows "\<exists>m'. mtcp_add_event qt (nat k) ev m = Some m' \<and> listening cfg mctx k l m' \<and> free_quiet m'
    \<and> m_streams m' = m_streams m \<and> m_listeners m' = m_listeners m \<and> m_free_smap m' = m_free_smap m
    \<and> (\<forall>j. so_obj (m_smap m' j) = so_obj (m_smap m j) \<and> so_id (m_smap m' j) = so_id (m_smap m j))"
proof -
  have "events_ok m" using assms(1) by (simp add: listening_def)
  from mtcp_add_event_total [OF this, of qt "nat k" ev] obtain m' where m': "mtcp_add_event qt (nat k) ev m = Some m'"
    "event_frame m m'" by blast
  note D = event_frameD [OF m'(2)]
  have "smap_inv cfg m'" using add_event_sockets [where cfg = cfg and m = m and qt = qt and k = "nat k" and ev = ev] m'(1) assms(1) by (simp add: listening_def)
  then have l: "listening cfg mctx k l m'" using assms(1) D by (auto simp: listening_def)
  have "nat k \<notin> set (m_free_smap m)" using assms(1) by (auto simp: listening_def smap_inv_def)
  then have "free_quiet m'" using assms(2) mtcp_add_event_smap [OF m'(1)] D(10) unfolding free_quiet_def by metis
  with l m'(1) D show ?thesis by auto
qed

lemma AllocateSocket_head:
  assumes "m_free_smap m = j # rest" "so_events (m_smap m j) = 0"
  shows "AllocateSocket ty m = Some (Some j, m\<lparr>m_free_smap := rest, m_smap := (m_smap m)(j := fresh_socket ty (m_smap m j))\<rparr>)"
  using AllocateSocket_loop_skip [of m "[]" j rest] assms by (simp add: AllocateSocket_def fresh_socket_def)

text \<open>One call hands out the first connection of the queue with a new socket and the address of the peer.\<close>

lemma mtcp_accept_first:
  assumes l: "listening cfg mctx k l m" and fq: "free_quiet m" and q: "accept_items l m = s # rest"
    and s: "s_socket (m_streams m s) = None" and free: "m_free_smap m = j # js"
  shows "\<exists>m'. mtcp_accept cfg mctx k m = Some (Ret (j, s_daddr (m_streams m s), s_dport (m_streams m s)), m')
    \<and> listening cfg mctx k l m' \<and> free_quiet m' \<and> accept_items l m' = rest \<and> m_free_smap m' = js
    \<and> m_streams m' = (m_streams m)(s := (m_streams m s)\<lparr>s_socket := Some j\<rparr>)
    \<and> so_obj (m_smap m' j) = StreamObj s \<and> (\<forall>i. i \<noteq> j \<longrightarrow> so_obj (m_smap m' i) = so_obj (m_smap m i))"
proof -
  from l have D: "\<exists>c. GetMTCPManager mctx m = Inr c" "0 \<le> k" "k < c_max_concurrency cfg" "so_socktype (m_smap m (nat k)) = MTCP_SOCK_LISTENER"
    "so_obj (m_smap m (nat k)) = ListenerObj l" "l_socket (m_listeners m l) = Some (nat k)" "click_inv (l_acceptq (m_listeners m l))"
    "events_ok m" "smap_inv cfg m" by (simp_all add: listening_def)
  obtain q where q': "StreamDequeue (l_acceptq (m_listeners m l)) = Some (Some s, q)" "click_inv q" "click_items q = rest"
    using stream_q.deq_item [OF D(7)] q by (auto simp: accept_items_def)
  define m1 where "m1 = m\<lparr>m_listeners := (m_listeners m)(l := (m_listeners m l)\<lparr>l_acceptq := q\<rparr>)\<rparr>"
  define m2 where "m2 = m1\<lparr>m_free_smap := js, m_smap := (m_smap m1)(j := fresh_socket MTCP_SOCK_STREAM (m_smap m1 j))\<rparr>"
  define m3 where "m3 = upd_socket j (\<lambda>x. x\<lparr>so_sin_port := s_dport (m_streams m s), so_sin_addr := s_daddr (m_streams m s)\<rparr>)
    (upd_stream s (\<lambda>x. x\<lparr>s_socket := Some j\<rparr>) (upd_socket j (\<lambda>x. x\<lparr>so_obj := StreamObj s\<rparr>) m2))"
  have j: "so_events (m_smap m j) = 0" "int j < c_max_concurrency cfg" "so_socktype (m_smap m j) = MTCP_SOCK_UNUSED" "j \<notin> set js"
    using fq free D(9) by (auto simp: free_quiet_def smap_inv_def)
  then have jk: "j \<noteq> nat k" "so_id (m_smap m j) = j" using D(4,9) by (auto simp: smap_inv_def)
  have a: "AllocateSocket MTCP_SOCK_STREAM m1 = Some (Some j, m2)"
    unfolding m2_def by (rule AllocateSocket_head) (use free j in \<open>simp_all add: m1_def\<close>)
  have "smap_inv cfg m1" using D(9) by (simp add: m1_def)
  then have "smap_inv cfg m2" using AllocateSocket_smap_inv [of cfg m1 MTCP_SOCK_STREAM] a by simp
  then have "smap_inv cfg m3" by (simp add: m3_def)
  have c: "GetMTCPManager mctx m3 = GetMTCPManager mctx m" "events_ok m3 = events_ok m"
    by (simp_all add: m3_def m2_def m1_def upd_socket_def upd_defs GetMTCPManager_def events_ok_def split: option.split)
  have m3: "listening cfg mctx k l m3" "free_quiet m3" "accept_items l m3 = rest" "m_free_smap m3 = js"
    "m_streams m3 = (m_streams m)(s := (m_streams m s)\<lparr>s_socket := Some j\<rparr>)"
    "so_obj (m_smap m3 j) = StreamObj s" "\<forall>i. i \<noteq> j \<longrightarrow> so_obj (m_smap m3 i) = so_obj (m_smap m i)" "so_id (m_smap m3 j) = j"
    using D q' jk fq free j c \<open>smap_inv cfg m3\<close>
    by (auto simp: listening_def free_quiet_def accept_items_def m3_def m2_def m1_def upd_socket_def upd_defs fresh_socket_def)
  have st: "m_streams (upd_socket j f m2) = m_streams m" "m_streams m1 = m_streams m" for f
    by (simp_all add: upd_socket_def m2_def m1_def)
  have run: "mtcp_accept cfg mctx k m = do {
          m \<leftarrow> (if \<not> has_opt (so_epoll (m_smap m3 (nat k))) MTCP_EPOLLET \<and> \<not> StreamQueueIsEmpty (l_acceptq (m_listeners m3 l))
                then mtcp_add_event USR_SHADOW_EVENT_QUEUE (nat k) MTCP_EPOLLIN m3 else Some m3);
          Some (Ret (so_id (m_smap m j), s_daddr (m_streams m s), s_dport (m_streams m s)), m) }"
    unfolding mtcp_accept_def with_manager_def with_socket_def accept_dequeue_def accept_stream_def
    using D q'(1) s a m3(1,8) jk(2)
    by (auto simp: socket_listener_def m1_def [symmetric] st m3_def [symmetric] listening_def Let_def)
  show ?thesis
  proof (cases "\<not> has_opt (so_epoll (m_smap m3 (nat k))) MTCP_EPOLLET \<and> \<not> StreamQueueIsEmpty (l_acceptq (m_listeners m3 l))")
    case True
    from listener_event [OF m3(1,2), of USR_SHADOW_EVENT_QUEUE MTCP_EPOLLIN] obtain m4 where
      "mtcp_add_event USR_SHADOW_EVENT_QUEUE (nat k) MTCP_EPOLLIN m3 = Some m4" "listening cfg mctx k l m4" "free_quiet m4"
      "m_streams m4 = m_streams m3" "m_listeners m4 = m_listeners m3" "m_free_smap m4 = m_free_smap m3"
      "\<forall>j. so_obj (m_smap m4 j) = so_obj (m_smap m3 j)" "so_id (m_smap m4 j) = so_id (m_smap m3 j)" by blast
    with True m3 jk show ?thesis by (intro exI [of _ m4]) (simp add: run accept_items_def)
  next
    case False
    then show ?thesis unfolding run if_not_P [OF False] using m3 jk by (intro exI [of _ m3]) simp
  qed
qed

text \<open>A number of calls in a row, with the socket number and the address of the peer that each of them returns.\<close>

fun accept_run :: "mtcp_config \<Rightarrow> mtcp_context option \<Rightarrow> int \<Rightarrow> nat \<Rightarrow> mtcp_manager \<Rightarrow> ((nat \<times> sockaddr) list \<times> mtcp_manager) option" where
  "accept_run cfg mctx k 0 m = Some ([], m)"
| "accept_run cfg mctx k (Suc n) m = do {
     (r, m) \<leftarrow> mtcp_accept cfg mctx k m;
     (case r of
        Ret a \<Rightarrow> do { (xs, m) \<leftarrow> accept_run cfg mctx k n m; Some (a # xs, m) }
      | _ \<Rightarrow> None)
   }"

definition peer_addr :: "mtcp_manager \<Rightarrow> nat \<Rightarrow> sockaddr" where
  "peer_addr m s = (s_daddr (m_streams m s), s_dport (m_streams m s))"

lemma accept_run_order:
  assumes "listening cfg mctx k l m" "free_quiet m" "accept_items l m = xs" "distinct xs"
    "\<forall>t \<in> set xs. s_socket (m_streams m t) = None" "length xs \<le> length (m_free_smap m)"
  shows "\<exists>m'. accept_run cfg mctx k (length xs) m
      = Some (zip (take (length xs) (m_free_smap m)) (map (peer_addr m) xs), m')
    \<and> (\<forall>i < length xs. so_obj (m_smap m' (m_free_smap m ! i)) = StreamObj (xs ! i))
    \<and> (\<forall>j. j \<notin> set (m_free_smap m) \<longrightarrow> so_obj (m_smap m' j) = so_obj (m_smap m j))"
  using assms
proof (induction xs arbitrary: m)
  case (Cons s rest)
  obtain j js where free: "m_free_smap m = j # js" using Cons.prems(6) by (cases "m_free_smap m") auto
  from mtcp_accept_first [OF Cons.prems(1-3) _ free] Cons.prems(5) obtain m1 where m1:
    "mtcp_accept cfg mctx k m = Some (Ret (j, s_daddr (m_streams m s), s_dport (m_streams m s)), m1)"
    "listening cfg mctx k l m1" "free_quiet m1" "accept_items l m1 = rest" "m_free_smap m1 = js"
    "m_streams m1 = (m_streams m)(s := (m_streams m s)\<lparr>s_socket := Some j\<rparr>)"
    "so_obj (m_smap m1 j) = StreamObj s" "\<forall>i. i \<noteq> j \<longrightarrow> so_obj (m_smap m1 i) = so_obj (m_smap m i)" by auto
  have d: "j \<notin> set js" using Cons.prems(1) free by (auto simp: listening_def smap_inv_def)
  have p: "peer_addr m1 = peer_addr m" by (auto simp: peer_addr_def m1(6) fun_eq_iff)
  have r: "distinct rest" "\<forall>t \<in> set rest. s_socket (m_streams m1 t) = None" "length rest \<le> length (m_free_smap m1)"
    using Cons.prems(4-6) m1(5,6) free by auto
  from Cons.IH [OF m1(2-4) r] obtain m2 where m2:
    "accept_run cfg mctx k (length rest) m1 = Some (zip (take (length rest) js) (map (peer_addr m) rest), m2)"
    "\<forall>i < length rest. so_obj (m_smap m2 (js ! i)) = StreamObj (rest ! i)"
    "\<forall>i. i \<notin> set js \<longrightarrow> so_obj (m_smap m2 i) = so_obj (m_smap m1 i)" unfolding p m1(5) by blast
  have "so_obj (m_smap m2 ((j # js) ! i)) = StreamObj ((s # rest) ! i)" if "i < Suc (length rest)" for i
    using that m2(2,3) m1(7) d by (cases i) auto
  moreover have "mtcp_accept cfg mctx k m = Some (Ret (j, peer_addr m s), m1)" by (simp add: m1(1) peer_addr_def)
  ultimately show ?case using m1(8) m2 free by auto
qed simp

section \<open>The last segment of the handshake\<close>

text \<open>The parts of the state that the timer lists do not touch.\<close>

definition offlist where
  "offlist m = (m_listeners m, m_lt_table m, m_smap m, m_free_smap m, m_ep m, m_eps m, m_ctx_done m, m_ctx_exit m)"

lemma timer_offlist:
  "RemoveFromRTOList s m = Some m' \<Longrightarrow> offlist m' = offlist m" "AddtoTimeoutList s m = Some m' \<Longrightarrow> offlist m' = offlist m"
  unfolding RemoveFromRTOList_def AddtoTimeoutList_def
  by (auto simp: offlist_def upd_defs Let_def Option.bind_eq_Some_conv split: if_splits)

lemma timer_peer:
  "RemoveFromRTOList s m = Some m' \<Longrightarrow> peer_addr m' = peer_addr m \<and> s_socket (m_streams m' t) = s_socket (m_streams m t)
     \<and> s_state (m_streams m' t) = s_state (m_streams m t)"
  "AddtoTimeoutList s m = Some m' \<Longrightarrow> peer_addr m' = peer_addr m \<and> s_socket (m_streams m' t) = s_socket (m_streams m t)
     \<and> s_state (m_streams m' t) = s_state (m_streams m t)"
  unfolding RemoveFromRTOList_def AddtoTimeoutList_def
  by (auto simp: peer_addr_def upd_defs Let_def fun_eq_iff Option.bind_eq_Some_conv split: if_splits)

lemma listener_walk_offlist:
  "offlist m' = offlist m \<Longrightarrow> listener_walk m' port xs = listener_walk m port xs"
  by (induction xs) (simp_all add: offlist_def listener_port_def EqualListener_def cong: if_cong)

lemma offlist_cong:
  assumes "offlist m' = offlist m"
  shows "ListenerHTSearch m' port = ListenerHTSearch m port" "listening cfg mctx k l m' = listening cfg mctx k l m"
    "free_quiet m' = free_quiet m" "accept_items l m' = accept_items l m" "m_free_smap m' = m_free_smap m"
    "m_listeners m' = m_listeners m" "so_epoll (m_smap m' j) = so_epoll (m_smap m j)"
proof -
  have f: "m_listeners m' = m_listeners m" "m_lt_table m' = m_lt_table m" "m_smap m' = m_smap m" "m_free_smap m' = m_free_smap m"
    "m_ep m' = m_ep m" "m_eps m' = m_eps m" "m_ctx_done m' = m_ctx_done m" "m_ctx_exit m' = m_ctx_exit m"
    using assms by (simp_all add: offlist_def)
  have "smap_inv cfg m' = smap_inv cfg m" by (simp add: smap_inv_def f)
  with f show "listening cfg mctx k l m' = listening cfg mctx k l m"
    by (simp add: listening_def GetMTCPManager_def events_ok_def split: option.split)
  show "ListenerHTSearch m' port = ListenerHTSearch m port"
    using listener_walk_offlist [OF assms] by (simp add: ListenerHTSearch_def f)
qed (use assms in \<open>simp_all add: free_quiet_def accept_items_def offlist_def\<close>)

lemma offlist_upd [simp]: "offlist (upd_stream s f m) = offlist m" "offlist (upd_snd s g m) = offlist m" "offlist (upd_rcv s h m) = offlist m"
  by (simp_all add: offlist_def upd_defs)

lemma peer_upd:
  "(\<And>x. s_daddr (f x) = s_daddr x \<and> s_dport (f x) = s_dport x) \<Longrightarrow> peer_addr (upd_stream s f m) = peer_addr m"
  "peer_addr (upd_snd s g m) = peer_addr m"
  by (auto simp: peer_addr_def upd_defs fun_eq_iff)

text \<open>The listener with one more connection in its queue.\<close>

lemma listener_enqueue:
  assumes l: "listening cfg mctx k l m" and room: "length (accept_items l m) < click_cap (l_acceptq (m_listeners m l))"
  shows "\<exists>q. StreamEnqueue (l_acceptq (m_listeners m l)) s = Some (0, q)
    \<and> listening cfg mctx k l (m\<lparr>m_listeners := (m_listeners m)(l := (m_listeners m l)\<lparr>l_acceptq := q\<rparr>)\<rparr>)
    \<and> accept_items l (m\<lparr>m_listeners := (m_listeners m)(l := (m_listeners m l)\<lparr>l_acceptq := q\<rparr>)\<rparr>) = accept_items l m @ [s]"
proof -
  from l have "click_inv (l_acceptq (m_listeners m l))" by (simp add: listening_def)
  from stream_q.enq_room [OF this, of s] room obtain q where q: "StreamEnqueue (l_acceptq (m_listeners m l)) s = Some (0, q)"
    "click_inv q" "click_items q = accept_items l m @ [s]" by (auto simp: accept_items_def)
  moreover have "listening cfg mctx k l (m\<lparr>m_listeners := (m_listeners m)(l := (m_listeners m l)\<lparr>l_acceptq := q\<rparr>)\<rparr>)"
  proof -
    have "GetMTCPManager mctx (m\<lparr>m_listeners := x\<rparr>) = GetMTCPManager mctx m" for x
      by (simp add: GetMTCPManager_def split: option.split)
    then show ?thesis using l q(2) by (simp add: listening_def events_ok_def)
  qed
  ultimately show ?thesis by (simp add: accept_items_def)
qed

text \<open>What the handler does before it looks for the listener.\<close>

definition handshake_acked :: "nat \<Rightarrow> u32 \<Rightarrow> mtcp_manager \<Rightarrow> mtcp_manager" where
  "handshake_acked s ack m = upd_stream s (\<lambda>x. x\<lparr>rcv_nxt := irs (rcvvar x) + 1\<rparr>) (upd_snd s (\<lambda>v. v\<lparr>nrtx := 0\<rparr>)
    (upd_snd s (\<lambda>v. v\<lparr>cwnd := (if cwnd v = 1 then ucast (mss v) * 2 else ucast (mss v))\<rparr>)
      (upd_stream s (\<lambda>x. x\<lparr>snd_nxt := ack\<rparr>) (upd_snd s (\<lambda>v. v\<lparr>snd_una := snd_una v + 1\<rparr>) m))))"

definition same_peers :: "mtcp_manager \<Rightarrow> mtcp_manager \<Rightarrow> bool" where
  "same_peers m m' \<longleftrightarrow> peer_addr m' = peer_addr m \<and> (\<forall>t. s_socket (m_streams m' t) = s_socket (m_streams m t))"

lemma handshake_established:
  assumes "live_inv cfg s m"
  shows "\<exists>m2. RemoveFromRTOList s (handshake_acked s ack m) = Some m2
    \<and> live_inv cfg s (upd_stream s (\<lambda>x. x\<lparr>s_state := TCP_ST_ESTABLISHED\<rparr>) m2)
    \<and> offlist (upd_stream s (\<lambda>x. x\<lparr>s_state := TCP_ST_ESTABLISHED\<rparr>) m2) = offlist m
    \<and> same_peers m (upd_stream s (\<lambda>x. x\<lparr>s_state := TCP_ST_ESTABLISHED\<rparr>) m2)"
proof -
  let ?m1 = "handshake_acked s ack m"
  have m1: "live_inv cfg s ?m1" "offlist ?m1 = offlist m" "same_peers m ?m1"
    using assms eng.writes [where cfg = cfg and s = s]
    by (simp_all add: handshake_acked_def skeys peer_upd same_peers_def) (simp add: upd_defs)
  obtain m2 where m2: "RemoveFromRTOList s ?m1 = Some m2" using timer_ops_safe(2) [OF m1(1)] by blast
  have l: "live_inv cfg s m2" using eng.disarm [OF m1(1)] m2 by simp
  have "same_peers m (upd_stream s (\<lambda>x. x\<lparr>s_state := TCP_ST_ESTABLISHED\<rparr>) m2)"
    using m1(3) timer_peer(1) [OF m2] by (simp add: same_peers_def peer_upd) (simp add: upd_defs)
  with l m2 eng.writes(1) [where cfg = cfg and s = s and m = m2] m1(2) timer_offlist(1) [OF m2] show ?thesis
    by (intro exI [of _ m2]) (simp add: skeys)
qed

lemma handshake_queues:
  assumes live: "live_inv cfg s m" and ack: "th_ack h" "ack = iss (sndvar (m_streams m s)) + 1"
    and port: "ListenerHTSearch m (th_dest h) = Some (Some l)" and l: "listening cfg mctx k l m" and fq: "free_quiet m"
    and room: "length (accept_items l m) < click_cap (l_acceptq (m_listeners m l))"
  shows "\<exists>m'. Handle_TCP_ST_SYN_RCVD cfg s h ack m = Some m' \<and> s_state (m_streams m' s) = TCP_ST_ESTABLISHED
    \<and> listening cfg mctx k l m' \<and> free_quiet m' \<and> accept_items l m' = accept_items l m @ [s] \<and> m_free_smap m' = m_free_smap m
    \<and> same_peers m m'"
proof -
  obtain m2 where m2: "RemoveFromRTOList s (handshake_acked s ack m) = Some m2"
    "live_inv cfg s (upd_stream s (\<lambda>x. x\<lparr>s_state := TCP_ST_ESTABLISHED\<rparr>) m2)"
    "offlist (upd_stream s (\<lambda>x. x\<lparr>s_state := TCP_ST_ESTABLISHED\<rparr>) m2) = offlist m"
    "same_peers m (upd_stream s (\<lambda>x. x\<lparr>s_state := TCP_ST_ESTABLISHED\<rparr>) m2)"
    using handshake_established [OF live] by blast
  define m3 where "m3 = upd_stream s (\<lambda>x. x\<lparr>s_state := TCP_ST_ESTABLISHED\<rparr>) m2"
  note m3 = m2(2-4) [folded m3_def] and c3 = offlist_cong [OF m2(3) [folded m3_def]]
  have l3: "listening cfg mctx k l m3" "length (accept_items l m3) < click_cap (l_acceptq (m_listeners m3 l))"
    using l room by (simp_all add: c3)
  from listener_enqueue [OF l3, of s] obtain q where q: "StreamEnqueue (l_acceptq (m_listeners m3 l)) s = Some (0, q)"
    "listening cfg mctx k l (m3\<lparr>m_listeners := (m_listeners m3)(l := (m_listeners m3 l)\<lparr>l_acceptq := q\<rparr>)\<rparr>)"
    "accept_items l (m3\<lparr>m_listeners := (m_listeners m3)(l := (m_listeners m3 l)\<lparr>l_acceptq := q\<rparr>)\<rparr>) = accept_items l m3 @ [s]" by blast
  define m4 where "m4 = m3\<lparr>m_listeners := (m_listeners m3)(l := (m_listeners m3 l)\<lparr>l_acceptq := q\<rparr>)\<rparr>"
  have m4: "listening cfg mctx k l m4" "accept_items l m4 = accept_items l m @ [s]" "m_streams m4 = m_streams m3"
    "m_free_smap m4 = m_free_smap m" "free_quiet m4" "live_inv cfg s m4" "same_peers m m4" "s_state (m_streams m4 s) = TCP_ST_ESTABLISHED"
    using q(2,3) fq c3 m3 eng.other [OF m3(1), of m4] by (simp_all add: m4_def free_quiet_def m3_def same_peers_def peer_addr_def [abs_def])
  obtain m5 where m5: "(if c_tcp_timeout cfg > 0 then AddtoTimeoutList s m4 else Some m4) = Some m5"
    using timer_ops_safe(5) [OF m4(6)] by (cases "c_tcp_timeout cfg > 0") auto
  then have k5: "offlist m5 = offlist m4" "same_peers m m5" "s_state (m_streams m5 s) = TCP_ST_ESTABLISHED"
    using timer_offlist(2) [of s m4] timer_peer(2) [of s m4] m4(7,8) by (auto simp: same_peers_def split: if_splits)
  note c5 = offlist_cong [OF k5(1)]
  have l5: "listening cfg mctx k l m5" "free_quiet m5" using m4 by (simp_all add: c5)
  have run: "Handle_TCP_ST_SYN_RCVD cfg s h ack m = (if so_epoll (m_smap m5 (nat k)) AND MTCP_EPOLLIN \<noteq> 0
      then mtcp_add_event MTCP_EVENT_QUEUE (nat k) MTCP_EPOLLIN m5 else Some m5)"
  proof -
    have "\<not> ack \<noteq> iss (sndvar (m_streams m s)) + 1" "l_socket (m_listeners m5 l) = Some (nat k)"
      using ack(2) l5(1) by (simp_all add: listening_def)
    then show ?thesis
      unfolding Handle_TCP_ST_SYN_RCVD_def Let_def if_P [OF ack(1)] using port m2(1) q(1) m5 [unfolded m4_def]
      by (simp only: if_not_P not_True_eq_False if_False handshake_acked_def [symmetric]) (simp add: c3(1) m3_def [symmetric] split del: if_split)
  qed
  from listener_event [OF l5, of MTCP_EVENT_QUEUE MTCP_EPOLLIN] obtain m6 where m6:
    "mtcp_add_event MTCP_EVENT_QUEUE (nat k) MTCP_EPOLLIN m5 = Some m6" "listening cfg mctx k l m6" "free_quiet m6"
    "m_streams m6 = m_streams m5" "m_listeners m6 = m_listeners m5" "m_free_smap m6 = m_free_smap m5" by blast
  have f6: "accept_items l m6 = accept_items l m5" "same_peers m m6"
    using m6 k5(2) by (simp_all add: accept_items_def same_peers_def peer_addr_def [abs_def])
  show ?thesis
    unfolding run using k5 c5 m4 l5 m6 f6 by (cases "so_epoll (m_smap m5 (nat k)) AND MTCP_EPOLLIN = 0") auto
qed

text \<open>C6. A client that completes its handshake is served. When the acknowledgement of our SYN arrives for
  a connection in use and the accept queue of the listener has room, the connection is established and
  joins the queue behind those that came earlier; and as many calls of \<open>mtcp_accept\<close> as there are
  connections in the queue return them all, in the order in which they were established, each with the
  address of its peer and a socket of its own that is bound to its stream.\<close>

theorem handshake_accepted:
  assumes "engine_inv cfg m" and "s \<in> live m" and "th_ack h" and "ack = iss (sndvar (m_streams m s)) + 1"
    and "ListenerHTSearch m (th_dest h) = Some (Some l)" and "listening cfg mctx k l m" and "free_quiet m"
    and "length (accept_items l m) < click_cap (l_acceptq (m_listeners m l))" and "xs = accept_items l m @ [s]"
    and "distinct xs" and "\<forall>t \<in> set xs. s_socket (m_streams m t) = None" and "length xs \<le> length (m_free_smap m)"
  shows "\<exists>m1 m2. Handle_TCP_ST_SYN_RCVD cfg s h ack m = Some m1 \<and> s_state (m_streams m1 s) = TCP_ST_ESTABLISHED
    \<and> accept_run cfg mctx k (length xs) m1 = Some (zip (take (length xs) (m_free_smap m)) (map (peer_addr m) xs), m2)
    \<and> (\<forall>i < length xs. so_obj (m_smap m2 (m_free_smap m ! i)) = StreamObj (xs ! i))"
proof -
  from handshake_queues [OF conjI [OF assms(1,2)] assms(3-8)] obtain m1 where m1:
    "Handle_TCP_ST_SYN_RCVD cfg s h ack m = Some m1" "s_state (m_streams m1 s) = TCP_ST_ESTABLISHED"
    "listening cfg mctx k l m1" "free_quiet m1" "accept_items l m1 = xs" "m_free_smap m1 = m_free_smap m" "same_peers m m1"
    using assms(9) by auto
  have "\<forall>t \<in> set xs. s_socket (m_streams m1 t) = None" "peer_addr m1 = peer_addr m" "length xs \<le> length (m_free_smap m1)"
    using m1(6,7) assms(11,12) by (simp_all add: same_peers_def)
  with accept_run_order [OF m1(3-5) assms(10)] m1(1,2,6) show ?thesis by auto
qed

text \<open>The sample with a listener on port 80 and a connection that waits for the last segment of its handshake.\<close>

definition sample_half_open :: mtcp_manager where
  "sample_half_open = upd_stream 0 (\<lambda>x. x\<lparr>s_state := TCP_ST_SYN_RCVD, s_socket := None\<rparr>) (sample_conn\<lparr>m_ep := None, m_smap := sample_smap,
     m_free_smap := [1, 2, 3], m_listeners := (\<lambda>_. sample_listener), m_lt_table := (\<lambda>_. [])(HashListener 0x5000 := [0]),
     m_ctx_done := False, m_ctx_exit := False\<rparr>)"

definition sample_ack :: tcphdr where
  "sample_ack = \<lparr>th_source = 0x1027, th_dest = 0x5000, th_seq = 1, th_ack_seq = 1, th_doff = 5, th_fin = False, th_syn = False,
     th_rst = False, th_psh = False, th_ack = True, th_window = 0, th_check = 0\<rparr>"

lemma sample_half_open_ok:
  "live_inv sample_cfg 0 sample_half_open"
  "listening sample_cfg (Some \<lparr>cx_cpu = 0, cx_num_cpus = 1, cx_num_queues = 1, cx_endian = True\<rparr>) 0 0 sample_half_open"
  "free_quiet sample_half_open" "accept_items 0 sample_half_open = []" "click_cap (l_acceptq (m_listeners sample_half_open 0)) = 4"
  "ListenerHTSearch sample_half_open 0x5000 = Some (Some 0)" "s_socket (m_streams sample_half_open 0) = None"
  "m_free_smap sample_half_open = [1, 2, 3]" "peer_addr sample_half_open 0 = (0x0200000a, 0x1027)"
proof -
  have "live_inv sample_cfg 0 (sample_conn\<lparr>m_ep := None, m_smap := sample_smap,
     m_free_smap := [1, 2, 3], m_listeners := (\<lambda>_. sample_listener), m_lt_table := (\<lambda>_. [])(HashListener 0x5000 := [0]),
     m_ctx_done := False, m_ctx_exit := False\<rparr>)"
    by (rule eng.other [where cfg = sample_cfg and s = 0, OF sample_conn_live]) (simp add: core_def)
  then show "live_inv sample_cfg 0 sample_half_open"
    unfolding sample_half_open_def by (rule eng.writes(1) [where cfg = sample_cfg and s = 0]) (simp add: skeys)
  show "peer_addr sample_half_open 0 = (0x0200000a, 0x1027)"
    using sample_conn_key by (simp add: peer_addr_def sample_half_open_def flow_key_def)
  have "smap_inv sample_cfg sample_half_open"
    by (rule smap_inv_cong [OF sample_smap_inv]) (simp_all add: sample_half_open_def upd_defs sample_manager_def)
  then show "listening sample_cfg (Some \<lparr>cx_cpu = 0, cx_num_cpus = 1, cx_num_queues = 1, cx_endian = True\<rparr>) 0 0 sample_half_open"
    by (simp add: listening_def sample_half_open_def upd_defs GetMTCPManager_def sample_cfg_def events_ok_def sample_smap_def sample_listener_def
        sample_queue_def click_inv_def click_window_def click_count_def ring_dist_def)
  show "free_quiet sample_half_open" "accept_items 0 sample_half_open = []" "click_cap (l_acceptq (m_listeners sample_half_open 0)) = 4"
    "ListenerHTSearch sample_half_open 0x5000 = Some (Some 0)" "s_socket (m_streams sample_half_open 0) = None"
    "m_free_smap sample_half_open = [1, 2, 3]"
    by (simp_all add: sample_half_open_def upd_defs free_quiet_def accept_items_def sample_listener_def sample_queue_def click_items_def
        click_window_def click_count_def ring_dist_def click_cap_def ListenerHTSearch_def EqualListener_def listener_port_def sample_smap_def unused_socket_def)
qed

theorem handshake_accepted_witness:
  "\<exists>m1 m2. Handle_TCP_ST_SYN_RCVD sample_cfg 0 sample_ack (iss (sndvar (m_streams sample_half_open 0)) + 1) sample_half_open = Some m1
    \<and> s_state (m_streams m1 0) = TCP_ST_ESTABLISHED
    \<and> accept_run sample_cfg (Some \<lparr>cx_cpu = 0, cx_num_cpus = 1, cx_num_queues = 1, cx_endian = True\<rparr>) 0 1 m1
      = Some ([(1, 0x0200000a, 0x1027)], m2)"
proof -
  note ok = sample_half_open_ok
  have h: "th_ack sample_ack" "th_dest sample_ack = 0x5000" by (simp_all add: sample_ack_def)
  show ?thesis
    using handshake_accepted [OF conjunct1 [OF ok(1)] conjunct2 [OF ok(1)] h(1) refl _ ok(2,3), of "[0]"] ok h by auto
qed

end
