(* ===== verification/Rto_Props.thy ===== *)
theory Rto_Props
  imports Engine_Props Event_Frame
begin

text \<open>
  A peer that stays silent. Every retransmission timeout counts, and the connection is given up after
  a bounded number of them, whatever the stack does for other connections in the meantime.
\<close>

section \<open>A connection that waits for its peer\<close>

text \<open>The stream is in use, has a sender and a socket, and is past the handshake; nothing has closed it.\<close>

definition awaiting :: "mtcp_config \<Rightarrow> nat \<Rightarrow> mtcp_manager \<Rightarrow> bool" where
  "awaiting cfg s m \<longleftrightarrow> live_inv cfg s m \<and> sender_of cfg s m \<noteq> None \<and> events_ok m
     \<and> s_socket (m_streams m s) \<noteq> None \<and> close_reason (m_streams m s) = TCP_NOT_CLOSED
     \<and> rto (sndvar (m_streams m s)) \<noteq> 0 \<and> TCP_ST_ESTABLISHED \<le> s_state (m_streams m s)"

text \<open>What the lists and the timers leave alone of a stream, and of the rest.\<close>

definition wkey where
  "wkey s m = (s_socket (m_streams m s), close_reason (m_streams m s), rto (sndvar (m_streams m s)),
     s_state (m_streams m s), nrtx (sndvar (m_streams m s)), nif_out (sndvar (m_streams m s)), m_ep m, m_eps m)"

lemma awaiting_wkey:
  assumes "awaiting cfg s m" "wkey s m' = wkey s m" "live_inv cfg s m'" shows "awaiting cfg s m'"
proof -
  have "sender_of cfg s m' = sender_of cfg s m" by (rule sender_of_cong) (use assms(2) in \<open>simp add: wkey_def\<close>)
  then show ?thesis using assms by (simp add: awaiting_def wkey_def events_ok_def)
qed

lemma list_ops_wkey:
  "AddtoSendList cfg s m = Some m' \<Longrightarrow> wkey s m' = wkey s m"
  "AddtoControlList cfg s m = Some m' \<Longrightarrow> wkey s m' = wkey s m"
  "RemoveFromControlList cfg s m = Some m' \<Longrightarrow> wkey s m' = wkey s m"
  unfolding list_op_defs
  by (auto simp: wkey_def upd_defs Let_def Option.bind_eq_Some_conv split: if_splits)

lemma wkey_upd:
  "wkey s (upd_stream s (\<lambda>x. x\<lparr>snd_nxt := snd_una (sndvar x)\<rparr>) m) = wkey s m"
  "wkey s (upd_stream s (\<lambda>x. x\<lparr>control_list_waiting := b\<rparr>) m) = wkey s m"
  by (simp_all add: wkey_def upd_defs)

lemma live_inv_upd:
  "live_inv cfg s m \<Longrightarrow> skey (f (m_streams m s)) = skey (m_streams m s) \<Longrightarrow> live_inv cfg s (upd_stream s f m)"
  using eng.writes(1) [where cfg = cfg and s = s and m = m and f = f] by simp

text \<open>The list operations on such a stream succeed, and it goes on waiting.\<close>

lemma list_op_awaiting:
  assumes "awaiting cfg s m"
  shows "\<exists>m'. AddtoSendList cfg s m = Some m' \<and> awaiting cfg s m' \<and> wkey s m' = wkey s m"
    "\<exists>m'. AddtoControlList cfg s m = Some m' \<and> awaiting cfg s m' \<and> wkey s m' = wkey s m"
    "\<exists>m'. RemoveFromControlList cfg s m = Some m' \<and> awaiting cfg s m' \<and> wkey s m' = wkey s m"
proof -
  have l: "live_inv cfg s m" using assms by (simp add: awaiting_def)
  obtain k where k: "sender_of cfg s m = Some k" using assms by (auto simp: awaiting_def)
  note keep = awaiting_wkey [OF assms]
  note safe = tailq_ops_safe [OF l k]
  show "\<exists>m'. AddtoSendList cfg s m = Some m' \<and> awaiting cfg s m' \<and> wkey s m' = wkey s m"
    using safe(3) list_ops_wkey(1) [of cfg s m] keep eng.send(1) [OF l] by fastforce
  show "\<exists>m'. AddtoControlList cfg s m = Some m' \<and> awaiting cfg s m' \<and> wkey s m' = wkey s m"
    using safe(1) list_ops_wkey(2) [of cfg s m] keep eng.control(1) [OF l] by fastforce
  show "\<exists>m'. RemoveFromControlList cfg s m = Some m' \<and> awaiting cfg s m' \<and> wkey s m' = wkey s m"
    using safe(2) list_ops_wkey(3) [of cfg s m] keep eng.control(2) [OF l] by fastforce
qed

lemma queue_retransmission_awaiting:
  assumes "awaiting cfg s m"
  shows "\<exists>m'. queue_retransmission cfg s m = Some m' \<and> awaiting cfg s m' \<and> wkey s m' = wkey s m"
proof -
  define m1 where "m1 = upd_stream s (\<lambda>x. x\<lparr>snd_nxt := snd_una (sndvar x)\<rparr>) m"
  have l: "live_inv cfg s m" using assms by (simp add: awaiting_def)
  have m1: "wkey s m1 = wkey s m" "awaiting cfg s m1"
    using awaiting_wkey [OF assms, of m1] live_inv_upd [OF l, of "\<lambda>x. x\<lparr>snd_nxt := snd_una (sndvar x)\<rparr>"]
    by (simp_all add: m1_def wkey_upd skeys)
  have waiting: "awaiting cfg s (upd_stream s (\<lambda>x. x\<lparr>control_list_waiting := True\<rparr>) m2)" if "awaiting cfg s m2" for m2
  proof -
    have "live_inv cfg s m2" using that by (simp add: awaiting_def)
    from live_inv_upd [OF this, of "\<lambda>x. x\<lparr>control_list_waiting := True\<rparr>"] show ?thesis
      by (intro awaiting_wkey [OF that]) (simp_all add: wkey_upd skeys)
  qed
  obtain m2 where m2: "(if on_control_list (sndvar (m_streams m1 s)) then RemoveFromControlList cfg s m1 else Some m1) = Some m2"
    "awaiting cfg s m2" "wkey s m2 = wkey s m"
    using list_op_awaiting(3) [OF m1(2)] m1 by (cases "on_control_list (sndvar (m_streams m1 s))") auto
  note ops = list_op_awaiting(1,2) [OF m1(2)] list_op_awaiting(1) [OF waiting [OF m2(2)]]
  show ?thesis
    unfolding queue_retransmission_def Let_def m1_def [symmetric] m2(1)
    using ops m1 m2(3) by (auto simp: wkey_upd)
qed

section \<open>Timeouts\<close>

text \<open>The count of retransmissions goes up, and the new timeout is not zero.\<close>

lemma backoff_nonzero:
  "rto (sndvar x) \<noteq> 0 \<Longrightarrow> TCP_ST_ESTABLISHED \<le> s_state x \<Longrightarrow> rto_backoff x \<noteq> 0"
  by (simp add: rto_backoff_def Let_def)

lemma HandleRTO_counts:
  assumes a: "awaiting cfg s m" and n: "nrtx (sndvar (m_streams m s)) < TCP_MAX_RTX"
  shows "\<exists>r m'. HandleRTO cfg ts s m = Some (r, m') \<and> awaiting cfg s m'
    \<and> nrtx (sndvar (m_streams m' s)) = nrtx (sndvar (m_streams m s)) + 1"
proof -
  define m1 where "m1 = (let m = upd_snd s (\<lambda>v. v\<lparr>nrtx := nrtx v + 1\<rparr>) m;
            m = (if nrtx (sndvar (m_streams m s)) > max_nrtx (sndvar (m_streams m s))
                 then upd_snd s (\<lambda>v. v\<lparr>max_nrtx := nrtx v\<rparr>) m else m);
            m = upd_stream s (\<lambda>x. x\<lparr>sndvar := (sndvar x)\<lparr>rto := rto_backoff x\<rparr>\<rparr>) m
        in upd_snd s loss_window m)"
  have l: "live_inv cfg s m" and st: "TCP_ST_ESTABLISHED \<le> s_state (m_streams m s)" and r: "rto (sndvar (m_streams m s)) \<noteq> 0"
    and c: "close_reason (m_streams m s) = TCP_NOT_CLOSED" using a by (simp_all add: awaiting_def)
  have l1: "live_inv cfg s m1"
    using eng.writes [where cfg = cfg and s = s] l by (simp add: m1_def Let_def loss_window_def skeys)
  have f1: "s_socket (m_streams m1 s) = s_socket (m_streams m s)" "close_reason (m_streams m1 s) = TCP_NOT_CLOSED"
    "s_state (m_streams m1 s) = s_state (m_streams m s)" "nrtx (sndvar (m_streams m1 s)) = nrtx (sndvar (m_streams m s)) + 1"
    "nif_out (sndvar (m_streams m1 s)) = nif_out (sndvar (m_streams m s))" "m_ep m1 = m_ep m" "m_eps m1 = m_eps m"
    "rto (sndvar (m_streams m1 s)) \<noteq> 0"
    using c r st by (simp_all add: m1_def Let_def upd_defs loss_window_def backoff_nonzero)
  have a1: "awaiting cfg s m1"
    using a l1 f1 sender_of_cong [OF f1(5), of cfg] by (simp add: awaiting_def events_ok_def)
  from queue_retransmission_awaiting [OF this] obtain m2 where m2: "queue_retransmission cfg s m1 = Some m2"
    "awaiting cfg s m2" "wkey s m2 = wkey s m1" by blast
  from m2(3) f1(4) have "nrtx (sndvar (m_streams m2 s)) = nrtx (sndvar (m_streams m s)) + 1" by (simp add: wkey_def)
  moreover have "s_state (m_streams m1 s) \<noteq> TCP_ST_SYN_SENT" "s_state (m_streams m1 s) \<noteq> TCP_ST_SYN_RCVD"
    using st f1(3) by (auto simp: less_eq_tcp_state_def)
  ultimately show ?thesis
    unfolding HandleRTO_def Let_def m1_def [unfolded Let_def, symmetric] using r c n a1 f1(4) m2(1,2) by auto
qed

lemma HandleRTO_gives_up:
  assumes a: "awaiting cfg s m" and n: "\<not> nrtx (sndvar (m_streams m s)) < TCP_MAX_RTX"
  shows "\<exists>m'. HandleRTO cfg ts s m = Some (- 1, m') \<and> s_state (m_streams m' s) = TCP_ST_CLOSED
    \<and> close_reason (m_streams m' s) = TCP_CONN_LOST"
proof -
  define m1 where "m1 = upd_stream s (\<lambda>x. x\<lparr>s_state := TCP_ST_CLOSED, close_reason := TCP_CONN_LOST\<rparr>) m"
  have "events_ok m1" using a by (simp add: m1_def upd_defs events_ok_def awaiting_def)
  then have "\<exists>m'. RaiseErrorEvent s m1 = Some m' \<and> m_streams m' = m_streams m1"
    unfolding RaiseErrorEvent_def using mtcp_add_event_total [of m1] event_frameD(2) [of m1]
    by (fastforce split: option.split)
  moreover have "s_state (m_streams m1 s) = TCP_ST_CLOSED" "close_reason (m_streams m1 s) = TCP_CONN_LOST"
    "s_socket (m_streams m1 s) \<noteq> None" using a by (simp_all add: m1_def awaiting_def)
  moreover have "\<not> s_state (m_streams m s) < TCP_ST_ESTABLISHED" using a by (simp add: awaiting_def not_less)
  ultimately show ?thesis
    using a n unfolding HandleRTO_def lose_stream_def Let_def m1_def [symmetric] awaiting_def by auto
qed

text \<open>A run of timeouts at the given times. Before each of them the stack does other things, \<open>between\<close>: sends
  the retransmission, works on other connections, raises events.\<close>

fun timeouts :: "mtcp_config \<Rightarrow> nat \<Rightarrow> (u32 \<Rightarrow> mtcp_manager \<Rightarrow> mtcp_manager) \<Rightarrow> u32 list \<Rightarrow> mtcp_manager \<Rightarrow> mtcp_manager option" where
  "timeouts cfg s between [] m = Some m"
| "timeouts cfg s between (ts # rest) m = do {
     (r, m) \<leftarrow> HandleRTO cfg ts s (between ts m);
     if close_reason (m_streams m s) \<noteq> TCP_NOT_CLOSED then Some m else timeouts cfg s between rest m
   }"

lemma timeouts_end:
  assumes "awaiting cfg s m" "\<And>ts m. awaiting cfg s m \<Longrightarrow> awaiting cfg s (between ts m)
      \<and> nrtx (sndvar (m_streams (between ts m) s)) = nrtx (sndvar (m_streams m s))"
    and "unat TCP_MAX_RTX - unat (nrtx (sndvar (m_streams m s))) < length tss"
  shows "\<exists>m'. timeouts cfg s between tss m = Some m' \<and> s_state (m_streams m' s) = TCP_ST_CLOSED
    \<and> close_reason (m_streams m' s) = TCP_CONN_LOST"
  using assms(1,3)
proof (induction tss arbitrary: m)
  case (Cons ts rest)
  let ?m = "between ts m"
  have b: "awaiting cfg s ?m" "nrtx (sndvar (m_streams ?m s)) = nrtx (sndvar (m_streams m s))"
    using assms(2) [OF Cons.prems(1)] by simp_all
  show ?case
  proof (cases "nrtx (sndvar (m_streams ?m s)) < TCP_MAX_RTX")
    case True
    from HandleRTO_counts [OF b(1) True, of ts] obtain r m2 where h: "HandleRTO cfg ts s ?m = Some (r, m2)"
      "awaiting cfg s m2" "nrtx (sndvar (m_streams m2 s)) = nrtx (sndvar (m_streams ?m s)) + 1" by blast
    have "unat (nrtx (sndvar (m_streams m2 s))) = unat (nrtx (sndvar (m_streams m s))) + 1"
      using True by (auto simp: h(3) b(2) TCP_MAX_RTX_def word_less_nat_alt unat_word_ariths)
    moreover have "unat (nrtx (sndvar (m_streams m s))) < unat TCP_MAX_RTX"
      using True b(2) by (simp add: word_less_nat_alt)
    ultimately have "unat TCP_MAX_RTX - unat (nrtx (sndvar (m_streams m2 s))) < length rest"
      using Cons.prems(2) by simp
    from Cons.IH [OF h(2) this] h(1,2) show ?thesis by (simp add: awaiting_def)
  next
    case False
    from HandleRTO_gives_up [OF b(1) False, of ts] show ?thesis by auto
  qed
qed simp


definition sample_silent :: mtcp_manager where
  "sample_silent = upd_stream 0 (\<lambda>x. x\<lparr>s_state := TCP_ST_ESTABLISHED, s_socket := Some 1, close_reason := TCP_NOT_CLOSED,
     sndvar := (sndvar x)\<lparr>rto := 500, nrtx := 0\<rparr>\<rparr>) (sample_conn\<lparr>m_ep := None\<rparr>)"


end
