(* ===== verification/Spec2Isabelle.thy ===== *)
theory Spec2Isabelle
  imports Mem_Pool Recv_Stream Rtt_Bounds Engine_Props Epoll_Props Api_Errors Tcp_Machine Accept_Props Rto_Props
begin

text \<open>
  Verification of mTCP, the user-level TCP stack of this repository (src/mtcp/mtcp/src).

  \<^bold>\<open>The program.\<close> An application links the stack and runs one stack thread on each core. A thread owns
  a manager: memory pools, a hash table of flows, the send and receive buffers, the lists of streams
  that have something to send, the timer lists, the socket map and the queues through which the
  application hands it work. The main loop takes frames from the network card, passes them through
  Ethernet, ARP, IP, ICMP and TCP, runs the timers, moves events to the application, does what the
  application has asked for, and writes the segments that are due. Cores share the
  configuration, the ARP table and the address pools of the interfaces; everything else belongs to one core. The model
  is one core, the record \<open>mtcp_manager\<close> with explicit state passing, and what other cores do to the shared
  parts is not modelled.

  \<^bold>\<open>The model.\<close> A function of the source that is modelled is a definition with its name; parts of its body that are
  loops or that several functions share have names of their own. \<open>Prelude\<close> states the
  conventions: unsigned integers are words of their width; a result \<^const>\<open>None\<close> is undefined
  behaviour, a failing assertion, \<open>exit\<close> or a loop that does not end, so that a theorem that shows
  \<open>Some r\<close> excludes them, and a theorem that assumes it speaks of the runs without them only; memory allocations, random numbers and the answers of the driver come from
  the environment. Streams are named by their chunk in the flow pool.

  \<^item> Data structures: \<open>Seq_Arith\<close> (the sequence comparisons of tcp_in.h and tcp_ring_buffer.c), \<open>Tailq\<close> (tail
    queues of sys/queue.h), \<open>Click_Queues\<close> (tcp_stream_queue.c, tcp_sb_queue.c, tcp_rb_frag_queue.c),
    \<open>Mem_Pool\<close> (memory_mgt.c), \<open>Send_Buffer\<close> (tcp_send_buffer.c), \<open>Recv_Buffer\<close> (tcp_ring_buffer.c),
    \<open>Flow_Table\<close> (fhash.c), \<open>Event_Queue\<close> (the queues of eventpoll.c), \<open>Pipe_Buffer\<close> (the ring of pipe.c),
    \<open>Addr_Pool\<close> (addr_pool.c), \<open>Rss\<close> (rss.c), \<open>Socket_Map\<close> (socket.c and the listener table of fhash.c).
  \<^item> Packets: \<open>Tcp_Types\<close> (tcp_in.h, tcp_stream.h), \<open>Tcp_Options\<close> and \<open>Checksum\<close> (tcp_util.c, ps.h),
    \<open>Net_Out\<close> (arp.c, ip_out.c, eth_out.c), \<open>Icmp\<close> (icmp.c).
  \<^item> The engine: \<open>Mtcp_State\<close> (mtcp.h), \<open>Stream_Lists\<close> (the lists of tcp_out.c and timer.c, the events of
    tcp_stream.c), \<open>Tcp_Stream\<close> (tcp_stream.c), \<open>Tcp_Out\<close> (tcp_out.c), \<open>Tcp_Timer\<close> (timer.c), \<open>Tcp_In\<close>
    (tcp_in.c), \<open>Core\<close> (eth_in.c, ip_in.c, the main loop of core.c), \<open>Manager_Init\<close> (its initialisation).
  \<^item> The application side: \<open>Api_Base\<close>, \<open>Api\<close> and \<open>Api_Data\<close> (api.c), \<open>Epoll\<close> (eventpoll.c), \<open>Pipe\<close> (pipe.c).
    A call that sleeps returns \<open>Wait\<close>, and a definition of its own says what it does when it wakes.

  \<^bold>\<open>What is shown.\<close>
  \<^item> Containers implement their specifications: the array queues and event queues are bounded first-in
    first-out queues (the locale \<open>bounded_queue\<close> of \<open>Queue_Spec\<close>, five interpretations), the pool never hands out a chunk
    twice (\<open>chunk_allocator\<close>), the flow table is a finite map (\<open>flow_index\<close>), the address pool leases each
    address once, the send buffer is a byte stream (\<open>byte_stream\<close>), and the receive buffer
    reassembles the stream of the peer whatever the order, overlap and repetition of the segments
    (\<open>reassembly\<close>; \<open>Recv_Buffer_Frags\<close>, \<open>Recv_Buffer_Spec\<close>, \<open>Recv_Stream\<close>).
  \<^item> Packets: both checksum routines compute the one's complement sum and a filled segment verifies; options that are
    generated parse back; the two directions of a connection belong to the same core.
  \<^item> The engine: \<open>Engine_Inv\<close> has the invariant that ties the flow table, the pools, the lists of all
    senders and the timer lists to the flags of the streams. \<open>Engine_Frame\<close> proves once, in the
    locales \<open>output_step\<close> and \<open>stream_step\<close>, what every handler of one stream keeps; their
    interpretations give the invariant (\<open>Engine_Inv\<close>, \<open>Engine_Output\<close>) and the separation of the
    streams (\<open>Stream_Sep\<close>). \<open>Engine_Steps\<close>, \<open>Engine_Output\<close>, \<open>Engine_Timers\<close> and \<open>Api_Steps\<close> lift it to the input,
    the output, the timers and the calls of the application, and \<open>Engine_Reach\<close> to all reachable
    states. These are statements of partial correctness (\<open>post\<close>): a step that returns keeps the invariant. That
    every handler returns is not shown: the parser of options can loop, and the definitions are \<^const>\<open>None\<close> where the code
    would divide by an effective segment size of zero, for example. \<open>Engine_Props\<close> draws the consequences for the lists and for other connections.
  \<^item> The protocol: \<open>Tcp_Machine\<close> has the arcs of the state machine that a segment can take and when,
    \<open>Accept_Props\<close> that a completed handshake reaches the application, \<open>Rto_Props\<close> that a silent peer is
    given up, \<open>Rtt_Bounds\<close> that the estimate of the round trip time stays in range.
  \<^item> The application side: the socket map stays well-formed and a call changes no other connection
    (\<open>Socket_Props\<close>, \<open>Api_Props\<close>), reads and writes move exactly the bytes they report (\<open>Api_Props\<close>), a pipe is a
    byte stream (\<open>Pipe_Props\<close>), waiting for events delivers what a plain list would (\<open>Epoll_Props\<close>, on
    \<open>Event_Frame\<close>), and three errors of the closing paths (\<open>Api_Errors\<close>).
  \<open>Sample\<close> is a small configuration and manager on which the statements are evaluated.

  \<^bold>\<open>Bounds.\<close> Loops that may not end are \<open>partial_function\<close>s. The option parsers are shown to end on well-formed options and to
  loop on an unknown option of length zero; the allocation of a socket is shown to end exactly when the free list is
  empty or has a socket without pending events; the wait for events is shown to return or sleep when its queues are
  well-formed. For the flush of a send buffer nothing is shown about its end. The other loops recurse over a list or
  over the threshold that the code counts down, or have fuel, and running out of fuel is \<^const>\<open>None\<close>. The loop over the ticks of the
  retransmission store has one turn for each tick that has passed and one more: a turn that does not end the loop
  advances the clock of the store by one, and \<open>HandleRTO\<close> inserts nothing into the store, which alone could set its
  clock. A queue of the application is drained for as many turns as it has slots, and it holds fewer streams
  than that. These two are arguments about the definitions, not theorems.

  \<^bold>\<open>Limits of the model.\<close> Operations are atomic: locks and memory barriers are not modelled, and
  interleavings are those of whole operations, as the steps of \<open>Engine_Reach\<close>. These steps require that the stream
  behind a socket the application uses, in the accept queue or in a queue of the application is still in use, and that a new
  active connection uses a free four-tuple; the code checks none of these. The build is the one of the makefiles with
  timestamps on and selective acknowledgements and blocking reads and writes of streams off, on a little-endian machine; memory
  pools are those of the build without DPDK.

  \<^bold>\<open>Not modelled.\<close>
  \<^item> Threads, signals, affinity (cpu.c), start-up and shutdown in core.c: system calls; the destructors only free memory.
  \<^item> The configuration file (config.c): it yields the record \<open>mtcp_config\<close>, which is a parameter here. It reads files with the
    text functions of the C library and looks up interfaces with system calls.
  \<^item> Logging, statistics and printing (logger.c, debug.c, the print functions): they only write text.
  \<^item> The glue to the packet drivers (io_module.c, psio_module.c, dpdk_module.c, netmap_module.c, onvm_module.c) and the kernel
    modules: hardware. The model has what the stack sees of them: received frames, whether a transmit buffer
    is free, the answers of the offload requests, and the frames sent.
  \<^item> The utilities, sample and ported applications and mperf: clients of the socket calls or separate programs.
\<close>

end
